(* ===== verification/Go_Base.thy ===== *)
theory Go_Base
  imports Main "HOL-Library.Signed_Division" "HOL-Library.AList"
begin

text \<open>
  The prelude of the development: the parts of the Go language that every component uses.
  Signed 64-bit integers are \<^typ>\<open>int\<close> with the wrap-around written out (\<open>wrap64\<close>), division
  truncates towards zero (\<open>sdiv\<close>), a \<open>time.Time\<close> counts nanoseconds from Go's zero time, a Go
  map is an association list with distinct keys, and an error return is a sum.
  It also holds the interfaces that several components implement: a transition system with an
  invariant, a codec with a decoding law and a normaliser that is idempotent.
\<close>

named_theorems go_arith \<open>bounds and wrap-around of machine integers\<close>
named_theorems result_iff \<open>inversion of successful results\<close>

section \<open>Machine integers\<close>

type_synonym int64 = int
type_synonym go_time = int
type_synonym duration = int
type_synonym bytes = string

definition min_int64 :: int where
  "min_int64 = - (2 ^ 63)"

definition max_int64 :: int where
  "max_int64 = 2 ^ 63 - 1"

definition in_int64 :: "int \<Rightarrow> bool" where
  "in_int64 z \<longleftrightarrow> min_int64 \<le> z \<and> z \<le> max_int64"

definition wrap64 :: "int \<Rightarrow> int64" where
  "wrap64 z = (z + 2 ^ 63) mod 2 ^ 64 - 2 ^ 63"

lemma wrap64_id [simp]: "in_int64 z \<Longrightarrow> wrap64 z = z"
  by (simp add: in_int64_def wrap64_def min_int64_def max_int64_def)

lemma in_int64_wrap64 [simp]: "in_int64 (wrap64 z)"
proof -
  have "0 \<le> (z + 2 ^ 63) mod 2 ^ 64" "(z + 2 ^ 63) mod 2 ^ 64 < 2 ^ 64"
    by simp_all
  then show ?thesis
    by (simp add: in_int64_def wrap64_def min_int64_def max_int64_def)
qed

lemma wrap64_cong: "wrap64 z mod 2 ^ 64 = z mod 2 ^ 64"
proof -
  have "wrap64 z mod 2 ^ 64 = ((z + 2 ^ 63) mod 2 ^ 64 - 2 ^ 63) mod 2 ^ 64"
    by (simp add: wrap64_def)
  also have "\<dots> = (z + 2 ^ 63 - 2 ^ 63) mod 2 ^ 64"
    by (rule mod_diff_left_eq)
  finally show ?thesis by simp
qed

lemma in_int64I: "- (2 ^ 63) \<le> z \<Longrightarrow> z < 2 ^ 63 \<Longrightarrow> in_int64 z"
  by (simp add: in_int64_def min_int64_def max_int64_def)

lemma in_int64_between: "in_int64 a \<Longrightarrow> in_int64 b \<Longrightarrow> a \<le> z \<Longrightarrow> z \<le> b \<Longrightarrow> in_int64 z"
  by (simp add: in_int64_def)

lemma in_int64_nonneg_le: "in_int64 b \<Longrightarrow> 0 \<le> z \<Longrightarrow> z \<le> b \<Longrightarrow> in_int64 z"
  by (simp add: in_int64_def min_int64_def)

lemma in_int64_0 [simp]: "in_int64 0"
  by (simp add: in_int64_def min_int64_def max_int64_def)

text \<open>Go's \<open>/\<close> and \<open>%\<close> on non-negative operands are the mathematical ones.\<close>

lemma sdiv_nonneg [go_arith]: "0 \<le> (a::int) \<Longrightarrow> 0 < b \<Longrightarrow> a sdiv b = a div b"
  by (cases "a = 0") (simp_all add: signed_divide_int_def sgn_if)

lemma smod_nonneg [go_arith]: "0 \<le> (a::int) \<Longrightarrow> 0 < b \<Longrightarrow> a smod b = a mod b"
  using minus_sdiv_mult_eq_smod [of a b] by (simp add: sdiv_nonneg minus_div_mult_eq_mod)

definition i64_add :: "int64 \<Rightarrow> int64 \<Rightarrow> int64" where
  "i64_add a b = wrap64 (a + b)"

definition i64_sub :: "int64 \<Rightarrow> int64 \<Rightarrow> int64" where
  "i64_sub a b = wrap64 (a - b)"

definition i64_mul :: "int64 \<Rightarrow> int64 \<Rightarrow> int64" where
  "i64_mul a b = wrap64 (a * b)"

definition i64_quot :: "int64 \<Rightarrow> int64 \<Rightarrow> int64" where
  "i64_quot a b = wrap64 (a sdiv b)"

definition i64_rem :: "int64 \<Rightarrow> int64 \<Rightarrow> int64" where
  "i64_rem a b = wrap64 (a smod b)"

definition i64_neg :: "int64 \<Rightarrow> int64" where
  "i64_neg a = wrap64 (- a)"

lemmas i64_defs = i64_add_def i64_sub_def i64_mul_def i64_quot_def i64_rem_def i64_neg_def

lemma i64_quot_nonneg [go_arith]:
  "0 \<le> a \<Longrightarrow> 0 < b \<Longrightarrow> in_int64 a \<Longrightarrow> i64_quot a b = a div b"
proof -
  assume a: "0 \<le> a" "0 < b" "in_int64 a"
  then have "a div b \<le> a" "0 \<le> a div b"
    using zdiv_mono2 [of a 1 b] by (simp_all add: pos_imp_zdiv_nonneg_iff)
  with a have "in_int64 (a div b)" by (blast intro: in_int64_nonneg_le)
  with a show ?thesis by (simp add: i64_quot_def sdiv_nonneg)
qed

section \<open>Time\<close>

text \<open>
  \<open>time.Time\<close> is the number of nanoseconds since the zero time (January 1, year 1, UTC), so
  \<open>IsZero\<close> is comparison with 0; \<open>Add\<close> is addition and \<open>Sub\<close> saturates at the limits of
  \<open>time.Duration\<close>, an \<open>int64\<close> of nanoseconds.
\<close>

definition time_is_zero :: "go_time \<Rightarrow> bool" where
  "time_is_zero t \<longleftrightarrow> t = 0"

definition time_sub :: "go_time \<Rightarrow> go_time \<Rightarrow> duration" where
  "time_sub a b = max min_int64 (min max_int64 (a - b))"

definition second :: duration where
  "second = 1000000000"

definition minute :: duration where
  "minute = 60 * second"

definition hour :: duration where
  "hour = 60 * minute"

lemmas duration_defs = second_def minute_def hour_def

lemma time_sub_le: "in_int64 d \<Longrightarrow> 0 \<le> d \<Longrightarrow> d < time_sub a b \<longleftrightarrow> d < a - b \<and> d < max_int64"
  by (auto simp: time_sub_def in_int64_def min_int64_def max_int64_def)

lemma time_sub_ge: "in_int64 d \<Longrightarrow> d \<le> time_sub a b \<longleftrightarrow> d = min_int64 \<or> d \<le> a - b"
  by (auto simp: time_sub_def in_int64_def)

section \<open>Maps and results\<close>

type_synonym ('k, 'v) go_map = "('k \<times> 'v) list"

abbreviation map_ok :: "('k, 'v) go_map \<Rightarrow> bool" where
  "map_ok m \<equiv> distinct (map fst m)"

text \<open>\<open>m[k]\<close> of a \<open>map[K]bool\<close>: false for a missing key.\<close>

definition map_bool :: "('k, bool) go_map \<Rightarrow> 'k \<Rightarrow> bool" where
  "map_bool m k = (case map_of m k of None \<Rightarrow> False | Some b \<Rightarrow> b)"

lemma map_of_update [simp]: "map_of (AList.update k v m) = (map_of m)(k \<mapsto> v)"
  by (rule AList.update_conv')

lemma map_of_delete [simp]: "map_of (AList.delete k m) = (map_of m)(k := None)"
  by (rule AList.delete_conv')

lemma map_ok_update [simp]: "map_ok m \<Longrightarrow> map_ok (AList.update k v m)"
  by (rule AList.distinct_update)

lemma map_ok_delete [simp]: "map_ok m \<Longrightarrow> map_ok (AList.delete k m)"
  by (rule AList.distinct_delete)

lemma map_ok_filter: "map_ok m \<Longrightarrow> map_ok (filter P m)"
  by (induction m) auto

lemma map_of_filter_ok:
  "map_ok m \<Longrightarrow> map_of (filter P m) k =
     (case map_of m k of None \<Rightarrow> None | Some v \<Rightarrow> if P (k, v) then Some v else None)"
proof (induction m)
  case Nil
  show ?case by simp
next
  case (Cons a m)
  then show ?case
    by (cases a) (auto simp: map_of_eq_None_iff image_iff split: option.split)
qed

text \<open>Sequencing of fallible steps: the first error wins, as an early return does.\<close>

definition bind_result :: "'e + 'a \<Rightarrow> ('a \<Rightarrow> 'e + 'b) \<Rightarrow> 'e + 'b" where
  "bind_result r f = (case r of Inl e \<Rightarrow> Inl e | Inr x \<Rightarrow> f x)"

definition guard :: "bool \<Rightarrow> 'e \<Rightarrow> 'e + unit" where
  "guard c e = (if c then Inl e else Inr ())"

lemma bind_result_simps [simp]:
  "bind_result (Inl e) f = Inl e"
  "bind_result (Inr x) f = f x"
  by (simp_all add: bind_result_def)

lemma bind_result_Inr [result_iff]:
  "bind_result r f = Inr y \<longleftrightarrow> (\<exists>x. r = Inr x \<and> f x = Inr y)"
  by (cases r) simp_all

lemma guard_Inr [result_iff]: "guard c e = Inr u \<longleftrightarrow> \<not> c"
  by (simp add: guard_def)

lemma guard_simps [simp]: "guard True e = Inl e" "guard False e = Inr ()"
  by (simp_all add: guard_def)

section \<open>Interfaces shared by the components\<close>

text \<open>
  A component with state: its operations are the steps, \<open>inv\<close> is what every operation keeps.
\<close>

locale transition_system =
  fixes init :: "'s \<Rightarrow> bool"
    and step :: "'s \<Rightarrow> 'e \<Rightarrow> 's"
    and ok :: "'s \<Rightarrow> 'e \<Rightarrow> bool"
    and inv :: "'s \<Rightarrow> bool"
  assumes init_inv: "init s \<Longrightarrow> inv s"
    and step_inv: "inv s \<Longrightarrow> ok s e \<Longrightarrow> inv (step s e)"
begin

fun run :: "'s \<Rightarrow> 'e list \<Rightarrow> 's" where
  "run s [] = s"
| "run s (e # es) = run (step s e) es"

fun admissible :: "'s \<Rightarrow> 'e list \<Rightarrow> bool" where
  "admissible s [] = True"
| "admissible s (e # es) = (ok s e \<and> admissible (step s e) es)"

lemma run_append: "run s (es @ fs) = run (run s es) fs"
  by (induction es arbitrary: s) simp_all

lemma run_inv: "inv s \<Longrightarrow> admissible s es \<Longrightarrow> inv (run s es)"
  by (induction es arbitrary: s) (auto intro: step_inv)

lemma run_init_inv: "init s \<Longrightarrow> admissible s es \<Longrightarrow> inv (run s es)"
  by (rule run_inv) (auto intro: init_inv)

lemma run_foldl: "run s es = foldl step s es"
  by (induction es arbitrary: s) simp_all

end

text \<open>An encoder and a decoder that recovers every valid value.\<close>

locale codec =
  fixes enc :: "'a \<Rightarrow> 'b"
    and dec :: "'b \<Rightarrow> 'a option"
    and valid :: "'a \<Rightarrow> bool"
  assumes dec_enc: "valid x \<Longrightarrow> dec (enc x) = Some x"
begin

lemma enc_inj: "valid x \<Longrightarrow> valid y \<Longrightarrow> enc x = enc y \<longleftrightarrow> x = y"
  by (metis dec_enc option.inject)

lemma enc_inj_on: "inj_on enc (Collect valid)"
  by (auto simp: inj_on_def enc_inj)

end

text \<open>Normalisation of user input to a canonical spelling.\<close>

locale normaliser =
  fixes norm :: "'a \<Rightarrow> 'a"
  assumes norm_idem: "norm (norm x) = norm x"
begin

lemma norm_fixpoint: "(\<exists>y. x = norm y) \<longleftrightarrow> norm x = x"
  by (metis norm_idem)

lemma same_class_trans: "norm x = norm y \<Longrightarrow> norm (norm x) = norm y"
  by (simp add: norm_idem)

end

end
