(* ===== verification/Go_Strings.thy ===== *)
theory Go_Strings
  imports Go_Base
begin

text \<open>
  The functions of Go's \<open>strings\<close>, \<open>strconv\<close> and \<open>math/big\<close> packages that the components call.
  A Go string and a \<open>[]byte\<close> are both lists of bytes (\<^typ>\<open>string\<close>, one \<^typ>\<open>char\<close> per byte).
  Case mapping and white space are those of the ASCII range: the identifiers, statuses and
  amounts that the components normalise are ASCII.
\<close>

named_theorems str_simps \<open>rewriting of trimming and case mapping\<close>

section \<open>Bytes\<close>

abbreviation code :: "char \<Rightarrow> nat" where
  "code c \<equiv> of_char c"

definition byte_of :: "nat \<Rightarrow> char" where
  "byte_of n = char_of n"

lemma code_byte_of [simp]: "code (byte_of n) = n mod 256"
  by (simp add: byte_of_def)

lemma byte_of_code [simp]: "byte_of (code c) = c"
  by (simp add: byte_of_def)

lemma code_inj: "code c = code d \<longleftrightarrow> c = d"
  by simp

lemma code_less [simp]: "code c < 256"
  by simp

section \<open>White space and case\<close>

definition is_space :: "char \<Rightarrow> bool" where
  "is_space c \<longleftrightarrow> code c = 32 \<or> (9 \<le> code c \<and> code c \<le> 13)"

definition upper_char :: "char \<Rightarrow> char" where
  "upper_char c = (if 97 \<le> code c \<and> code c \<le> 122 then byte_of (code c - 32) else c)"

definition lower_char :: "char \<Rightarrow> char" where
  "lower_char c = (if 65 \<le> code c \<and> code c \<le> 90 then byte_of (code c + 32) else c)"

definition to_upper :: "string \<Rightarrow> string" where
  "to_upper = map upper_char"

definition to_lower :: "string \<Rightarrow> string" where
  "to_lower = map lower_char"

definition trim_left :: "(char \<Rightarrow> bool) \<Rightarrow> string \<Rightarrow> string" where
  "trim_left p s = dropWhile p s"

definition trim_right :: "(char \<Rightarrow> bool) \<Rightarrow> string \<Rightarrow> string" where
  "trim_right p s = rev (dropWhile p (rev s))"

definition trim_both :: "(char \<Rightarrow> bool) \<Rightarrow> string \<Rightarrow> string" where
  "trim_both p s = trim_right p (trim_left p s)"

definition trim_space :: "string \<Rightarrow> string" where
  "trim_space s = trim_both is_space s"

lemma upper_char_idem [simp]: "upper_char (upper_char c) = upper_char c"
  by (auto simp: upper_char_def)

lemma lower_char_idem [simp]: "lower_char (lower_char c) = lower_char c"
  by (auto simp: lower_char_def)

lemma lower_upper_char [simp]: "lower_char (upper_char c) = lower_char c"
  by (auto simp: upper_char_def lower_char_def)

lemma is_space_upper [simp]: "is_space (upper_char c) \<longleftrightarrow> is_space c"
  by (auto simp: upper_char_def is_space_def)

lemma is_space_lower [simp]: "is_space (lower_char c) \<longleftrightarrow> is_space c"
  by (auto simp: lower_char_def is_space_def)

lemma to_upper_idem [simp]: "to_upper (to_upper s) = to_upper s"
  by (simp add: to_upper_def)

lemma to_lower_idem [simp]: "to_lower (to_lower s) = to_lower s"
  by (simp add: to_lower_def)

lemma to_lower_upper [simp]: "to_lower (to_upper s) = to_lower s"
  by (simp add: to_lower_def to_upper_def)

lemma to_upper_empty [simp]: "to_upper s = [] \<longleftrightarrow> s = []"
  by (simp add: to_upper_def)

lemma to_lower_empty [simp]: "to_lower s = [] \<longleftrightarrow> s = []"
  by (simp add: to_lower_def)

lemma dropWhile_idem: "dropWhile p (dropWhile p s) = dropWhile p s"
  by (induction s) auto

lemma trim_left_idem [simp]: "trim_left p (trim_left p s) = trim_left p s"
  by (simp add: trim_left_def dropWhile_idem)

lemma trim_right_idem [simp]: "trim_right p (trim_right p s) = trim_right p s"
  by (simp add: trim_right_def dropWhile_idem)

lemma trim_right_split: "\<exists>w. s = trim_right p s @ w"
proof -
  have "rev s = takeWhile p (rev s) @ dropWhile p (rev s)" by simp
  then have "s = rev (dropWhile p (rev s)) @ rev (takeWhile p (rev s))"
    by (metis rev_append rev_rev_ident)
  then show ?thesis unfolding trim_right_def by blast
qed

lemma trim_left_of_trim_right: "trim_left p s = s \<Longrightarrow> trim_left p (trim_right p s) = trim_right p s"
proof -
  assume fix_s: "trim_left p s = s"
  obtain w where w: "s = trim_right p s @ w" using trim_right_split by blast
  show ?thesis
  proof (cases "trim_right p s")
    case Nil
    then show ?thesis by (simp add: trim_left_def)
  next
    case (Cons c cs)
    with w have "s = c # (cs @ w)" by simp
    with fix_s have "\<not> p c"
      by (metis dropWhile_eq_Cons_conv trim_left_def)
    with Cons show ?thesis by (simp add: trim_left_def)
  qed
qed

lemma trim_both_idem [simp]: "trim_both p (trim_both p s) = trim_both p s"
  by (simp add: trim_both_def trim_left_of_trim_right)

lemma trim_space_idem [simp]: "trim_space (trim_space s) = trim_space s"
  by (simp add: trim_space_def)

lemma dropWhile_map_same: "(\<And>c. p (f c) = p c) \<Longrightarrow> dropWhile p (map f s) = map f (dropWhile p s)"
  by (induction s) auto

lemma trim_space_upper [str_simps]: "trim_space (to_upper s) = to_upper (trim_space s)"
  by (simp add: trim_space_def trim_both_def trim_left_def trim_right_def to_upper_def
      dropWhile_map_same rev_map)

lemma trim_space_lower [str_simps]: "trim_space (to_lower s) = to_lower (trim_space s)"
  by (simp add: trim_space_def trim_both_def trim_left_def trim_right_def to_lower_def
      dropWhile_map_same rev_map)

lemma trim_space_empty [simp]: "trim_space [] = []"
  by (simp add: trim_space_def trim_both_def trim_left_def trim_right_def)

text \<open>A string with no white space at either end is left alone.\<close>

definition trimmed :: "string \<Rightarrow> bool" where
  "trimmed s \<longleftrightarrow> s = [] \<or> (\<not> is_space (hd s) \<and> \<not> is_space (last s))"

lemma trim_space_trimmed: "trimmed s \<Longrightarrow> trim_space s = s"
proof (cases s)
  case Nil
  then show ?thesis by simp
next
  case (Cons c cs)
  assume "trimmed s"
  with Cons have hd: "\<not> is_space c" and lst: "\<not> is_space (last s)"
    by (auto simp: trimmed_def)
  have "rev s = last s # rev (butlast s)"
    using Cons by (metis append_butlast_last_id list.discI rev.simps(2) rev_rev_ident)
  with lst have "dropWhile is_space (rev s) = rev s" by (simp only: dropWhile.simps if_False)
  with hd Cons show ?thesis
    by (simp add: trim_space_def trim_both_def trim_left_def trim_right_def)
qed

section \<open>Searching and splitting\<close>

definition has_prefix :: "string \<Rightarrow> string \<Rightarrow> bool" where
  "has_prefix s p \<longleftrightarrow> take (length p) s = p"

definition trim_prefix :: "string \<Rightarrow> string \<Rightarrow> string" where
  "trim_prefix s p = (if has_prefix s p then drop (length p) s else s)"

fun str_contains :: "string \<Rightarrow> string \<Rightarrow> bool" where
  "str_contains [] sub = (sub = [])"
| "str_contains (c # s) sub = (has_prefix (c # s) sub \<or> str_contains s sub)"

definition equal_fold :: "string \<Rightarrow> string \<Rightarrow> bool" where
  "equal_fold a b \<longleftrightarrow> to_lower a = to_lower b"

lemma has_prefix_append: "has_prefix s p \<longleftrightarrow> (\<exists>r. s = p @ r)"
  by (metis append_eq_conv_conj append_take_drop_id has_prefix_def)

lemma str_contains_iff: "str_contains s sub \<longleftrightarrow> (\<exists>a b. s = a @ sub @ b)"
proof (induction s)
  case Nil
  show ?case by simp
next
  case (Cons c s)
  show ?case
  proof
    assume "str_contains (c # s) sub"
    then show "\<exists>a b. c # s = a @ sub @ b"
      using Cons.IH by (metis append.left_neutral append_Cons has_prefix_append str_contains.simps(2))
  next
    assume "\<exists>a b. c # s = a @ sub @ b"
    then obtain a b where ab: "c # s = a @ sub @ b" by blast
    show "str_contains (c # s) sub"
    proof (cases a)
      case Nil
      with ab have "has_prefix (c # s) sub" by (auto simp: has_prefix_append)
      then show ?thesis by simp
    next
      case (Cons d a')
      with ab have "s = a' @ sub @ b" by simp
      with Cons.IH show ?thesis by auto
    qed
  qed
qed

text \<open>\<open>strings.Split\<close> and \<open>strings.SplitN(s, sep, 2)\<close> with a one-byte separator.\<close>

fun split_on :: "char \<Rightarrow> string \<Rightarrow> string list" where
  "split_on d [] = [[]]"
| "split_on d (c # s) =
     (if c = d then [] # split_on d s
      else (case split_on d s of [] \<Rightarrow> [[c]] | w # ws \<Rightarrow> (c # w) # ws))"

definition split_n2 :: "char \<Rightarrow> string \<Rightarrow> string \<times> string option" where
  "split_n2 d s =
     (if d \<in> set s then (takeWhile (\<lambda>c. c \<noteq> d) s, Some (tl (dropWhile (\<lambda>c. c \<noteq> d) s)))
      else (s, None))"

lemma split_on_nonempty [simp]: "split_on d s \<noteq> []"
  by (cases s) (auto split: list.split)

lemma split_on_no_sep: "d \<notin> set s \<Longrightarrow> split_on d s = [s]"
  by (induction s) auto

lemma split_on_append: "d \<notin> set a \<Longrightarrow> split_on d (a @ d # s) = a # split_on d s"
  by (induction a) (auto split: list.split)

lemma split_n2_sep: "d \<notin> set a \<Longrightarrow> split_n2 d (a @ d # b) = (a, Some b)"
proof -
  assume a: "d \<notin> set a"
  then have "\<forall>x\<in>set a. x \<noteq> d" by blast
  then have "takeWhile (\<lambda>c. c \<noteq> d) (a @ d # b) = a" "dropWhile (\<lambda>c. c \<noteq> d) (a @ d # b) = d # b"
    by simp_all
  then show ?thesis by (simp add: split_n2_def)
qed

lemma split_n2_no_sep: "d \<notin> set a \<Longrightarrow> split_n2 d a = (a, None)"
  by (simp add: split_n2_def)

section \<open>Decimal numbers\<close>

definition is_digit :: "char \<Rightarrow> bool" where
  "is_digit c \<longleftrightarrow> 48 \<le> code c \<and> code c \<le> 57"

definition digit_char :: "nat \<Rightarrow> char" where
  "digit_char d = byte_of (48 + d)"

definition digits_val :: "string \<Rightarrow> nat" where
  "digits_val s = foldl (\<lambda>acc c. acc * 10 + (code c - 48)) 0 s"

fun nat_str :: "nat \<Rightarrow> string" where
  "nat_str n = (if n < 10 then [digit_char n] else nat_str (n div 10) @ [digit_char (n mod 10)])"

declare nat_str.simps [simp del]

text \<open>\<open>%d\<close> of a signed integer and \<open>%0kd\<close> of a non-negative one.\<close>

definition int_str :: "int \<Rightarrow> string" where
  "int_str z = (if z < 0 then CHR ''-'' # nat_str (nat (- z)) else nat_str (nat z))"

definition pad_zero :: "nat \<Rightarrow> string \<Rightarrow> string" where
  "pad_zero k s = replicate (k - length s) CHR ''0'' @ s"

lemma code_digit_char [simp]: "d < 10 \<Longrightarrow> code (digit_char d) = 48 + d"
  by (simp add: digit_char_def)

lemma is_digit_digit_char [simp]: "d < 10 \<Longrightarrow> is_digit (digit_char d)"
  by (simp add: is_digit_def)

lemma digits_val_snoc [simp]: "digits_val (s @ [c]) = digits_val s * 10 + (code c - 48)"
  by (simp add: digits_val_def)

lemma digits_val_Nil [simp]: "digits_val [] = 0"
  by (simp add: digits_val_def)

lemma digits_val_append: "digits_val (s @ t) = digits_val s * 10 ^ length t + digits_val t"
proof (induction t rule: rev_induct)
  case Nil
  show ?case by simp
next
  case (snoc c t)
  have "digits_val (s @ t @ [c]) = digits_val ((s @ t) @ [c])" by simp
  also have "\<dots> = digits_val (s @ t) * 10 + (code c - 48)" by (rule digits_val_snoc)
  finally show ?case using snoc by (simp add: algebra_simps)
qed

lemma digits_val_zeros [simp]: "digits_val (replicate k CHR ''0'') = 0"
proof (induction k)
  case 0
  show ?case by simp
next
  case (Suc k)
  have "replicate (Suc k) CHR ''0'' = replicate k CHR ''0'' @ [CHR ''0'']"
    by (simp add: replicate_append_same)
  with Suc show ?case by (simp only: digits_val_snoc) simp
qed

lemma digits_val_pad [simp]: "digits_val (pad_zero k s) = digits_val s"
  by (simp add: pad_zero_def digits_val_append)

lemma digits_val_nat_str [simp]: "digits_val (nat_str n) = n"
proof (induction n rule: nat_str.induct)
  case (1 n)
  then show ?case
    by (cases "n < 10") (simp_all add: nat_str.simps [of n] digits_val_def)
qed

lemma nat_str_nonempty [simp]: "nat_str n \<noteq> []"
  by (subst nat_str.simps) simp

lemma nat_str_digits: "c \<in> set (nat_str n) \<Longrightarrow> is_digit c"
proof (induction n rule: nat_str.induct)
  case (1 n)
  then show ?case
    by (cases "n < 10") (auto simp: nat_str.simps [of n])
qed

lemma is_digit_zero [simp]: "is_digit CHR ''0''"
  by (simp add: is_digit_def)

lemma pad_zero_digits: "c \<in> set (pad_zero k (nat_str n)) \<Longrightarrow> is_digit c"
  by (auto simp: pad_zero_def dest: nat_str_digits)

lemma length_nat_str: "n < 10 ^ k \<Longrightarrow> 0 < k \<Longrightarrow> length (nat_str n) \<le> k"
proof (induction n arbitrary: k rule: nat_str.induct)
  case (1 n)
  show ?case
  proof (cases "n < 10")
    case True
    with "1.prems" show ?thesis by (simp add: nat_str.simps [of n])
  next
    case False
    then obtain j where k: "k = Suc j" "0 < j"
      using "1.prems" by (cases k; cases "k - 1") auto
    then have "n div 10 < 10 ^ j"
      using "1.prems" by (simp add: div_less_iff_less_mult mult.commute)
    with "1.IH" [OF False, of j] k have "length (nat_str (n div 10)) \<le> j" by simp
    with False k show ?thesis by (simp add: nat_str.simps [of n])
  qed
qed

lemma length_pad_zero: "n < 10 ^ k \<Longrightarrow> 0 < k \<Longrightarrow> length (pad_zero k (nat_str n)) = k"
  using length_nat_str [of n k] by (simp add: pad_zero_def)

lemma digit_not_sign: "is_digit c \<Longrightarrow> c \<noteq> CHR ''-'' \<and> c \<noteq> CHR ''+'' \<and> c \<noteq> CHR ''.'' \<and> \<not> is_space c"
  by (auto simp: is_digit_def is_space_def)

text \<open>
  \<open>strconv.ParseInt(s, 10, 64)\<close> and \<open>(*big.Int).SetString(s, 10)\<close>: an optional sign and at
  least one decimal digit; the former also fails when the value does not fit.
\<close>

definition parse_big :: "string \<Rightarrow> int option" where
  "parse_big s =
     (let neg = (s \<noteq> [] \<and> hd s = CHR ''-'');
          body = (if s \<noteq> [] \<and> (hd s = CHR ''-'' \<or> hd s = CHR ''+'') then tl s else s)
      in if body = [] \<or> \<not> list_all is_digit body then None
         else Some (if neg then - int (digits_val body) else int (digits_val body)))"

definition parse_int64 :: "string \<Rightarrow> int64 option" where
  "parse_int64 s =
     (case parse_big s of None \<Rightarrow> None | Some z \<Rightarrow> if in_int64 z then Some z else None)"

lemma parse_big_digits:
  "s \<noteq> [] \<Longrightarrow> list_all is_digit s \<Longrightarrow> parse_big s = Some (int (digits_val s))"
  by (cases s) (auto simp: parse_big_def digit_not_sign)

lemma parse_big_neg:
  "s \<noteq> [] \<Longrightarrow> list_all is_digit s \<Longrightarrow> parse_big (CHR ''-'' # s) = Some (- int (digits_val s))"
  by (auto simp: parse_big_def)

lemma list_all_nat_str [simp]: "list_all is_digit (nat_str n)"
  by (auto simp: list_all_iff dest: nat_str_digits)

lemma list_all_pad [simp]: "list_all is_digit (pad_zero k (nat_str n))"
  by (auto simp: list_all_iff dest: pad_zero_digits)

lemma parse_big_int_str [simp]: "parse_big (int_str z) = Some z"
  by (simp add: int_str_def parse_big_digits parse_big_neg)

lemma parse_int64_int_str: "in_int64 z \<Longrightarrow> parse_int64 (int_str z) = Some z"
  by (simp add: parse_int64_def)

text \<open>Printing an \<open>int64\<close> and parsing it back is a codec.\<close>

interpretation int64_text: codec int_str parse_int64 in_int64
  by unfold_locales (rule parse_int64_int_str)

section \<open>Hexadecimal text\<close>

definition hex_digit :: "nat \<Rightarrow> char" where
  "hex_digit n = (if n < 10 then digit_char n else byte_of (87 + n))"

definition hex_encode :: "bytes \<Rightarrow> string" where
  "hex_encode s = concat (map (\<lambda>c. [hex_digit (code c div 16), hex_digit (code c mod 16)]) s)"

definition hex_val :: "char \<Rightarrow> nat option" where
  "hex_val c =
     (if 48 \<le> code c \<and> code c \<le> 57 then Some (code c - 48)
      else if 97 \<le> code c \<and> code c \<le> 102 then Some (code c - 87)
      else if 65 \<le> code c \<and> code c \<le> 70 then Some (code c - 55)
      else None)"

fun hex_decode :: "string \<Rightarrow> bytes option" where
  "hex_decode [] = Some []"
| "hex_decode [c] = None"
| "hex_decode (c # d # s) =
     (case (hex_val c, hex_val d, hex_decode s) of
        (Some h, Some l, Some r) \<Rightarrow> Some (byte_of (16 * h + l) # r)
      | _ \<Rightarrow> None)"

lemma hex_val_digit [simp]: "n < 16 \<Longrightarrow> hex_val (hex_digit n) = Some n"
  by (auto simp: hex_val_def hex_digit_def)

lemma code_nibbles: "16 * (code c div 16) + code c mod 16 = code c" "code c div 16 < 16"
  using code_less [of c] by (simp_all add: div_less_iff_less_mult del: code_less)

lemma hex_decode_encode [simp]: "hex_decode (hex_encode s) = Some s"
proof (induction s)
  case Nil
  show ?case by (simp add: hex_encode_def)
next
  case (Cons c s)
  then show ?case
    by (simp add: hex_encode_def code_nibbles)
qed

interpretation hex_text: codec hex_encode hex_decode "\<lambda>_. True"
  by unfold_locales simp

end
