(* ===== verification/Money.thy ===== *)
theory Money
  imports Go_Strings
begin

text \<open>
  Fixed-point money (\<open>internal/money/money.go\<close>): fiat in cents, tokens and rates in millionths,
  all \<open>int64\<close>. Products and sums wrap as Go's do. The constructors from and the conversions to
  \<open>float64\<close> are not modelled.
\<close>

type_synonym MoneyMinor = int64
type_synonym TokenUnits = int64
type_synonym RateDecimal = int64

datatype money_error = AmountRequired | InvalidNumber

definition FiatScale :: int64 where
  "FiatScale = 100"

definition TokenScale :: int64 where
  "TokenScale = 1000000"

definition RateScale :: int64 where
  "RateScale = 1000000"

lemmas scale_defs = FiatScale_def TokenScale_def RateScale_def

section \<open>Rounded division and basis points\<close>

definition roundDiv :: "int64 \<Rightarrow> int64 \<Rightarrow> int64" where
  "roundDiv num den =
     (if den = 0 then 0
      else if num \<ge> 0 then i64_quot (i64_add num (i64_quot den 2)) den
      else i64_quot (i64_sub num (i64_quot den 2)) den)"

definition FeeBps :: "MoneyMinor \<Rightarrow> int \<Rightarrow> MoneyMinor" where
  "FeeBps amount bps =
     (if amount \<le> 0 \<or> bps \<le> 0 then 0 else roundDiv (i64_mul amount bps) 10000)"

definition AddBps :: "RateDecimal \<Rightarrow> int \<Rightarrow> RateDecimal" where
  "AddBps rate bps =
     (if rate \<le> 0 \<or> bps \<le> 0 then rate
      else roundDiv (i64_mul rate (i64_add 10000 bps)) 10000)"

definition SubtractBps :: "RateDecimal \<Rightarrow> int \<Rightarrow> RateDecimal" where
  "SubtractBps rate bps =
     (if rate \<le> 0 \<or> bps \<le> 0 then rate
      else if bps \<ge> 10000 then 0
      else roundDiv (i64_mul rate (i64_sub 10000 bps)) 10000)"

definition FiatFromTokens :: "TokenUnits \<Rightarrow> RateDecimal \<Rightarrow> MoneyMinor" where
  "FiatFromTokens tokens rate =
     (if tokens \<le> 0 \<or> rate \<le> 0 then 0
      else roundDiv (i64_mul (i64_mul tokens rate) FiatScale) (i64_mul TokenScale RateScale))"

definition TokensFromFiat :: "MoneyMinor \<Rightarrow> RateDecimal \<Rightarrow> TokenUnits" where
  "TokensFromFiat amount rate =
     (if amount \<le> 0 \<or> rate \<le> 0 then 0
      else roundDiv (i64_mul (i64_mul amount TokenScale) RateScale) (i64_mul FiatScale rate))"

definition TokenFeeBps :: "TokenUnits \<Rightarrow> int \<Rightarrow> TokenUnits" where
  "TokenFeeBps amount bps =
     (if amount \<le> 0 \<or> bps \<le> 0 then 0 else roundDiv (i64_mul amount bps) 10000)"

definition GrossForNetToken :: "TokenUnits \<Rightarrow> int \<Rightarrow> TokenUnits" where
  "GrossForNetToken net bps =
     (if net \<le> 0 then 0
      else if bps \<le> 0 then net
      else if bps \<ge> 10000 then 0
      else roundDiv (i64_mul net 10000) (i64_sub 10000 bps))"

section \<open>Text\<close>

definition is_zero_char :: "char \<Rightarrow> bool" where
  "is_zero_char c \<longleftrightarrow> c = CHR ''0''"

definition is_dot_char :: "char \<Rightarrow> bool" where
  "is_dot_char c \<longleftrightarrow> c = CHR ''.''"

definition abs64 :: "int64 \<Rightarrow> int64" where
  "abs64 v = (if v < 0 then i64_neg v else v)"

text \<open>\<open>%0kd\<close>: a minus sign counts towards the width.\<close>

definition int_pad :: "nat \<Rightarrow> int \<Rightarrow> string" where
  "int_pad k z =
     (if z < 0 then CHR ''-'' # pad_zero (k - 1) (nat_str (nat (- z)))
      else pad_zero k (nat_str (nat z)))"

definition MoneyMinor_String :: "MoneyMinor \<Rightarrow> string" where
  "MoneyMinor_String m =
     int_str (i64_quot m FiatScale) @ ''.'' @ int_pad 2 (abs64 (i64_rem m FiatScale))"

definition fixedString :: "int64 \<Rightarrow> int64 \<Rightarrow> nat \<Rightarrow> string" where
  "fixedString value scale decimals =
     (let sign = (if value < 0 then ''-'' else '''');
          v = (if value < 0 then i64_neg value else value)
      in sign @ int_str (i64_quot v scale) @ ''.'' @ int_pad decimals (i64_rem v scale))"

definition TokenUnits_String :: "TokenUnits \<Rightarrow> string" where
  "TokenUnits_String t = fixedString t TokenScale 6"

definition trimFixedString :: "int64 \<Rightarrow> int64 \<Rightarrow> nat \<Rightarrow> string" where
  "trimFixedString value scale decimals =
     (let out = fixedString value scale decimals;
          out = trim_right is_zero_char out;
          out = trim_right is_dot_char out
      in if out = ''-0'' \<or> out = '''' then ''0'' else out)"

definition RateDecimal_String :: "RateDecimal \<Rightarrow> string" where
  "RateDecimal_String r = trimFixedString r RateScale 6"

definition parseFixed :: "string \<Rightarrow> nat \<Rightarrow> int64 \<Rightarrow> money_error + int64" where
  "parseFixed raw decimals scale =
     (let value = trim_space raw in
      if value = '''' then Inl AmountRequired
      else
        (let parts = split_n2 CHR ''.'' value in
         case parse_int64 (fst parts) of
           None \<Rightarrow> Inl InvalidNumber
         | Some whole \<Rightarrow>
             (let frac = (case snd parts of None \<Rightarrow> '''' | Some f \<Rightarrow> f);
                  frac = (if length frac > decimals then take decimals frac else frac);
                  frac = frac @ replicate (decimals - length frac) CHR ''0'';
                  units = (if trim_both is_zero_char frac \<noteq> '''' then parse_int64 frac
                           else Some 0)
              in case units of
                   None \<Rightarrow> Inl InvalidNumber
                 | Some fracUnits \<Rightarrow>
                     Inr (if whole < 0 then i64_sub (i64_mul whole scale) fracUnits
                          else i64_add (i64_mul whole scale) fracUnits))))"

definition ParseMoney :: "string \<Rightarrow> money_error + MoneyMinor" where
  "ParseMoney value = parseFixed value 2 FiatScale"

definition ParseToken :: "string \<Rightarrow> money_error + TokenUnits" where
  "ParseToken value = parseFixed value 6 TokenScale"

section \<open>Rounded division is to the nearest integer\<close>

lemma double_abs_le: "2 * \<bar>x\<bar> \<le> d \<longleftrightarrow> 2 * x \<le> d \<and> - (2 * x) \<le> (d::int)"
  by arith

lemma roundDiv_eq:
  assumes "0 \<le> num" "0 < den" "in_int64 (num + den div 2)"
  shows "roundDiv num den = (num + den div 2) div den"
proof -
  have half: "0 \<le> den div 2" using assms by simp
  then have num: "in_int64 num" and "in_int64 (den div 2)"
    using assms by (auto intro: in_int64_nonneg_le)
  then have q: "i64_quot den 2 = den div 2"
    using assms by (simp add: i64_quot_def sdiv_nonneg)
  show ?thesis
    using assms half by (simp add: roundDiv_def q i64_add_def i64_quot_nonneg)
qed

lemma roundDiv_nonneg:
  assumes "0 \<le> num" "0 < den" "in_int64 (num + den div 2)"
  shows "0 \<le> roundDiv num den"
  using assms by (simp add: roundDiv_eq pos_imp_zdiv_nonneg_iff)

lemma roundDiv_error:
  assumes "0 \<le> num" "0 < den" "in_int64 (num + den div 2)"
  shows "2 * \<bar>roundDiv num den * den - num\<bar> \<le> den"
proof -
  define q where "q = (num + den div 2) div den"
  define r where "r = (num + den div 2) mod den"
  have "num + den div 2 = q * den + r" "0 \<le> r" "r < den"
    using assms by (simp_all add: q_def r_def)
  moreover have "2 * (den div 2) \<le> den" "den \<le> 2 * (den div 2) + 1" by simp_all
  ultimately have "q * den - num = den div 2 - r" "2 * \<bar>den div 2 - r\<bar> \<le> den" by arith+
  then have "2 * \<bar>q * den - num\<bar> \<le> den" by simp
  then show ?thesis using roundDiv_eq [OF assms] by (simp add: q_def)
qed

lemmas roundDiv_facts = roundDiv_nonneg roundDiv_error

text \<open>Two integers whose scaled difference is less than the scale are equal.\<close>

lemma scaled_diff_zero: "\<bar>(k::int) * d\<bar> < k \<Longrightarrow> d = 0"
proof (rule ccontr)
  assume less: "\<bar>k * d\<bar> < k" and "d \<noteq> 0"
  then have "1 \<le> \<bar>d\<bar>" "0 < k" by simp_all
  then have "k * 1 \<le> k * \<bar>d\<bar>" by (intro mult_left_mono) simp_all
  with less \<open>0 < k\<close> show False by (simp add: abs_mult)
qed

lemma bps_error:
  assumes "0 < amount" "0 < bps" "in_int64 (amount * bps + 5000)"
  shows "2 * \<bar>roundDiv (i64_mul amount bps) 10000 * 10000 - amount * bps\<bar> \<le> 10000"
    and "0 \<le> roundDiv (i64_mul amount bps) 10000"
proof -
  have "in_int64 (amount * bps)"
    using assms by (intro in_int64_nonneg_le [OF assms(3)]) simp_all
  then show "2 * \<bar>roundDiv (i64_mul amount bps) 10000 * 10000 - amount * bps\<bar> \<le> 10000"
    and "0 \<le> roundDiv (i64_mul amount bps) 10000"
    using assms roundDiv_error [of "amount * bps" 10000] roundDiv_nonneg [of "amount * bps" 10000]
    by (simp_all add: i64_mul_def)
qed

section \<open>Fees\<close>

text \<open>
  A fee in basis points, when the product fits in 64 bits, is the exact fee rounded to the
  nearest cent, and with a rate of at most 100 per cent it never exceeds the amount.
\<close>

theorem FeeBps_nearest:
  assumes "0 < amount" "0 < bps" "in_int64 (amount * bps + 5000)"
  shows "2 * \<bar>FeeBps amount bps * 10000 - amount * bps\<bar> \<le> 10000 \<and> 0 \<le> FeeBps amount bps \<and>
    (bps \<le> 10000 \<longrightarrow> FeeBps amount bps \<le> amount)"
proof (intro conjI impI)
  note err = bps_error [OF assms]
  show "2 * \<bar>FeeBps amount bps * 10000 - amount * bps\<bar> \<le> 10000" "0 \<le> FeeBps amount bps"
    using assms err by (simp_all add: FeeBps_def)
  assume "bps \<le> 10000"
  then have "amount * bps \<le> amount * 10000" using assms by simp
  moreover have "FeeBps amount bps * 10000 - amount * bps \<le> 5000"
    using assms err(1) by (simp add: FeeBps_def)
  ultimately have "(FeeBps amount bps - amount) * 10000 \<le> 5000"
    by (simp add: algebra_simps)
  then show "FeeBps amount bps \<le> amount" by simp
qed

theorem FeeBps_nearest_witness:
  "2 * \<bar>FeeBps 12345 250 * 10000 - 12345 * 250\<bar> \<le> 10000 \<and> 0 \<le> FeeBps 12345 250 \<and>
    FeeBps 12345 250 \<le> 12345"
  using FeeBps_nearest [of 12345 250] by (simp add: in_int64_def min_int64_def max_int64_def)

text \<open>
  Grossing up a net token amount and deducting the fee from the gross gives back exactly the
  net amount, for every fee rate strictly between 0 and 100 per cent, when no product overflows:
  the two roundings never add up to a whole unit.
\<close>

theorem GrossForNetToken_net:
  assumes "0 < net" "0 < bps" "bps < 10000"
    and "in_int64 (net * 10000 + 5000)" "in_int64 (GrossForNetToken net bps * bps + 5000)"
  shows "GrossForNetToken net bps - TokenFeeBps (GrossForNetToken net bps) bps = net"
proof -
  define g d where "g = GrossForNetToken net bps" and "d = 10000 - bps"
  have d: "0 < d" "d < 10000" "i64_sub 10000 bps = d"
    using assms by (simp_all add: d_def i64_sub_def in_int64I)
  have fits: "in_int64 (net * 10000)" "in_int64 (net * 10000 + d div 2)"
    using assms d by (auto intro: in_int64_nonneg_le [OF assms(4)])
  have g: "g = roundDiv (net * 10000) d"
    using assms d fits by (simp add: g_def GrossForNetToken_def i64_mul_def)
  then have gd: "2 * \<bar>g * d - net * 10000\<bar> \<le> d"
    using roundDiv_error [of "net * 10000" d] assms d fits by simp
  have "net * 10000 \<ge> 10000" using assms by simp
  moreover have "2 * (net * 10000) - 2 * (g * d) \<le> d"
    using gd by (simp add: double_abs_le)
  ultimately have "0 < g * d" using d(1,2) by linarith
  with d have "0 < g" by (simp add: zero_less_mult_iff)
  then have fee: "2 * \<bar>TokenFeeBps g bps * 10000 - g * bps\<bar> \<le> 10000"
    using bps_error(1) [of g bps] assms by (simp add: TokenFeeBps_def g_def)
  have split: "10000 * (g - TokenFeeBps g bps - net) =
      (g * d - net * 10000) + (g * bps - TokenFeeBps g bps * 10000)"
    by (simp add: d_def algebra_simps)
  have "\<bar>10000 * (g - TokenFeeBps g bps - net)\<bar> < 10000"
    unfolding split using gd fee d(2) by (simp add: double_abs_le abs_less_iff)
  then have "g - TokenFeeBps g bps - net = 0" by (rule scaled_diff_zero)
  then show ?thesis by (simp add: g_def)
qed

theorem GrossForNetToken_net_witness:
  "GrossForNetToken 25000000 150 - TokenFeeBps (GrossForNetToken 25000000 150) 150 = 25000000"
  by (rule GrossForNetToken_net)
    (simp_all add: GrossForNetToken_def roundDiv_def i64_defs in_int64_def min_int64_def
      max_int64_def wrap64_def signed_divide_int_def)

section \<open>Conversion between fiat and tokens\<close>

lemma TokensFromFiat_eq:
  assumes "0 < amount" "amount \<le> 9223371" "0 < rate" "rate < 10000000000"
  shows "TokensFromFiat amount rate = roundDiv (1000000000000 * amount) (100 * rate)"
    and "2 * \<bar>TokensFromFiat amount rate * (100 * rate) - 1000000000000 * amount\<bar> \<le> 100 * rate"
proof -
  have "in_int64 (amount * 1000000)" "in_int64 (1000000000000 * amount)" "in_int64 (100 * rate)"
    "in_int64 (1000000000000 * amount + 100 * rate div 2)"
    using assms by (auto intro!: in_int64I)
  then show "TokensFromFiat amount rate = roundDiv (1000000000000 * amount) (100 * rate)"
    and "2 * \<bar>TokensFromFiat amount rate * (100 * rate) - 1000000000000 * amount\<bar> \<le> 100 * rate"
    using assms roundDiv_error [of "1000000000000 * amount" "100 * rate"]
    by (simp_all add: TokensFromFiat_def scale_defs i64_mul_def)
qed

text \<open>
  Converting an amount of fiat to tokens and back at the same rate gives the same amount to
  the cent, for every amount up to R$ 92,233.71 and every rate below 10,000 per token.
\<close>

theorem fiat_token_roundtrip:
  assumes "0 < amount" "amount \<le> 9223371" "0 < rate" "rate < 10000000000"
  shows "FiatFromTokens (TokensFromFiat amount rate) rate = amount"
proof -
  define t where "t = TokensFromFiat amount rate"
  define x where "x = t * rate * 100"
  have x: "2 * (x - 1000000000000 * amount) \<le> 100 * rate"
    "2 * (1000000000000 * amount - x) \<le> 100 * rate"
    using TokensFromFiat_eq(2) [OF assms]
    by (simp_all add: t_def x_def double_abs_le algebra_simps)
  have pos: "0 < x" "x + 500000000000 < 2 ^ 63"
    using x assms by simp_all
  then have "0 < t" using assms by (simp add: x_def zero_less_mult_iff)
  moreover have "0 < t * rate" using calculation assms by simp
  moreover have "t * rate \<le> x" using pos by (simp add: x_def)
  ultimately have fits: "in_int64 (t * rate)" "in_int64 x" "in_int64 (x + 500000000000)"
    using pos by (simp_all only: in_int64_def min_int64_def max_int64_def) linarith+
  have fiat_eq: "FiatFromTokens t rate = roundDiv x 1000000000000"
    using \<open>0 < t\<close> assms fits(1) fits(2) [unfolded x_def]
    by (simp add: FiatFromTokens_def scale_defs i64_mul_def x_def in_int64I)
  have "2 * \<bar>roundDiv x 1000000000000 * 1000000000000 - x\<bar> \<le> 1000000000000"
    using roundDiv_error [of x 1000000000000] pos fits by simp
  then have "\<bar>1000000000000 * (roundDiv x 1000000000000 - amount)\<bar> < 1000000000000"
    using x assms by (simp add: double_abs_le abs_less_iff)
  then have "roundDiv x 1000000000000 - amount = 0" by (rule scaled_diff_zero)
  then show ?thesis using fiat_eq by (simp add: t_def)
qed

theorem fiat_token_roundtrip_witness:
  "FiatFromTokens (TokensFromFiat 150000 5437219) 5437219 = 150000"
  by (rule fiat_token_roundtrip) simp_all

text \<open>
  The conversion overflows just above that bound: for every amount from R$ 92,233.73 to
  R$ 184,467.44 the scaled numerator wraps and the number of tokens computed for a positive
  amount at a positive rate is not positive.
\<close>

theorem TokensFromFiat_overflow:
  assumes "9223373 \<le> amount" "amount \<le> 18446744" "0 < rate" "rate < 10000000000"
  shows "TokensFromFiat amount rate \<le> 0"
proof -
  define num where "num = 1000000000000 * amount - 2 ^ 64"
  have small: "in_int64 (amount * 1000000)" "in_int64 (100 * rate)"
    using assms by (auto intro!: in_int64I)
  have num: "- (2 ^ 63) + 900000000000 \<le> num" "num < 0"
    using assms by (simp_all add: num_def)
  have shift: "1000000000000 * amount + 2 ^ 63 = (num + 2 ^ 63) + 2 ^ 64"
    by (simp add: num_def)
  have "((num + 2 ^ 63) + 2 ^ 64) mod 2 ^ 64 = num + 2 ^ 63"
    unfolding mod_add_self2 using num by (intro mod_pos_pos_trivial) simp_all
  then have "wrap64 (1000000000000 * amount) = num"
    unfolding wrap64_def shift by simp
  then have wrapped: "i64_mul (i64_mul amount TokenScale) RateScale = num"
    using small by (simp add: i64_mul_def scale_defs)
  have half: "i64_quot (100 * rate) 2 = 50 * rate"
    using assms small by (simp add: i64_quot_nonneg)
  have "in_int64 (num - 50 * rate)" using num assms by (auto intro!: in_int64I)
  then have "i64_sub num (50 * rate) = num - 50 * rate" by (simp add: i64_sub_def)
  moreover have "(num - 50 * rate) sdiv (100 * rate) \<le> 0"
    using num assms by (simp add: signed_divide_int_def mult_le_0_iff sgn_if pos_imp_zdiv_nonneg_iff)
  moreover have "- (2 ^ 63) \<le> (num - 50 * rate) sdiv (100 * rate)"
  proof -
    have "\<bar>num - 50 * rate\<bar> div (100 * rate) \<le> \<bar>num - 50 * rate\<bar>"
      using zdiv_mono2 [of "\<bar>num - 50 * rate\<bar>" 1 "100 * rate"] assms by simp
    then show ?thesis
      using num assms by (simp add: signed_divide_int_def sgn_if)
  qed
  ultimately show ?thesis
    using num assms small wrapped half
    by (simp add: TokensFromFiat_def roundDiv_def i64_quot_def scale_defs i64_mul_def in_int64I)
qed

theorem TokensFromFiat_overflow_witness: "TokensFromFiat 10000000 5437219 \<le> 0"
  by (rule TokensFromFiat_overflow) simp_all

section \<open>Printing and parsing\<close>

lemma trim_zero_empty: "trim_both is_zero_char s = [] \<Longrightarrow> digits_val s = 0"
proof -
  assume "trim_both is_zero_char s = []"
  then have all: "\<forall>c \<in> set (dropWhile is_zero_char s). is_zero_char c"
    by (simp add: trim_both_def trim_left_def trim_right_def)
  have "dropWhile is_zero_char s = []"
    using all hd_dropWhile [of is_zero_char s] hd_in_set [of "dropWhile is_zero_char s"] by blast
  then have "\<forall>c \<in> set s. is_zero_char c" by simp
  then have "s = replicate (length s) CHR ''0''"
    by (intro replicate_length_same [symmetric]) (simp add: is_zero_char_def)
  then show ?thesis using digits_val_zeros by metis
qed

lemma digits_no_dot: "list_all is_digit s \<Longrightarrow> CHR ''.'' \<notin> set s"
  using digit_not_sign by (auto simp: list_all_iff)

lemma last_digits: "s \<noteq> [] \<Longrightarrow> list_all is_digit s \<Longrightarrow> \<not> is_space (last s)"
  by (simp add: list_all_iff digit_not_sign)

lemma parseFixed_printed:
  assumes ws: "parse_int64 ws = Some w" "ws \<noteq> []" "\<not> is_space (hd ws)" "CHR ''.'' \<notin> set ws"
    and f: "f < 10 ^ d" "0 < d" "d \<le> 18"
  shows "parseFixed (ws @ ''.'' @ pad_zero d (nat_str f)) d scale =
     Inr (if w < 0 then i64_sub (i64_mul w scale) (int f) else i64_add (i64_mul w scale) (int f))"
proof -
  define fr where "fr = pad_zero d (nat_str f)"
  have fr: "length fr = d" "list_all is_digit fr" "digits_val fr = f" "fr \<noteq> []"
    using f length_pad_zero [of f d] by (auto simp: fr_def)
  have "trimmed (ws @ ''.'' @ fr)"
    using ws fr last_digits [of fr] by (auto simp: trimmed_def)
  then have trim: "trim_space (ws @ ''.'' @ fr) = ws @ ''.'' @ fr"
    by (rule trim_space_trimmed)
  have split: "split_n2 CHR ''.'' (ws @ ''.'' @ fr) = (ws, Some fr)"
    using ws split_n2_sep [of "CHR ''.''" ws fr] by simp
  have "(10::nat) ^ d \<le> 10 ^ 18" using f by (intro power_increasing) simp_all
  then have "in_int64 (int f)" using f by (intro in_int64I) simp_all
  then have "parse_int64 fr = Some (int f)"
    using fr by (simp add: parse_int64_def parse_big_digits)
  moreover have "trim_both is_zero_char fr = [] \<Longrightarrow> f = 0"
    using trim_zero_empty [of fr] fr(3) by simp
  ultimately have units: "(if trim_both is_zero_char fr \<noteq> [] then parse_int64 fr else Some 0) =
      Some (int f)"
    by auto
  have "parseFixed (ws @ ''.'' @ fr) d scale =
     Inr (if w < 0 then i64_sub (i64_mul w scale) (int f) else i64_add (i64_mul w scale) (int f))"
    unfolding parseFixed_def Let_def trim split using fr(1) ws(1,2) units by (simp split: if_splits)
  then show ?thesis by (simp only: fr_def)
qed

lemma int_str_head: "int_str z \<noteq> [] \<and> \<not> is_space (hd (int_str z)) \<and> CHR ''.'' \<notin> set (int_str z)"
proof -
  have "\<not> is_space (hd (nat_str n))" for n
    using nat_str_digits digit_not_sign by (metis hd_in_set nat_str_nonempty)
  moreover have "CHR ''.'' \<notin> set (nat_str n)" for n
    by (simp add: digits_no_dot)
  ultimately show ?thesis by (simp add: int_str_def is_space_def)
qed

text \<open>
  Printing a token amount and parsing the text gives the amount back, for every 64-bit value
  except the least one, with one exception: an amount between -1 and 0 tokens comes back with its
  sign lost.
\<close>

theorem ParseToken_String:
  assumes "in_int64 t" "t \<noteq> min_int64"
  shows "ParseToken (TokenUnits_String t) = Inr (if - 1000000 < t \<and> t < 0 then - t else t)"
proof -
  define w f where "w = \<bar>t\<bar> div 1000000" and "f = \<bar>t\<bar> mod 1000000"
  define sg where "sg = (if t < 0 then ''-'' else '''')"
  have wf: "0 \<le> w" "0 \<le> f" "f < 1000000" "w * 1000000 + f = \<bar>t\<bar>"
    by (simp_all add: w_def f_def pos_imp_zdiv_nonneg_iff)
  have abs_t: "in_int64 \<bar>t\<bar>" "in_int64 (- t)"
    using assms by (auto simp: in_int64_def min_int64_def max_int64_def)
  have fits: "in_int64 w" "in_int64 (- w)" "in_int64 (w * 1000000)" "in_int64 (- w * 1000000)"
    using wf abs_t by (auto simp: in_int64_def min_int64_def max_int64_def)
  have print: "TokenUnits_String t = (sg @ nat_str (nat w)) @ ''.'' @ pad_zero 6 (nat_str (nat f))"
  proof -
    have v: "(if t < 0 then i64_neg t else t) = \<bar>t\<bar>"
      using abs_t by (simp add: i64_neg_def)
    have "i64_quot \<bar>t\<bar> 1000000 = w" "i64_rem \<bar>t\<bar> 1000000 = f"
      using abs_t fits by (simp_all add: i64_quot_nonneg i64_rem_def smod_nonneg w_def f_def in_int64I)
    moreover have "int_str w = nat_str (nat w)" "int_pad 6 f = pad_zero 6 (nat_str (nat f))"
      using wf by (simp_all add: int_str_def int_pad_def)
    ultimately show ?thesis
      unfolding TokenUnits_String_def fixedString_def Let_def TokenScale_def v
      by (simp add: sg_def)
  qed
  have parsed: "parse_int64 (sg @ nat_str (nat w)) = Some (if t < 0 then - w else w)"
    using wf fits by (simp add: sg_def parse_int64_def parse_big_digits parse_big_neg)
  have head: "sg @ nat_str (nat w) \<noteq> []" "\<not> is_space (hd (sg @ nat_str (nat w)))"
      "CHR ''.'' \<notin> set (sg @ nat_str (nat w))"
    using int_str_head [of w] wf by (auto simp: sg_def int_str_def is_space_def)
  have "ParseToken (TokenUnits_String t) =
      Inr (if (if t < 0 then - w else w) < 0
           then i64_sub (i64_mul (if t < 0 then - w else w) 1000000) f
           else i64_add (i64_mul (if t < 0 then - w else w) 1000000) f)"
    unfolding ParseToken_def print TokenScale_def
    using parseFixed_printed [OF parsed head, of "nat f" 6] wf by simp
  moreover have neg: "- (w * 1000000) - f = t" if "t < 0" using wf that by simp
  ultimately show ?thesis
    using wf fits abs_t assms by (auto simp: i64_sub_def i64_add_def i64_mul_def neg)
qed

theorem ParseToken_String_witness:
  "ParseToken (TokenUnits_String (- 2500000)) =
     Inr (if - 1000000 < (- 2500000 :: int) \<and> (- 2500000 :: int) < 0 then - (- 2500000) else - 2500000)"
  by (rule ParseToken_String) (simp_all add: in_int64_def min_int64_def max_int64_def)

text \<open>
  Printing an amount of fiat and parsing the text gives the amount back, except that a
  negative amount of less than one unit of currency is printed without its sign, so that it is
  read as a positive one.
\<close>

theorem ParseMoney_String:
  assumes "in_int64 m"
  shows "ParseMoney (MoneyMinor_String m) = Inr (if - 100 < m \<and> m < 0 then - m else m)"
proof -
  define w f where "w = m sdiv 100" and "f = \<bar>m smod 100\<bar>"
  have "w * 100 + m smod 100 = m" by (simp add: w_def sdiv_mult_smod_eq)
  moreover have "0 \<le> m \<longrightarrow> 0 \<le> w \<and> 0 \<le> m smod 100" "m \<le> 0 \<longrightarrow> w \<le> 0 \<and> m smod 100 \<le> 0"
      "\<bar>m smod 100\<bar> < 100"
    by (auto simp: w_def signed_divide_int_def signed_modulo_int_def sgn_if pos_imp_zdiv_nonneg_iff)
  ultimately have wf: "0 \<le> f" "f < 100" "0 \<le> m \<longrightarrow> 0 \<le> w \<and> w * 100 + f = m"
      "m < 0 \<longrightarrow> w \<le> 0 \<and> w * 100 - f = m" "m smod 100 = (if m < 0 then - f else f)"
    by (auto simp: f_def)
  have fits: "in_int64 w" "in_int64 (m smod 100)" "in_int64 (w * 100)" "in_int64 f"
    using wf assms by (auto simp: in_int64_def min_int64_def max_int64_def)
  have print: "MoneyMinor_String m = int_str w @ ''.'' @ pad_zero 2 (nat_str (nat f))"
    using fits wf
    by (auto simp: MoneyMinor_String_def scale_defs i64_quot_def i64_rem_def abs64_def i64_neg_def
        int_pad_def w_def [symmetric])
  have "ParseMoney (MoneyMinor_String m) =
      Inr (if w < 0 then i64_sub (i64_mul w 100) f else i64_add (i64_mul w 100) f)"
    unfolding ParseMoney_def print FiatScale_def
    using parseFixed_printed [of "int_str w" w "nat f" 2] int_str_head [of w] wf
      parse_int64_int_str [OF fits(1)] by simp
  then show ?thesis
    using wf fits assms by (auto simp: i64_sub_def i64_add_def i64_mul_def)
qed

theorem ParseMoney_String_witness:
  "ParseMoney (MoneyMinor_String (- 75)) = Inr (if - 100 < (- 75 :: int) \<and> (- 75 :: int) < 0 then - (- 75) else - 75)"
  by (rule ParseMoney_String) (simp add: in_int64_def min_int64_def max_int64_def)

text \<open>
  A spread in basis points never moves a rate the wrong way: the rate with the spread added is
  at least the market rate, the rate with it subtracted at most the market rate and never
  negative, when the products fit in 64 bits.
\<close>

theorem spread_brackets_rate:
  assumes "0 < rate" "0 < bps" "bps \<le> 10000" "in_int64 (rate * (10000 + bps) + 5000)"
  shows "rate \<le> AddBps rate bps \<and> SubtractBps rate bps \<le> rate \<and> 0 \<le> SubtractBps rate bps"
proof -
  have le: "rate * (10000 - bps) \<le> rate * (10000 + bps)" "0 \<le> rate * (10000 - bps)"
    using assms by (simp_all add: mult_left_mono)
  have "in_int64 (rate * (10000 - bps))" "in_int64 (rate * (10000 - bps) + 5000)"
    using le by (intro in_int64_nonneg_le [OF assms(4)]; linarith)+
  then have fits: "in_int64 (rate * (10000 + bps))" "in_int64 (rate * (10000 - bps))"
      "in_int64 (rate * (10000 - bps) + 5000)" "in_int64 (10000 + bps)" "in_int64 (10000 - bps)"
    using assms by (auto intro: in_int64_nonneg_le [OF assms(4)] in_int64I)
  have up: "2 * \<bar>AddBps rate bps * 10000 - rate * (10000 + bps)\<bar> \<le> 10000"
    using assms fits roundDiv_error [of "rate * (10000 + bps)" 10000]
    by (simp add: AddBps_def i64_mul_def i64_add_def)
  have down: "bps < 10000 \<longrightarrow> 2 * \<bar>SubtractBps rate bps * 10000 - rate * (10000 - bps)\<bar> \<le> 10000"
    using assms fits le roundDiv_error [of "rate * (10000 - bps)" 10000]
    by (simp add: SubtractBps_def i64_mul_def i64_sub_def)
  have nonneg: "0 \<le> SubtractBps rate bps"
    using assms fits le roundDiv_nonneg [of "rate * (10000 - bps)" 10000]
    by (auto simp: SubtractBps_def i64_mul_def i64_sub_def)
  have "0 < rate * bps" using assms by simp
  then have "rate \<le> AddBps rate bps" "bps < 10000 \<longrightarrow> SubtractBps rate bps \<le> rate"
    using up down by (auto simp: double_abs_le algebra_simps)
  then show ?thesis using nonneg assms by (cases "bps < 10000") (auto simp: SubtractBps_def)
qed

theorem spread_brackets_rate_witness:
  "5437219 \<le> AddBps 5437219 120 \<and> SubtractBps 5437219 120 \<le> 5437219 \<and> 0 \<le> SubtractBps 5437219 120"
  by (rule spread_brackets_rate) (simp_all add: in_int64_def min_int64_def max_int64_def)

end
