(* ===== verification/Evm_Types.thy ===== *)
theory Evm_Types
  imports Go_Strings "HOL-Library.Word"
begin

text \<open>
  Types of the EVM values that the settlement components exchange: addresses and hashes are words
  of their own width, a \<open>*big.Int\<close> is \<^typ>\<open>int option\<close> with nil as \<open>None\<close>, and a \<open>float64\<close> that is
  only copied is carried as its 64 bits.
\<close>

type_synonym float64 = "64 word"
type_synonym address = "160 word"
type_synonym hash32 = "256 word"
type_synonym big_int = "int option"

text \<open>\<open>common.BytesToAddress(topic.Bytes()[12:])\<close>: the low 20 bytes of a 32-byte topic.\<close>

definition topic_address :: "hash32 \<Rightarrow> address" where
  "topic_address t = ucast t"

end
