(* ===== verification/Tx_Contracts.thy ===== *)
theory Tx_Contracts
  imports Evm_Types
begin

text \<open>
  The transaction contracts (\<open>internal/transactions/contracts.go\<close> and \<open>amounts.go\<close>): the
  canonical spelling of assets, networks and statuses, the conversion of a decimal amount to raw
  token units, the settlement operation identifier and the construction of the trade, settlement
  and ledger contracts of one order.

  A \<open>float64\<close> is carried as its 64 bits: the contracts copy amounts and never compute with them.
  Address parsing, ABI packing and Keccak come from go-ethereum and are the fields of the record
  \<open>evm_lib\<close>, an argument of the definitions that call them; so are \<open>json.Marshal\<close> and SHA-256,
  of which no law is needed.
\<close>

section \<open>Canonical spellings\<close>

definition normalizeAsset :: "string \<Rightarrow> string" where
  "normalizeAsset asset =
     (let a = to_upper (trim_space asset) in if a = '''' then ''USDT'' else a)"

definition normalizeNetwork :: "string \<Rightarrow> string" where
  "normalizeNetwork network =
     (let n = to_upper (trim_space network) in
      if n \<in> {''BNB'', ''BEP20'', ''BINANCE'', ''BINANCE_SMART_CHAIN''} then ''BSC''
      else if n = ''MATIC'' then ''POLYGON''
      else if n = '''' then ''BSC''
      else n)"

definition ChainID :: "string \<Rightarrow> int64" where
  "ChainID network =
     (let n = normalizeNetwork network in
      if n = ''BSC'' then 56
      else if n = ''POLYGON'' then 137
      else if n = ''BASE'' then 8453
      else if n = ''ARBITRUM'' then 42161
      else if n = ''OPTIMISM'' then 10
      else if n = ''ETHEREUM'' then 1
      else 0)"

definition TokenDecimals :: "string \<Rightarrow> string \<Rightarrow> nat" where
  "TokenDecimals asset network =
     (let k = normalizeAsset asset @ '':'' @ normalizeNetwork network in
      if k = ''USDT:BSC'' \<or> k = ''USDC:BSC'' then 18
      else if k = ''USDT:POLYGON'' \<or> k = ''USDC:POLYGON'' then 6
      else 6)"

type_synonym Side = string

abbreviation SideBuy :: Side where "SideBuy \<equiv> ''BUY''"
abbreviation SideSell :: Side where "SideSell \<equiv> ''SELL''"

type_synonym TradeStatus = string

abbreviation StatusCreated :: TradeStatus where "StatusCreated \<equiv> ''CREATED''"
abbreviation StatusPaymentPending :: TradeStatus where "StatusPaymentPending \<equiv> ''PAYMENT_PENDING''"
abbreviation StatusPaymentConfirmed :: TradeStatus where "StatusPaymentConfirmed \<equiv> ''PAYMENT_CONFIRMED''"
abbreviation StatusComplianceApproved :: TradeStatus where "StatusComplianceApproved \<equiv> ''COMPLIANCE_APPROVED''"
abbreviation StatusSettlementPending :: TradeStatus where "StatusSettlementPending \<equiv> ''SETTLEMENT_PENDING''"
abbreviation StatusDelivered :: TradeStatus where "StatusDelivered \<equiv> ''DELIVERED''"
abbreviation StatusCompleted :: TradeStatus where "StatusCompleted \<equiv> ''COMPLETED''"
abbreviation StatusDepositPending :: TradeStatus where "StatusDepositPending \<equiv> ''DEPOSIT_PENDING''"
abbreviation StatusOnchainDetected :: TradeStatus where "StatusOnchainDetected \<equiv> ''ONCHAIN_DETECTED''"
abbreviation StatusPixPending :: TradeStatus where "StatusPixPending \<equiv> ''PIX_PENDING''"
abbreviation StatusFailed :: TradeStatus where "StatusFailed \<equiv> ''FAILED''"

definition CanonicalBuyStatus :: "string \<Rightarrow> TradeStatus" where
  "CanonicalBuyStatus status =
     (let s = to_lower (trim_space status) in
      if str_contains s ''aguardando_pix'' \<or> str_contains s ''aguardando_card''
         \<or> str_contains s ''payment_provider_pending'' then StatusPaymentPending
      else if str_contains s ''pago'' then StatusPaymentConfirmed
      else if str_contains s ''processando'' \<or> str_contains s ''settlement'' then StatusSettlementPending
      else if str_contains s ''enviado'' \<or> str_contains s ''delivered'' then StatusDelivered
      else if str_contains s ''conclu'' then StatusCompleted
      else if str_contains s ''erro'' \<or> str_contains s ''failed'' then StatusFailed
      else StatusCreated)"

definition CanonicalSellStatus :: "string \<Rightarrow> TradeStatus" where
  "CanonicalSellStatus status =
     (let s = to_lower (trim_space status) in
      if str_contains s ''aguardando_deposito'' then StatusDepositPending
      else if str_contains s ''pago'' then StatusOnchainDetected
      else if str_contains s ''processando'' then StatusPixPending
      else if str_contains s ''conclu'' then StatusCompleted
      else if str_contains s ''erro'' \<or> str_contains s ''expirada'' \<or> str_contains s ''incidente''
        then StatusFailed
      else StatusCreated)"

section \<open>Raw token amounts\<close>

datatype amount_error = AmountMissing | AmountNotPositive

definition decimalToRaw :: "string \<Rightarrow> nat \<Rightarrow> amount_error + int" where
  "decimalToRaw raw_amount decimals =
     (let amount = trim_space raw_amount in
      if amount = '''' then Inl AmountMissing
      else if has_prefix amount ''-'' then Inl AmountNotPositive
      else
        (let parts = split_n2 CHR ''.'' amount;
             frac = (case snd parts of None \<Rightarrow> '''' | Some f \<Rightarrow> f);
             whole = (if fst parts = '''' then ''0'' else fst parts);
             frac = (if length frac > decimals then take decimals frac else frac);
             frac = frac @ replicate (decimals - length frac) CHR ''0'';
             rawText = dropWhile (\<lambda>c. code c = 48) (whole @ frac);
             rawText = (if rawText = '''' then ''0'' else rawText)
         in case parse_big rawText of
              None \<Rightarrow> Inl AmountNotPositive
            | Some raw \<Rightarrow> if raw \<le> 0 then Inl AmountNotPositive else Inr raw))"

definition TokenAmountRaw :: "string \<Rightarrow> string \<Rightarrow> string \<Rightarrow> amount_error + int" where
  "TokenAmountRaw asset network amount = decimalToRaw amount (TokenDecimals asset network)"

section \<open>The settlement operation identifier\<close>

record evm_lib =
  IsHexAddress :: "string \<Rightarrow> bool"
  HexToAddress :: "string \<Rightarrow> address"
  AddressHex :: "address \<Rightarrow> string"
  HexToHash :: "string \<Rightarrow> hash32"
  Keccak256Hash :: "bytes \<Rightarrow> hash32"
  PackOperation :: "int \<Rightarrow> address \<Rightarrow> hash32 \<Rightarrow> address \<Rightarrow> address \<Rightarrow> int \<Rightarrow> bytes option"

datatype operation_error =
    ChainIDNotPositive | VaultAddressInvalid | TokenAddressInvalid | RecipientAddressInvalid
  | AmountRawNotPositive | PackFailed

definition settlementIntentHash :: "evm_lib \<Rightarrow> string \<Rightarrow> hash32" where
  "settlementIntentHash lib raw_id =
     (let i = trim_space raw_id in
      if length i = 66 \<and> has_prefix (to_lower i) ''0x'' then HexToHash lib i
      else Keccak256Hash lib i)"

definition SettlementOperationID ::
  "evm_lib \<Rightarrow> int64 \<Rightarrow> string \<Rightarrow> string \<Rightarrow> string \<Rightarrow> string \<Rightarrow> big_int \<Rightarrow> operation_error + hash32" where
  "SettlementOperationID lib chainID vaultAddress settlementIntentID tokenAddress recipientAddress amountRaw =
     (if chainID \<le> 0 then Inl ChainIDNotPositive
      else if \<not> IsHexAddress lib vaultAddress then Inl VaultAddressInvalid
      else if \<not> IsHexAddress lib tokenAddress then Inl TokenAddressInvalid
      else if \<not> IsHexAddress lib recipientAddress then Inl RecipientAddressInvalid
      else case amountRaw of
        None \<Rightarrow> Inl AmountRawNotPositive
      | Some a \<Rightarrow>
          if a \<le> 0 then Inl AmountRawNotPositive
          else case PackOperation lib chainID (HexToAddress lib vaultAddress)
                      (settlementIntentHash lib settlementIntentID)
                      (HexToAddress lib tokenAddress) (HexToAddress lib recipientAddress) a of
                 None \<Rightarrow> Inl PackFailed
               | Some encoded \<Rightarrow> Inr (Keccak256Hash lib encoded))"

section \<open>Contracts of an order\<close>

record NetworkAsset =
  na_Asset :: string
  na_Network :: string
  na_ChainID :: int64

record WalletRef =
  wr_Address :: string
  wr_Network :: string
  wr_ChainID :: int64
  wr_Role :: string

record Trace =
  TransactionID :: string
  tr_OrderID :: string
  IntentID :: string
  CorrelationID :: string
  TraceID :: string
  IdempotencyKey :: string
  RequestHash :: string

record Risk =
  risk_Status :: string
  risk_Score :: int
  risk_Flags :: "string list"

record 'm TradeContract =
  tc_Version :: string
  tc_Side :: Side
  tc_Trace :: Trace
  tc_CustomerID :: string
  tc_Source :: NetworkAsset
  tc_Destination :: NetworkAsset
  tc_SourceAmount :: float64
  tc_DestinationAmount :: float64
  tc_ExchangeRate :: float64
  tc_SpreadBps :: int
  tc_FeeAmount :: float64
  tc_FeeAsset :: string
  tc_Wallet :: WalletRef
  tc_TreasuryWallet :: WalletRef
  tc_PaymentMethod :: string
  tc_PSPProvider :: string
  tc_Status :: TradeStatus
  tc_Risk :: Risk
  tc_Metadata :: 'm
  tc_CreatedAt :: go_time

record SettlementContract =
  sc_Version :: string
  sc_Trace :: Trace
  sc_Side :: Side
  sc_From :: WalletRef
  sc_To :: WalletRef
  sc_Asset :: NetworkAsset
  sc_Amount :: float64
  sc_SettlementRail :: string
  sc_SignerRequired :: bool
  sc_Status :: TradeStatus

record LedgerLine =
  ll_Account :: string
  ll_Asset :: string
  ll_Network :: string
  ll_Amount :: float64
  ll_Side :: string

record LedgerContract =
  lc_Version :: string
  lc_Trace :: Trace
  lc_Entries :: "LedgerLine list"
  lc_Status :: TradeStatus

record 'm ContractSet =
  cs_Trade :: "'m TradeContract"
  cs_Settlement :: SettlementContract
  cs_Ledger :: LedgerContract

text \<open>
  A request is its header map, keyed by canonical header names; an interface value that holds the
  payload to hash is \<open>None\<close> for the nil interface. \<open>Build\<close> passes the metadata map, which makes a
  non-nil interface even when the map is nil.
\<close>

type_synonym http_header = "(string, string) go_map"

record 'm BuildInput =
  bi_Side :: Side
  bi_OrderID :: string
  bi_CustomerID :: string
  bi_SourceAsset :: string
  bi_DestinationAsset :: string
  bi_SourceNetwork :: string
  bi_DestinationNetwork :: string
  bi_SourceChainID :: int64
  bi_DestinationChainID :: int64
  bi_SourceAmount :: float64
  bi_DestinationAmount :: float64
  bi_ExchangeRate :: float64
  bi_SpreadBps :: int
  bi_FeeAmount :: float64
  bi_FeeAsset :: string
  bi_WalletAddress :: string
  bi_TreasuryAddress :: string
  bi_PaymentMethod :: string
  bi_PSPProvider :: string
  bi_Status :: TradeStatus
  bi_Request :: "http_header option"
  bi_Metadata :: 'm

record 'm digest_lib =
  json_Marshal :: "'m \<Rightarrow> bytes option"
  sha256_Sum :: "bytes \<Rightarrow> bytes"

definition header_Get :: "http_header \<Rightarrow> string \<Rightarrow> string" where
  "header_Get h name = (case map_of h name of None \<Rightarrow> '''' | Some v \<Rightarrow> v)"

fun firstHeader :: "http_header \<Rightarrow> string list \<Rightarrow> string" where
  "firstHeader h [] = ''''"
| "firstHeader h (n # names) =
     (let value = trim_space (header_Get h n) in if value \<noteq> '''' then value else firstHeader h names)"

definition Hash :: "'m digest_lib \<Rightarrow> 'm option \<Rightarrow> string" where
  "Hash lib payload =
     (case payload of
        None \<Rightarrow> ''''
      | Some p \<Rightarrow>
          (case json_Marshal lib p of
             None \<Rightarrow> ''''
           | Some raw \<Rightarrow> hex_encode (sha256_Sum lib raw)))"

definition TraceFromRequest :: "'m digest_lib \<Rightarrow> http_header option \<Rightarrow> string \<Rightarrow> 'm option \<Rightarrow> Trace" where
  "TraceFromRequest lib r orderID payload =
     \<lparr>TransactionID = orderID, tr_OrderID = orderID, IntentID = orderID,
      CorrelationID = (case r of None \<Rightarrow> '''' | Some h \<Rightarrow> firstHeader h [''X-Correlation-Id'', ''X-Request-Id'']),
      TraceID = (case r of None \<Rightarrow> '''' | Some h \<Rightarrow> firstHeader h [''X-Trace-Id'', ''Traceparent'']),
      IdempotencyKey = (case r of None \<Rightarrow> '''' | Some h \<Rightarrow> firstHeader h [''Idempotency-Key'', ''X-Idempotency-Key'']),
      RequestHash = Hash lib payload\<rparr>"

definition Build :: "'m digest_lib \<Rightarrow> go_time \<Rightarrow> 'm BuildInput \<Rightarrow> 'm ContractSet" where
  "Build lib now input =
     (let trace = TraceFromRequest lib (bi_Request input) (bi_OrderID input) (Some (bi_Metadata input));
          status = (if bi_Status input = '''' then StatusCreated else bi_Status input);
          source = \<lparr>na_Asset = normalizeAsset (bi_SourceAsset input),
                    na_Network = normalizeNetwork (bi_SourceNetwork input),
                    na_ChainID = bi_SourceChainID input\<rparr>;
          destination = \<lparr>na_Asset = normalizeAsset (bi_DestinationAsset input),
                    na_Network = normalizeNetwork (bi_DestinationNetwork input),
                    na_ChainID = bi_DestinationChainID input\<rparr>;
          wallet = \<lparr>wr_Address = trim_space (bi_WalletAddress input), wr_Network = na_Network destination,
                    wr_ChainID = na_ChainID destination, wr_Role = ''customer''\<rparr>;
          treasury = \<lparr>wr_Address = trim_space (bi_TreasuryAddress input), wr_Network = na_Network source,
                    wr_ChainID = na_ChainID source, wr_Role = ''treasury''\<rparr>;
          wallet = (if bi_Side input = SideSell
                    then wallet\<lparr>wr_Network := na_Network source, wr_ChainID := na_ChainID source\<rparr>
                    else wallet);
          treasury = (if bi_Side input = SideSell
                    then treasury\<lparr>wr_Network := na_Network source, wr_ChainID := na_ChainID source\<rparr>
                    else treasury);
          trade = \<lparr>tc_Version = ''2026-07-19'', tc_Side = bi_Side input, tc_Trace = trace,
                    tc_CustomerID = trim_space (bi_CustomerID input),
                    tc_Source = source, tc_Destination = destination,
                    tc_SourceAmount = bi_SourceAmount input,
                    tc_DestinationAmount = bi_DestinationAmount input,
                    tc_ExchangeRate = bi_ExchangeRate input, tc_SpreadBps = bi_SpreadBps input,
                    tc_FeeAmount = bi_FeeAmount input, tc_FeeAsset = normalizeAsset (bi_FeeAsset input),
                    tc_Wallet = wallet, tc_TreasuryWallet = treasury,
                    tc_PaymentMethod = to_lower (trim_space (bi_PaymentMethod input)),
                    tc_PSPProvider = to_lower (trim_space (bi_PSPProvider input)),
                    tc_Status = status, tc_Risk = \<lparr>risk_Status = ''PENDING'', risk_Score = 0, risk_Flags = []\<rparr>,
                    tc_Metadata = bi_Metadata input, tc_CreatedAt = now\<rparr>;
          settlement = \<lparr>sc_Version = tc_Version trade, sc_Trace = trace, sc_Side = bi_Side input,
                    sc_From = treasury, sc_To = wallet, sc_Asset = destination,
                    sc_Amount = bi_DestinationAmount input, sc_SettlementRail = ''blockchain'',
                    sc_SignerRequired = True, sc_Status = StatusSettlementPending\<rparr>;
          settlement = (if bi_Side input = SideSell
                    then settlement\<lparr>sc_From := wallet, sc_To := treasury, sc_Asset := source,
                      sc_Amount := bi_SourceAmount input,
                      sc_SettlementRail := ''customer_onchain_deposit_then_pix'',
                      sc_SignerRequired := False, sc_Status := StatusDepositPending\<rparr>
                    else settlement);
          ledger = \<lparr>lc_Version = tc_Version trade, lc_Trace = trace,
                    lc_Entries =
                      [\<lparr>ll_Account = ''customer'', ll_Asset = na_Asset source, ll_Network = na_Network source,
                        ll_Amount = bi_SourceAmount input, ll_Side = ''debit''\<rparr>,
                       \<lparr>ll_Account = ''customer'', ll_Asset = na_Asset destination,
                        ll_Network = na_Network destination,
                        ll_Amount = bi_DestinationAmount input, ll_Side = ''credit''\<rparr>,
                       \<lparr>ll_Account = ''chainfx_fee'', ll_Asset = tc_FeeAsset trade, ll_Network = '''',
                        ll_Amount = bi_FeeAmount input, ll_Side = ''credit''\<rparr>],
                    lc_Status = status\<rparr>
      in \<lparr>cs_Trade = trade, cs_Settlement = settlement, cs_Ledger = ledger\<rparr>)"

section \<open>Spellings are canonical\<close>

lemma upper_trim_fix: "to_upper (trim_space (to_upper (trim_space s))) = to_upper (trim_space s)"
  by (simp add: str_simps)

lemma normalizeAsset_idem: "normalizeAsset (normalizeAsset a) = normalizeAsset a"
proof -
  have "to_upper (trim_space ''USDT'') = ''USDT''" by code_simp
  then show ?thesis by (simp add: normalizeAsset_def Let_def str_simps)
qed

lemma normalizeNetwork_cases:
  "normalizeNetwork n = ''BSC'' \<or> normalizeNetwork n = ''POLYGON'' \<or> normalizeNetwork n = to_upper (trim_space n)"
  unfolding normalizeNetwork_def Let_def by metis

lemma normalizeNetwork_idem: "normalizeNetwork (normalizeNetwork n) = normalizeNetwork n"
proof -
  have "normalizeNetwork ''BSC'' = ''BSC''" "normalizeNetwork ''POLYGON'' = ''POLYGON''"
    by code_simp+
  moreover have "normalizeNetwork (to_upper (trim_space n)) = normalizeNetwork n"
    unfolding normalizeNetwork_def Let_def upper_trim_fix by (rule refl)
  ultimately show ?thesis using normalizeNetwork_cases [of n] by metis
qed

interpretation asset_norm: normaliser normalizeAsset
  by unfold_locales (rule normalizeAsset_idem)

interpretation network_norm: normaliser normalizeNetwork
  by unfold_locales (rule normalizeNetwork_idem)

section \<open>Raw amounts are exact\<close>

lemma digits_val_drop_zeros: "digits_val (dropWhile (\<lambda>c. code c = 48) s) = digits_val s"
proof (induction s)
  case Nil
  show ?case by simp
next
  case (Cons c s)
  show ?case
  proof (cases "code c = 48")
    case True
    have "digits_val (c # s) = digits_val [c] * 10 ^ length s + digits_val s"
      using digits_val_append [of "[c]" s] by simp
    with True Cons show ?thesis by (simp add: digits_val_def)
  next
    case False
    then show ?thesis by simp
  qed
qed

lemma list_all_dropWhile: "list_all p s \<Longrightarrow> list_all p (dropWhile q s)"
  by (auto simp: list_all_iff dest: set_dropWhileD)

lemma digits_val_less: "list_all is_digit s \<Longrightarrow> digits_val s < 10 ^ length s"
proof (induction s rule: rev_induct)
  case Nil
  show ?case by simp
next
  case (snoc c s)
  then have "digits_val s < 10 ^ length s" "code c - 48 < 10"
    by (auto simp: is_digit_def)
  then show ?case by simp
qed

lemma parse_raw_text:
  assumes "list_all is_digit s" "t = dropWhile (\<lambda>c. code c = 48) s"
  shows "parse_big (if t = [] then ''0'' else t) = Some (int (digits_val s))"
proof (cases "t = []")
  case True
  then have "digits_val s = 0"
    using assms digits_val_drop_zeros [of s] by (metis digits_val_Nil)
  moreover have "parse_big ''0'' = Some 0"
    by (simp add: parse_big_digits digits_val_def)
  ultimately show ?thesis using True by simp
next
  case False
  moreover have "list_all is_digit t" "digits_val t = digits_val s"
    using assms by (simp_all add: list_all_dropWhile digits_val_drop_zeros)
  ultimately show ?thesis by (simp add: parse_big_digits)
qed

lemma scaled_truncation:
  assumes f: "list_all is_digit f"
  shows "digits_val (w @ take d f @ replicate (d - length f) CHR ''0'') =
     digits_val (w @ f) * 10 ^ d div 10 ^ length f"
proof (cases "length f \<le> d")
  case True
  then obtain k where k: "d = length f + k" using le_Suc_ex by blast
  have "digits_val (w @ f @ replicate k CHR ''0'') = digits_val (w @ f) * 10 ^ k"
    using digits_val_append [of "w @ f" "replicate k CHR ''0''"] by simp
  moreover have "digits_val (w @ f) * 10 ^ d div 10 ^ length f = digits_val (w @ f) * 10 ^ k"
    by (simp add: k power_add mult.left_commute)
  ultimately show ?thesis using k by simp
next
  case False
  define a b where "a = take d f" and "b = drop d f"
  have ab: "f = a @ b" "length a = d" using False by (simp_all add: a_def b_def)
  have "list_all is_digit b" using f by (simp add: ab)
  then have less: "digits_val b < 10 ^ length b" by (rule digits_val_less)
  have "digits_val (w @ f) = digits_val (w @ a) * 10 ^ length b + digits_val b"
    using digits_val_append [of "w @ a" b] by (simp add: ab)
  moreover have "(10::nat) ^ length f = 10 ^ d * 10 ^ length b" by (simp add: ab power_add)
  ultimately have "digits_val (w @ f) * 10 ^ d div 10 ^ length f = digits_val (w @ a)"
    using less by (simp add: mult.commute)
  then show ?thesis using False ab by simp
qed

lemma decimalToRaw_digits:
  assumes "list_all is_digit w" "w \<noteq> []" "list_all is_digit f"
  shows "decimalToRaw (w @ ''.'' @ f) d =
     (let raw = digits_val (w @ f) * 10 ^ d div 10 ^ length f
      in if raw = 0 then Inl AmountNotPositive else Inr (int raw))"
proof -
  define amount where "amount = w @ ''.'' @ f"
  have nosp: "\<And>s. s \<noteq> [] \<Longrightarrow> list_all is_digit s \<Longrightarrow> \<not> is_space (hd s) \<and> \<not> is_space (last s)"
    by (simp add: list_all_iff digit_not_sign)
  have "trimmed amount"
    using assms nosp [of w] nosp [of f] by (cases "f = []") (auto simp: trimmed_def amount_def is_space_def)
  then have trim: "trim_space amount = amount" by (rule trim_space_trimmed)
  have ne: "amount \<noteq> ''''" by (simp add: amount_def)
  have "hd w \<noteq> CHR ''-''" using assms digit_not_sign by (metis hd_in_set list_all_iff)
  then have pre: "\<not> has_prefix amount ''-''"
    using assms by (cases w) (auto simp: has_prefix_def amount_def)
  have "CHR ''.'' \<notin> set w" using assms digit_not_sign by (auto simp: list_all_iff)
  then have split: "split_n2 CHR ''.'' amount = (w, Some f)"
    using split_n2_sep [of "CHR ''.''" w f] by (simp add: amount_def)
  define s where "s = w @ take d f @ replicate (d - length f) CHR ''0''"
  have pad: "(if d < length f then take d f else f) @
      replicate (d - length (if d < length f then take d f else f)) CHR ''0'' =
      take d f @ replicate (d - length f) CHR ''0''"
    by simp
  have "list_all is_digit s"
    using assms by (auto simp: s_def list_all_iff dest: in_set_takeD)
  then have parse: "parse_big (if dropWhile (\<lambda>c. code c = 48) s = '''' then ''0''
      else dropWhile (\<lambda>c. code c = 48) s) = Some (int (digits_val s))"
    by (rule parse_raw_text) simp
  have "decimalToRaw amount d =
      (if int (digits_val s) \<le> 0 then Inl AmountNotPositive else Inr (int (digits_val s)))"
    unfolding decimalToRaw_def Let_def trim split
    using ne pre assms(2) parse unfolding s_def by (simp only: fst_conv snd_conv option.case if_False pad)
  then show ?thesis
    by (simp add: amount_def s_def scaled_truncation [OF assms(3)] Let_def)
qed

text \<open>
  A decimal amount, with a whole part and a fraction of any length, becomes the amount times
  10 to the token's decimals, rounded down; an amount that rounds down to zero is refused. No
  precision is lost before the truncation, whatever the number of digits.
\<close>

theorem decimalToRaw_exact:
  assumes "list_all is_digit w" "w \<noteq> []" "list_all is_digit f"
  shows "decimalToRaw (w @ ''.'' @ f) d =
     (let raw = digits_val (w @ f) * 10 ^ d div 10 ^ length f
      in if raw = 0 then Inl AmountNotPositive else Inr (int raw))"
  using assms by (rule decimalToRaw_digits)

theorem decimalToRaw_exact_witness:
  "decimalToRaw (''12'' @ ''.'' @ ''3456789'') 6 =
     (let raw = digits_val (''12'' @ ''3456789'') * 10 ^ 6 div 10 ^ length ''3456789''
      in if raw = 0 then Inl AmountNotPositive else Inr (int raw))"
  by (rule decimalToRaw_exact) (simp_all add: is_digit_def)

section \<open>Operation identifiers and contracts\<close>

lemma SettlementOperationID_ok:
  "SettlementOperationID lib c v i t r a = Inr h \<longleftrightarrow>
     0 < c \<and> IsHexAddress lib v \<and> IsHexAddress lib t \<and> IsHexAddress lib r \<and>
     (\<exists>n e. a = Some n \<and> 0 < n \<and>
        PackOperation lib c (HexToAddress lib v) (settlementIntentHash lib i)
          (HexToAddress lib t) (HexToAddress lib r) n = Some e \<and> h = Keccak256Hash lib e)"
  by (auto simp: SettlementOperationID_def split: option.splits if_splits)


text \<open>A library instance for the witness: addresses are read as text, packing is a text record.\<close>

definition sample_lib :: evm_lib where
  "sample_lib =
     \<lparr>IsHexAddress = (\<lambda>s. length s = 42 \<and> has_prefix s ''0x''),
      HexToAddress = (\<lambda>s. of_nat (digits_val (drop 2 s))),
      AddressHex = (\<lambda>a. ''0x'' @ pad_zero 40 (nat_str (unat a))),
      HexToHash = (\<lambda>s. of_nat (digits_val (drop 2 s))),
      Keccak256Hash = (\<lambda>b. of_nat (length b)),
      PackOperation = (\<lambda>c v i t r a.
         if c = 56 \<and> v = 1 \<and> i = 8 \<and> t = 2 \<and> r = 3 \<and> a = 1000 then Some ''encoded'' else None)\<rparr>"

abbreviation sample_addr :: "char \<Rightarrow> string" where
  "sample_addr c \<equiv> ''0x'' @ replicate 39 CHR ''0'' @ [c]"


text \<open>
  The contracts of one order agree with each other: on both sides of a trade the customer's
  wallet and the settled asset are on the same network and chain, value flows from the treasury
  to the customer on a buy and the other way on a sell, a signature is required exactly when the
  treasury pays, and the ledger debits the traded source amount and credits the traded
  destination amount of the same contract.
\<close>

theorem Build_contracts_agree:
  fixes input :: "'m BuildInput"
  assumes "cs = Build lib now input"
  shows "(bi_Side input = SideSell \<longrightarrow>
       sc_From (cs_Settlement cs) = tc_Wallet (cs_Trade cs) \<and>
       sc_To (cs_Settlement cs) = tc_TreasuryWallet (cs_Trade cs) \<and>
       sc_Asset (cs_Settlement cs) = tc_Source (cs_Trade cs) \<and>
       sc_Amount (cs_Settlement cs) = tc_SourceAmount (cs_Trade cs))
    \<and> (bi_Side input \<noteq> SideSell \<longrightarrow>
       sc_From (cs_Settlement cs) = tc_TreasuryWallet (cs_Trade cs) \<and>
       sc_To (cs_Settlement cs) = tc_Wallet (cs_Trade cs) \<and>
       sc_Asset (cs_Settlement cs) = tc_Destination (cs_Trade cs) \<and>
       sc_Amount (cs_Settlement cs) = tc_DestinationAmount (cs_Trade cs))
    \<and> wr_Network (tc_Wallet (cs_Trade cs)) = na_Network (sc_Asset (cs_Settlement cs))
    \<and> wr_ChainID (tc_Wallet (cs_Trade cs)) = na_ChainID (sc_Asset (cs_Settlement cs))
    \<and> normalizeNetwork (na_Network (sc_Asset (cs_Settlement cs))) = na_Network (sc_Asset (cs_Settlement cs))
    \<and> sc_SignerRequired (cs_Settlement cs) = (wr_Role (sc_From (cs_Settlement cs)) = ''treasury'')
    \<and> map (\<lambda>l. (ll_Account l, ll_Side l, ll_Amount l)) (lc_Entries (cs_Ledger cs)) =
        [(''customer'', ''debit'', tc_SourceAmount (cs_Trade cs)),
         (''customer'', ''credit'', tc_DestinationAmount (cs_Trade cs)),
         (''chainfx_fee'', ''credit'', tc_FeeAmount (cs_Trade cs))]"
  unfolding assms Build_def Let_def by (simp add: normalizeNetwork_idem)

definition sample_digest :: "unit digest_lib" where
  "sample_digest = \<lparr>json_Marshal = (\<lambda>_. Some ''null''), sha256_Sum = id\<rparr>"

definition sample_sell :: "unit BuildInput" where
  "sample_sell = \<lparr>bi_Side = ''SELL'', bi_OrderID = ''o1'', bi_CustomerID = ''c1'', bi_SourceAsset = ''usdt'',
      bi_DestinationAsset = ''BRL'', bi_SourceNetwork = ''bep20'', bi_DestinationNetwork = ''PIX'',
      bi_SourceChainID = 56, bi_DestinationChainID = 0, bi_SourceAmount = 1, bi_DestinationAmount = 2,
      bi_ExchangeRate = 3, bi_SpreadBps = 50, bi_FeeAmount = 4, bi_FeeAsset = ''BRL'',
      bi_WalletAddress = ''0xabc'', bi_TreasuryAddress = ''0xdef'', bi_PaymentMethod = ''PIX'',
      bi_PSPProvider = ''efi'', bi_Status = [], bi_Request = None, bi_Metadata = ()\<rparr>"

theorem Build_contracts_agree_witness:
  "sc_From (cs_Settlement (Build sample_digest 1 sample_sell)) =
     tc_Wallet (cs_Trade (Build sample_digest 1 sample_sell))"
  using Build_contracts_agree [of "Build sample_digest 1 sample_sell" sample_digest 1 sample_sell, OF refl]
  by (simp add: sample_sell_def)

end
