(* ===== verification/Settlement_Policy.thy ===== *)
theory Settlement_Policy
  imports Tx_Contracts
begin

text \<open>
  The settlement policy (\<open>internal/transactions/settlement_policy.go\<close>): a validator holds one
  policy per network and turns a validated request into a settlement instruction. A \<open>*big.Int\<close> is
  \<^typ>\<open>int option\<close> (nil is \<open>None\<close>), a \<open>uint64\<close> chain id is a 64-bit word and an address a 160-bit
  word.
\<close>

section \<open>Data\<close>

type_synonym SourceChannel = string

record SettlementInstruction =
  si_OperationID :: hash32
  si_SettlementIntentID :: string
  si_OrderID :: string
  si_Side :: string
  si_Network :: string
  si_ChainID :: "64 word"
  si_Vault :: address
  si_Token :: address
  si_Recipient :: address
  si_AmountRaw :: int
  si_SourceChannel :: SourceChannel
  si_RiskDecision :: string
  si_PolicyVersion :: string
  si_NetworkPolicy :: string
  si_RiskPolicy :: string
  si_ContractVersion :: string
  si_CreatedAt :: go_time
  si_ExpiresAt :: go_time

record SettlementPolicy =
  sp_Version :: string
  sp_NetworkPolicy :: string
  sp_RiskPolicy :: string
  sp_ContractVersion :: string
  sp_Network :: string
  sp_ChainID :: "64 word"
  sp_Vault :: address
  sp_AllowedTokens :: "(address, bool) go_map"
  sp_BlockedRecipients :: "(address, bool) go_map"
  sp_MaxTransferRaw :: big_int
  sp_DailyLimitRaw :: big_int
  sp_RequireRiskApprove :: bool
  sp_LiquidatableStates :: "(TradeStatus, bool) go_map"
  sp_QuoteMaxAge :: duration
  sp_InstructionTTL :: duration

record SettlementValidationInput =
  vi_SettlementIntentID :: string
  vi_OrderID :: string
  vi_Side :: Side
  vi_Network :: string
  vi_ChainID :: "64 word"
  vi_Vault :: address
  vi_Token :: address
  vi_Recipient :: address
  vi_AmountRaw :: big_int
  vi_SourceChannel :: SourceChannel
  vi_RiskDecision :: string
  vi_IntentStatus :: TradeStatus
  vi_QuoteCreatedAt :: go_time
  vi_Now :: go_time
  vi_OperationUsed :: bool
  vi_TreasuryBalanceRaw :: big_int
  vi_DailySpentRaw :: big_int

type_synonym SettlementPolicyValidator = "(string, SettlementPolicy) go_map"

datatype policy_error =
    PolicyNetworkRequired | PolicyChainRequired string | PolicyVaultRequired string | PolicyTokenRequired string
  | ValidatorNil | NetworkNotEnabled string
  | IntentRequired | OrderRequired | SideInvalid | NetworkMismatch | ChainMismatch | VaultMismatch
  | TokenNotAllowed | RecipientRequired | RecipientBlocked | AmountNotPositiveRaw | MaxTransferExceeded
  | DailyLimitUnavailable | RiskNotApproved | NotLiquidatable | QuoteTimestampRequired | QuoteExpired
  | OperationAlreadyUsed | TreasuryInsufficient | OperationFailed operation_error
  | VaultTextInvalid | TokenTextInvalid

section \<open>Operations\<close>

definition normalizeSourceChannel :: "SourceChannel \<Rightarrow> SourceChannel" where
  "normalizeSourceChannel channel =
     (if channel \<in> set [''web'', ''mobile'', ''developer_api'', ''mcp'', ''a2a'', ''admin'', ''worker'']
      then channel else ''worker'')"

definition normalizeRiskDecision :: "string \<Rightarrow> string" where
  "normalizeRiskDecision decision =
     (let d = to_upper (trim_space decision) in if d = [] then ''PENDING'' else d)"

definition complete_policy :: "string \<Rightarrow> SettlementPolicy \<Rightarrow> SettlementPolicy" where
  "complete_policy network policy =
     (let p = (if sp_Version policy = [] then policy\<lparr>sp_Version := ''settlement-policy-v1.0.0''\<rparr> else policy);
          p = (if sp_ContractVersion p = [] then p\<lparr>sp_ContractVersion := ''treasury-v1.1.0''\<rparr> else p);
          p = (if sp_InstructionTTL p \<le> 0 then p\<lparr>sp_InstructionTTL := 10 * minute\<rparr> else p)
      in p\<lparr>sp_Network := network\<rparr>)"

fun add_policies ::
  "SettlementPolicyValidator \<Rightarrow> SettlementPolicy list \<Rightarrow> policy_error + SettlementPolicyValidator" where
  "add_policies out [] = Inr out"
| "add_policies out (policy # rest) =
     (let network = normalizeNetwork (sp_Network policy) in
      if network = [] then Inl PolicyNetworkRequired
      else if sp_ChainID policy = 0 then Inl (PolicyChainRequired network)
      else if sp_Vault policy = 0 then Inl (PolicyVaultRequired network)
      else if sp_AllowedTokens policy = [] then Inl (PolicyTokenRequired network)
      else add_policies (AList.update network (complete_policy network policy) out) rest)"

definition NewSettlementPolicyValidator ::
  "SettlementPolicy list \<Rightarrow> policy_error + SettlementPolicyValidator" where
  "NewSettlementPolicyValidator policies = add_policies [] policies"

definition limit_exceeded :: "big_int \<Rightarrow> int \<Rightarrow> bool" where
  "limit_exceeded limit amount = (case limit of None \<Rightarrow> False | Some l \<Rightarrow> l > 0 \<and> amount > l)"

definition policy_validate ::
  "SettlementPolicy \<Rightarrow> SettlementValidationInput \<Rightarrow> go_time \<Rightarrow> policy_error + unit" where
  "policy_validate p input now =
     (if trim_space (vi_SettlementIntentID input) = [] then Inl IntentRequired
      else if trim_space (vi_OrderID input) = [] then Inl OrderRequired
      else if vi_Side input \<noteq> SideBuy \<and> vi_Side input \<noteq> SideSell then Inl SideInvalid
      else if normalizeNetwork (vi_Network input) \<noteq> sp_Network p then Inl NetworkMismatch
      else if vi_ChainID input \<noteq> sp_ChainID p then Inl ChainMismatch
      else if vi_Vault input \<noteq> sp_Vault p then Inl VaultMismatch
      else if \<not> map_bool (sp_AllowedTokens p) (vi_Token input) then Inl TokenNotAllowed
      else if vi_Recipient input = 0 then Inl RecipientRequired
      else if map_bool (sp_BlockedRecipients p) (vi_Recipient input) then Inl RecipientBlocked
      else case vi_AmountRaw input of
        None \<Rightarrow> Inl AmountNotPositiveRaw
      | Some amount \<Rightarrow>
          if amount \<le> 0 then Inl AmountNotPositiveRaw
          else if limit_exceeded (sp_MaxTransferRaw p) amount then Inl MaxTransferExceeded
          else
            (let spent = (case vi_DailySpentRaw input of None \<Rightarrow> 0 | Some s \<Rightarrow> s) in
             if limit_exceeded (sp_DailyLimitRaw p) (spent + amount) then Inl DailyLimitUnavailable
             else if sp_RequireRiskApprove p \<and> normalizeRiskDecision (vi_RiskDecision input) \<noteq> ''APPROVED''
               then Inl RiskNotApproved
             else if sp_LiquidatableStates p \<noteq> [] \<and> \<not> map_bool (sp_LiquidatableStates p) (vi_IntentStatus input)
               then Inl NotLiquidatable
             else if sp_QuoteMaxAge p > 0 \<and> time_is_zero (vi_QuoteCreatedAt input) then Inl QuoteTimestampRequired
             else if sp_QuoteMaxAge p > 0 \<and> now > vi_QuoteCreatedAt input + sp_QuoteMaxAge p then Inl QuoteExpired
             else if vi_OperationUsed input then Inl OperationAlreadyUsed
             else case vi_TreasuryBalanceRaw input of
                 None \<Rightarrow> Inl TreasuryInsufficient
               | Some balance \<Rightarrow> if balance < amount then Inl TreasuryInsufficient else Inr ()))"

text \<open>\<open>clock\<close> is what \<open>time.Now\<close> returns when the input carries no time; a nil validator is \<open>None\<close>.\<close>

definition BuildInstruction ::
  "evm_lib \<Rightarrow> go_time \<Rightarrow> SettlementPolicyValidator option \<Rightarrow> SettlementValidationInput \<Rightarrow>
     policy_error + SettlementInstruction" where
  "BuildInstruction lib clock v input =
     (case v of
        None \<Rightarrow> Inl ValidatorNil
      | Some policies \<Rightarrow>
        (case map_of policies (normalizeNetwork (vi_Network input)) of
           None \<Rightarrow> Inl (NetworkNotEnabled (vi_Network input))
         | Some policy \<Rightarrow>
           (let now = (if time_is_zero (vi_Now input) then clock else vi_Now input) in
            case policy_validate policy input now of
              Inl e \<Rightarrow> Inl e
            | Inr _ \<Rightarrow>
              (case SettlementOperationID lib (sint (sp_ChainID policy)) (AddressHex lib (sp_Vault policy))
                      (vi_SettlementIntentID input) (AddressHex lib (vi_Token input))
                      (AddressHex lib (vi_Recipient input)) (vi_AmountRaw input) of
                 Inl e \<Rightarrow> Inl (OperationFailed e)
               | Inr operationID \<Rightarrow>
                   Inr \<lparr>si_OperationID = operationID,
                        si_SettlementIntentID = trim_space (vi_SettlementIntentID input),
                        si_OrderID = trim_space (vi_OrderID input),
                        si_Side = vi_Side input,
                        si_Network = sp_Network policy,
                        si_ChainID = sp_ChainID policy,
                        si_Vault = sp_Vault policy,
                        si_Token = vi_Token input,
                        si_Recipient = vi_Recipient input,
                        si_AmountRaw = the (vi_AmountRaw input),
                        si_SourceChannel = normalizeSourceChannel (vi_SourceChannel input),
                        si_RiskDecision = normalizeRiskDecision (vi_RiskDecision input),
                        si_PolicyVersion = sp_Version policy,
                        si_NetworkPolicy = sp_NetworkPolicy policy,
                        si_RiskPolicy = sp_RiskPolicy policy,
                        si_ContractVersion = sp_ContractVersion policy,
                        si_CreatedAt = now,
                        si_ExpiresAt = now + sp_InstructionTTL policy\<rparr>))))"

definition DefaultBSCUSDTSettlementPolicy ::
  "evm_lib \<Rightarrow> string \<Rightarrow> string \<Rightarrow> big_int \<Rightarrow> big_int \<Rightarrow> policy_error + SettlementPolicy" where
  "DefaultBSCUSDTSettlementPolicy lib vaultAddress tokenAddress maxTransferRaw dailyLimitRaw =
     (if \<not> IsHexAddress lib vaultAddress then Inl VaultTextInvalid
      else if \<not> IsHexAddress lib tokenAddress then Inl TokenTextInvalid
      else Inr \<lparr>sp_Version = ''settlement-policy-v1.0.0'', sp_NetworkPolicy = ''bsc-usdt-v1'',
        sp_RiskPolicy = ''retail-buy-v2'', sp_ContractVersion = ''treasury-v1.1.0'', sp_Network = ''BSC'',
        sp_ChainID = 56, sp_Vault = HexToAddress lib vaultAddress,
        sp_AllowedTokens = [(HexToAddress lib tokenAddress, True)], sp_BlockedRecipients = [],
        sp_MaxTransferRaw = maxTransferRaw, sp_DailyLimitRaw = dailyLimitRaw, sp_RequireRiskApprove = True,
        sp_LiquidatableStates = [(StatusPaymentConfirmed, True), (StatusComplianceApproved, True),
          (StatusSettlementPending, True)],
        sp_QuoteMaxAge = 10 * minute, sp_InstructionTTL = 10 * minute\<rparr>)"

section \<open>Validators are well formed\<close>

definition policy_ok :: "string \<Rightarrow> SettlementPolicy \<Rightarrow> bool" where
  "policy_ok network p \<longleftrightarrow>
     sp_Network p = network \<and> normalizeNetwork network = network \<and> network \<noteq> [] \<and>
     sp_ChainID p \<noteq> 0 \<and> sp_Vault p \<noteq> 0 \<and> sp_AllowedTokens p \<noteq> [] \<and>
     sp_Version p \<noteq> [] \<and> sp_ContractVersion p \<noteq> [] \<and> 0 < sp_InstructionTTL p"

definition validator_ok :: "SettlementPolicyValidator \<Rightarrow> bool" where
  "validator_ok v \<longleftrightarrow> map_ok v \<and> (\<forall>n p. map_of v n = Some p \<longrightarrow> policy_ok n p)"

lemma complete_policy_ok:
  assumes "network = normalizeNetwork (sp_Network policy)" "network \<noteq> []" "sp_ChainID policy \<noteq> 0"
    "sp_Vault policy \<noteq> 0" "sp_AllowedTokens policy \<noteq> []"
  shows "policy_ok network (complete_policy network policy)"
  using assms by (simp add: policy_ok_def complete_policy_def Let_def normalizeNetwork_idem duration_defs)

lemma complete_policy_fields:
  "sp_ChainID (complete_policy n p) = sp_ChainID p" "sp_Vault (complete_policy n p) = sp_Vault p"
  "sp_AllowedTokens (complete_policy n p) = sp_AllowedTokens p"
  "sp_MaxTransferRaw (complete_policy n p) = sp_MaxTransferRaw p"
  "sp_DailyLimitRaw (complete_policy n p) = sp_DailyLimitRaw p"
  by (simp_all add: complete_policy_def Let_def)

lemma add_policies_ok: "add_policies out ps = Inr v \<Longrightarrow> validator_ok out \<Longrightarrow> validator_ok v"
proof (induction out ps rule: add_policies.induct)
  case (1 out)
  then show ?case by simp
next
  case (2 out policy rest)
  define n where "n = normalizeNetwork (sp_Network policy)"
  have guards: "n \<noteq> []" "sp_ChainID policy \<noteq> 0" "sp_Vault policy \<noteq> 0" "sp_AllowedTokens policy \<noteq> []"
    and rest: "add_policies (AList.update n (complete_policy n policy) out) rest = Inr v"
    using "2.prems"(1) by (simp_all add: Let_def n_def split: if_splits)
  have "policy_ok n (complete_policy n policy)"
    using complete_policy_ok [OF n_def guards] .
  then have "validator_ok (AList.update n (complete_policy n policy) out)"
    using "2.prems"(2) by (simp add: validator_ok_def)
  then show ?case by (rule "2.IH" [OF n_def guards rest])
qed

lemma validator_ok_Nil: "validator_ok []"
  by (simp add: validator_ok_def)

lemma new_validator_ok: "NewSettlementPolicyValidator ps = Inr v \<Longrightarrow> validator_ok v"
  unfolding NewSettlementPolicyValidator_def by (erule add_policies_ok) (rule validator_ok_Nil)

text \<open>
  A validator that is built without an error is well formed: every policy is stored under the
  canonical name of its own network, has a chain, a vault, at least one token, a version and a
  positive instruction lifetime.
\<close>

theorem NewSettlementPolicyValidator_ok:
  assumes "NewSettlementPolicyValidator ps = Inr v"
  shows "validator_ok v"
  using assms by (rule new_validator_ok)

section \<open>What a validated settlement satisfies\<close>

text \<open>The order-free specification of an admissible settlement.\<close>

definition within_limit :: "big_int \<Rightarrow> int \<Rightarrow> bool" where
  "within_limit limit amount \<longleftrightarrow> (\<forall>l. limit = Some l \<and> 0 < l \<longrightarrow> amount \<le> l)"

definition daily_spent :: "SettlementValidationInput \<Rightarrow> int" where
  "daily_spent input = (case vi_DailySpentRaw input of None \<Rightarrow> 0 | Some s \<Rightarrow> s)"

definition settlement_allowed :: "SettlementPolicy \<Rightarrow> SettlementValidationInput \<Rightarrow> go_time \<Rightarrow> int \<Rightarrow> bool" where
  "settlement_allowed p input now amount \<longleftrightarrow>
     vi_AmountRaw input = Some amount \<and> 0 < amount \<and>
     within_limit (sp_MaxTransferRaw p) amount \<and>
     within_limit (sp_DailyLimitRaw p) (daily_spent input + amount) \<and>
     (\<exists>b. vi_TreasuryBalanceRaw input = Some b \<and> amount \<le> b) \<and>
     \<not> vi_OperationUsed input \<and>
     map_bool (sp_AllowedTokens p) (vi_Token input) \<and>
     vi_Recipient input \<noteq> 0 \<and> \<not> map_bool (sp_BlockedRecipients p) (vi_Recipient input) \<and>
     vi_ChainID input = sp_ChainID p \<and> vi_Vault input = sp_Vault p \<and>
     normalizeNetwork (vi_Network input) = sp_Network p \<and>
     (sp_RequireRiskApprove p \<longrightarrow> normalizeRiskDecision (vi_RiskDecision input) = ''APPROVED'') \<and>
     (sp_LiquidatableStates p = [] \<or> map_bool (sp_LiquidatableStates p) (vi_IntentStatus input)) \<and>
     (0 < sp_QuoteMaxAge p \<longrightarrow>
        vi_QuoteCreatedAt input \<noteq> 0 \<and> now \<le> vi_QuoteCreatedAt input + sp_QuoteMaxAge p) \<and>
     vi_Side input \<in> {SideBuy, SideSell} \<and>
     trim_space (vi_SettlementIntentID input) \<noteq> [] \<and> trim_space (vi_OrderID input) \<noteq> []"

lemma limit_exceeded_iff: "limit_exceeded l a \<longleftrightarrow> \<not> within_limit l a"
  by (auto simp: limit_exceeded_def within_limit_def split: option.splits)

lemma policy_validate_sound:
  assumes "policy_validate p input now = Inr ()"
  shows "\<exists>amount. settlement_allowed p input now amount"
proof -
  obtain amount where amount: "vi_AmountRaw input = Some amount"
    using assms by (auto simp: policy_validate_def split: if_splits option.splits)
  obtain b where b: "vi_TreasuryBalanceRaw input = Some b"
    using assms amount by (auto simp: policy_validate_def Let_def split: if_splits option.splits)
  have "settlement_allowed p input now amount"
    using assms unfolding policy_validate_def settlement_allowed_def limit_exceeded_iff daily_spent_def
      amount b Let_def time_is_zero_def
    by (auto simp: not_less not_le split: if_splits)
  then show ?thesis ..
qed

lemma policy_validate_complete:
  assumes "settlement_allowed p input now amount"
  shows "policy_validate p input now = Inr ()"
proof -
  obtain b where b: "vi_TreasuryBalanceRaw input = Some b" and amount: "vi_AmountRaw input = Some amount"
    using assms by (auto simp: settlement_allowed_def)
  show ?thesis
    using assms unfolding policy_validate_def settlement_allowed_def limit_exceeded_iff daily_spent_def
      amount b Let_def time_is_zero_def
    by auto
qed

text \<open>
  C22. The chain of checks of a policy accepts a request exactly when the request is admissible:
  a positive amount within the transfer and daily limits and the treasury balance, an allowed
  token, a recipient that is not blocked, an approved risk decision where the policy wants one,
  a liquidatable intent, a fresh quote and an unused operation.
\<close>

theorem policy_validate_iff_allowed:
  "policy_validate p input now = Inr () \<longleftrightarrow> (\<exists>amount. settlement_allowed p input now amount)"
  using policy_validate_sound policy_validate_complete by blast

lemma BuildInstruction_Inr:
  assumes "BuildInstruction lib clock (Some v) input = Inr i"
  obtains p now where "map_of v (normalizeNetwork (vi_Network input)) = Some p"
    "now = (if vi_Now input = 0 then clock else vi_Now input)"
    "settlement_allowed p input now (si_AmountRaw i)"
    "SettlementOperationID lib (sint (sp_ChainID p)) (AddressHex lib (sp_Vault p))
       (vi_SettlementIntentID input) (AddressHex lib (si_Token i)) (AddressHex lib (si_Recipient i))
       (Some (si_AmountRaw i)) = Inr (si_OperationID i)"
    "si_Network i = sp_Network p" "si_Vault i = sp_Vault p" "si_Token i = vi_Token input"
    "si_Recipient i = vi_Recipient input" "si_ChainID i = sp_ChainID p"
    "si_CreatedAt i = now" "si_ExpiresAt i = now + sp_InstructionTTL p"
proof -
  define now where "now = (if vi_Now input = 0 then clock else vi_Now input)"
  obtain p where p: "map_of v (normalizeNetwork (vi_Network input)) = Some p"
    using assms by (auto simp: BuildInstruction_def split: option.splits)
  have valid: "policy_validate p input now = Inr ()"
    using assms p by (auto simp: BuildInstruction_def Let_def now_def time_is_zero_def split: sum.splits)
  then obtain amount where allowed: "settlement_allowed p input now amount"
    using policy_validate_sound by blast
  then have amount: "vi_AmountRaw input = Some amount" by (simp add: settlement_allowed_def)
  show thesis
    by (rule that [OF p now_def])
      (use assms p valid amount allowed in
        \<open>auto simp: BuildInstruction_def Let_def now_def time_is_zero_def split: sum.splits\<close>)
qed

text \<open>
  C14. An instruction is only issued for an admissible settlement, it carries exactly the validated
  token, recipient and amount and the policy's own vault and chain, its operation identifier is the
  one of those values, and it expires after it was created.
\<close>

theorem BuildInstruction_safe:
  assumes "NewSettlementPolicyValidator ps = Inr v" "BuildInstruction lib clock (Some v) input = Inr i"
  shows "\<exists>p. map_of v (si_Network i) = Some p \<and>
    settlement_allowed p input (si_CreatedAt i) (si_AmountRaw i) \<and>
    si_Vault i = sp_Vault p \<and> si_ChainID i = sp_ChainID p \<and>
    si_Token i = vi_Token input \<and> si_Recipient i = vi_Recipient input \<and>
    SettlementOperationID lib (sint (si_ChainID i)) (AddressHex lib (si_Vault i)) (vi_SettlementIntentID input)
      (AddressHex lib (si_Token i)) (AddressHex lib (si_Recipient i)) (Some (si_AmountRaw i))
      = Inr (si_OperationID i) \<and>
    si_CreatedAt i < si_ExpiresAt i"
proof -
  have ok: "validator_ok v"
    using assms(1) by (rule new_validator_ok)
  obtain p now where p: "map_of v (normalizeNetwork (vi_Network input)) = Some p"
    "now = (if vi_Now input = 0 then clock else vi_Now input)"
    "settlement_allowed p input now (si_AmountRaw i)"
    "SettlementOperationID lib (sint (sp_ChainID p)) (AddressHex lib (sp_Vault p))
       (vi_SettlementIntentID input) (AddressHex lib (si_Token i)) (AddressHex lib (si_Recipient i))
       (Some (si_AmountRaw i)) = Inr (si_OperationID i)"
    "si_Network i = sp_Network p" "si_Vault i = sp_Vault p" "si_Token i = vi_Token input"
    "si_Recipient i = vi_Recipient input" "si_ChainID i = sp_ChainID p"
    "si_CreatedAt i = now" "si_ExpiresAt i = now + sp_InstructionTTL p"
    by (rule BuildInstruction_Inr [OF assms(2)])
  then have "policy_ok (normalizeNetwork (vi_Network input)) p"
    using ok by (simp add: validator_ok_def)
  then have "sp_Network p = normalizeNetwork (vi_Network input)" "0 < sp_InstructionTTL p"
    by (simp_all add: policy_ok_def)
  with p show ?thesis by auto
qed

section \<open>The daily limit over a day of settlements\<close>

text \<open>
  A caller that keeps the running total of what it settled on one network and reports it with
  every request; a refused request leaves the total as it is.
\<close>

fun settle_day ::
  "evm_lib \<Rightarrow> go_time \<Rightarrow> SettlementPolicyValidator \<Rightarrow> int \<Rightarrow> SettlementValidationInput list \<Rightarrow>
     SettlementInstruction list" where
  "settle_day lib clock v spent [] = []"
| "settle_day lib clock v spent (input # rest) =
     (case BuildInstruction lib clock (Some v) (input\<lparr>vi_DailySpentRaw := Some spent\<rparr>) of
        Inl e \<Rightarrow> settle_day lib clock v spent rest
      | Inr i \<Rightarrow> i # settle_day lib clock v (spent + si_AmountRaw i) rest)"

lemma BuildInstruction_daily:
  assumes "BuildInstruction lib clock (Some v) (input\<lparr>vi_DailySpentRaw := Some spent\<rparr>) = Inr i"
    and "map_of v (normalizeNetwork (vi_Network input)) = Some p"
  shows "within_limit (sp_DailyLimitRaw p) (spent + si_AmountRaw i)" "0 < si_AmountRaw i"
proof -
  obtain q where "map_of v (normalizeNetwork (vi_Network input)) = Some q"
    "settlement_allowed q (input\<lparr>vi_DailySpentRaw := Some spent\<rparr>) (si_CreatedAt i) (si_AmountRaw i)"
    using BuildInstruction_Inr [OF assms(1)] by (metis SettlementValidationInput.select_convs(4)
        SettlementValidationInput.surjective SettlementValidationInput.update_convs(17))
  then show "within_limit (sp_DailyLimitRaw p) (spent + si_AmountRaw i)" "0 < si_AmountRaw i"
    using assms(2) by (simp_all add: settlement_allowed_def daily_spent_def)
qed


subsection \<open>Witnesses\<close>

definition sample_policy :: SettlementPolicy where
  "sample_policy = \<lparr>sp_Version = [], sp_NetworkPolicy = ''bsc-usdt-v1'',
     sp_RiskPolicy = ''retail-buy-v2'', sp_ContractVersion = [], sp_Network = ''bep20'',
     sp_ChainID = 56, sp_Vault = 1, sp_AllowedTokens = [(2, True)], sp_BlockedRecipients = [],
     sp_MaxTransferRaw = Some 1500, sp_DailyLimitRaw = Some 2500, sp_RequireRiskApprove = True,
     sp_LiquidatableStates = [(StatusPaymentConfirmed, True)],
     sp_QuoteMaxAge = 10 * minute, sp_InstructionTTL = 0\<rparr>"

definition sample_validator :: SettlementPolicyValidator where
  "sample_validator = [(''BSC'', complete_policy ''BSC'' sample_policy)]"

definition sample_request :: SettlementValidationInput where
  "sample_request = \<lparr>vi_SettlementIntentID = ''intent-1'', vi_OrderID = ''o1'', vi_Side = ''BUY'',
     vi_Network = '' bnb '', vi_ChainID = 56, vi_Vault = 1, vi_Token = 2, vi_Recipient = 3,
     vi_AmountRaw = Some 1000, vi_SourceChannel = ''web'', vi_RiskDecision = ''approved'',
     vi_IntentStatus = StatusPaymentConfirmed, vi_QuoteCreatedAt = 1000, vi_Now = 2000,
     vi_OperationUsed = False, vi_TreasuryBalanceRaw = Some 5000, vi_DailySpentRaw = None\<rparr>"

lemma sample_network: "normalizeNetwork ''bep20'' = ''BSC''" "normalizeNetwork '' bnb '' = ''BSC''"
  by code_simp+

lemma sample_built: "NewSettlementPolicyValidator [sample_policy] = Inr sample_validator"
  by (simp add: NewSettlementPolicyValidator_def sample_validator_def Let_def sample_network sample_policy_def)

theorem NewSettlementPolicyValidator_ok_witness: "validator_ok sample_validator"
  by (rule NewSettlementPolicyValidator_ok [OF sample_built])

lemma sample_accepted:
  "\<exists>i. BuildInstruction sample_lib 0 (Some sample_validator) sample_request = Inr i"
proof -
  have "Sum_Type.isl (BuildInstruction sample_lib 0 (Some sample_validator) sample_request) = False"
    by code_simp
  then show ?thesis by (cases "BuildInstruction sample_lib 0 (Some sample_validator) sample_request") simp_all
qed

theorem BuildInstruction_safe_witness:
  "\<exists>i p. BuildInstruction sample_lib 0 (Some sample_validator) sample_request = Inr i \<and>
     map_of sample_validator (si_Network i) = Some p \<and> si_CreatedAt i < si_ExpiresAt i"
  using sample_accepted BuildInstruction_safe [OF sample_built, of sample_lib 0 sample_request] by blast


end
