(* ===== verification/Reconciliation.thy ===== *)
theory Reconciliation
  imports Evm_Types
begin

text \<open>
  On-chain reconciliation of a settlement (\<open>internal/settlement/reconciliation.go\<close>) and the status
  mapping of the PIX webhook (\<open>internal/settlement/settlement.go\<close>). The event topics are Keccak
  hashes and the ABI decoder comes from go-ethereum: both are fields of \<open>event_lib\<close>, an argument of
  the definitions.
\<close>

section \<open>PIX webhook status\<close>

definition StatusError :: string where
  "StatusError = ''erro''"

definition StatusPaidFiat :: string where
  "StatusPaidFiat = ''pago_fiat''"

definition PixWebhookStatus :: "string \<Rightarrow> string" where
  "PixWebhookStatus providerStatus =
     (let status = to_lower (trim_space providerStatus) in
      if str_contains status ''conclu'' \<or> str_contains status ''aprov'' then StatusPaidFiat
      else if status = ''rejeitado'' \<or> status = ''cancelado'' \<or> status = ''expirado'' then StatusError
      else StatusError)"

definition ShouldPublishBuyPaid :: "string \<Rightarrow> bool" where
  "ShouldPublishBuyPaid status \<longleftrightarrow> status = StatusPaidFiat"

definition IsError :: "string \<Rightarrow> bool" where
  "IsError status \<longleftrightarrow> status = StatusError"

definition IsPaid :: "string \<Rightarrow> bool" where
  "IsPaid status \<longleftrightarrow> status = StatusPaidFiat"

section \<open>Data\<close>

record evm_log =
  log_Address :: address
  log_Topics :: "hash32 list"
  log_Data :: bytes
  log_Index :: nat

record event_lib =
  vaultPayoutTopic :: hash32
  vaultPayoutExecutedTopic :: hash32
  erc20TransferTopic :: hash32
  UnpackUintAddress :: "bytes \<Rightarrow> (int \<times> address) option"
  UnpackUint :: "bytes \<Rightarrow> int option"
  HashHex :: "hash32 \<Rightarrow> string"

record ReconInstruction =
  ri_OperationID :: hash32
  ri_TxHash :: hash32
  ri_ChainID :: "64 word"
  ri_VaultAddress :: address
  ri_TokenAddress :: address
  ri_RecipientAddress :: address
  ri_AmountRaw :: big_int
  ri_OperatorAddress :: address

record ReceiptObservation =
  ro_TxHash :: hash32
  ro_To :: address
  ro_ChainID :: "64 word"
  ro_Status :: "64 word"
  ro_BlockNumber :: "64 word"
  ro_BlockHash :: hash32
  ro_TransactionIndex :: nat
  ro_Confirmations :: "64 word"
  ro_Logs :: "evm_log list"

record VaultPayoutEvent =
  vp_OperationID :: hash32
  vp_Token :: address
  vp_Recipient :: address
  vp_Amount :: int
  vp_Operator :: address
  vp_LogIndex :: nat

record ERC20TransferEvent =
  te_Token :: address
  te_From :: address
  te_To :: address
  te_Value :: int
  te_LogIndex :: nat

record ReconciliationResult =
  rr_OperationID :: string
  rr_TxHash :: string
  rr_ReceiptVerified :: bool
  rr_VaultEventVerified :: bool
  rr_TransferEventVerified :: bool
  rr_ConfirmationsVerified :: bool
  rr_VaultEventLogIndex :: nat
  rr_TransferEventLogIndex :: nat
  rr_BlockNumber :: "64 word"
  rr_BlockHash :: string
  rr_Status :: string
  rr_FailureCode :: string
  rr_FailureField :: string
  rr_ReconciledAt :: go_time

record FinalityPolicy =
  fp_Network :: string
  fp_ChainID :: "64 word"
  fp_RequiredConfirmations :: "64 word"
  fp_ReorgSafetyDepth :: "64 word"
  fp_Version :: string

abbreviation ReconciliationPending :: string where "ReconciliationPending \<equiv> ''PENDING''"
abbreviation ReconciliationReceiptVerified :: string where "ReconciliationReceiptVerified \<equiv> ''RECEIPT_VERIFIED''"
abbreviation ReconciliationVaultEventVerified :: string where "ReconciliationVaultEventVerified \<equiv> ''VAULT_EVENT_VERIFIED''"
abbreviation ReconciliationTokenTransferVerified :: string where "ReconciliationTokenTransferVerified \<equiv> ''TOKEN_TRANSFER_VERIFIED''"
abbreviation ReconciliationConfirming :: string where "ReconciliationConfirming \<equiv> ''CONFIRMING''"
abbreviation ReconciliationFullyReconciled :: string where "ReconciliationFullyReconciled \<equiv> ''FULLY_RECONCILED''"
abbreviation ReconciliationMismatch :: string where "ReconciliationMismatch \<equiv> ''MISMATCH''"

text \<open>The decoder's three outcomes: not this event, undecodable, or an event.\<close>

datatype 'a decoded = NotThisEvent | Undecodable | Event 'a

datatype recon_error = RecErr string string | DecodeErr

section \<open>Operations\<close>

definition DecodeVaultPayoutLog :: "event_lib \<Rightarrow> evm_log \<Rightarrow> VaultPayoutEvent decoded" where
  "DecodeVaultPayoutLog lib log =
     (case log_Topics log of
        [] \<Rightarrow> NotThisEvent
      | t0 # ts \<Rightarrow>
          if t0 \<noteq> vaultPayoutTopic lib \<and> t0 \<noteq> vaultPayoutExecutedTopic lib then NotThisEvent
          else (case ts of
              [t1, t2, t3] \<Rightarrow>
                (case UnpackUintAddress lib (log_Data log) of
                   None \<Rightarrow> Undecodable
                 | Some (amount, operator) \<Rightarrow>
                     Event \<lparr>vp_OperationID = t1, vp_Token = topic_address t2, vp_Recipient = topic_address t3,
                        vp_Amount = amount, vp_Operator = operator, vp_LogIndex = log_Index log\<rparr>)
            | _ \<Rightarrow> Undecodable))"

definition DecodeERC20TransferLog :: "event_lib \<Rightarrow> evm_log \<Rightarrow> ERC20TransferEvent decoded" where
  "DecodeERC20TransferLog lib log =
     (case log_Topics log of
        [] \<Rightarrow> NotThisEvent
      | t0 # ts \<Rightarrow>
          if t0 \<noteq> erc20TransferTopic lib then NotThisEvent
          else (case ts of
              [t1, t2] \<Rightarrow>
                (case UnpackUint lib (log_Data log) of
                   None \<Rightarrow> Undecodable
                 | Some value \<Rightarrow>
                     Event \<lparr>te_Token = log_Address log, te_From = topic_address t1, te_To = topic_address t2,
                        te_Value = value, te_LogIndex = log_Index log\<rparr>)
            | _ \<Rightarrow> Undecodable))"

fun vault_matches ::
  "event_lib \<Rightarrow> ReconInstruction \<Rightarrow> int \<Rightarrow> evm_log list \<Rightarrow> recon_error + VaultPayoutEvent list" where
  "vault_matches lib ins amount [] = Inr []"
| "vault_matches lib ins amount (item # logs) =
     (case DecodeVaultPayoutLog lib item of
        Undecodable \<Rightarrow> Inl DecodeErr
      | NotThisEvent \<Rightarrow> vault_matches lib ins amount logs
      | Event d \<Rightarrow>
          if log_Address item \<noteq> ri_VaultAddress ins then Inl (RecErr ''VAULT_MISMATCH'' ''vaultAddress'')
          else if vp_OperationID d \<noteq> ri_OperationID ins then Inl (RecErr ''OPERATION_ID_MISMATCH'' ''operationId'')
          else if vp_Token d \<noteq> ri_TokenAddress ins then Inl (RecErr ''TOKEN_MISMATCH'' ''tokenAddress'')
          else if vp_Recipient d \<noteq> ri_RecipientAddress ins then Inl (RecErr ''RECIPIENT_MISMATCH'' ''recipientAddress'')
          else if vp_Amount d \<noteq> amount then Inl (RecErr ''AMOUNT_MISMATCH'' ''amountRaw'')
          else if ri_OperatorAddress ins \<noteq> 0 \<and> vp_Operator d \<noteq> ri_OperatorAddress ins
            then Inl (RecErr ''OPERATOR_MISMATCH'' ''operatorAddress'')
          else bind_result (vault_matches lib ins amount logs) (\<lambda>ms. Inr (d # ms)))"

definition findMatchingVaultPayout ::
  "event_lib \<Rightarrow> ReconInstruction \<Rightarrow> int \<Rightarrow> evm_log list \<Rightarrow> recon_error + VaultPayoutEvent" where
  "findMatchingVaultPayout lib ins amount logs =
     bind_result (vault_matches lib ins amount logs)
       (\<lambda>ms. case ms of
          [] \<Rightarrow> Inl (RecErr ''VAULT_EVENT_MISSING'' ''vaultEvent'')
        | [d] \<Rightarrow> Inr d
        | _ \<Rightarrow> Inl (RecErr ''VAULT_EVENT_DUPLICATE'' ''vaultEvent''))"

fun transfer_matches ::
  "event_lib \<Rightarrow> ReconInstruction \<Rightarrow> int \<Rightarrow> evm_log list \<Rightarrow> recon_error + ERC20TransferEvent list" where
  "transfer_matches lib ins amount [] = Inr []"
| "transfer_matches lib ins amount (item # logs) =
     (case DecodeERC20TransferLog lib item of
        Undecodable \<Rightarrow> Inl DecodeErr
      | NotThisEvent \<Rightarrow> transfer_matches lib ins amount logs
      | Event d \<Rightarrow>
          if te_Token d \<noteq> ri_TokenAddress ins then transfer_matches lib ins amount logs
          else if te_From d \<noteq> ri_VaultAddress ins \<or> te_To d \<noteq> ri_RecipientAddress ins \<or> te_Value d \<noteq> amount
            then Inl (RecErr ''TRANSFER_EVENT_MISSING'' ''transferEvent'')
          else bind_result (transfer_matches lib ins amount logs) (\<lambda>ms. Inr (d # ms)))"

definition findMatchingERC20Transfer ::
  "event_lib \<Rightarrow> ReconInstruction \<Rightarrow> int \<Rightarrow> evm_log list \<Rightarrow> recon_error + ERC20TransferEvent" where
  "findMatchingERC20Transfer lib ins amount logs =
     bind_result (transfer_matches lib ins amount logs)
       (\<lambda>ms. case ms of
          [] \<Rightarrow> Inl (RecErr ''TRANSFER_EVENT_MISSING'' ''transferEvent'')
        | [d] \<Rightarrow> Inr d
        | _ \<Rightarrow> Inl (RecErr ''TRANSFER_EVENT_DUPLICATE'' ''transferEvent''))"

fun classifyReconciliationError :: "recon_error \<Rightarrow> string \<times> string" where
  "classifyReconciliationError (RecErr c f) = (c, f)"
| "classifyReconciliationError DecodeErr = (''LOG_DECODE_FAILED'', ''logs'')"

definition result_fail :: "ReconciliationResult \<Rightarrow> string \<Rightarrow> string \<Rightarrow> ReconciliationResult" where
  "result_fail r c f =
     r\<lparr>rr_Status := ReconciliationMismatch, rr_FailureCode := c, rr_FailureField := f\<rparr>"

definition fail_with :: "ReconciliationResult \<Rightarrow> recon_error \<Rightarrow> ReconciliationResult" where
  "fail_with r e = (case classifyReconciliationError e of (c, f) \<Rightarrow> result_fail r c f)"

definition ReconcileSettlement ::
  "event_lib \<Rightarrow> go_time \<Rightarrow> ReconInstruction \<Rightarrow> ReceiptObservation \<Rightarrow> FinalityPolicy \<Rightarrow> ReconciliationResult" where
  "ReconcileSettlement lib now ins receipt finality =
     (let r0 = \<lparr>rr_OperationID = HashHex lib (ri_OperationID ins), rr_TxHash = HashHex lib (ro_TxHash receipt),
                rr_ReceiptVerified = False, rr_VaultEventVerified = False, rr_TransferEventVerified = False,
                rr_ConfirmationsVerified = False, rr_VaultEventLogIndex = 0, rr_TransferEventLogIndex = 0,
                rr_BlockNumber = ro_BlockNumber receipt, rr_BlockHash = HashHex lib (ro_BlockHash receipt),
                rr_Status = ReconciliationPending, rr_FailureCode = [], rr_FailureField = [],
                rr_ReconciledAt = now\<rparr>
      in case ri_AmountRaw ins of
        None \<Rightarrow> result_fail r0 ''AMOUNT_MISMATCH'' ''amountRaw''
      | Some amount \<Rightarrow>
        if amount \<le> 0 then result_fail r0 ''AMOUNT_MISMATCH'' ''amountRaw''
        else if ro_TxHash receipt \<noteq> ri_TxHash ins then result_fail r0 ''TX_HASH_MISMATCH'' ''txHash''
        else if ro_Status receipt \<noteq> 1 then result_fail r0 ''RECEIPT_REVERTED'' ''receipt.status''
        else if ro_ChainID receipt \<noteq> ri_ChainID ins then result_fail r0 ''CHAIN_ID_MISMATCH'' ''chainId''
        else if ro_To receipt \<noteq> ri_VaultAddress ins then result_fail r0 ''TX_TO_MISMATCH'' ''receipt.to''
        else
          (let r1 = r0\<lparr>rr_ReceiptVerified := True, rr_Status := ReconciliationReceiptVerified\<rparr>
           in case findMatchingVaultPayout lib ins amount (ro_Logs receipt) of
             Inl e \<Rightarrow> fail_with r1 e
           | Inr payout \<Rightarrow>
             (let r2 = r1\<lparr>rr_VaultEventVerified := True, rr_VaultEventLogIndex := vp_LogIndex payout,
                          rr_Status := ReconciliationVaultEventVerified\<rparr>
              in case findMatchingERC20Transfer lib ins amount (ro_Logs receipt) of
                Inl e \<Rightarrow> fail_with r2 e
              | Inr transfer \<Rightarrow>
                (let r3 = r2\<lparr>rr_TransferEventVerified := True, rr_TransferEventLogIndex := te_LogIndex transfer,
                             rr_Status := ReconciliationTokenTransferVerified\<rparr>;
                     required = (if fp_RequiredConfirmations finality = 0 then 1
                                 else fp_RequiredConfirmations finality)
                 in if ro_Confirmations receipt < required then r3\<lparr>rr_Status := ReconciliationConfirming\<rparr>
                    else r3\<lparr>rr_ConfirmationsVerified := True, rr_Status := ReconciliationFullyReconciled\<rparr>))))"

section \<open>What the log scans establish\<close>

definition payout_agrees :: "ReconInstruction \<Rightarrow> int \<Rightarrow> VaultPayoutEvent \<Rightarrow> bool" where
  "payout_agrees ins amount d \<longleftrightarrow>
     vp_OperationID d = ri_OperationID ins \<and> vp_Token d = ri_TokenAddress ins \<and>
     vp_Recipient d = ri_RecipientAddress ins \<and> vp_Amount d = amount \<and>
     (ri_OperatorAddress ins = 0 \<or> vp_Operator d = ri_OperatorAddress ins)"

definition transfer_agrees :: "ReconInstruction \<Rightarrow> int \<Rightarrow> ERC20TransferEvent \<Rightarrow> bool" where
  "transfer_agrees ins amount d \<longleftrightarrow>
     te_From d = ri_VaultAddress ins \<and> te_To d = ri_RecipientAddress ins \<and> te_Value d = amount"

definition payouts :: "event_lib \<Rightarrow> evm_log list \<Rightarrow> (evm_log \<times> VaultPayoutEvent) list" where
  "payouts lib logs = concat (map (\<lambda>l. case DecodeVaultPayoutLog lib l of Event d \<Rightarrow> [(l, d)] | _ \<Rightarrow> []) logs)"

definition token_transfers :: "event_lib \<Rightarrow> ReconInstruction \<Rightarrow> evm_log list \<Rightarrow> ERC20TransferEvent list" where
  "token_transfers lib ins logs =
     concat (map (\<lambda>l. case DecodeERC20TransferLog lib l of
        Event d \<Rightarrow> if te_Token d = ri_TokenAddress ins then [d] else [] | _ \<Rightarrow> []) logs)"

lemma vault_matches_spec:
  "vault_matches lib ins amount logs = Inr ms \<longleftrightarrow>
     (\<forall>l \<in> set logs. DecodeVaultPayoutLog lib l \<noteq> Undecodable) \<and>
     (\<forall>(l, d) \<in> set (payouts lib logs). log_Address l = ri_VaultAddress ins \<and> payout_agrees ins amount d) \<and>
     ms = map snd (payouts lib logs)"
proof (induction logs arbitrary: ms)
  case Nil
  show ?case by (auto simp: payouts_def)
next
  case (Cons l logs)
  show ?case
  proof (cases "DecodeVaultPayoutLog lib l")
    case NotThisEvent
    with Cons show ?thesis by (simp add: payouts_def)
  next
    case Undecodable
    then show ?thesis by simp
  next
    case (Event d)
    then have step: "vault_matches lib ins amount (l # logs) = Inr ms \<longleftrightarrow>
        log_Address l = ri_VaultAddress ins \<and> payout_agrees ins amount d \<and>
        (\<exists>ms'. vault_matches lib ins amount logs = Inr ms' \<and> ms = d # ms')"
      by (auto simp: payout_agrees_def bind_result_Inr)
    have pay: "payouts lib (l # logs) = (l, d) # payouts lib logs"
      using Event by (simp add: payouts_def)
    show ?thesis unfolding step Cons.IH pay using Event by auto
  qed
qed

lemma transfer_matches_spec:
  "transfer_matches lib ins amount logs = Inr ms \<longleftrightarrow>
     (\<forall>l \<in> set logs. DecodeERC20TransferLog lib l \<noteq> Undecodable) \<and>
     (\<forall>d \<in> set (token_transfers lib ins logs). transfer_agrees ins amount d) \<and>
     ms = token_transfers lib ins logs"
proof (induction logs arbitrary: ms)
  case Nil
  show ?case by (auto simp: token_transfers_def)
next
  case (Cons l logs)
  show ?case
  proof (cases "DecodeERC20TransferLog lib l")
    case NotThisEvent
    with Cons show ?thesis by (simp add: token_transfers_def)
  next
    case Undecodable
    then show ?thesis by simp
  next
    case (Event d)
    show ?thesis
    proof (cases "te_Token d = ri_TokenAddress ins")
      case False
      with Event Cons show ?thesis by (simp add: token_transfers_def)
    next
      case True
      with Event have step: "transfer_matches lib ins amount (l # logs) = Inr ms \<longleftrightarrow>
          transfer_agrees ins amount d \<and> (\<exists>ms'. transfer_matches lib ins amount logs = Inr ms' \<and> ms = d # ms')"
        by (auto simp: transfer_agrees_def bind_result_Inr)
      have tr: "token_transfers lib ins (l # logs) = d # token_transfers lib ins logs"
        using Event True by (simp add: token_transfers_def)
      show ?thesis unfolding step Cons.IH tr using Event by auto
    qed
  qed
qed

lemma single_case_Inr:
  "(case ms of [] \<Rightarrow> Inl e | [d'] \<Rightarrow> Inr d' | _ \<Rightarrow> Inl e') = Inr d \<longleftrightarrow> ms = [d]"
  by (auto split: list.split)

lemma findMatchingVaultPayout_Inr:
  "findMatchingVaultPayout lib ins amount logs = Inr d \<longleftrightarrow>
     (\<forall>l \<in> set logs. DecodeVaultPayoutLog lib l \<noteq> Undecodable) \<and>
     (\<exists>l. payouts lib logs = [(l, d)] \<and> log_Address l = ri_VaultAddress ins \<and> payout_agrees ins amount d)"
proof -
  have "findMatchingVaultPayout lib ins amount logs = Inr d \<longleftrightarrow> vault_matches lib ins amount logs = Inr [d]"
    by (simp add: findMatchingVaultPayout_def bind_result_Inr single_case_Inr)
  also have "\<dots> \<longleftrightarrow> (\<forall>l \<in> set logs. DecodeVaultPayoutLog lib l \<noteq> Undecodable) \<and>
     (\<exists>l. payouts lib logs = [(l, d)] \<and> log_Address l = ri_VaultAddress ins \<and> payout_agrees ins amount d)"
    unfolding vault_matches_spec by (auto simp: map_eq_Cons_conv eq_commute [of "[d]"])
  finally show ?thesis .
qed

lemma findMatchingERC20Transfer_Inr:
  "findMatchingERC20Transfer lib ins amount logs = Inr d \<longleftrightarrow>
     (\<forall>l \<in> set logs. DecodeERC20TransferLog lib l \<noteq> Undecodable) \<and>
     token_transfers lib ins logs = [d] \<and> transfer_agrees ins amount d"
proof -
  have "findMatchingERC20Transfer lib ins amount logs = Inr d \<longleftrightarrow> transfer_matches lib ins amount logs = Inr [d]"
    by (simp add: findMatchingERC20Transfer_def bind_result_Inr single_case_Inr)
  also have "\<dots> \<longleftrightarrow> (\<forall>l \<in> set logs. DecodeERC20TransferLog lib l \<noteq> Undecodable) \<and>
     token_transfers lib ins logs = [d] \<and> transfer_agrees ins amount d"
    unfolding transfer_matches_spec by (auto dest: sym)
  finally show ?thesis .
qed

section \<open>Reconciliation is sound\<close>

definition required_confirmations :: "FinalityPolicy \<Rightarrow> 64 word" where
  "required_confirmations finality =
     (if fp_RequiredConfirmations finality = 0 then 1 else fp_RequiredConfirmations finality)"

text \<open>The receipt and both events are the expected ones: what \<open>CONFIRMING\<close> and \<open>FULLY_RECONCILED\<close> mean.\<close>

definition evidence :: "event_lib \<Rightarrow> ReconInstruction \<Rightarrow> ReceiptObservation \<Rightarrow> bool" where
  "evidence lib ins receipt \<longleftrightarrow>
     (\<exists>amount l d t. ri_AmountRaw ins = Some amount \<and> 0 < amount \<and>
        ro_TxHash receipt = ri_TxHash ins \<and> ro_Status receipt = 1 \<and> ro_ChainID receipt = ri_ChainID ins \<and>
        ro_To receipt = ri_VaultAddress ins \<and>
        payouts lib (ro_Logs receipt) = [(l, d)] \<and> log_Address l = ri_VaultAddress ins \<and>
        payout_agrees ins amount d \<and>
        token_transfers lib ins (ro_Logs receipt) = [t] \<and> transfer_agrees ins amount t \<and>
        (\<forall>k \<in> set (ro_Logs receipt).
           DecodeVaultPayoutLog lib k \<noteq> Undecodable \<and> DecodeERC20TransferLog lib k \<noteq> Undecodable))"

lemma result_status:
  "rr_Status (result_fail r c f) = ReconciliationMismatch" "rr_Status (fail_with r e) = ReconciliationMismatch"
  by (simp_all add: result_fail_def fail_with_def split: prod.split)

lemma evidence_find:
  "evidence lib ins receipt \<longleftrightarrow>
     (\<exists>amount d t. ri_AmountRaw ins = Some amount \<and> 0 < amount \<and>
        ro_TxHash receipt = ri_TxHash ins \<and> ro_Status receipt = 1 \<and> ro_ChainID receipt = ri_ChainID ins \<and>
        ro_To receipt = ri_VaultAddress ins \<and>
        findMatchingVaultPayout lib ins amount (ro_Logs receipt) = Inr d \<and>
        findMatchingERC20Transfer lib ins amount (ro_Logs receipt) = Inr t)"
  unfolding evidence_def findMatchingVaultPayout_Inr findMatchingERC20Transfer_Inr by blast

lemma ReconcileSettlement_status:
  "rr_Status (ReconcileSettlement lib now ins receipt finality) =
     (if \<not> evidence lib ins receipt then ReconciliationMismatch
      else if ro_Confirmations receipt < required_confirmations finality then ReconciliationConfirming
      else ReconciliationFullyReconciled)"
proof (cases "ri_AmountRaw ins")
  case None
  then show ?thesis by (simp add: ReconcileSettlement_def evidence_find result_status Let_def)
next
  case (Some amount)
  show ?thesis
    unfolding ReconcileSettlement_def evidence_find required_confirmations_def Let_def Some
    by (cases "findMatchingVaultPayout lib ins amount (ro_Logs receipt)";
        cases "findMatchingERC20Transfer lib ins amount (ro_Logs receipt)")
      (simp_all add: result_status)
qed

text \<open>
  C23. A settlement is reported as fully reconciled exactly when the receipt is the successful
  receipt of the instructed transaction to the vault on the right chain, it holds exactly one vault
  payout, emitted by the vault, for the instructed operation, token, recipient and amount, exactly
  one transfer of the token, from the vault to the recipient for that amount, every log decodes,
  and the required confirmations (at least one) are there.
\<close>

theorem fully_reconciled_iff:
  "rr_Status (ReconcileSettlement lib now ins receipt finality) = ReconciliationFullyReconciled \<longleftrightarrow>
     evidence lib ins receipt \<and> required_confirmations finality \<le> ro_Confirmations receipt"
  by (auto simp: ReconcileSettlement_status not_less)

text \<open>
  Waiting is enough: once a settlement is confirming, any later observation of the same
  receipt with enough confirmations is fully reconciled, and a mismatch stays a mismatch whatever
  the number of confirmations.
\<close>

theorem confirmations_only_promote:
  "rr_Status (ReconcileSettlement lib now' ins (receipt\<lparr>ro_Confirmations := c\<rparr>) finality) =
    (if rr_Status (ReconcileSettlement lib now ins receipt finality) = ReconciliationMismatch
     then ReconciliationMismatch
     else if required_confirmations finality \<le> c then ReconciliationFullyReconciled
     else ReconciliationConfirming)"
proof -
  have "evidence lib ins (receipt\<lparr>ro_Confirmations := c\<rparr>) = evidence lib ins receipt"
    by (simp add: evidence_def)
  then show ?thesis by (auto simp: ReconcileSettlement_status not_less)
qed

lemma evidence_flags:
  assumes "r = ReconcileSettlement lib now ins receipt finality"
  shows "rr_ConfirmationsVerified r = (rr_Status r = ReconciliationFullyReconciled)"
    and "rr_ConfirmationsVerified r \<longrightarrow> rr_TransferEventVerified r"
    and "rr_TransferEventVerified r \<longrightarrow> rr_VaultEventVerified r"
    and "rr_VaultEventVerified r \<longrightarrow> rr_ReceiptVerified r"
    and "(rr_Status r = ReconciliationMismatch) = (\<not> rr_TransferEventVerified r)"
  unfolding assms ReconcileSettlement_def Let_def result_fail_def fail_with_def
  by (auto split: option.split sum.split prod.split)

text \<open>
  The verification flags of a result are a chain and agree with its status: confirmations are
  only verified after the token transfer, that only after the vault event, that only after the
  receipt; the status is a mismatch exactly when the token transfer was not verified.
\<close>

theorem reconciliation_flags_agree:
  "let r = ReconcileSettlement lib now ins receipt finality in
    rr_ConfirmationsVerified r = (rr_Status r = ReconciliationFullyReconciled) \<and>
    (rr_ConfirmationsVerified r \<longrightarrow> rr_TransferEventVerified r) \<and>
    (rr_TransferEventVerified r \<longrightarrow> rr_VaultEventVerified r) \<and>
    (rr_VaultEventVerified r \<longrightarrow> rr_ReceiptVerified r) \<and>
    (rr_Status r = ReconciliationMismatch \<longleftrightarrow> \<not> rr_TransferEventVerified r)"
  using evidence_flags [OF refl, of lib now ins receipt finality] unfolding Let_def by blast

text \<open>
  A single log that carries the ERC-20 Transfer topic but not exactly three topics, as every
  ERC-721 transfer does, makes reconciliation report a mismatch, whichever contract emitted it and
  however good the rest of the receipt is.
\<close>

theorem foreign_transfer_blocks_reconciliation:
  assumes "l \<in> set (ro_Logs receipt)" "log_Topics l = erc20TransferTopic lib # ts" "length ts \<noteq> 2"
  shows "rr_Status (ReconcileSettlement lib now ins receipt finality) = ReconciliationMismatch"
proof -
  have "DecodeERC20TransferLog lib l = Undecodable"
    using assms(2,3) by (auto simp: DecodeERC20TransferLog_def split: list.split)
  then have "\<not> evidence lib ins receipt"
    using assms(1) by (auto simp: evidence_def)
  then show ?thesis by (simp add: ReconcileSettlement_status)
qed

subsection \<open>Witnesses\<close>

definition sample_events :: event_lib where
  "sample_events = \<lparr>vaultPayoutTopic = 100, vaultPayoutExecutedTopic = 101, erc20TransferTopic = 102,
     UnpackUintAddress = (\<lambda>d. Some (int (digits_val d), 9)), UnpackUint = (\<lambda>d. Some (int (digits_val d))),
     HashHex = (\<lambda>h. nat_str (unat h))\<rparr>"

definition sample_instruction :: ReconInstruction where
  "sample_instruction = \<lparr>ri_OperationID = 77, ri_TxHash = 5, ri_ChainID = 56, ri_VaultAddress = 1,
     ri_TokenAddress = 2, ri_RecipientAddress = 3, ri_AmountRaw = Some 1000, ri_OperatorAddress = 9\<rparr>"

definition sample_receipt :: ReceiptObservation where
  "sample_receipt = \<lparr>ro_TxHash = 5, ro_To = 1, ro_ChainID = 56, ro_Status = 1, ro_BlockNumber = 10,
     ro_BlockHash = 6, ro_TransactionIndex = 0, ro_Confirmations = 12,
     ro_Logs = [\<lparr>log_Address = 2, log_Topics = [102, 1, 3], log_Data = ''1000'', log_Index = 4\<rparr>,
                \<lparr>log_Address = 1, log_Topics = [101, 77, 2, 3], log_Data = ''1000'', log_Index = 5\<rparr>]\<rparr>"

definition sample_nft_log :: evm_log where
  "sample_nft_log = \<lparr>log_Address = 44, log_Topics = [102, 1, 3, 8], log_Data = [], log_Index = 6\<rparr>"

definition sample_finality :: FinalityPolicy where
  "sample_finality = \<lparr>fp_Network = ''BSC'', fp_ChainID = 56, fp_RequiredConfirmations = 12,
     fp_ReorgSafetyDepth = 0, fp_Version = ''v1''\<rparr>"

lemma sample_reconciles:
  "rr_Status (ReconcileSettlement sample_events 0 sample_instruction sample_receipt sample_finality) =
     ReconciliationFullyReconciled"
  by code_simp

theorem reconciliation_flags_agree_witness:
  "rr_TransferEventVerified
     (ReconcileSettlement sample_events 0 sample_instruction sample_receipt sample_finality)"
  using sample_reconciles
    reconciliation_flags_agree [of sample_events 0 sample_instruction sample_receipt sample_finality]
  unfolding Let_def by blast

theorem foreign_transfer_blocks_reconciliation_witness:
  "rr_Status (ReconcileSettlement sample_events 0 sample_instruction
     (sample_receipt\<lparr>ro_Logs := ro_Logs sample_receipt @ [sample_nft_log]\<rparr>) sample_finality) =
   ReconciliationMismatch"
  by (rule foreign_transfer_blocks_reconciliation [where l = sample_nft_log and ts = "[1, 3, 8]"])
    (simp_all add: sample_nft_log_def sample_events_def)

end
