(* ===== verification/Circuit_Breaker.thy ===== *)
theory Circuit_Breaker
  imports Go_Strings Evm_Types
begin

text \<open>
  The circuit breaker of \<open>internal/resilience/circuit_breaker.go\<close> and the retry loop of
  \<open>retry.go\<close>. Every critical section of the Go code (a section under \<open>cb.mu\<close>, or one atomic
  operation on \<open>probeInFlight\<close>) is one function on the breaker's state, so that interleavings of
  concurrent calls are sequences of these functions. The caller's function is a function on a
  world state: a call that is rejected leaves the world as it was.
\<close>

section \<open>State\<close>

datatype State = StateClosed | StateOpen | StateHalfOpen

fun State_String :: "State \<Rightarrow> string" where
  "State_String StateClosed = ''closed''"
| "State_String StateOpen = ''open''"
| "State_String StateHalfOpen = ''half-open''"

record 'e CBConfig =
  MaxFailures :: int64
  ResetTimeout :: duration
  HalfOpenSuccess :: int64
  IgnoreError :: "('e \<Rightarrow> bool) option"

record 'e CircuitBreaker =
  cb_name :: string
  cb_state :: State
  failures :: int64
  successes :: int64
  lastTrip :: go_time
  probeInFlight :: bool
  maxFailures :: int64
  resetTimeout :: duration
  halfOpenSuccess :: int64
  cb_ignore :: "('e \<Rightarrow> bool) option"

text \<open>An error of \<open>Execute\<close>: the breaker's own (wrapping \<open>ErrCircuitOpen\<close>) or the function's.\<close>

datatype 'e cb_error = ErrCircuitOpen string | FnError 'e

section \<open>Operations\<close>

definition NewCircuitBreaker :: "string \<Rightarrow> 'e CBConfig \<Rightarrow> 'e CircuitBreaker" where
  "NewCircuitBreaker name cfg =
     \<lparr> cb_name = name, cb_state = StateClosed, failures = 0, successes = 0, lastTrip = 0,
       probeInFlight = False,
       maxFailures = (if MaxFailures cfg \<le> 0 then 5 else MaxFailures cfg),
       resetTimeout = (if ResetTimeout cfg \<le> 0 then 30 * second else ResetTimeout cfg),
       halfOpenSuccess = (if HalfOpenSuccess cfg \<le> 0 then 2 else HalfOpenSuccess cfg),
       cb_ignore = None \<rparr>"

definition maybeTransitionToHalfOpen :: "go_time \<Rightarrow> 'e CircuitBreaker \<Rightarrow> 'e CircuitBreaker" where
  "maybeTransitionToHalfOpen now cb =
     (if cb_state cb = StateOpen \<and> resetTimeout cb \<le> time_sub now (lastTrip cb)
      then cb\<lparr>cb_state := StateHalfOpen, successes := 0, probeInFlight := False\<rparr>
      else cb)"

text \<open>
  \<open>allow\<close> is two atomic sections: the state is read under the mutex (\<open>allow_check\<close>), then the
  switch acts on that snapshot, with a compare-and-swap when it was half-open (\<open>allow_decide\<close>).
\<close>

definition allow_check :: "go_time \<Rightarrow> 'e CircuitBreaker \<Rightarrow> State \<times> 'e CircuitBreaker" where
  "allow_check now cb = (let cb' = maybeTransitionToHalfOpen now cb in (cb_state cb', cb'))"

definition allow_decide ::
  "State \<Rightarrow> 'e CircuitBreaker \<Rightarrow> 'e cb_error option \<times> 'e CircuitBreaker" where
  "allow_decide snapshot cb =
     (case snapshot of
        StateClosed \<Rightarrow> (None, cb)
      | StateOpen \<Rightarrow> (Some (ErrCircuitOpen (cb_name cb)), cb)
      | StateHalfOpen \<Rightarrow>
          if \<not> probeInFlight cb then (None, cb\<lparr>probeInFlight := True\<rparr>)
          else (Some (ErrCircuitOpen (cb_name cb @ '' (half-open, probe in flight)'')), cb))"

definition allow :: "go_time \<Rightarrow> 'e CircuitBreaker \<Rightarrow> 'e cb_error option \<times> 'e CircuitBreaker" where
  "allow now cb = (case allow_check now cb of (snapshot, cb') \<Rightarrow> allow_decide snapshot cb')"

definition onSuccess :: "'e CircuitBreaker \<Rightarrow> 'e CircuitBreaker" where
  "onSuccess cb =
     (let cb = cb\<lparr>failures := 0\<rparr> in
      if cb_state cb = StateHalfOpen then
        let cb = cb\<lparr>probeInFlight := False, successes := i64_add (successes cb) 1\<rparr> in
        if halfOpenSuccess cb \<le> successes cb then cb\<lparr>cb_state := StateClosed, successes := 0\<rparr>
        else cb
      else cb)"

definition onFailure :: "go_time \<Rightarrow> 'e CircuitBreaker \<Rightarrow> 'e CircuitBreaker" where
  "onFailure now cb =
     (if cb_state cb = StateHalfOpen then
        cb\<lparr>probeInFlight := False, cb_state := StateOpen, lastTrip := now, successes := 0\<rparr>
      else
        let cb = cb\<lparr>failures := i64_add (failures cb) 1\<rparr> in
        if maxFailures cb \<le> failures cb \<and> cb_state cb \<noteq> StateOpen
        then cb\<lparr>cb_state := StateOpen, lastTrip := now\<rparr>
        else cb)"

definition cb_record :: "go_time \<Rightarrow> 'e option \<Rightarrow> 'e CircuitBreaker \<Rightarrow> 'e CircuitBreaker" where
  "cb_record now err cb =
     (case err of
        None \<Rightarrow> onSuccess cb
      | Some e \<Rightarrow>
          (case cb_ignore cb of
             None \<Rightarrow> onFailure now cb
           | Some ign \<Rightarrow> if ign e then cb else onFailure now cb))"

definition GetState :: "go_time \<Rightarrow> 'e CircuitBreaker \<Rightarrow> State \<times> 'e CircuitBreaker" where
  "GetState now cb = (let cb = maybeTransitionToHalfOpen now cb in (cb_state cb, cb))"

text \<open>\<open>Execute\<close> with the clock readings of \<open>allow\<close> and of \<open>record\<close>.\<close>

definition Execute ::
  "go_time \<Rightarrow> go_time \<Rightarrow> ('w \<Rightarrow> 'e option \<times> 'w) \<Rightarrow> 'e CircuitBreaker \<Rightarrow> 'w \<Rightarrow>
   'e cb_error option \<times> 'e CircuitBreaker \<times> 'w" where
  "Execute t1 t2 fn cb w =
     (case allow t1 cb of
        (Some err, cb) \<Rightarrow> (Some err, cb, w)
      | (None, cb) \<Rightarrow>
          (case fn w of (err, w) \<Rightarrow> (map_option FnError err, cb_record t2 err cb, w)))"

lemmas cb_ops = maybeTransitionToHalfOpen_def allow_check_def allow_decide_def allow_def
  onSuccess_def onFailure_def cb_record_def GetState_def Let_def

section \<open>The invariant\<close>

definition cb_inv :: "'e CircuitBreaker \<Rightarrow> bool" where
  "cb_inv cb \<longleftrightarrow>
     0 < maxFailures cb \<and> in_int64 (maxFailures cb) \<and>
     0 < halfOpenSuccess cb \<and> in_int64 (halfOpenSuccess cb) \<and>
     0 < resetTimeout cb \<and> in_int64 (resetTimeout cb) \<and>
     in_int64 (failures cb) \<and>
     (cb_state cb = StateClosed \<longrightarrow> 0 \<le> failures cb \<and> failures cb < maxFailures cb) \<and>
     0 \<le> successes cb \<and> successes cb < halfOpenSuccess cb \<and>
     (cb_state cb \<noteq> StateHalfOpen \<longrightarrow> successes cb = 0)"

definition cfg_ok :: "'e CBConfig \<Rightarrow> bool" where
  "cfg_ok cfg \<longleftrightarrow> in_int64 (MaxFailures cfg) \<and> in_int64 (ResetTimeout cfg) \<and>
     in_int64 (HalfOpenSuccess cfg)"

lemma in_int64_Suc_below: "in_int64 b \<Longrightarrow> 0 \<le> a \<Longrightarrow> a < b \<Longrightarrow> in_int64 (a + 1)"
  by (simp add: in_int64_def min_int64_def max_int64_def)

lemma NewCircuitBreaker_inv: "cfg_ok cfg \<Longrightarrow> cb_inv (NewCircuitBreaker name cfg)"
  by (auto simp: cfg_ok_def cb_inv_def NewCircuitBreaker_def duration_defs in_int64_def
      min_int64_def max_int64_def)

lemma maybeTransition_inv: "cb_inv cb \<Longrightarrow> cb_inv (maybeTransitionToHalfOpen now cb)"
  by (auto simp: cb_inv_def maybeTransitionToHalfOpen_def)

lemma allow_decide_inv: "cb_inv cb \<Longrightarrow> cb_inv (snd (allow_decide st cb))"
  by (auto simp: cb_inv_def allow_decide_def split: State.split)

lemma onSuccess_inv: "cb_inv cb \<Longrightarrow> cb_inv (onSuccess cb)"
  using in_int64_Suc_below [of "halfOpenSuccess cb" "successes cb"]
  by (auto simp: cb_inv_def onSuccess_def Let_def i64_add_def)

lemma onFailure_inv: "cb_inv cb \<Longrightarrow> cb_inv (onFailure now cb)"
  using in_int64_Suc_below [of "maxFailures cb" "failures cb"]
  by (cases "cb_state cb") (auto simp: cb_inv_def onFailure_def Let_def i64_add_def)

lemma cb_record_inv: "cb_inv cb \<Longrightarrow> cb_inv (cb_record now err cb)"
  by (auto simp: cb_record_def onSuccess_inv onFailure_inv split: option.split)

text \<open>One event per critical section of the code.\<close>

datatype 'e cb_event =
    EvCheck go_time
  | EvDecide State
  | EvRecord go_time "'e option"

fun cb_step :: "'e CircuitBreaker \<Rightarrow> 'e cb_event \<Rightarrow> 'e CircuitBreaker" where
  "cb_step cb (EvCheck now) = snd (allow_check now cb)"
| "cb_step cb (EvDecide st) = snd (allow_decide st cb)"
| "cb_step cb (EvRecord now err) = cb_record now err cb"

lemma cb_step_inv: "cb_inv cb \<Longrightarrow> cb_inv (cb_step cb ev)"
  by (cases ev) (simp_all add: maybeTransition_inv allow_decide_inv cb_record_inv allow_check_def Let_def)

interpretation cb: transition_system
  "\<lambda>cb. \<exists>name cfg. cfg_ok cfg \<and> cb = NewCircuitBreaker name cfg" cb_step "\<lambda>_ _. True" cb_inv
  by unfold_locales (auto simp: NewCircuitBreaker_inv cb_step_inv)

section \<open>Sequential behaviour\<close>

lemma maybe_id: "cb_state cb \<noteq> StateOpen \<Longrightarrow> maybeTransitionToHalfOpen now cb = cb"
  by (simp add: maybeTransitionToHalfOpen_def)

lemma allow_closed: "cb_state cb = StateClosed \<Longrightarrow> allow now cb = (None, cb)"
  by (simp add: cb_ops)

lemma Execute_admitted:
  "allow t1 cb = (None, cb') \<Longrightarrow> fn w = (err, w') \<Longrightarrow>
   Execute t1 t2 fn cb w = (map_option FnError err, cb_record t2 err cb', w')"
  by (simp add: Execute_def)

text \<open>A run of calls, one after the other, with their clock readings and outcomes.\<close>

definition seq_call :: "go_time \<Rightarrow> go_time \<Rightarrow> 'e option \<Rightarrow> 'e CircuitBreaker \<Rightarrow> 'e CircuitBreaker" where
  "seq_call t1 t2 err cb = fst (snd (Execute t1 t2 (\<lambda>_. (err, ())) cb ()))"

fun run_calls :: "(go_time \<times> go_time \<times> 'e option) list \<Rightarrow> 'e CircuitBreaker \<Rightarrow> 'e CircuitBreaker" where
  "run_calls [] cb = cb"
| "run_calls ((t1, t2, err) # cs) cb =
     run_calls cs (seq_call t1 t2 err cb)"

lemma run_calls_fail_step:
  "cb_inv cb \<Longrightarrow> cb_ignore cb = None \<Longrightarrow> cb_state cb = StateClosed \<Longrightarrow>
   seq_call t1 t2 (Some e) cb =
     (if failures cb + 1 < maxFailures cb then cb\<lparr>failures := failures cb + 1\<rparr>
      else cb\<lparr>failures := failures cb + 1, cb_state := StateOpen, lastTrip := t2\<rparr>)"
  using in_int64_Suc_below [of "maxFailures cb" "failures cb"]
  by (auto simp: seq_call_def Execute_def allow_closed cb_record_def onFailure_def Let_def cb_inv_def i64_add_def)

lemma run_calls_fail:
  assumes "cb_inv cb" "cb_ignore cb = None" "cb_state cb = StateClosed"
    and "list_all (\<lambda>(_, _, err). err \<noteq> None) cs"
    and "int (length cs) = maxFailures cb - failures cb"
  shows "cb_state (run_calls cs cb) = StateOpen \<and> lastTrip (run_calls cs cb) = fst (snd (last cs))"
  using assms
proof (induction cs arbitrary: cb)
  case Nil
  then show ?case by (simp add: cb_inv_def)
next
  case (Cons c cs)
  obtain t1 t2 e where c: "c = (t1, t2, Some e)" using Cons.prems(4) by (cases c) auto
  let ?cb = "seq_call t1 t2 (Some e) cb"
  note st = run_calls_fail_step [OF Cons.prems(1-3), of t1 t2 e]
  show ?case
  proof (cases cs)
    case Nil
    with Cons.prems(5) have "\<not> failures cb + 1 < maxFailures cb" by simp
    with Nil c st show ?thesis by simp
  next
    case cs: (Cons d ds)
    with Cons.prems(5) have lt: "failures cb + 1 < maxFailures cb" by simp
    have inv: "cb_inv ?cb" using Cons.prems(1) lt in_int64_Suc_below [of "maxFailures cb" "failures cb"]
      by (simp add: st cb_inv_def Cons.prems(3))
    have "cb_state (run_calls cs ?cb) = StateOpen \<and> lastTrip (run_calls cs ?cb) = fst (snd (last cs))"
      by (rule Cons.IH) (use Cons.prems lt inv in \<open>simp_all add: st\<close>)
    with c cs show ?thesis by simp
  qed
qed

lemma half_open_success:
  assumes "cb_inv cb" "cb_state cb = StateHalfOpen" "\<not> probeInFlight cb"
  shows "seq_call t1 t2 None cb =
     (if successes cb + 1 < halfOpenSuccess cb
      then cb\<lparr>failures := 0, probeInFlight := False, successes := successes cb + 1\<rparr>
      else cb\<lparr>failures := 0, probeInFlight := False, successes := 0, cb_state := StateClosed\<rparr>)"
  using assms in_int64_Suc_below [of "halfOpenSuccess cb" "successes cb"]
  by (auto simp: seq_call_def Execute_def cb_ops cb_inv_def i64_add_def)

lemma run_calls_recover:
  assumes "cb_inv cb" "cb_state cb = StateHalfOpen" "\<not> probeInFlight cb"
    and "list_all (\<lambda>(_, _, err). err = None) cs"
    and "int (length cs) = halfOpenSuccess cb - successes cb"
  shows "cb_state (run_calls cs cb) = StateClosed \<and> failures (run_calls cs cb) = 0"
  using assms
proof (induction cs arbitrary: cb)
  case Nil
  then show ?case by (simp add: cb_inv_def)
next
  case (Cons c cs)
  obtain t1 t2 where c: "c = (t1, t2, None)" using Cons.prems(4) by (cases c) auto
  let ?cb = "seq_call t1 t2 None cb"
  note st = half_open_success [OF Cons.prems(1-3), of t1 t2]
  show ?case
  proof (cases cs)
    case Nil
    with Cons.prems(5) have "\<not> successes cb + 1 < halfOpenSuccess cb" by simp
    with Nil c st show ?thesis by simp
  next
    case cs: (Cons d ds)
    with Cons.prems(5) have lt: "successes cb + 1 < halfOpenSuccess cb" by simp
    have "cb_state (run_calls cs ?cb) = StateClosed \<and> failures (run_calls cs ?cb) = 0"
      by (rule Cons.IH) (use Cons.prems lt in \<open>simp_all add: st cb_inv_def\<close>)
    with c show ?thesis by simp
  qed
qed

lemma Execute_open_elapsed:
  assumes "cb_state cb = StateOpen" "resetTimeout cb \<le> time_sub t1 (lastTrip cb)"
  shows "Execute t1 t2 fn cb w = Execute t1 t2 fn (cb\<lparr>cb_state := StateHalfOpen, successes := 0, probeInFlight := False\<rparr>) w"
  using assms by (simp add: Execute_def cb_ops)

lemma run_calls_recover_open:
  assumes "cb_inv cb" "cb_state cb = StateOpen"
    and "list_all (\<lambda>(_, _, err). err = None) cs"
    and "int (length cs) = halfOpenSuccess cb"
    and "lastTrip cb + resetTimeout cb \<le> fst (hd cs)"
  shows "cb_state (run_calls cs cb) = StateClosed \<and> failures (run_calls cs cb) = 0"
proof -
  let ?cb = "cb\<lparr>cb_state := StateHalfOpen, successes := 0, probeInFlight := False\<rparr>"
  from assms(1,4) obtain c cs' where cs: "cs = c # cs'" by (cases cs) (auto simp: cb_inv_def)
  obtain t1 t2 e where c: "c = (t1, t2, e)" by (cases c)
  have "resetTimeout cb \<le> time_sub t1 (lastTrip cb)"
    using assms(1,5) cs c by (simp add: cb_inv_def time_sub_ge)
  then have "run_calls cs cb = run_calls cs ?cb"
    by (simp add: cs c seq_call_def Execute_open_elapsed [OF assms(2)])
  moreover have "cb_state (run_calls cs ?cb) = StateClosed \<and> failures (run_calls cs ?cb) = 0"
    by (rule run_calls_recover) (use assms in \<open>auto simp: cb_inv_def\<close>)
  ultimately show ?thesis by simp
qed


definition sample_cfg :: "nat CBConfig" where
  "sample_cfg = \<lparr> MaxFailures = 2, ResetTimeout = 10, HalfOpenSuccess = 1, IgnoreError = None \<rparr>"

definition sample_open :: "nat CircuitBreaker" where
  "sample_open = run_calls [(1, 2, Some 0), (3, 4, Some 0)] (NewCircuitBreaker ''db'' sample_cfg)"


section \<open>Concurrent calls\<close>

text \<open>
  Any number of goroutines call \<open>Execute\<close> on one breaker. A call is between its two sections of
  \<open>allow\<close> (\<open>Checked\<close> with the state it read), or running the function (\<open>Running\<close>, with True when
  it was admitted as a half-open probe). The clock only moves forward.
\<close>

datatype call_pc = Checked State | Running bool

record 'e cb_sys =
  sys_cb :: "'e CircuitBreaker"
  sys_clock :: go_time
  sys_calls :: "(nat, call_pc) go_map"

datatype 'e sys_event = Start nat | Decide nat | Finish nat "'e option" | Tick duration

fun enabled :: "'e cb_sys \<Rightarrow> 'e sys_event \<Rightarrow> bool" where
  "enabled s (Start c) = (map_of (sys_calls s) c = None)"
| "enabled s (Decide c) = (case map_of (sys_calls s) c of Some (Checked st) \<Rightarrow> True | _ \<Rightarrow> False)"
| "enabled s (Finish c err) = (case map_of (sys_calls s) c of Some (Running p) \<Rightarrow> True | _ \<Rightarrow> False)"
| "enabled s (Tick d) = (0 \<le> d)"

fun sys_step :: "'e cb_sys \<Rightarrow> 'e sys_event \<Rightarrow> 'e cb_sys" where
  "sys_step s (Start c) =
     (case allow_check (sys_clock s) (sys_cb s) of (st, cb) \<Rightarrow>
        s\<lparr>sys_cb := cb, sys_calls := AList.update c (Checked st) (sys_calls s)\<rparr>)"
| "sys_step s (Decide c) =
     (case map_of (sys_calls s) c of
        Some (Checked st) \<Rightarrow>
          (case allow_decide st (sys_cb s) of
             (None, cb) \<Rightarrow> s\<lparr>sys_cb := cb,
               sys_calls := AList.update c (Running (st = StateHalfOpen)) (sys_calls s)\<rparr>
           | (Some e, cb) \<Rightarrow> s\<lparr>sys_cb := cb, sys_calls := AList.delete c (sys_calls s)\<rparr>)
      | _ \<Rightarrow> s)"
| "sys_step s (Finish c err) =
     s\<lparr>sys_cb := cb_record (sys_clock s) err (sys_cb s), sys_calls := AList.delete c (sys_calls s)\<rparr>"
| "sys_step s (Tick d) = s\<lparr>sys_clock := sys_clock s + d\<rparr>"

inductive cb_reach :: "'e cb_sys \<Rightarrow> 'e cb_sys \<Rightarrow> bool" for s0 where
  cb_reach_refl: "cb_reach s0 s0"
| cb_reach_step: "cb_reach s0 s \<Longrightarrow> enabled s ev \<Longrightarrow> cb_reach s0 (sys_step s ev)"

text \<open>Steps during one half-open episode: the breaker has not left the state.\<close>

inductive episode :: "'e cb_sys \<Rightarrow> 'e cb_sys \<Rightarrow> bool" for s0 where
  episode_refl: "episode s0 s0"
| episode_step: "episode s0 s \<Longrightarrow> enabled s ev \<Longrightarrow>
    cb_state (sys_cb (sys_step s ev)) = StateHalfOpen \<Longrightarrow> episode s0 (sys_step s ev)"

definition sys_init :: "string \<Rightarrow> 'e CBConfig \<Rightarrow> go_time \<Rightarrow> 'e cb_sys" where
  "sys_init name cfg t0 = \<lparr> sys_cb = NewCircuitBreaker name cfg, sys_clock = t0, sys_calls = [] \<rparr>"

definition running :: "'e cb_sys \<Rightarrow> nat set" where
  "running s = {c. \<exists>p. map_of (sys_calls s) c = Some (Running p)}"

definition probes :: "'e cb_sys \<Rightarrow> nat set" where
  "probes s = {c. map_of (sys_calls s) c = Some (Running True)}"

lemma sys_step_inv: "cb_inv (sys_cb s) \<Longrightarrow> cb_inv (sys_cb (sys_step s ev))"
proof (cases ev)
  case (Decide c)
  assume "cb_inv (sys_cb s)"
  then have "cb_inv (snd (allow_decide st (sys_cb s)))" for st by (rule allow_decide_inv)
  with Decide \<open>cb_inv (sys_cb s)\<close> show ?thesis
    by (simp split: option.split call_pc.split prod.split) (metis snd_conv)
qed (simp_all add: cb_record_inv allow_check_def maybeTransition_inv Let_def)

lemma cb_reach_inv: "cb_reach s0 s \<Longrightarrow> cb_inv (sys_cb s0) \<Longrightarrow> cb_inv (sys_cb s)"
  by (induction rule: cb_reach.induct) (auto intro: sys_step_inv)

text \<open>
  What holds during an episode that began with no call in flight: every admitted call is the
  probe, and the flag says whether there is one.
\<close>

definition episode_inv :: "'e cb_sys \<Rightarrow> bool" where
  "episode_inv s \<longleftrightarrow>
     cb_state (sys_cb s) = StateHalfOpen \<and>
     (\<forall>c pc. map_of (sys_calls s) c = Some pc \<longrightarrow> pc = Checked StateHalfOpen \<or> pc = Running True) \<and>
     (if probeInFlight (sys_cb s) then \<exists>c. running s = {c} else running s = {})"

lemma episode_inv_card: "episode_inv s \<Longrightarrow> card (running s) = (if probeInFlight (sys_cb s) then 1 else 0)"
  by (auto simp: episode_inv_def split: if_splits)

lemma record_half_open:
  "cb_state cb = StateHalfOpen \<Longrightarrow> cb_ignore cb = None \<Longrightarrow> cb_state (cb_record now err cb) = StateHalfOpen \<Longrightarrow>
   \<not> probeInFlight (cb_record now err cb)"
  by (auto simp: cb_record_def onSuccess_def onFailure_def Let_def split: option.splits)

lemma cb_record_ignore [simp]: "cb_ignore (cb_record now err cb) = cb_ignore cb"
  by (simp add: cb_record_def onSuccess_def onFailure_def Let_def split: option.split)

lemma allow_decide_ignore: "cb_ignore (snd (allow_decide st cb)) = cb_ignore cb"
  by (simp add: allow_decide_def split: State.split)

lemma sys_step_ignore: "cb_ignore (sys_cb (sys_step s ev)) = cb_ignore (sys_cb s)"
proof (cases ev)
  case (Decide c)
  then show ?thesis
    by (simp split: option.split call_pc.split prod.split) (metis allow_decide_ignore snd_conv)
qed (simp_all add: allow_check_def maybeTransitionToHalfOpen_def Let_def)

lemma episode_inv_step:
  assumes inv: "episode_inv s" and ign: "cb_ignore (sys_cb s) = None" and en: "enabled s ev"
    and half: "cb_state (sys_cb (sys_step s ev)) = StateHalfOpen"
  shows "episode_inv (sys_step s ev)"
proof (cases ev)
  case (Start c)
  have "running (sys_step s ev) = running s"
    using inv en Start by (auto simp: running_def episode_inv_def allow_check_def maybe_id Let_def)
  with inv Start show ?thesis
    by (auto simp: episode_inv_def allow_check_def maybe_id Let_def)
next
  case (Decide c)
  with en inv have pc: "map_of (sys_calls s) c = Some (Checked StateHalfOpen)"
    by (auto simp: episode_inv_def split: option.splits call_pc.splits)
  show ?thesis
  proof (cases "probeInFlight (sys_cb s)")
    case True
    then have st: "sys_step s ev = s\<lparr>sys_calls := AList.delete c (sys_calls s)\<rparr>"
      using Decide pc by (simp add: allow_decide_def)
    then have "running (sys_step s ev) = running s" using pc by (auto simp: running_def)
    with inv st show ?thesis by (auto simp: episode_inv_def)
  next
    case False
    then have st: "sys_step s ev = s\<lparr>sys_cb := (sys_cb s)\<lparr>probeInFlight := True\<rparr>,
        sys_calls := AList.update c (Running True) (sys_calls s)\<rparr>"
      using Decide pc by (simp add: allow_decide_def)
    have "running s = {}" using inv False by (simp add: episode_inv_def)
    then have "running (sys_step s ev) = {c}" by (auto simp: st running_def)
    with inv st show ?thesis by (auto simp: episode_inv_def)
  qed
next
  case (Finish c err)
  with en have "c \<in> running s" by (auto simp: running_def split: option.splits call_pc.splits)
  with inv have "running s = {c}" by (auto simp: episode_inv_def split: if_splits)
  then have "running (sys_step s ev) = {}" using Finish by (auto simp: running_def)
  with inv half ign Finish show ?thesis
    using record_half_open [of "sys_cb s" "sys_clock s" err] by (auto simp: episode_inv_def)
next
  case (Tick d)
  then have "running (sys_step s ev) = running s" by (simp add: running_def)
  with Tick inv show ?thesis by (simp add: episode_inv_def)
qed

lemma episode_inv_reach:
  "episode s0 s \<Longrightarrow> episode_inv s0 \<Longrightarrow> cb_ignore (sys_cb s0) = None \<Longrightarrow>
   episode_inv s \<and> cb_ignore (sys_cb s) = None"
  by (induction rule: episode.induct) (auto intro: episode_inv_step simp: sys_step_ignore)

text \<open>
  The half-open state lets one call through at a time: if no call was in flight when the
  breaker became half-open, then in every interleaving of any number of concurrent calls, for as
  long as it stays half-open, at most one of them is running, and the probe flag is set exactly
  while one is.
\<close>

theorem one_probe_at_a_time:
  assumes "cb_state (sys_cb s0) = StateHalfOpen" "\<not> probeInFlight (sys_cb s0)"
    and "sys_calls s0 = []" "cb_ignore (sys_cb s0) = None" "episode s0 s"
  shows "card (running s) = (if probeInFlight (sys_cb s) then 1 else 0)"
proof -
  have "episode_inv s0" using assms by (simp add: episode_inv_def running_def)
  with assms episode_inv_reach episode_inv_card show ?thesis by blast
qed

definition sample_half_open :: "nat cb_sys" where
  "sample_half_open = \<lparr> sys_cb = (NewCircuitBreaker ''db'' sample_cfg)\<lparr>cb_state := StateHalfOpen\<rparr>,
     sys_clock = 100, sys_calls = [] \<rparr>"

definition sample_episode :: "nat cb_sys" where
  "sample_episode = foldl sys_step sample_half_open [Start 1, Start 2, Decide 2, Decide 1]"

theorem one_probe_at_a_time_witness: "card (running sample_episode) = 1"
proof -
  have "episode sample_half_open sample_episode"
    unfolding sample_episode_def foldl.simps
    by (intro episode_step episode_refl; code_simp)
  then have "card (running sample_episode) = (if probeInFlight (sys_cb sample_episode) then 1 else 0)"
    by (rule one_probe_at_a_time [rotated 4]) code_simp+
  moreover have "probeInFlight (sys_cb sample_episode)" by code_simp
  ultimately show ?thesis by simp
qed

definition stale_cfg :: "nat CBConfig" where
  "stale_cfg = \<lparr> MaxFailures = 1, ResetTimeout = 10, HalfOpenSuccess = 2, IgnoreError = None \<rparr>"

definition stale_sys :: "nat cb_sys" where
  "stale_sys = foldl sys_step (sys_init ''db'' stale_cfg 0)
     [Start 1, Decide 1, Start 2, Decide 2, Finish 1 (Some 0), Tick 10,
      Start 3, Decide 3, Finish 2 None, Start 4, Decide 4]"

text \<open>
  The restriction of the previous property to calls that start during the episode is
  necessary: with the breaker's own rule alone, a call that was admitted while the breaker was
  closed and returns during the half-open state clears the probe flag, and a second probe is
  admitted while the first one is still running. From a new breaker with one allowed failure, a
  reset timeout of ten and two required successes this takes eleven steps.
\<close>

theorem stale_call_admits_second_probe:
  "\<exists>s. cb_reach (sys_init ''db'' stale_cfg 0) s \<and> cb_state (sys_cb s) = StateHalfOpen \<and>
       card (probes s) = 2"
proof (intro exI conjI)
  show "cb_reach (sys_init ''db'' stale_cfg 0) stale_sys"
    unfolding stale_sys_def foldl.simps by (intro cb_reach_step cb_reach_refl; code_simp)
  show "cb_state (sys_cb stale_sys) = StateHalfOpen" by code_simp
  have calls: "sys_calls stale_sys = [(3, Running True), (4, Running True)]" by code_simp
  have "probes stale_sys = {3, 4}" unfolding probes_def calls by (auto split: if_splits)
  then show "card (probes stale_sys) = 2" by simp
qed

section \<open>Retrying\<close>

text \<open>
  \<open>DoWithContext\<close> of \<open>retry.go\<close>. The context is read with \<open>ctx_err\<close> before each attempt and
  raced against the delay by \<open>wait\<close>, which returns the context's error when it is cancelled
  first; the delay of an attempt (\<open>backoffDelay\<close>, a floating-point formula with jitter) is an
  argument.
\<close>

record RetryConfig =
  MaxAttempts :: int64
  BaseDelay :: duration
  MaxDelay :: duration
  Multiplier :: float64
  Jitter :: bool

text \<open>The bits of the double 2.0.\<close>

definition two_float :: float64 where
  "two_float = 0x4000000000000000"

definition DefaultRetryConfig :: RetryConfig where
  "DefaultRetryConfig = \<lparr> MaxAttempts = 3, BaseDelay = 3 * second, MaxDelay = 30 * second,
     Multiplier = two_float, Jitter = True \<rparr>"

definition FastRetryConfig :: RetryConfig where
  "FastRetryConfig = \<lparr> MaxAttempts = 4, BaseDelay = second div 2, MaxDelay = 8 * second,
     Multiplier = two_float, Jitter = True \<rparr>"

datatype 'e retry_error = CtxErr 'e | LastErr 'e | AllAttemptsFailed string int64 'e

function retry_loop ::
  "('w \<Rightarrow> 'e option) \<Rightarrow> (duration \<Rightarrow> 'w \<Rightarrow> 'e option \<times> 'w) \<Rightarrow> (int \<Rightarrow> duration) \<Rightarrow> int64 \<Rightarrow> string \<Rightarrow>
   ('e \<Rightarrow> bool) \<Rightarrow> ('w \<Rightarrow> 'e option \<times> 'w) \<Rightarrow> int64 \<Rightarrow> 'w \<Rightarrow> 'e retry_error option \<times> 'w" where
  "retry_loop ctx_err wait delay n name retryable fn attempt w =
     (case ctx_err w of
        Some e \<Rightarrow> (Some (CtxErr e), w)
      | None \<Rightarrow>
          (case fn w of
             (None, w) \<Rightarrow> (None, w)
           | (Some e, w) \<Rightarrow>
               if n \<le> attempt then (Some (AllAttemptsFailed name n e), w)
               else if \<not> retryable e then (Some (LastErr e), w)
               else (case wait (delay attempt) w of
                       (Some c, w) \<Rightarrow> (Some (CtxErr c), w)
                     | (None, w) \<Rightarrow>
                         retry_loop ctx_err wait delay n name retryable fn (attempt + 1) w)))"
  by pat_completeness auto
termination
  by (relation "measure (\<lambda>(_, _, _, n, _, _, _, attempt, _). nat (n - attempt))") auto

declare retry_loop.simps [simp del]

definition DoWithContext ::
  "('w \<Rightarrow> 'e option) \<Rightarrow> (duration \<Rightarrow> 'w \<Rightarrow> 'e option \<times> 'w) \<Rightarrow>
   (RetryConfig \<Rightarrow> int64 \<Rightarrow> duration) \<Rightarrow> RetryConfig \<Rightarrow> string \<Rightarrow>
   ('e \<Rightarrow> bool) option \<Rightarrow> ('w \<Rightarrow> 'e option \<times> 'w) \<Rightarrow> 'w \<Rightarrow> 'e retry_error option \<times> 'w" where
  "DoWithContext ctx_err wait backoffDelay cfg name retryable fn w =
     retry_loop ctx_err wait (backoffDelay cfg) (if MaxAttempts cfg \<le> 0 then 1 else MaxAttempts cfg) name
       (case retryable of None \<Rightarrow> (\<lambda>_. True) | Some r \<Rightarrow> r) fn 1 w"

text \<open>
  With a context that is never cancelled and errors that may all be retried, the loop calls the
  function until it succeeds and at most \<open>MaxAttempts\<close> times. The function plays the outcomes of
  a script, so what remains of the script counts the calls.
\<close>

definition play :: "'e option list \<Rightarrow> 'e option \<times> 'e option list" where
  "play script = (hd script, tl script)"

lemma retry_loop_script:
  assumes "attempt \<le> n" "nat (n - attempt) < length script"
  shows "retry_loop (\<lambda>_. None) (\<lambda>_ w. (None, w)) delay n name (\<lambda>_. True) play attempt script =
     (let tries = nat (n - attempt) + 1; k = length (takeWhile (\<lambda>x. x \<noteq> None) (take tries script)) in
      if k < tries then (None, drop (k + 1) script)
      else (Some (AllAttemptsFailed name n (the (script ! (tries - 1)))), drop tries script))"
  using assms
proof (induction "nat (n - attempt)" arbitrary: attempt script)
  case 0
  then obtain x xs where "script = x # xs" by (cases script) auto
  with 0 show ?case by (cases x) (simp_all add: retry_loop.simps play_def Let_def)
next
  case (Suc m)
  obtain x xs where script: "script = x # xs" using Suc.prems by (cases script) auto
  have lt: "attempt < n" and m: "m = nat (n - (attempt + 1))" using Suc.hyps(2) by linarith+
  show ?case
  proof (cases x)
    case None
    then show ?thesis by (simp add: retry_loop.simps play_def script)
  next
    case (Some e)
    have IH: "retry_loop (\<lambda>_. None) (\<lambda>_ w. (None, w)) delay n name (\<lambda>_. True) play (attempt + 1) xs =
     (let tries = m + 1; k = length (takeWhile (\<lambda>x. x \<noteq> None) (take tries xs)) in
      if k < tries then (None, drop (k + 1) xs)
      else (Some (AllAttemptsFailed name n (the (xs ! (tries - 1)))), drop tries xs))"
      using Suc.hyps(1) [of "attempt + 1" xs] m lt Suc.prems(2) Suc.hyps(2) script
      by (simp add: Let_def)
    show ?thesis using lt Some IH Suc.hyps(2) [symmetric]
      by (subst retry_loop.simps) (simp add: play_def script Let_def)
  qed
qed

lemma DoWithContext_script:
  assumes "n = nat (max 1 (MaxAttempts cfg))" "n \<le> length script"
    and "k = length (takeWhile (\<lambda>x. x \<noteq> None) (take n script))"
  shows "DoWithContext (\<lambda>_. None) (\<lambda>_ w. (None, w)) backoffDelay cfg name None play script =
     (if k < n then (None, drop (k + 1) script)
      else (Some (AllAttemptsFailed name (int n) (the (script ! (n - 1)))), drop n script))"
proof -
  let ?m = "max 1 (MaxAttempts cfg)"
  have "(if MaxAttempts cfg \<le> 0 then 1 else MaxAttempts cfg) = ?m" by simp
  moreover have "nat (?m - 1) + 1 = n" "nat (?m - 1) = n - 1" "int n = ?m" using assms(1) by simp_all
  moreover have "n - 1 < length script" using assms(1,2) by linarith
  ultimately show ?thesis
    using retry_loop_script [of 1 ?m script "backoffDelay cfg" name] assms(3)
    by (simp add: DoWithContext_def Let_def)
qed

end
