(* ===== verification/Rpc_Pool.thy ===== *)
theory Rpc_Pool
  imports Circuit_Breaker
begin

text \<open>
  The RPC pool of \<open>internal/rpc/pool.go\<close>: nodes with a health flag, a disabled flag and a circuit
  breaker, rotated by a wrapping 64-bit counter. A node is named by its position, which stands
  for the pointer the code compares. Errors are their messages. The network is two arguments,
  \<open>dial\<close> and the caller's function, on a world state that also carries the clock.
\<close>

section \<open>Nodes and pools\<close>

record Node =
  URL :: string
  node_cb :: "string CircuitBreaker"
  healthy :: bool
  disabled :: bool

record Pool =
  pool_nodes :: "Node list"
  pool_idx :: "64 word"

definition any_contains :: "string \<Rightarrow> string list \<Rightarrow> bool" where
  "any_contains msg subs = list_ex (str_contains msg) subs"

definition rpcRetryable :: "string option \<Rightarrow> bool" where
  "rpcRetryable err =
     (case err of
        None \<Rightarrow> False
      | Some e \<Rightarrow>
          let msg = to_lower e in
          if any_contains msg [''invalid block range'', ''block range params'', ''invalid argument'']
          then False
          else if any_contains msg [''archive'', ''debug'', ''trace''] then False
          else True)"

definition rpcCapacityExhausted :: "string option \<Rightarrow> bool" where
  "rpcCapacityExhausted err =
     (case err of
        None \<Rightarrow> False
      | Some e \<Rightarrow>
          any_contains (to_lower e)
            [''402'', ''payment required'', ''out of cu'', ''out of compute'',
             ''capacity limit exceeded'', ''monthly capacity limit exceeded'', ''quota exceeded'',
             ''billing''])"

definition newNode :: "string \<Rightarrow> Node" where
  "newNode url =
     (let label = (if length url > 32 then take 32 url else url) in
      \<lparr> URL = url,
        node_cb = NewCircuitBreaker (''rpc:'' @ label)
          \<lparr> MaxFailures = 5, ResetTimeout = 60 * second, HalfOpenSuccess = 2,
            IgnoreError = Some (\<lambda>e. \<not> rpcRetryable (Some e)) \<rparr>,
        healthy = True, disabled = False \<rparr>)"

definition splitURLs :: "string \<Rightarrow> string list" where
  "splitURLs raw = filter (\<lambda>u. u \<noteq> []) (map trim_space (split_on CHR '','' raw))"

definition NewPool :: "string \<Rightarrow> string + Pool" where
  "NewPool rawURLs =
     (let urls = splitURLs rawURLs in
      if urls = [] then Inl ''rpc pool: no URLs provided''
      else Inr \<lparr> pool_nodes = map newNode urls, pool_idx = 0 \<rparr>)"

text \<open>\<open>s[:n] + "\<dots>"\<close>, the ellipsis being three bytes of UTF-8.\<close>

definition truncate :: "string \<Rightarrow> nat \<Rightarrow> string" where
  "truncate s n = (if length s \<le> n then s else take n s @ [byte_of 0xE2, byte_of 0x80, byte_of 0xA6])"

definition Health :: "Pool \<Rightarrow> (string, bool) go_map" where
  "Health p = foldl (\<lambda>out n. AList.update (truncate (URL n) 40) (healthy n) out) [] (pool_nodes p)"

section \<open>Choosing a node\<close>

text \<open>
  \<open>pickExcluding\<close>. The rotation loop runs once per node; \<open>GetState\<close> may move the breaker of an
  inspected node from open to half-open. A pool without nodes gets a node of its own
  (\<open>AdHoc\<close>), which has no breaker.
\<close>

datatype pick = Pooled nat | AdHoc string

fun rotate_pick :: "go_time \<Rightarrow> nat option \<Rightarrow> nat \<Rightarrow> Pool \<Rightarrow> nat option \<times> Pool" where
  "rotate_pick now exclude 0 p = (None, p)"
| "rotate_pick now exclude (Suc k) p =
     (let nodes = pool_nodes p;
          idx = pool_idx p + 1;
          p = p\<lparr>pool_idx := idx\<rparr>;
          i = unat idx mod length nodes;
          n = nodes ! i in
      if Some i = exclude \<and> length nodes > 1 then rotate_pick now exclude k p
      else if \<not> disabled n \<and> healthy n then
        (case GetState now (node_cb n) of (st, cb) \<Rightarrow>
           let p = p\<lparr>pool_nodes := nodes[i := n\<lparr>node_cb := cb\<rparr>]\<rparr> in
           if st \<noteq> StateOpen then (Some i, p) else rotate_pick now exclude k p)
      else rotate_pick now exclude k p)"

definition pickExcluding :: "go_time \<Rightarrow> nat option \<Rightarrow> Pool \<Rightarrow> pick \<times> Pool" where
  "pickExcluding now exclude p =
     (if pool_nodes p = [] then (AdHoc ''https://bsc-dataseed.binance.org/'', p)
      else
        (case rotate_pick now exclude (length (pool_nodes p)) p of
           (Some i, p) \<Rightarrow> (Pooled i, p)
         | (None, p) \<Rightarrow>
             (case List.find (\<lambda>i. \<not> disabled (pool_nodes p ! i) \<and> Some i \<noteq> exclude)
                     [0..<length (pool_nodes p)] of
                Some i \<Rightarrow> (Pooled i, p)
              | None \<Rightarrow> (Pooled 0, p))))"

section \<open>Calling through the pool\<close>

text \<open>
  The function given to \<open>node.cb.Execute\<close>: it reads and writes the node's flags, the captured
  variable \<open>callErr\<close> and the world.
\<close>

definition node_call ::
  "(string \<Rightarrow> 'w \<Rightarrow> (string + 'c) \<times> 'w) \<Rightarrow> ('c \<Rightarrow> 'w \<Rightarrow> string option \<times> 'w) \<Rightarrow> string \<Rightarrow>
   (bool \<times> bool \<times> string option \<times> 'w) \<Rightarrow> string option \<times> (bool \<times> bool \<times> string option \<times> 'w)" where
  "node_call dial fn url = (\<lambda>(h, d, callErr, w).
     case dial url w of
       (Inl err, w) \<Rightarrow> (Some err, (False, d, Some err, w))
     | (Inr c, w) \<Rightarrow>
         (case fn c w of
            (Some err, w) \<Rightarrow>
              if rpcCapacityExhausted (Some err) \<and> \<not> d
              then (Some err, (False, True, Some err, w))
              else (Some err, (h, d, Some err, w))
          | (None, w) \<Rightarrow> (None, (True, d, None, w))))"

fun cb_error_msg :: "string cb_error \<Rightarrow> string" where
  "cb_error_msg (ErrCircuitOpen s) = ''circuit breaker open: '' @ s"
| "cb_error_msg (FnError e) = e"

text \<open>One attempt of \<open>Do\<close> on a pool with nodes; its state is the pool, \<open>lastNode\<close> and the world.\<close>

definition pool_attempt ::
  "('w \<Rightarrow> go_time) \<Rightarrow> (string \<Rightarrow> 'w \<Rightarrow> (string + 'c) \<times> 'w) \<Rightarrow> ('c \<Rightarrow> 'w \<Rightarrow> string option \<times> 'w) \<Rightarrow>
   (Pool \<times> nat option \<times> 'w) \<Rightarrow> string option \<times> (Pool \<times> nat option \<times> 'w)" where
  "pool_attempt clock dial fn = (\<lambda>(p, lastNode, w).
     case pickExcluding (clock w) lastNode p of
       (AdHoc _, p) \<Rightarrow> (None, (p, lastNode, w))
     | (Pooled i, p) \<Rightarrow>
         let node = pool_nodes p ! i;
             flags = (healthy node, disabled node, None, w);
             t2 = clock (snd (snd (snd (snd (node_call dial fn (URL node) flags))))) in
         (case Execute (clock w) t2 (node_call dial fn (URL node)) (node_cb node) flags of
            (cbErr, cb, (h, d, callErr, w)) \<Rightarrow>
              let p = p\<lparr>pool_nodes := (pool_nodes p)
                         [i := node\<lparr>node_cb := cb, healthy := h, disabled := d\<rparr>]\<rparr> in
              ((if cbErr \<noteq> None \<and> callErr = None then map_option cb_error_msg cbErr else callErr),
               (p, Some i, w))))"

text \<open>\<open>Do\<close>. On a pool without nodes the code dereferences a nil breaker: the result is None.\<close>

definition pool_Do ::
  "('w \<Rightarrow> string option) \<Rightarrow> (duration \<Rightarrow> 'w \<Rightarrow> string option \<times> 'w) \<Rightarrow>
   (RetryConfig \<Rightarrow> int64 \<Rightarrow> duration) \<Rightarrow> ('w \<Rightarrow> go_time) \<Rightarrow>
   (string \<Rightarrow> 'w \<Rightarrow> (string + 'c) \<times> 'w) \<Rightarrow> ('c \<Rightarrow> 'w \<Rightarrow> string option \<times> 'w) \<Rightarrow> Pool \<Rightarrow> 'w \<Rightarrow>
   (string retry_error option \<times> Pool \<times> 'w) option" where
  "pool_Do ctx_err wait backoffDelay clock dial fn p w =
     (if pool_nodes p = [] then None
      else
        let attempts = i64_add (i64_mul (int (length (pool_nodes p))) 2) 1;
            cfg = FastRetryConfig\<lparr>MaxAttempts := (if attempts < 3 then 3 else attempts)\<rparr> in
        (case DoWithContext (\<lambda>(_, _, w). ctx_err w)
                (\<lambda>d (p, l, w). case wait d w of (e, w) \<Rightarrow> (e, (p, l, w)))
                backoffDelay cfg ''rpc.pool'' (Some (\<lambda>e. rpcRetryable (Some e)))
                (pool_attempt clock dial fn) (p, None, w) of
           (res, (p, _, w)) \<Rightarrow> Some (res, p, w)))"

text \<open>
  \<open>probeAll\<close>: one goroutine per node, each of which writes only the flags of its own node, so
  their interleaving is irrelevant. \<open>dial\<close> and \<open>block\<close> are the outcomes of the two network calls.
\<close>

definition probe_node :: "(string \<Rightarrow> string option) \<Rightarrow> (string \<Rightarrow> string option) \<Rightarrow> Node \<Rightarrow> Node" where
  "probe_node dial block n =
     (if disabled n then n
      else
        (case dial (URL n) of
           Some err \<Rightarrow> n\<lparr>healthy := False\<rparr>
         | None \<Rightarrow>
             (case block (URL n) of
                Some err \<Rightarrow>
                  if rpcCapacityExhausted (Some err) then n\<lparr>healthy := False, disabled := True\<rparr>
                  else n\<lparr>healthy := False\<rparr>
              | None \<Rightarrow> n\<lparr>healthy := True\<rparr>)))"

definition probeAll :: "(string \<Rightarrow> string option) \<Rightarrow> (string \<Rightarrow> string option) \<Rightarrow> Pool \<Rightarrow> Pool" where
  "probeAll dial block p = p\<lparr>pool_nodes := map (probe_node dial block) (pool_nodes p)\<rparr>"

section \<open>Properties of the choice\<close>

text \<open>The node at a position may be used now: it is enabled, healthy, not excluded, not open.\<close>

definition available :: "go_time \<Rightarrow> nat option \<Rightarrow> Pool \<Rightarrow> nat \<Rightarrow> bool" where
  "available now exclude p i \<longleftrightarrow>
     i < length (pool_nodes p) \<and> (Some i \<noteq> exclude \<or> length (pool_nodes p) \<le> 1) \<and>
     \<not> disabled (pool_nodes p ! i) \<and> healthy (pool_nodes p ! i) \<and>
     fst (GetState now (node_cb (pool_nodes p ! i))) \<noteq> StateOpen"

definition backup_node :: "nat option \<Rightarrow> Pool \<Rightarrow> nat \<Rightarrow> bool" where
  "backup_node exclude p i \<longleftrightarrow>
     i < length (pool_nodes p) \<and> \<not> disabled (pool_nodes p ! i) \<and> Some i \<noteq> exclude"

lemma GetState_open: "GetState now cb = (StateOpen, cb') \<Longrightarrow> cb' = cb"
  by (auto simp: GetState_def maybeTransitionToHalfOpen_def Let_def split: if_splits)

lemma available_idx [simp]: "available now exclude (p\<lparr>pool_idx := i\<rparr>) = available now exclude p"
  by (simp add: available_def fun_eq_iff)

lemma rotate_pick_step:
  assumes "pool_nodes p \<noteq> []"
  shows "rotate_pick now exclude (Suc k) p =
    (let i = unat (pool_idx p + 1) mod length (pool_nodes p); n = pool_nodes p ! i;
         p' = p\<lparr>pool_idx := pool_idx p + 1\<rparr> in
     if available now exclude p i
     then (Some i, p'\<lparr>pool_nodes := (pool_nodes p)[i := n\<lparr>node_cb := snd (GetState now (node_cb n))\<rparr>]\<rparr>)
     else rotate_pick now exclude k p')"
proof -
  let ?i = "unat (pool_idx p + 1) mod length (pool_nodes p)"
  let ?n = "pool_nodes p ! ?i"
  have i: "?i < length (pool_nodes p)" using assms by simp
  obtain st cb where gs: "GetState now (node_cb ?n) = (st, cb)" by (cases "GetState now (node_cb ?n)")
  have same: "st = StateOpen \<Longrightarrow> (pool_nodes p)[?i := ?n\<lparr>node_cb := cb\<rparr>] = pool_nodes p"
    using GetState_open [of now "node_cb ?n" cb] gs by simp
  show ?thesis
    using i gs same by (cases "st = StateOpen") (simp_all add: Let_def available_def not_less)
qed

declare rotate_pick.simps(2) [simp del]

lemma rotate_pick_Some:
  assumes "rotate_pick now exclude k p = (Some i, p')" "pool_nodes p \<noteq> []"
  shows "available now exclude p i \<and> map disabled (pool_nodes p') = map disabled (pool_nodes p)"
  using assms
proof (induction k arbitrary: p)
  case 0
  then show ?case by simp
next
  case (Suc k)
  let ?p = "p\<lparr>pool_idx := pool_idx p + 1\<rparr>"
  let ?i = "unat (pool_idx p + 1) mod length (pool_nodes p)"
  show ?case
  proof (cases "available now exclude p ?i")
    case True
    then have "?i < length (pool_nodes p)" by (simp add: available_def)
    with True Suc.prems show ?thesis
      by (auto simp: rotate_pick_step Let_def map_update list_update_same_conv)
  next
    case False
    then have "rotate_pick now exclude k ?p = (Some i, p')"
      using Suc.prems by (simp add: rotate_pick_step Let_def)
    from Suc.IH [OF this] Suc.prems(2) show ?thesis by simp
  qed
qed

lemma rotate_pick_None:
  assumes "rotate_pick now exclude k p = (None, p')" "pool_nodes p \<noteq> []"
  shows "pool_nodes p' = pool_nodes p \<and>
    (\<forall>j\<in>{1..k}. \<not> available now exclude p (unat (pool_idx p + of_nat j) mod length (pool_nodes p)))"
  using assms
proof (induction k arbitrary: p)
  case 0
  then show ?case by simp
next
  case (Suc k)
  let ?p = "p\<lparr>pool_idx := pool_idx p + 1\<rparr>"
  let ?at = "\<lambda>j. unat (pool_idx p + of_nat j) mod length (pool_nodes p)"
  have na: "\<not> available now exclude p (?at 1)" and rec: "rotate_pick now exclude k ?p = (None, p')"
    using Suc.prems by (auto simp: rotate_pick_step Let_def split: if_splits)
  from Suc.IH [OF rec] Suc.prems(2) have nodes: "pool_nodes p' = pool_nodes p"
    and later: "\<forall>j\<in>{1..k}. \<not> available now exclude p (?at (Suc j))"
    by (simp_all add: add.assoc)
  have "\<not> available now exclude p (?at j)" if "j \<in> {1..Suc k}" for j
  proof (cases "j = 1")
    case True
    then show ?thesis using na by simp
  next
    case False
    then have "j = Suc (j - 1)" "j - 1 \<in> {1..k}" using that by auto
    then show ?thesis using later by metis
  qed
  with nodes show ?case by blast
qed

text \<open>As long as the counter does not wrap, one turn of the rotation visits every position.\<close>

lemma turn_covers:
  assumes "i < (n::nat)"
  shows "\<exists>j\<in>{1..n}. (u + j) mod n = i"
proof -
  define r where "r = u mod n"
  have r: "r < n" using assms by (simp add: r_def)
  define j where "j = (if r < i then i - r else i + n - r)"
  have "j \<in> {1..n}" using assms r by (auto simp: j_def)
  moreover have "(r + j) mod n = i" using assms r by (simp add: j_def)
  then have "(u + j) mod n = i" by (simp add: r_def mod_simps)
  ultimately show ?thesis by blast
qed

lemma unat_add_small:
  "unat (x :: 64 word) + j < 2 ^ 64 \<Longrightarrow> unat (x + of_nat j) = unat x + j"
  by (simp add: unat_word_ariths unat_of_nat mod_simps)

lemma rotation_covers:
  assumes "i < n" "unat (x :: 64 word) + n < 2 ^ 64"
  shows "\<exists>j\<in>{1..n}. unat (x + of_nat j) mod n = i"
proof -
  obtain j where j: "j \<in> {1..n}" "(unat x + j) mod n = i" using turn_covers [OF assms(1)] by blast
  then have "unat x + j < 2 ^ 64" using assms(2) by simp
  then have "unat (x + of_nat j) = unat x + j" by (rule unat_add_small)
  with j have "unat (x + of_nat j) mod n = i" by simp
  with j(1) show ?thesis by blast
qed

lemma rotate_pick_complete:
  assumes "rotate_pick now exclude (length (pool_nodes p)) p = (None, p')"
    and "unat (pool_idx p) + length (pool_nodes p) < 2 ^ 64"
  shows "\<not> available now exclude p i"
proof
  assume av: "available now exclude p i"
  then have i: "i < length (pool_nodes p)" by (simp add: available_def)
  then have "pool_nodes p \<noteq> []" by auto
  with rotate_pick_None [OF assms(1)] rotation_covers [OF i assms(2)] av show False by auto
qed

lemma find_upt_Some: "List.find P [0..<n] = Some i \<Longrightarrow> i < n \<and> P i"
  by (auto simp: find_Some_iff)

lemma find_upt_None: "List.find P [0..<n] = None \<longleftrightarrow> (\<forall>i<n. \<not> P i)"
  by (auto simp: find_None_iff)

text \<open>
  C31. \<open>pickExcluding\<close> on a pool with nodes always returns a node of the pool. If any node other than
  the excluded one is enabled, healthy and not cut off by its breaker, it returns such a node,
  whatever the rotation counter is (up to its wrap-around); otherwise, if any other node is
  enabled, it returns an enabled one that is not excluded; otherwise it returns the first node.
\<close>

theorem pickExcluding_choice:
  assumes "pool_nodes p \<noteq> []" "unat (pool_idx p) + length (pool_nodes p) < 2 ^ 64"
  shows "\<exists>i p'. pickExcluding now exclude p = (Pooled i, p') \<and> i < length (pool_nodes p) \<and>
    map disabled (pool_nodes p') = map disabled (pool_nodes p) \<and>
    (if \<exists>j. available now exclude p j then available now exclude p i
     else if \<exists>j. backup_node exclude p j then backup_node exclude p i
     else i = 0)"
proof (cases "rotate_pick now exclude (length (pool_nodes p)) p")
  case (Pair r p')
  show ?thesis
  proof (cases r)
    case (Some i)
    with Pair have "rotate_pick now exclude (length (pool_nodes p)) p = (Some i, p')" by simp
    from rotate_pick_Some [OF this assms(1)] this assms(1) show ?thesis
      by (auto simp: pickExcluding_def available_def)
  next
    case None
    with Pair have rp: "rotate_pick now exclude (length (pool_nodes p)) p = (None, p')" by simp
    then have none: "\<not> available now exclude p j" for j using rotate_pick_complete assms(2) by blast
    from rotate_pick_None [OF rp assms(1)] have nodes: "pool_nodes p' = pool_nodes p" by simp
    let ?f = "List.find (\<lambda>i. \<not> disabled (pool_nodes p ! i) \<and> Some i \<noteq> exclude) [0..<length (pool_nodes p)]"
    show ?thesis
    proof (cases ?f)
      case None
      with find_upt_None [of _ "length (pool_nodes p)"] have "\<not> backup_node exclude p j" for j
        by (auto simp: backup_node_def)
      with None none nodes rp assms(1) show ?thesis by (simp add: pickExcluding_def)
    next
      case (Some i)
      with find_upt_Some have "backup_node exclude p i" by (fastforce simp: backup_node_def)
      with Some none nodes rp assms(1) show ?thesis
        by (auto simp: pickExcluding_def backup_node_def)
    qed
  qed
qed

definition sample_pool :: Pool where
  "sample_pool = \<lparr> pool_nodes =
     [(newNode ''https://a'')\<lparr>disabled := True\<rparr>, newNode ''https://b'', newNode ''https://c''],
     pool_idx = 3 \<rparr>"

theorem pickExcluding_choice_witness:
  "\<exists>i p'. pickExcluding 0 (Some 2) sample_pool = (Pooled i, p') \<and> available 0 (Some 2) sample_pool i"
proof -
  have ne: "pool_nodes sample_pool \<noteq> []" by code_simp
  have small: "unat (pool_idx sample_pool) + length (pool_nodes sample_pool) < 2 ^ 64"
    by (simp add: sample_pool_def)
  have "available 0 (Some 2) sample_pool 1" by code_simp
  then have "\<exists>j. available 0 (Some 2) sample_pool j" by blast
  with pickExcluding_choice [OF ne small, of 0 "Some 2"] show ?thesis by auto
qed

text \<open>
  The last resort of \<open>pickExcluding\<close> is the first node even when it is disabled and the
  excluded node is healthy: in a pool of two whose first node is disabled, the retry after a
  failure of the second node is sent to the disabled one, whatever the counter.
\<close>

theorem retry_uses_disabled_node:
  assumes "pool_nodes p = [a, b]" "disabled a"
  shows "fst (pickExcluding now (Some 1) p) = Pooled 0"
proof (cases "rotate_pick now (Some 1) (length (pool_nodes p)) p")
  case (Pair r p')
  have no: "\<not> available now (Some 1) p i" for i
    using assms by (cases i) (auto simp: available_def)
  have ne: "pool_nodes p \<noteq> []" using assms by simp
  show ?thesis
  proof (cases r)
    case None
    with Pair rotate_pick_None [of now "Some 1" _ p p', OF _ ne] assms(1)
    have "pool_nodes p' = [a, b]" by metis
    with None Pair assms show ?thesis by (simp add: pickExcluding_def upt_rec)
  next
    case (Some i)
    with Pair rotate_pick_Some [of now "Some 1" _ p i p'] ne no show ?thesis by auto
  qed
qed

definition two_pool :: Pool where
  "two_pool = \<lparr> pool_nodes = [(newNode ''https://a'')\<lparr>disabled := True\<rparr>, newNode ''https://b''],
     pool_idx = 0 \<rparr>"

theorem retry_uses_disabled_node_witness:
  "fst (pickExcluding 0 (Some 1) two_pool) = Pooled 0 \<and> \<not> disabled (pool_nodes two_pool ! 1)"
proof -
  have "pool_nodes two_pool = [pool_nodes two_pool ! 0, pool_nodes two_pool ! 1]"
    by (simp add: two_pool_def)
  moreover have "disabled (pool_nodes two_pool ! 0)" by (simp add: two_pool_def)
  ultimately have "fst (pickExcluding 0 (Some 1) two_pool) = Pooled 0"
    by (rule retry_uses_disabled_node)
  then show ?thesis by (simp add: two_pool_def newNode_def Let_def)
qed

section \<open>Disabled nodes and the breaker's error filter\<close>

lemma retry_loop_invariant:
  assumes fn: "\<And>w. I w \<Longrightarrow> I (snd (fn w))" and wait: "\<And>d w. I w \<Longrightarrow> I (snd (wait d w))"
  shows "I w \<Longrightarrow> I (snd (retry_loop ctx_err wait delay n name retryable fn attempt w))"
proof (induction "nat (n - attempt)" arbitrary: attempt w rule: less_induct)
  case less
  obtain e w1 where f: "fn w = (e, w1)" by (cases "fn w")
  then have w1: "I w1" using fn [OF less.prems] by simp
  show ?case
  proof (cases "ctx_err w = None \<and> e \<noteq> None \<and> attempt < n \<and> retryable (the e)")
    case False
    then show ?thesis
      by (subst retry_loop.simps) (auto simp: f less.prems w1 split: option.split)
  next
    case True
    obtain c w2 where wt: "wait (delay attempt) w1 = (c, w2)" by (cases "wait (delay attempt) w1")
    then have w2: "I w2" using wait [OF w1, of "delay attempt"] by simp
    have "I (snd (retry_loop ctx_err wait delay n name retryable fn (attempt + 1) w2))"
      by (rule less.hyps) (use True w2 in auto)
    with True show ?thesis
      by (subst retry_loop.simps) (auto simp: f wt w2 split: option.split)
  qed
qed

text \<open>Every node that is disabled in the first pool is disabled in the second one.\<close>

definition keeps_disabled :: "Pool \<Rightarrow> Pool \<Rightarrow> bool" where
  "keeps_disabled p q \<longleftrightarrow> list_all2 (\<lambda>a b. disabled a \<longrightarrow> disabled b) (pool_nodes p) (pool_nodes q)"

lemma keeps_disabled_refl: "keeps_disabled p p"
  by (simp add: keeps_disabled_def list_all2_same)

lemma keeps_disabled_trans: "keeps_disabled p q \<Longrightarrow> keeps_disabled q r \<Longrightarrow> keeps_disabled p r"
  unfolding keeps_disabled_def by (rule list_all2_trans [of _ "\<lambda>a b. disabled a \<longrightarrow> disabled b"]) auto

lemma keeps_disabled_map: "map disabled (pool_nodes q) = map disabled (pool_nodes p) \<Longrightarrow> keeps_disabled p q"
  unfolding keeps_disabled_def list_all2_conv_all_nth
  by (metis length_map nth_map)

lemma rotate_pick_keeps: "pool_nodes p \<noteq> [] \<Longrightarrow> keeps_disabled p (snd (rotate_pick now exclude k p))"
  by (cases "rotate_pick now exclude k p"; cases "fst (rotate_pick now exclude k p)")
    (auto intro!: keeps_disabled_map dest: rotate_pick_None rotate_pick_Some)

lemma pickExcluding_keeps: "keeps_disabled p (snd (pickExcluding now exclude p))"
proof (cases "pool_nodes p = []")
  case True
  then show ?thesis by (simp add: pickExcluding_def keeps_disabled_refl)
next
  case False
  from rotate_pick_keeps [OF this, of now exclude "length (pool_nodes p)"] False show ?thesis
    by (auto simp: pickExcluding_def split: prod.split option.split)
qed

lemma node_call_disabled: "d \<Longrightarrow> fst (snd (snd (node_call dial fn url (h, d, c, w))))"
  by (auto simp: node_call_def split: prod.split sum.split option.split)

lemma Execute_world: "snd (snd (Execute t1 t2 f cb w)) = w \<or> snd (snd (Execute t1 t2 f cb w)) = snd (f w)"
  by (auto simp: Execute_def split: prod.split option.split)

lemma pool_attempt_keeps:
  "keeps_disabled p (fst (snd (pool_attempt clock dial fn (p, l, w))))"
proof (cases "pickExcluding (clock w) l p")
  case (Pair pk q)
  have pq: "keeps_disabled p q" using pickExcluding_keeps [of p "clock w" l] Pair by simp
  show ?thesis
  proof (cases pk)
    case (AdHoc u)
    with Pair pq show ?thesis by (simp add: pool_attempt_def)
  next
    case (Pooled i)
    let ?n = "pool_nodes q ! i"
    let ?f = "node_call dial fn (URL ?n)"
    let ?fl = "(healthy ?n, disabled ?n, None, w)"
    let ?t2 = "clock (snd (snd (snd (snd (?f ?fl)))))"
    obtain cbErr cb h d c w' where ex: "Execute (clock w) ?t2 ?f (node_cb ?n) ?fl = (cbErr, cb, (h, d, c, w'))"
      by (metis prod_cases3 prod.collapse)
    have "disabled ?n \<Longrightarrow> d"
      using Execute_world [of "clock w" ?t2 ?f "node_cb ?n" ?fl] ex
        node_call_disabled [of "disabled ?n" dial fn "URL ?n" "healthy ?n" None w]
      by (auto dest: sym)
    then have "keeps_disabled q (q\<lparr>pool_nodes := (pool_nodes q)
        [i := ?n\<lparr>node_cb := cb, healthy := h, disabled := d\<rparr>]\<rparr>)"
      by (cases "i < length (pool_nodes q)")
        (auto simp: keeps_disabled_def list_all2_conv_all_nth nth_list_update)
    with pq Pair Pooled ex show ?thesis
      by (auto simp: pool_attempt_def Let_def intro: keeps_disabled_trans)
  qed
qed

lemma probe_node_disabled: "disabled n \<Longrightarrow> probe_node dial block n = n"
  by (simp add: probe_node_def)

text \<open>
  A node that was disabled because its provider's capacity is exhausted stays disabled and no
  node appears or disappears: neither a call through the pool, with all its retries and whatever
  the network answers, nor a health probe takes the flag back.
\<close>

theorem disabled_is_permanent:
  assumes "pool_Do ctx_err wait backoffDelay clock dial fn p w = Some (res, p', w')"
  shows "keeps_disabled p p' \<and> keeps_disabled p' (probeAll pdial block p')"
proof
  let ?I = "\<lambda>s. keeps_disabled p (fst s)"
  have step: "?I (snd (pool_attempt clock dial fn s))" if "?I s" for s
    using that pool_attempt_keeps [of "fst s" clock dial fn "fst (snd s)" "snd (snd s)"]
    by (auto intro: keeps_disabled_trans)
  have "?I (snd (retry_loop (\<lambda>(_, _, w). ctx_err w) (\<lambda>d (p, l, w). case wait d w of (e, w) \<Rightarrow> (e, (p, l, w)))
      delay n name retryable (pool_attempt clock dial fn) att (p, None, w)))" for delay n name retryable att
    by (rule retry_loop_invariant [where I = ?I])
      (auto simp: keeps_disabled_refl step split: prod.split)
  then have "?I (snd (DoWithContext (\<lambda>(_, _, w). ctx_err w) (\<lambda>d (p, l, w). case wait d w of (e, w) \<Rightarrow> (e, (p, l, w)))
      backoffDelay cfg name r (pool_attempt clock dial fn) (p, None, w)))" for cfg name r
    by (simp add: DoWithContext_def)
  from this [of "FastRetryConfig\<lparr>MaxAttempts :=
      (let a = i64_add (i64_mul (int (length (pool_nodes p))) 2) 1 in if a < 3 then 3 else a)\<rparr>"
      "''rpc.pool''" "Some (\<lambda>e. rpcRetryable (Some e))"] assms
  show "keeps_disabled p p'"
    by (auto simp: pool_Do_def Let_def split: if_splits prod.splits)
  show "keeps_disabled p' (probeAll pdial block p')"
    by (auto simp: keeps_disabled_def probeAll_def list_all2_conv_all_nth probe_node_disabled)
qed

definition sample_do :: "(string retry_error option \<times> Pool \<times> nat) option" where
  "sample_do = pool_Do (\<lambda>_. None) (\<lambda>_ w. (None, w)) (\<lambda>_ _. 0) int (\<lambda>url w. (Inr url, w + 1))
     (\<lambda>url w. (if url = ''https://b'' then Some ''quota exceeded'' else None, w + 1)) sample_pool 0"

theorem disabled_is_permanent_witness:
  "\<exists>res p' w'. sample_do = Some (res, p', w') \<and> keeps_disabled sample_pool p' \<and>
     map disabled (pool_nodes p') = [True, True, False]"
proof -
  have "map_option (\<lambda>(_, p, _). map disabled (pool_nodes p)) sample_do = Some [True, True, False]"
    by code_simp
  then obtain res p' w' where out: "sample_do = Some (res, p', w')"
      "map disabled (pool_nodes p') = [True, True, False]"
    by (cases sample_do) auto
  have "keeps_disabled sample_pool p' \<and> keeps_disabled p' (probeAll (\<lambda>_. None) (\<lambda>_. None) p')"
    by (rule disabled_is_permanent [OF out(1) [unfolded sample_do_def]])
  with out show ?thesis by (intro exI [of _ res] exI [of _ p'] exI [of _ w']) simp
qed

text \<open>
  The nodes of the pool ask their breakers to ignore errors that are not the node's fault
  (\<open>IgnoreError\<close>), but the breaker's constructor drops the filter: five calls in a row that fail
  with such an error, for example because the caller asked for an invalid block range, open the
  breaker of a healthy node.
\<close>

theorem caller_errors_trip_node:
  assumes "\<not> rpcRetryable (Some e)" "length ts = 5"
  shows "cb_state (run_calls (map (\<lambda>(t1, t2). (t1, t2, Some e)) ts) (node_cb (newNode url))) = StateOpen"
proof -
  let ?cb = "node_cb (newNode url)"
  have inv: "cb_inv ?cb"
    unfolding newNode_def Let_def Node.simps
    by (rule NewCircuitBreaker_inv) (simp add: cfg_ok_def in_int64_def min_int64_def max_int64_def second_def)
  have new: "cb_ignore ?cb = None" "cb_state ?cb = StateClosed" "maxFailures ?cb = 5" "failures ?cb = 0"
    by (simp_all add: newNode_def NewCircuitBreaker_def Let_def)
  have "list_all (\<lambda>(_, _, err). err \<noteq> None) (map (\<lambda>(t1, t2). (t1, t2, Some e)) ts)"
    by (auto simp: list_all_iff)
  with run_calls_fail [OF inv new(1,2) this] new assms(2) show ?thesis by simp
qed

theorem caller_errors_trip_node_witness:
  "cb_state (run_calls (map (\<lambda>(t1, t2). (t1, t2, Some ''invalid argument 0''))
     [(1, 2), (3, 4), (5, 6), (7, 8), (9, 10)]) (node_cb (newNode ''https://b''))) = StateOpen"
proof -
  have "\<not> rpcRetryable (Some ''invalid argument 0'')" by code_simp
  then show ?thesis by (rule caller_errors_trip_node) simp
qed

end
