(* ===== verification/Nonce_Store.thy ===== *)
theory Nonce_Store
  imports Go_Strings
begin

text \<open>
  Replay protection of \<open>internal/security/nonce.go\<close>. The Go interface \<open>NonceStore\<close> is a record of
  its operations on a state, its contract is the locale \<open>nonce_store\<close>, and the in-memory store is
  an instance. The goroutine that \<open>Exists\<close> starts to delete an expired nonce is part of the
  in-memory state until it runs, so that interleavings of validations, deletions and clean-ups
  are sequences of atomic steps.
\<close>

section \<open>The interface and its client\<close>

record 's NonceStore =
  ns_Store :: "go_time \<Rightarrow> string \<Rightarrow> duration \<Rightarrow> 's \<Rightarrow> string option \<times> 's"
  ns_Exists :: "go_time \<Rightarrow> string \<Rightarrow> 's \<Rightarrow> (string + bool) \<times> 's"
  ns_Delete :: "string \<Rightarrow> 's \<Rightarrow> string option \<times> 's"
  ns_Cleanup :: "go_time \<Rightarrow> 's \<Rightarrow> string option \<times> 's"

record 's NonceManager =
  nm_store :: "'s NonceStore"
  nm_ttl :: duration

definition NewNonceManager :: "'s NonceStore \<Rightarrow> duration \<Rightarrow> 's NonceManager" where
  "NewNonceManager store ttl = \<lparr> nm_store = store, nm_ttl = ttl \<rparr>"

datatype nonce_error = NonceMissing | NonceCheckFailed string | NonceReplayed | NonceStoreFailed string

text \<open>\<open>ValidateNonce\<close>, in its two store calls with the clock readings \<open>t1\<close> and \<open>t2\<close>.\<close>

definition validate_check ::
  "'s NonceManager \<Rightarrow> go_time \<Rightarrow> string \<Rightarrow> 's \<Rightarrow> nonce_error option \<times> 's" where
  "validate_check n t1 nonce s =
     (if nonce = [] then (Some NonceMissing, s)
      else
        (case ns_Exists (nm_store n) t1 nonce s of
           (Inl err, s) \<Rightarrow> (Some (NonceCheckFailed err), s)
         | (Inr True, s) \<Rightarrow> (Some NonceReplayed, s)
         | (Inr False, s) \<Rightarrow> (None, s)))"

definition validate_consume ::
  "'s NonceManager \<Rightarrow> go_time \<Rightarrow> string \<Rightarrow> 's \<Rightarrow> nonce_error option \<times> 's" where
  "validate_consume n t2 nonce s =
     (case ns_Store (nm_store n) t2 nonce (nm_ttl n) s of
        (Some err, s) \<Rightarrow> (Some (NonceStoreFailed err), s)
      | (None, s) \<Rightarrow> (None, s))"

definition ValidateNonce ::
  "'s NonceManager \<Rightarrow> go_time \<Rightarrow> go_time \<Rightarrow> string \<Rightarrow> 's \<Rightarrow> nonce_error option \<times> 's" where
  "ValidateNonce n t1 t2 nonce s =
     (case validate_check n t1 nonce s of
        (Some err, s) \<Rightarrow> (Some err, s)
      | (None, s) \<Rightarrow> validate_consume n t2 nonce s)"

text \<open>
  What the manager relies on. \<open>holds s n\<close> is the expiry under which the store has the nonce; a
  stored nonce cannot be stored again, and \<open>Exists\<close> sees it until it expires.
\<close>

locale nonce_store =
  fixes ops :: "'s NonceStore"
    and holds :: "'s \<Rightarrow> string \<Rightarrow> go_time option"
  assumes store_new: "ns_Store ops t n ttl s = (None, s') \<Longrightarrow> holds s' n = Some (t + ttl)"
    and store_taken: "holds s n = Some e \<Longrightarrow> fst (ns_Store ops t n ttl s) \<noteq> None"
    and store_frame: "holds s m = Some e \<Longrightarrow> holds (snd (ns_Store ops t n ttl s)) m = Some e"
    and exists_live: "holds s n = Some e \<Longrightarrow> t \<le> e \<Longrightarrow> fst (ns_Exists ops t n s) = Inr True"
    and exists_frame: "holds (snd (ns_Exists ops t n s)) m = holds s m"
begin

lemma accepted_is_held:
  "ValidateNonce (NewNonceManager ops ttl) t1 t2 n s = (None, s') \<Longrightarrow> holds s' n = Some (t2 + ttl)"
  by (cases "validate_check (NewNonceManager ops ttl) t1 n s")
    (auto simp: ValidateNonce_def validate_consume_def NewNonceManager_def
      split: prod.splits option.splits intro: store_new)

lemma held_is_rejected:
  assumes "holds s n = Some e" "t1 \<le> e"
  shows "fst (ValidateNonce (NewNonceManager ops ttl) t1 t2 n s) \<noteq> None"
  using exists_live [OF assms]
  by (auto simp: ValidateNonce_def validate_check_def NewNonceManager_def
      split: prod.splits option.splits if_splits sum.splits bool.splits)

lemma validate_check_frame: "holds (snd (validate_check m t n s)) x = holds s x" if "nm_store m = ops"
  using that exists_frame [of t n s x]
  by (auto simp: validate_check_def split: prod.split sum.split bool.split)

lemma validate_consume_frame:
  "nm_store m = ops \<Longrightarrow> holds s x = Some e \<Longrightarrow> holds (snd (validate_consume m t n s)) x = Some e"
  using store_frame [of s x e t n "nm_ttl m"]
  by (auto simp: validate_consume_def split: prod.split option.split)

lemma validate_frame:
  assumes "nm_store m = ops" "holds s x = Some e"
  shows "holds (snd (ValidateNonce m t1 t2 n s)) x = Some e"
proof (cases "validate_check m t1 n s")
  case (Pair r s')
  with validate_check_frame [OF assms(1), of t1 n s x] assms have "holds s' x = Some e" by simp
  with Pair validate_consume_frame [OF assms(1)] show ?thesis
    by (simp add: ValidateNonce_def split: option.split)
qed

end

section \<open>The in-memory store\<close>

record InMemoryNonceStore =
  im_store :: "(string, go_time) go_map"
  im_deletes :: "string list"

definition NewInMemoryNonceStore :: InMemoryNonceStore where
  "NewInMemoryNonceStore = \<lparr> im_store = [], im_deletes = [] \<rparr>"

definition im_Store ::
  "go_time \<Rightarrow> string \<Rightarrow> duration \<Rightarrow> InMemoryNonceStore \<Rightarrow> string option \<times> InMemoryNonceStore" where
  "im_Store now nonce ttl s =
     (case map_of (im_store s) nonce of
        Some _ \<Rightarrow> (Some ''nonce exists'', s)
      | None \<Rightarrow> (None, s\<lparr>im_store := AList.update nonce (now + ttl) (im_store s)\<rparr>))"

text \<open>An expired nonce is reported as unused, and its deletion is left to a new goroutine.\<close>

definition im_Exists ::
  "go_time \<Rightarrow> string \<Rightarrow> InMemoryNonceStore \<Rightarrow> (string + bool) \<times> InMemoryNonceStore" where
  "im_Exists now nonce s =
     (case map_of (im_store s) nonce of
        None \<Rightarrow> (Inr False, s)
      | Some expiration \<Rightarrow>
          if expiration < now then (Inr False, s\<lparr>im_deletes := im_deletes s @ [nonce]\<rparr>)
          else (Inr True, s))"

definition im_Delete :: "string \<Rightarrow> InMemoryNonceStore \<Rightarrow> string option \<times> InMemoryNonceStore" where
  "im_Delete nonce s = (None, s\<lparr>im_store := AList.delete nonce (im_store s)\<rparr>)"

definition im_Cleanup :: "go_time \<Rightarrow> InMemoryNonceStore \<Rightarrow> string option \<times> InMemoryNonceStore" where
  "im_Cleanup now s = (None, s\<lparr>im_store := filter (\<lambda>(_, expiration). \<not> expiration < now) (im_store s)\<rparr>)"

definition im_ops :: "InMemoryNonceStore NonceStore" where
  "im_ops = \<lparr> ns_Store = im_Store, ns_Exists = im_Exists, ns_Delete = im_Delete, ns_Cleanup = im_Cleanup \<rparr>"

interpretation im: nonce_store im_ops "\<lambda>s. map_of (im_store s)"
  by unfold_locales
    (auto simp: im_ops_def im_Store_def im_Exists_def split: option.splits)

text \<open>
  One validation after the other: a nonce that \<open>ValidateNonce\<close> has accepted at time \<open>t2\<close> is
  refused by every later validation that starts no later than \<open>t2 + ttl\<close>, whatever other nonces
  were validated in between.
\<close>

fun validate_all ::
  "InMemoryNonceStore NonceManager \<Rightarrow> (go_time \<times> go_time \<times> string) list \<Rightarrow> InMemoryNonceStore \<Rightarrow>
   InMemoryNonceStore" where
  "validate_all m [] s = s"
| "validate_all m ((t1, t2, n) # vs) s = validate_all m vs (snd (ValidateNonce m t1 t2 n s))"

lemma validate_all_frame:
  "nm_store m = im_ops \<Longrightarrow> map_of (im_store s) n = Some e \<Longrightarrow>
   map_of (im_store (validate_all m vs s)) n = Some e"
  by (induction m vs s rule: validate_all.induct) (auto simp: im.validate_frame)

theorem sequential_no_replay:
  assumes "m = NewNonceManager im_ops ttl" "ValidateNonce m t1 t2 n s = (None, s')"
    and "t1' \<le> t2 + ttl"
  shows "fst (ValidateNonce m t1' t2' n (validate_all m others s')) \<noteq> None"
proof -
  have "map_of (im_store s') n = Some (t2 + ttl)" using assms(1,2) im.accepted_is_held by blast
  then have "map_of (im_store (validate_all m others s')) n = Some (t2 + ttl)"
    using assms(1) by (simp add: validate_all_frame NewNonceManager_def)
  with im.held_is_rejected assms show ?thesis by blast
qed

definition sample_manager :: "InMemoryNonceStore NonceManager" where
  "sample_manager = NewNonceManager im_ops 10"

theorem sequential_no_replay_witness:
  "fst (ValidateNonce sample_manager 12 12 ''n1''
     (validate_all sample_manager [(3, 4, ''n2'')]
       (snd (ValidateNonce sample_manager 1 2 ''n1'' NewInMemoryNonceStore)))) \<noteq> None"
proof -
  have "fst (ValidateNonce sample_manager 1 2 ''n1'' NewInMemoryNonceStore) = None" by code_simp
  then have "ValidateNonce sample_manager 1 2 ''n1'' NewInMemoryNonceStore =
      (None, snd (ValidateNonce sample_manager 1 2 ''n1'' NewInMemoryNonceStore))"
    by (metis prod.collapse)
  then show ?thesis by (rule sequential_no_replay [OF sample_manager_def]) simp
qed

section \<open>Concurrent validations\<close>

text \<open>
  A validation is in \<open>nsys_calls\<close> between its two store calls. \<open>nsys_accepted\<close> logs the accepted
  nonces with the time. A pending deletion may run at any moment.
\<close>

record nonce_sys =
  nsys_store :: InMemoryNonceStore
  nsys_clock :: go_time
  nsys_calls :: "(nat, string) go_map"
  nsys_accepted :: "(string \<times> go_time) list"

datatype nonce_event = NCheck nat string | NConsume nat | NRunDelete string | NCleanup | NTick duration

fun nonce_step :: "duration \<Rightarrow> nonce_sys \<Rightarrow> nonce_event \<Rightarrow> nonce_sys" where
  "nonce_step ttl s (NCheck c nonce) =
     (if map_of (nsys_calls s) c \<noteq> None then s
      else
        (case validate_check (NewNonceManager im_ops ttl) (nsys_clock s) nonce (nsys_store s) of
           (None, st) \<Rightarrow> s\<lparr>nsys_store := st, nsys_calls := AList.update c nonce (nsys_calls s)\<rparr>
         | (Some _, st) \<Rightarrow> s\<lparr>nsys_store := st\<rparr>))"
| "nonce_step ttl s (NConsume c) =
     (case map_of (nsys_calls s) c of
        None \<Rightarrow> s
      | Some nonce \<Rightarrow>
          (case validate_consume (NewNonceManager im_ops ttl) (nsys_clock s) nonce (nsys_store s) of
             (None, st) \<Rightarrow> s\<lparr>nsys_store := st, nsys_calls := AList.delete c (nsys_calls s),
                             nsys_accepted := nsys_accepted s @ [(nonce, nsys_clock s)]\<rparr>
           | (Some _, st) \<Rightarrow> s\<lparr>nsys_store := st, nsys_calls := AList.delete c (nsys_calls s)\<rparr>))"
| "nonce_step ttl s (NRunDelete nonce) =
     (if nonce \<in> set (im_deletes (nsys_store s))
      then s\<lparr>nsys_store := (snd (im_Delete nonce (nsys_store s)))
               \<lparr>im_deletes := remove1 nonce (im_deletes (nsys_store s))\<rparr>\<rparr>
      else s)"
| "nonce_step ttl s NCleanup = s\<lparr>nsys_store := snd (im_Cleanup (nsys_clock s) (nsys_store s))\<rparr>"
| "nonce_step ttl s (NTick d) = (if 0 \<le> d then s\<lparr>nsys_clock := nsys_clock s + d\<rparr> else s)"

definition nonce_init :: "go_time \<Rightarrow> nonce_sys" where
  "nonce_init t0 = \<lparr> nsys_store = NewInMemoryNonceStore, nsys_clock = t0, nsys_calls = [], nsys_accepted = [] \<rparr>"

definition times_accepted :: "string \<Rightarrow> nonce_sys \<Rightarrow> nat" where
  "times_accepted n s = length (filter (\<lambda>(m, _). m = n) (nsys_accepted s))"

text \<open>Runs in which the clock does not pass a deadline.\<close>

inductive runs_until :: "duration \<Rightarrow> go_time \<Rightarrow> nonce_sys \<Rightarrow> nonce_sys \<Rightarrow> bool" for ttl deadline s0 where
  runs_refl: "runs_until ttl deadline s0 s0"
| runs_step: "runs_until ttl deadline s0 s \<Longrightarrow> nsys_clock s \<le> deadline \<Longrightarrow>
    runs_until ttl deadline s0 (nonce_step ttl s ev)"

text \<open>The store has the nonce, and no deletion of it is pending.\<close>

definition guarded :: "string \<Rightarrow> go_time \<Rightarrow> nonce_sys \<Rightarrow> bool" where
  "guarded n e s \<longleftrightarrow> map_ok (im_store (nsys_store s)) \<and> map_of (im_store (nsys_store s)) n = Some e \<and>
     n \<notin> set (im_deletes (nsys_store s))"

lemmas nonce_ops = validate_check_def validate_consume_def NewNonceManager_def im_ops_def
  im_Store_def im_Exists_def im_Delete_def im_Cleanup_def

declare map_of_eq_Some_iff [simp del]

lemma guarded_step:
  assumes "guarded n e s" "nsys_clock s \<le> e"
  shows "guarded n e (nonce_step ttl s ev) \<and> times_accepted n (nonce_step ttl s ev) = times_accepted n s"
proof (cases ev)
  case (NCheck c m)
  with assms show ?thesis
    by (cases "m = n") (auto simp: guarded_def times_accepted_def nonce_ops split: option.splits)
next
  case (NConsume c)
  with assms show ?thesis
    by (auto simp: guarded_def times_accepted_def nonce_ops split: option.splits)
next
  case (NRunDelete m)
  with assms show ?thesis
    by (auto simp: guarded_def times_accepted_def nonce_ops dest: notin_set_remove1)
next
  case NCleanup
  with assms show ?thesis
    by (auto simp: guarded_def times_accepted_def nonce_ops map_of_filter_ok map_ok_filter)
next
  case (NTick d)
  with assms show ?thesis by (simp add: guarded_def times_accepted_def)
qed

lemma guarded_runs:
  "runs_until ttl e s s' \<Longrightarrow> guarded n e s \<Longrightarrow>
   guarded n e s' \<and> times_accepted n s' = times_accepted n s"
  by (induction rule: runs_until.induct) (auto simp: guarded_step)

text \<open>
  C17. Concurrent validations: when a validation accepts a nonce of which no deletion is pending,
  then in every interleaving with any number of other validations, pending deletions and
  clean-ups the nonce is not accepted again until its time to live has passed.
\<close>

theorem concurrent_no_replay:
  assumes "map_ok (im_store (nsys_store s))" "n \<notin> set (im_deletes (nsys_store s))"
    and "map_of (nsys_calls s) c = Some n" "map_of (im_store (nsys_store s)) n = None"
    and "runs_until ttl (nsys_clock s + ttl) (nonce_step ttl s (NConsume c)) s'"
  shows "times_accepted n s' = times_accepted n s + 1"
proof -
  let ?s = "nonce_step ttl s (NConsume c)"
  have "guarded n (nsys_clock s + ttl) ?s" using assms(1-4) by (simp add: guarded_def nonce_ops)
  moreover have "times_accepted n ?s = times_accepted n s + 1"
    using assms(3,4) by (simp add: times_accepted_def nonce_ops)
  ultimately show ?thesis using guarded_runs [OF assms(5)] by simp
qed

definition nonce_checked :: nonce_sys where
  "nonce_checked = foldl (nonce_step 10) (nonce_init 0) [NCheck 1 ''n'', NCheck 2 ''n'']"

definition nonce_replayed :: nonce_sys where
  "nonce_replayed = foldl (nonce_step 10) (nonce_step 10 nonce_checked (NConsume 1))
     [NTick 10, NConsume 2, NCleanup, NCheck 3 ''n'', NConsume 3]"

theorem concurrent_no_replay_witness: "times_accepted ''n'' nonce_replayed = 1"
proof -
  have "runs_until 10 (nsys_clock nonce_checked + 10) (nonce_step 10 nonce_checked (NConsume 1)) nonce_replayed"
    unfolding nonce_replayed_def foldl.simps by (intro runs_step runs_refl; code_simp)
  then have "times_accepted ''n'' nonce_replayed = times_accepted ''n'' nonce_checked + 1"
    by (rule concurrent_no_replay [rotated 4]) code_simp+
  moreover have "times_accepted ''n'' nonce_checked = 0" by code_simp
  ultimately show ?thesis by simp
qed

text \<open>
  The condition on pending deletions is necessary: two validations that both find an expired
  nonce each start a deletion, and the second deletion can remove the entry that the first
  validation has just stored, so that both accept the same nonce at the same time.
\<close>

theorem late_delete_allows_replay:
  "\<exists>evs. nsys_accepted (foldl (nonce_step 10) (nonce_init 0) evs) = [(''n'', 0), (''n'', 11), (''n'', 11)]"
proof -
  have "nsys_accepted (foldl (nonce_step 10) (nonce_init 0)
    [NCheck 1 ''n'', NConsume 1, NTick 11, NCheck 2 ''n'', NCheck 3 ''n'', NRunDelete ''n'', NConsume 2,
     NRunDelete ''n'', NConsume 3]) = [(''n'', 0), (''n'', 11), (''n'', 11)]"
    by code_simp
  then show ?thesis by blast
qed

end
