(* ===== verification/Float_Ops.thy ===== *)
theory Float_Ops
  imports Go_Base
begin

text \<open>
  \<open>float64\<close> where the code computes with it. The definitions take the arithmetic as an argument:
  a record of the operations they use, over any type of floating-point numbers. So what is proved
  holds for IEEE 754 with all its roundings, and a law of the format is a hypothesis where one is
  used. Comparison is the source's: for a NaN every comparison is false, so \<open>a <= b\<close> is an
  operation of its own and not the negation of \<open>a > b\<close>.
\<close>

record 'f float_ops =
  f_of_int :: "int \<Rightarrow> 'f"
  f_lit :: "int \<Rightarrow> int \<Rightarrow> 'f"
  f_add :: "'f \<Rightarrow> 'f \<Rightarrow> 'f"
  f_sub :: "'f \<Rightarrow> 'f \<Rightarrow> 'f"
  f_mul :: "'f \<Rightarrow> 'f \<Rightarrow> 'f"
  f_div :: "'f \<Rightarrow> 'f \<Rightarrow> 'f"
  f_lt :: "'f \<Rightarrow> 'f \<Rightarrow> bool"
  f_le :: "'f \<Rightarrow> 'f \<Rightarrow> bool"
  f_trunc :: "'f \<Rightarrow> int64"
  f_parse :: "string \<Rightarrow> 'f option"

abbreviation f_zero :: "'f float_ops \<Rightarrow> 'f" where
  "f_zero F \<equiv> f_of_int F 0"

text \<open>
  A finite instance for concrete runs: integers with a NaN, division and literals rounded down.
\<close>

definition lift_nan :: "(int \<Rightarrow> int \<Rightarrow> int) \<Rightarrow> int option \<Rightarrow> int option \<Rightarrow> int option" where
  "lift_nan f a b = (case (a, b) of (Some x, Some y) \<Rightarrow> Some (f x y) | _ \<Rightarrow> None)"

definition nan_rel :: "(int \<Rightarrow> int \<Rightarrow> bool) \<Rightarrow> int option \<Rightarrow> int option \<Rightarrow> bool" where
  "nan_rel r a b = (case (a, b) of (Some x, Some y) \<Rightarrow> r x y | _ \<Rightarrow> False)"

definition coarse_float :: "(string \<Rightarrow> int option option) \<Rightarrow> int option float_ops" where
  "coarse_float parse = \<lparr> f_of_int = Some, f_lit = (\<lambda>n d. Some (n div d)), f_add = lift_nan (+), f_sub = lift_nan (-),
     f_mul = lift_nan (*), f_div = lift_nan (div), f_lt = nan_rel (<), f_le = nan_rel (\<le>),
     f_trunc = (\<lambda>x. case x of None \<Rightarrow> 0 | Some z \<Rightarrow> z), f_parse = parse \<rparr>"

end
