(* ===== verification/Rate_Limit.thy ===== *)
theory Rate_Limit
  imports Go_Strings Float_Ops Complex_Main
begin

text \<open>
  The rate limiters of \<open>internal/security/ratelimit.go\<close>, the sliding window and the token bucket. Each
  method runs under the mutex, so a history of concurrent calls is a sequence of calls with the
  times they read, which do not decrease (Go reads the monotonic clock under the lock). The token
  bucket computes with floating-point numbers, whose operations are an argument.
\<close>

section \<open>The limiter\<close>

record SlidingWindow =
  sw_windows :: "(string, go_time list) go_map"
  sw_limit :: int64
  sw_window :: duration

definition NewSlidingWindow :: "int64 \<Rightarrow> duration \<Rightarrow> SlidingWindow" where
  "NewSlidingWindow limit window = \<lparr> sw_windows = [], sw_limit = limit, sw_window = window \<rparr>"

definition sw_AllowWithLimit ::
  "go_time \<Rightarrow> string \<Rightarrow> int64 \<Rightarrow> duration \<Rightarrow> SlidingWindow \<Rightarrow> bool \<times> SlidingWindow" where
  "sw_AllowWithLimit now key limit window sw =
     (let cutoff = now + i64_neg window in
      case map_of (sw_windows sw) key of
        None \<Rightarrow> (True, sw\<lparr>sw_windows := AList.update key [now] (sw_windows sw)\<rparr>)
      | Some requests \<Rightarrow>
          let valid = filter (\<lambda>t. cutoff < t) requests in
          if limit \<le> int (length valid)
          then (False, sw\<lparr>sw_windows := AList.update key valid (sw_windows sw)\<rparr>)
          else (True, sw\<lparr>sw_windows := AList.update key (valid @ [now]) (sw_windows sw)\<rparr>))"

definition sw_Allow :: "go_time \<Rightarrow> string \<Rightarrow> SlidingWindow \<Rightarrow> bool \<times> SlidingWindow" where
  "sw_Allow now key sw = sw_AllowWithLimit now key (sw_limit sw) (sw_window sw) sw"

definition sw_Reset :: "string \<Rightarrow> SlidingWindow \<Rightarrow> SlidingWindow" where
  "sw_Reset key sw = sw\<lparr>sw_windows := AList.delete key (sw_windows sw)\<rparr>"

definition sw_CurrentActive :: "SlidingWindow \<Rightarrow> int64" where
  "sw_CurrentActive sw = int (length (sw_windows sw))"

section \<open>Histories\<close>

text \<open>
  A history of \<open>Allow\<close> calls. The log holds the calls that were let through, in order; it is not
  part of the code's state.
\<close>

record sw_sys =
  sw_lim :: SlidingWindow
  sw_log :: "(string \<times> go_time) list"
  sw_last :: go_time

fun sw_call :: "sw_sys \<Rightarrow> go_time \<times> string \<Rightarrow> sw_sys" where
  "sw_call s (now, key) =
     (case sw_Allow now key (sw_lim s) of
        (True, sw) \<Rightarrow> s\<lparr>sw_lim := sw, sw_log := sw_log s @ [(key, now)], sw_last := now\<rparr>
      | (False, sw) \<Rightarrow> s\<lparr>sw_lim := sw, sw_last := now\<rparr>)"

fun sw_ordered :: "sw_sys \<Rightarrow> go_time \<times> string \<Rightarrow> bool" where
  "sw_ordered s (now, key) = (sw_last s \<le> now)"

definition sw_start :: "sw_sys \<Rightarrow> bool" where
  "sw_start s \<longleftrightarrow> 1 \<le> sw_limit (sw_lim s) \<and> 0 < sw_window (sw_lim s) \<and> in_int64 (sw_window (sw_lim s)) \<and>
     sw_lim s = NewSlidingWindow (sw_limit (sw_lim s)) (sw_window (sw_lim s)) \<and> sw_log s = []"

text \<open>The times at which a key was let through, after a time.\<close>

definition passed :: "sw_sys \<Rightarrow> string \<Rightarrow> go_time list" where
  "passed s key = map snd (filter (\<lambda>(k, _). k = key) (sw_log s))"

definition passed_in :: "sw_sys \<Rightarrow> string \<Rightarrow> go_time \<Rightarrow> go_time \<Rightarrow> nat" where
  "passed_in s key a b = length (filter (\<lambda>t. a < t \<and> t \<le> b) (passed s key))"

text \<open>
  The invariant: nothing in the log is later than the last call, the stored times of a key agree
  with the log from the last cut-off on, and no interval of the window's length holds more than
  \<open>limit\<close> calls.
\<close>

definition stored :: "sw_sys \<Rightarrow> string \<Rightarrow> go_time list" where
  "stored s key = (case map_of (sw_windows (sw_lim s)) key of None \<Rightarrow> [] | Some ts \<Rightarrow> ts)"

definition sw_inv :: "sw_sys \<Rightarrow> bool" where
  "sw_inv s \<longleftrightarrow> 1 \<le> sw_limit (sw_lim s) \<and> 0 < sw_window (sw_lim s) \<and> in_int64 (sw_window (sw_lim s)) \<and>
     (\<forall>key. (\<forall>t \<in> set (passed s key). t \<le> sw_last s) \<and>
       (\<forall>c. sw_last s - sw_window (sw_lim s) \<le> c \<longrightarrow>
          filter (\<lambda>t. c < t) (passed s key) = filter (\<lambda>t. c < t) (stored s key)) \<and>
       (\<forall>a. int (passed_in s key a (a + sw_window (sw_lim s))) \<le> sw_limit (sw_lim s)))"

lemma sw_start_inv: "sw_start s \<Longrightarrow> sw_inv s"
proof -
  assume "sw_start s"
  then have lim: "1 \<le> sw_limit (sw_lim s)" "0 < sw_window (sw_lim s)" "in_int64 (sw_window (sw_lim s))"
    and log: "sw_log s = []" and "sw_lim s = NewSlidingWindow (sw_limit (sw_lim s)) (sw_window (sw_lim s))"
    by (simp_all add: sw_start_def)
  then have "sw_windows (sw_lim s) = []" by (metis NewSlidingWindow_def SlidingWindow.select_convs(1))
  with lim log show ?thesis by (simp add: sw_inv_def passed_def passed_in_def stored_def)
qed

lemma i64_neg_window: "0 < w \<Longrightarrow> in_int64 w \<Longrightarrow> i64_neg w = - w"
  by (simp add: i64_neg_def in_int64_def min_int64_def max_int64_def)

text \<open>One call on its key, in terms of the log.\<close>

lemma sw_call_cases:
  assumes inv: "sw_inv s" and ord: "sw_last s \<le> now"
  defines "w \<equiv> sw_window (sw_lim s)"
  shows "if int (passed_in s key (now - w) now) < sw_limit (sw_lim s)
    then sw_log (sw_call s (now, key)) = sw_log s @ [(key, now)] \<and>
      stored (sw_call s (now, key)) key = filter (\<lambda>t. now - w < t) (passed s key) @ [now]
    else sw_log (sw_call s (now, key)) = sw_log s \<and>
      stored (sw_call s (now, key)) key = filter (\<lambda>t. now - w < t) (passed s key)"
proof -
  have w: "0 < w" "in_int64 w" "1 \<le> sw_limit (sw_lim s)" using inv by (simp_all add: sw_inv_def w_def)
  have cut: "now + i64_neg w = now - w" using w by (simp add: i64_neg_window)
  have eq: "filter (\<lambda>t. now - w < t) (passed s key) = filter (\<lambda>t. now - w < t) (stored s key)"
    using inv ord by (simp add: sw_inv_def w_def)
  have "\<forall>t\<in>set (passed s key). t \<le> now" using inv ord by (fastforce simp: sw_inv_def)
  then have cnt: "passed_in s key (now - w) now = length (filter (\<lambda>t. now - w < t) (passed s key))"
    unfolding passed_in_def by (metis (mono_tags, lifting) filter_cong)
  show ?thesis
  proof (cases "map_of (sw_windows (sw_lim s)) key")
    case None
    then have "filter (\<lambda>t. now - w < t) (passed s key) = []" using eq by (simp add: stored_def)
    then show ?thesis using None w cnt
      by (simp add: sw_Allow_def sw_AllowWithLimit_def stored_def Let_def)
  next
    case (Some ts)
    then have "stored s key = ts" by (simp add: stored_def)
    then show ?thesis using Some cnt eq cut
      by (simp add: sw_Allow_def sw_AllowWithLimit_def Let_def stored_def w_def [symmetric])
  qed
qed

lemma sw_call_frame:
  "sw_limit (sw_lim (sw_call s (now, key))) = sw_limit (sw_lim s)"
  "sw_window (sw_lim (sw_call s (now, key))) = sw_window (sw_lim s)"
  "sw_last (sw_call s (now, key)) = now"
  "k \<noteq> key \<Longrightarrow> stored (sw_call s (now, key)) k = stored s k"
  by (auto simp: sw_Allow_def sw_AllowWithLimit_def stored_def Let_def split: option.split bool.split)

declare sw_call.simps [simp del]

lemma passed_log: "sw_log s' = sw_log s @ [(key, now)] \<Longrightarrow>
    passed s' k = passed s k @ (if k = key then [now] else [])"
  by (simp add: passed_def)

lemma filter_lower: "c \<le> (d::int) \<Longrightarrow> filter (\<lambda>t. c < t \<and> d < t) xs = filter (\<lambda>t. d < t) xs"
  by (induction xs) auto

lemma sw_call_inv:
  assumes inv: "sw_inv s" and ord: "sw_ordered s (now, key)"
  shows "sw_inv (sw_call s (now, key))"
proof -
  let ?s = "sw_call s (now, key)"
  let ?w = "sw_window (sw_lim s)" and ?l = "sw_limit (sw_lim s)"
  have last: "sw_last s \<le> now" using ord by simp
  note fr = sw_call_frame [where s = s and now = now and key = key]
  have lim: "1 \<le> ?l" "0 < ?w" "in_int64 ?w"
    and late: "\<And>k t. t \<in> set (passed s k) \<Longrightarrow> t \<le> now"
    and agree: "\<And>k c. now - ?w \<le> c \<Longrightarrow> filter (\<lambda>t. c < t) (passed s k) = filter (\<lambda>t. c < t) (stored s k)"
    and bound: "\<And>k a. int (passed_in s k a (a + ?w)) \<le> ?l"
    using inv last by (auto simp: sw_inv_def) (meson order_trans)
  have "(\<forall>t \<in> set (passed ?s k). t \<le> now) \<and>
      (\<forall>c. now - ?w \<le> c \<longrightarrow> filter (\<lambda>t. c < t) (passed ?s k) = filter (\<lambda>t. c < t) (stored ?s k)) \<and>
      (\<forall>a. int (passed_in ?s k a (a + ?w)) \<le> ?l)" for k
  proof (cases "int (passed_in s key (now - ?w) now) < ?l")
    case False
    with sw_call_cases [OF inv last, of key]
    have log: "sw_log ?s = sw_log s" and st: "stored ?s key = filter (\<lambda>t. now - ?w < t) (passed s key)"
      by simp_all
    from log have p: "passed ?s k = passed s k" by (simp add: passed_def)
    then have "passed_in ?s k = passed_in s k" by (simp add: passed_in_def fun_eq_iff)
    with p late agree bound show ?thesis
      by (cases "k = key") (simp_all add: st fr(4) filter_lower)
  next
    case True
    with sw_call_cases [OF inv last, of key]
    have log: "sw_log ?s = sw_log s @ [(key, now)]"
      and st: "stored ?s key = filter (\<lambda>t. now - ?w < t) (passed s key) @ [now]"
      by simp_all
    from log have p: "passed ?s k = passed s k @ (if k = key then [now] else [])" by (rule passed_log)
    show ?thesis
    proof (cases "k = key")
      case other: False
      with p have "passed ?s k = passed s k" by simp
      then have "passed_in ?s k = passed_in s k" by (simp add: passed_in_def fun_eq_iff)
      with other p late agree bound show ?thesis by (simp add: fr(4))
    next
      case same: True
      have "int (passed_in ?s k a (a + ?w)) \<le> ?l" for a
      proof (cases "a < now \<and> now \<le> a + ?w")
        case True
        then have "passed_in s k a (a + ?w) \<le> passed_in s k (now - ?w) now"
          unfolding passed_in_def using late
          by (auto simp: length_filter_conv_card intro!: card_mono) (meson nth_mem)
        with \<open>int (passed_in s key (now - ?w) now) < ?l\<close> True same p show ?thesis
          by (simp add: passed_in_def)
      next
        case False
        then have "passed_in ?s k a (a + ?w) = passed_in s k a (a + ?w)"
          using p same by (auto simp: passed_in_def)
        with bound show ?thesis by simp
      qed
      with same p late show ?thesis by (auto simp: st filter_lower)
    qed
  qed
  with lim show ?thesis unfolding sw_inv_def fr(1-3) by blast
qed

interpretation sw: transition_system sw_start sw_call sw_ordered sw_inv
  by unfold_locales (auto intro: sw_start_inv sw_call_inv)

lemma sorted_admissible: "sorted (sw_last s # map fst calls) \<Longrightarrow> sw.admissible s calls"
proof (induction calls arbitrary: s)
  case Nil
  show ?case by simp
next
  case (Cons c calls)
  then show ?case by (cases c) (simp add: sw_call_frame(3))
qed

text \<open>
  After any history of calls for any keys at non-decreasing times, with a limit of at least
  one: the next call for a key is let through exactly when fewer than \<open>limit\<close> calls for the key
  were let through in the window before it, and no interval of the window's length ever contains
  more than \<open>limit\<close> calls of one key that were let through.
\<close>

theorem sliding_window_exact:
  assumes "s0 = \<lparr> sw_lim = NewSlidingWindow limit w, sw_log = [], sw_last = t0 \<rparr>"
    and "1 \<le> limit" "0 < w" "in_int64 w" "sorted (t0 # map fst calls)" "s = foldl sw_call s0 calls"
    and "sw_last s \<le> now"
  shows "fst (sw_Allow now key (sw_lim s)) = (int (passed_in s key (now - w) now) < limit) \<and>
    int (passed_in s key a (a + w)) \<le> limit"
proof -
  have "sw_start s0" using assms by (simp add: sw_start_def NewSlidingWindow_def)
  then have inv: "sw_inv s" using sw.run_init_inv sorted_admissible [of s0 calls] assms(1,5,6)
    by (simp add: sw.run_foldl)
  have "sw_limit (sw_lim (foldl sw_call s0 cs)) = limit \<and> sw_window (sw_lim (foldl sw_call s0 cs)) = w" for cs
    by (induction cs rule: rev_induct)
      (use assms(1) in \<open>auto simp: NewSlidingWindow_def sw_call_frame\<close>)
  then have cfg: "sw_limit (sw_lim s) = limit" "sw_window (sw_lim s) = w" using assms(6) by simp_all
  have "fst (sw_Allow now key (sw_lim s)) \<longleftrightarrow> sw_log (sw_call s (now, key)) = sw_log s @ [(key, now)]"
    by (auto simp: sw_call.simps split: prod.split bool.split)
  with sw_call_cases [OF inv assms(7), of key] cfg inv show ?thesis
    by (auto simp: sw_inv_def split: if_splits)
qed

theorem sliding_window_exact_witness:
  "\<exists>s. s = foldl sw_call \<lparr> sw_lim = NewSlidingWindow 2 10, sw_log = [], sw_last = 0 \<rparr>
       [(1, ''k''), (5, ''k''), (6, ''k'')] \<and>
     passed s ''k'' = [1, 5] \<and> \<not> fst (sw_Allow 10 ''k'' (sw_lim s)) \<and> fst (sw_Allow 11 ''k'' (sw_lim s))"
proof -
  define s0 where "s0 = \<lparr> sw_lim = NewSlidingWindow 2 10, sw_log = [], sw_last = (0::int) \<rparr>"
  define s where "s = foldl sw_call s0 [(1, ''k''), (5, ''k''), (6, ''k'')]"
  have p: "passed s ''k'' = [1, 5]" and l: "sw_last s = 6"
    unfolding s_def s0_def by code_simp+
  have "fst (sw_Allow now ''k'' (sw_lim s)) = (int (passed_in s ''k'' (now - 10) now) < 2)" if "6 \<le> now" for now
    using sliding_window_exact [OF s0_def _ _ _ _ s_def, of now] that l
    by (simp add: in_int64_def min_int64_def max_int64_def)
  from this [of 10] this [of 11] p have "\<not> fst (sw_Allow 10 ''k'' (sw_lim s)) \<and> fst (sw_Allow 11 ''k'' (sw_lim s))"
    by (simp add: passed_in_def)
  with p show ?thesis unfolding s_def s0_def by blast
qed

section \<open>The token bucket\<close>

record 'f tokenBucket =
  tb_tokens :: 'f
  tb_lastRefill :: go_time

record 'f TokenBucket =
  tb_buckets :: "(string, 'f tokenBucket) go_map"
  tb_rate :: 'f
  tb_burst :: int64

definition NewTokenBucket :: "'f \<Rightarrow> int64 \<Rightarrow> 'f TokenBucket" where
  "NewTokenBucket rate burst = \<lparr> tb_buckets = [], tb_rate = rate, tb_burst = burst \<rparr>"

text \<open>\<open>Duration.Seconds\<close>: whole seconds and the rest, each converted.\<close>

definition f_seconds :: "'f float_ops \<Rightarrow> duration \<Rightarrow> 'f" where
  "f_seconds F d = f_add F (f_of_int F (i64_quot d second)) (f_div F (f_of_int F (i64_rem d second)) (f_of_int F 1000000000))"

definition f_min :: "'f float_ops \<Rightarrow> 'f \<Rightarrow> 'f \<Rightarrow> 'f" where
  "f_min F a b = (if f_lt F a b then a else b)"

text \<open>\<open>created\<close> is the first reading of the clock, used for a key that has no bucket, \<open>now\<close> the second.\<close>

definition tb_AllowWithLimit ::
  "'f float_ops \<Rightarrow> go_time \<Rightarrow> go_time \<Rightarrow> string \<Rightarrow> int64 \<Rightarrow> 'f TokenBucket \<Rightarrow> bool \<times> 'f TokenBucket" where
  "tb_AllowWithLimit F created now key limit tb =
     (let bucket = (case map_of (tb_buckets tb) key of
                      Some b \<Rightarrow> b
                    | None \<Rightarrow> \<lparr> tb_tokens = f_of_int F limit, tb_lastRefill = created \<rparr>);
          elapsed = f_seconds F (time_sub now (tb_lastRefill bucket));
          tokens = f_min F (f_of_int F limit) (f_add F (tb_tokens bucket) (f_mul F elapsed (tb_rate tb)));
          set = (\<lambda>t. tb\<lparr>tb_buckets := AList.update key \<lparr> tb_tokens = t, tb_lastRefill = now \<rparr> (tb_buckets tb)\<rparr>) in
      if f_le F (f_of_int F 1) tokens then (True, set (f_sub F tokens (f_of_int F 1))) else (False, set tokens))"

definition tb_Allow :: "'f float_ops \<Rightarrow> go_time \<Rightarrow> go_time \<Rightarrow> string \<Rightarrow> 'f TokenBucket \<Rightarrow> bool \<times> 'f TokenBucket" where
  "tb_Allow F created now key tb = tb_AllowWithLimit F created now key (tb_burst tb) tb"

definition tb_Reset :: "string \<Rightarrow> 'f TokenBucket \<Rightarrow> 'f TokenBucket" where
  "tb_Reset key tb = tb\<lparr>tb_buckets := AList.delete key (tb_buckets tb)\<rparr>"

definition tb_CurrentActive :: "'f TokenBucket \<Rightarrow> int64" where
  "tb_CurrentActive tb = int (length (tb_buckets tb))"

text \<open>The interface \<open>RateLimiter\<close> is the sum of its two implementations.\<close>

datatype 'f RateLimiter = LimTokenBucket "'f TokenBucket" | LimSlidingWindow SlidingWindow

definition NewRateLimiter :: "'f float_ops \<Rightarrow> string \<Rightarrow> int64 \<Rightarrow> duration \<Rightarrow> 'f RateLimiter" where
  "NewRateLimiter F limiterType limit window =
     (if limiterType = ''sliding_window'' then LimSlidingWindow (NewSlidingWindow limit window)
      else LimTokenBucket (NewTokenBucket (f_div F (f_of_int F limit) (f_seconds F window)) limit))"

fun rl_Allow :: "'f float_ops \<Rightarrow> go_time \<Rightarrow> go_time \<Rightarrow> string \<Rightarrow> 'f RateLimiter \<Rightarrow> bool \<times> 'f RateLimiter" where
  "rl_Allow F created now key (LimTokenBucket tb) =
     (case tb_Allow F created now key tb of (ok, tb) \<Rightarrow> (ok, LimTokenBucket tb))"
| "rl_Allow F created now key (LimSlidingWindow sw) =
     (case sw_Allow now key sw of (ok, sw) \<Rightarrow> (ok, LimSlidingWindow sw))"

section \<open>The rate of a token bucket\<close>

text \<open>
  The arithmetic without rounding, and the calls of \<open>Allow\<close> with the log of the keys let through. A
  call is its two readings of the clock and its key.
\<close>

definition exact_float :: "(string \<Rightarrow> real option) \<Rightarrow> real float_ops" where
  "exact_float parse = \<lparr> f_of_int = real_of_int, f_lit = (\<lambda>n d. real_of_int n / real_of_int d), f_add = (+), f_sub = (-),
     f_mul = (*), f_div = (/), f_lt = (<), f_le = (\<le>), f_trunc = floor, f_parse = parse \<rparr>"

definition tb_call ::
  "'f float_ops \<Rightarrow> 'f TokenBucket \<times> string list \<Rightarrow> go_time \<times> go_time \<times> string \<Rightarrow> 'f TokenBucket \<times> string list" where
  "tb_call F s call =
     (case call of (created, now, key) \<Rightarrow>
        (case tb_Allow F created now key (fst s) of (ok, tb) \<Rightarrow> (tb, if ok then snd s @ [key] else snd s)))"

fun tb_ordered :: "go_time \<Rightarrow> (go_time \<times> go_time \<times> string) list \<Rightarrow> bool" where
  "tb_ordered t [] = True"
| "tb_ordered t ((created, now, key) # calls) = (t \<le> created \<and> created \<le> now \<and> tb_ordered now calls)"

fun tb_end :: "go_time \<Rightarrow> (go_time \<times> go_time \<times> string) list \<Rightarrow> go_time" where
  "tb_end t [] = t"
| "tb_end t ((created, now, key) # calls) = tb_end now calls"

lemma tb_ordered_end: "tb_ordered t calls \<Longrightarrow> t \<le> tb_end t calls"
  by (induction t calls rule: tb_ordered.induct) auto

lemma exact_simps [simp]:
  "f_of_int (exact_float p) z = real_of_int z" "f_add (exact_float p) x y = x + y" "f_sub (exact_float p) x y = x - y"
  "f_mul (exact_float p) x y = x * y" "f_div (exact_float p) x y = x / y" "f_lt (exact_float p) x y = (x < y)"
  "f_le (exact_float p) x y = (x \<le> y)"
  by (simp_all add: exact_float_def)

lemma div_le_self_int: "0 \<le> (d::int) \<Longrightarrow> 0 < k \<Longrightarrow> d div k \<le> d"
  using zdiv_mono2 [of d 1 k] by simp

lemma exact_seconds: "in_int64 d \<Longrightarrow> 0 \<le> d \<Longrightarrow> f_seconds (exact_float p) d = real_of_int d / 10 ^ 9"
proof -
  assume d: "in_int64 d" "0 \<le> d"
  have "in_int64 (d div 10 ^ 9)" "in_int64 (d mod 10 ^ 9)"
    using in_int64_nonneg_le [OF d(1)] d(2) by (simp_all add: zmod_le_nonneg_dividend div_le_self_int)
  then have "i64_quot d second = d div 10 ^ 9" "i64_rem d second = d mod 10 ^ 9"
    using d by (simp_all add: i64_quot_def i64_rem_def second_def go_arith)
  moreover have "real_of_int (d div 10 ^ 9) + real_of_int (d mod 10 ^ 9) / 10 ^ 9 = real_of_int d / 10 ^ 9"
  proof -
    have "real_of_int d = real_of_int (d div 10 ^ 9 * 10 ^ 9 + d mod 10 ^ 9)" by (simp only: div_mult_mod_eq)
    then have "real_of_int d = real_of_int (d div 10 ^ 9) * 10 ^ 9 + real_of_int (d mod 10 ^ 9)"
      by (simp only: of_int_add of_int_mult of_int_power of_int_numeral)
    then show ?thesis by (simp add: add_divide_distrib)
  qed
  ultimately show ?thesis by (simp add: f_seconds_def)
qed

text \<open>What one key has used and still has never exceeds the capacity and what has flowed in since \<open>t0\<close>.\<close>

definition tb_key_ok :: "real \<Rightarrow> int64 \<Rightarrow> go_time \<Rightarrow> go_time \<Rightarrow> real tokenBucket option \<Rightarrow> nat \<Rightarrow> bool" where
  "tb_key_ok rate burst t0 t bucket used \<longleftrightarrow>
     (case bucket of
        None \<Rightarrow> used = 0
      | Some b \<Rightarrow> 0 \<le> tb_tokens b \<and> t0 \<le> tb_lastRefill b \<and> tb_lastRefill b \<le> t \<and>
          real used + tb_tokens b \<le> real_of_int burst + rate * (real_of_int (tb_lastRefill b - t0) / 10 ^ 9))"

definition tb_inv :: "real \<Rightarrow> int64 \<Rightarrow> go_time \<Rightarrow> go_time \<Rightarrow> real TokenBucket \<times> string list \<Rightarrow> bool" where
  "tb_inv rate burst t0 t s \<longleftrightarrow> tb_rate (fst s) = rate \<and> tb_burst (fst s) = burst \<and> t0 \<le> t \<and>
     (\<forall>key. tb_key_ok rate burst t0 t (map_of (tb_buckets (fst s)) key) (count_list (snd s) key))"

lemma tb_call_inv:
  assumes inv: "tb_inv rate burst t0 t s" and "0 \<le> rate" "0 \<le> burst" "t \<le> created" "created \<le> now" "now - t0 < 2 ^ 63"
  shows "tb_inv rate burst t0 now (tb_call (exact_float p) s (created, now, key))"
proof -
  let ?F = "exact_float p"
  define b where "b = (case map_of (tb_buckets (fst s)) key of Some b \<Rightarrow> b
     | None \<Rightarrow> \<lparr> tb_tokens = real_of_int burst, tb_lastRefill = created \<rparr>)"
  define flow where "flow d = rate * (real_of_int d / 10 ^ 9)" for d
  have flow_add: "flow (x + y) = flow x + flow y" for x y by (simp add: flow_def field_simps)
  have flow_pos: "0 \<le> d \<Longrightarrow> 0 \<le> flow d" for d using assms(2) by (simp add: flow_def)
  have tt: "t0 \<le> t" using inv by (simp add: tb_inv_def)
  have b: "0 \<le> tb_tokens b" "t0 \<le> tb_lastRefill b" "tb_lastRefill b \<le> now"
    "real (count_list (snd s) key) + tb_tokens b \<le> real_of_int burst + flow (tb_lastRefill b - t0)"
    using inv [unfolded tb_inv_def, THEN conjunct2, THEN conjunct2, THEN conjunct2, THEN spec, of key] assms(2-5) tt
      flow_pos [of "created - t0"]
    unfolding b_def tb_key_ok_def flow_def by (auto split: option.splits)
  have "in_int64 (now - tb_lastRefill b)" using b assms(6) by (intro in_int64I) auto
  then have el: "f_seconds ?F (time_sub now (tb_lastRefill b)) = real_of_int (now - tb_lastRefill b) / 10 ^ 9"
    using b by (simp add: time_sub_def in_int64_def exact_seconds)
  define v where "v = min (real_of_int burst) (tb_tokens b + flow (now - tb_lastRefill b))"
  have v: "0 \<le> v" "v \<le> tb_tokens b + flow (now - tb_lastRefill b)"
    using b flow_pos [of "now - tb_lastRefill b"] assms(3) by (simp_all add: v_def)
  have step: "tb_call ?F s (created, now, key) =
      (let set = (\<lambda>t. (fst s)\<lparr>tb_buckets := AList.update key \<lparr> tb_tokens = t, tb_lastRefill = now \<rparr> (tb_buckets (fst s))\<rparr>) in
       if 1 \<le> v then (set (v - 1), snd s @ [key]) else (set v, snd s))"
  proof -
    have cfg: "tb_rate (fst s) = rate" "tb_burst (fst s) = burst" using inv by (simp_all add: tb_inv_def)
    have "f_min ?F (real_of_int burst) (tb_tokens b + f_seconds ?F (time_sub now (tb_lastRefill b)) * rate) = v"
      unfolding el v_def flow_def f_min_def by (simp add: min_def mult.commute)
    then have "tb_Allow ?F created now key (fst s) =
        (let set = (\<lambda>t. (fst s)\<lparr>tb_buckets := AList.update key \<lparr> tb_tokens = t, tb_lastRefill = now \<rparr> (tb_buckets (fst s))\<rparr>) in
         if 1 \<le> v then (True, set (v - 1)) else (False, set v))"
      unfolding tb_Allow_def tb_AllowWithLimit_def cfg exact_simps b_def [symmetric] by (simp add: Let_def)
    then show ?thesis by (simp add: tb_call_def Let_def)
  qed
  have sum: "real (count_list (snd s) key) + v \<le> real_of_int burst + flow (now - t0)"
    using b(4) v(2) flow_add [of "tb_lastRefill b - t0" "now - tb_lastRefill b"] by simp
  have "tb_key_ok rate burst t0 now (map_of (tb_buckets (fst (tb_call ?F s (created, now, key)))) k)
      (count_list (snd (tb_call ?F s (created, now, key))) k)" for k
  proof (cases "k = key")
    case True
    then show ?thesis using sum v(1) tt assms(4,5) unfolding step tb_key_ok_def flow_def by (simp add: Let_def)
  next
    case False
    have "tb_key_ok rate burst t0 t (map_of (tb_buckets (fst s)) k) (count_list (snd s) k)"
      using inv by (simp add: tb_inv_def)
    then show ?thesis using False assms(4,5) unfolding step tb_key_ok_def by (auto simp: Let_def split: option.splits)
  qed
  moreover have "tb_rate (fst (tb_call ?F s (created, now, key))) = rate" "tb_burst (fst (tb_call ?F s (created, now, key))) = burst"
    using inv unfolding step by (simp_all add: tb_inv_def Let_def)
  ultimately show ?thesis using tt assms(4,5) by (simp add: tb_inv_def)
qed

lemma tb_run_inv:
  "tb_inv rate burst t0 t s \<Longrightarrow> 0 \<le> rate \<Longrightarrow> 0 \<le> burst \<Longrightarrow> tb_ordered t calls \<Longrightarrow> tb_end t calls - t0 < 2 ^ 63 \<Longrightarrow>
     tb_inv rate burst t0 (tb_end t calls) (foldl (tb_call (exact_float p)) s calls)"
proof (induction t calls arbitrary: s rule: tb_ordered.induct)
  case (2 t created now key calls)
  then have "now \<le> tb_end now calls" by (simp add: tb_ordered_end)
  with 2 show ?case by (simp add: tb_call_inv)
qed simp

text \<open>
  Without rounding, whatever the calls: of one key the token bucket lets through at most its
  capacity and what flows in at its rate over the time of the calls.
\<close>

theorem token_bucket_rate:
  assumes "0 \<le> rate" "0 \<le> burst" "tb_ordered t0 calls" "tb_end t0 calls - t0 < 2 ^ 63"
  shows "real (count_list (snd (foldl (tb_call (exact_float p)) (NewTokenBucket rate burst, []) calls)) key)
    \<le> real_of_int burst + rate * (real_of_int (tb_end t0 calls - t0) / 10 ^ 9)"
proof -
  let ?s = "foldl (tb_call (exact_float p)) (NewTokenBucket rate burst, []) calls"
  have "tb_inv rate burst t0 t0 (NewTokenBucket rate burst, [])" by (simp add: tb_inv_def tb_key_ok_def NewTokenBucket_def)
  from tb_run_inv [OF this assms] have inv: "tb_inv rate burst t0 (tb_end t0 calls) ?s" .
  show ?thesis
  proof (cases "map_of (tb_buckets (fst ?s)) key")
    case None
    then have "count_list (snd ?s) key = 0" using inv by (auto simp: tb_inv_def tb_key_ok_def dest: spec [of _ key])
    then show ?thesis using assms tb_ordered_end [OF assms(3)] by simp
  next
    case (Some b)
    then have b: "0 \<le> tb_tokens b" "tb_lastRefill b \<le> tb_end t0 calls"
      "real (count_list (snd ?s) key) + tb_tokens b \<le> real_of_int burst + rate * (real_of_int (tb_lastRefill b - t0) / 10 ^ 9)"
      using inv [unfolded tb_inv_def, THEN conjunct2, THEN conjunct2, THEN conjunct2, THEN spec, of key]
      by (simp_all add: tb_key_ok_def)
    have "rate * (real_of_int (tb_lastRefill b - t0) / 10 ^ 9) \<le> rate * (real_of_int (tb_end t0 calls - t0) / 10 ^ 9)"
      using b(2) assms(1) by (intro mult_left_mono divide_right_mono) simp_all
    with b show ?thesis by linarith
  qed
qed

theorem token_bucket_rate_witness:
  "real (count_list (snd (foldl (tb_call (exact_float Map.empty)) (NewTokenBucket 1 2, [])
     [(0, 0, ''k''), (0, 5, ''k''), (5, 7, ''k''), (9, 1000000000, ''k'')])) ''k'') \<le> 3"
  using token_bucket_rate [of 1 2 0 "[(0, 0, ''k''), (0, 5, ''k''), (5, 7, ''k''), (9, 1000000000, ''k'')]" Map.empty "''k''"]
  by (simp del: foldl_Cons)

end
