(* ===== verification/Penalty_Box.thy ===== *)
theory Penalty_Box
  imports Go_Strings
begin

text \<open>
  The penalty box of \<open>internal/server/penaltybox.go\<close>: callers that violate limits too often are
  banned for a time that grows with each offence. Every method runs under the mutex; the clock
  reading is its argument. The metrics counters it feeds are not modelled.
\<close>

section \<open>State and operations\<close>

record penaltyEntry =
  windowStart :: go_time
  violations :: int64
  bannedUntil :: go_time
  offenses :: int64
  lastActivity :: go_time

record penaltyBox =
  pb_enabled :: bool
  threshold :: int64
  window :: duration
  baseBan :: duration
  escalatedBan :: duration
  maxBan :: duration
  offenseReset :: duration
  maxEntries :: int64
  entries :: "(string, penaltyEntry) go_map"
  cleanupDeadline :: go_time

definition newPenaltyBox ::
  "bool \<Rightarrow> int64 \<Rightarrow> duration \<Rightarrow> duration \<Rightarrow> duration \<Rightarrow> duration \<Rightarrow> penaltyBox" where
  "newPenaltyBox en thr win base esc mx =
     \<lparr> pb_enabled = en,
       threshold = (if thr \<le> 0 then 10 else thr),
       window = (if win \<le> 0 then 2 * minute else win),
       baseBan = (if base \<le> 0 then 15 * minute else base),
       escalatedBan = (if esc \<le> 0 then hour else esc),
       maxBan = (if mx \<le> 0 then 24 * hour else mx),
       offenseReset = 24 * hour, maxEntries = 100000, entries = [], cleanupDeadline = 0 \<rparr>"

definition banDuration :: "penaltyBox \<Rightarrow> int64 \<Rightarrow> duration" where
  "banDuration p off = (if off \<le> 1 then baseBan p else if off = 2 then escalatedBan p else maxBan p)"

definition cleanupLocked :: "go_time \<Rightarrow> penaltyBox \<Rightarrow> penaltyBox" where
  "cleanupLocked now p =
     (if now < cleanupDeadline p \<and> int (length (entries p)) \<le> maxEntries p then p
      else p\<lparr>cleanupDeadline := now + minute,
             entries := filter (\<lambda>(_, e). \<not> (bannedUntil e < now \<and>
                          offenseReset p < time_sub now (lastActivity e))) (entries p)\<rparr>)"

definition activeBansLocked :: "go_time \<Rightarrow> penaltyBox \<Rightarrow> int64" where
  "activeBansLocked now p = int (length (filter (\<lambda>(_, e). now < bannedUntil e) (entries p)))"

definition banned :: "string \<Rightarrow> go_time \<Rightarrow> penaltyBox \<Rightarrow> (bool \<times> go_time) \<times> penaltyBox" where
  "banned key now p =
     (if \<not> pb_enabled p \<or> key = [] then ((False, 0), p)
      else
        let p = cleanupLocked now p in
        case map_of (entries p) key of
          None \<Rightarrow> ((False, 0), p)
        | Some e \<Rightarrow>
            let e = e\<lparr>lastActivity := now\<rparr>;
                p = p\<lparr>entries := AList.update key e (entries p)\<rparr> in
            if now < bannedUntil e then ((True, bannedUntil e), p) else ((False, 0), p))"

text \<open>The update of one entry by a violation, with the new ban when there is one.\<close>

definition violate :: "penaltyBox \<Rightarrow> go_time \<Rightarrow> penaltyEntry \<Rightarrow> go_time option \<times> penaltyEntry" where
  "violate p now e =
     (let e = e\<lparr>lastActivity := now\<rparr>;
          e = (if window p < time_sub now (windowStart e) then e\<lparr>windowStart := now, violations := 0\<rparr> else e);
          e = (if \<not> time_is_zero (bannedUntil e) \<and> offenseReset p < time_sub now (bannedUntil e)
               then e\<lparr>offenses := 0\<rparr> else e);
          e = e\<lparr>violations := i64_add (violations e) 1\<rparr> in
      if violations e < threshold p then (None, e)
      else
        let e = e\<lparr>offenses := i64_add (offenses e) 1, violations := 0, windowStart := now\<rparr>;
            e = e\<lparr>bannedUntil := now + banDuration p (offenses e)\<rparr> in
        (Some (bannedUntil e), e))"

definition new_entry :: "go_time \<Rightarrow> penaltyEntry" where
  "new_entry now = \<lparr> windowStart = now, violations = 0, bannedUntil = 0, offenses = 0, lastActivity = 0 \<rparr>"

definition recordViolation :: "string \<Rightarrow> go_time \<Rightarrow> penaltyBox \<Rightarrow> (bool \<times> go_time) \<times> penaltyBox" where
  "recordViolation key now p =
     (if \<not> pb_enabled p \<or> key = [] then ((False, 0), p)
      else
        let p = cleanupLocked now p;
            e = (case map_of (entries p) key of None \<Rightarrow> new_entry now | Some e \<Rightarrow> e) in
        case violate p now e of (ban, e) \<Rightarrow>
          let p = p\<lparr>entries := AList.update key e (entries p)\<rparr> in
          (case ban of None \<Rightarrow> ((False, 0), p) | Some until \<Rightarrow> ((True, until), p)))"

section \<open>Histories and the invariant\<close>

datatype pb_event = EvBanned string go_time | EvViolation string go_time

fun pb_step :: "penaltyBox \<Rightarrow> pb_event \<Rightarrow> penaltyBox" where
  "pb_step p (EvBanned key now) = snd (banned key now p)"
| "pb_step p (EvViolation key now) = snd (recordViolation key now p)"

fun ev_time :: "pb_event \<Rightarrow> go_time" where
  "ev_time (EvBanned key now) = now"
| "ev_time (EvViolation key now) = now"

definition pb_cfg_ok :: "penaltyBox \<Rightarrow> bool" where
  "pb_cfg_ok p \<longleftrightarrow> 0 < threshold p \<and> in_int64 (threshold p) \<and> 0 < window p \<and> in_int64 (window p) \<and>
     0 < baseBan p \<and> 0 < escalatedBan p \<and> 0 < maxBan p \<and>
     offenseReset p = 24 * hour"

definition entry_ok :: "penaltyBox \<Rightarrow> penaltyEntry \<Rightarrow> bool" where
  "entry_ok p e \<longleftrightarrow> 0 \<le> violations e \<and> violations e < threshold p \<and> in_int64 (offenses e)"

definition pb_inv :: "penaltyBox \<Rightarrow> bool" where
  "pb_inv p \<longleftrightarrow> pb_cfg_ok p \<and> map_ok (entries p) \<and>
     (\<forall>key e. map_of (entries p) key = Some e \<longrightarrow> entry_ok p e)"

definition same_cfg :: "penaltyBox \<Rightarrow> penaltyBox \<Rightarrow> bool" where
  "same_cfg p q \<longleftrightarrow> q\<lparr>entries := [], cleanupDeadline := 0\<rparr> = p\<lparr>entries := [], cleanupDeadline := 0\<rparr>"

lemma same_cfg_fields:
  "same_cfg p q \<Longrightarrow> pb_enabled q = pb_enabled p \<and> threshold q = threshold p \<and> window q = window p \<and>
     baseBan q = baseBan p \<and> escalatedBan q = escalatedBan p \<and> maxBan q = maxBan p \<and>
     offenseReset q = offenseReset p \<and> maxEntries q = maxEntries p"
  by (cases p; cases q) (simp add: same_cfg_def)

lemma same_cfg_ops [simp]:
  "same_cfg p p" "same_cfg p (cleanupLocked now p)" "same_cfg p (p\<lparr>entries := es\<rparr>)"
  by (simp_all add: same_cfg_def cleanupLocked_def)

lemma same_cfg_trans: "same_cfg p q \<Longrightarrow> same_cfg q r \<Longrightarrow> same_cfg p r"
  by (simp add: same_cfg_def)

lemma in_int64_succ: "in_int64 b \<Longrightarrow> 0 \<le> a \<Longrightarrow> a < b \<Longrightarrow> in_int64 (a + 1)"
  by (simp add: in_int64_def min_int64_def max_int64_def)

lemma violate_ok:
  assumes "pb_cfg_ok p" "entry_ok p e"
  shows "entry_ok p (snd (violate p now e))"
proof -
  have one: "in_int64 (1::int)" by (simp add: in_int64_def min_int64_def max_int64_def)
  have "0 < threshold p" "in_int64 (threshold p)" "0 \<le> violations e" "violations e < threshold p"
    using assms by (simp_all add: pb_cfg_ok_def entry_ok_def)
  then have "in_int64 (violations e + 1)" using in_int64_succ by blast
  with assms one show ?thesis by (simp add: violate_def Let_def entry_ok_def pb_cfg_ok_def i64_add_def)
qed

lemma cleanup_lookup:
  assumes "map_ok (entries p)"
  shows "map_of (entries (cleanupLocked now p)) key = Some e \<Longrightarrow> map_of (entries p) key = Some e"
    and "map_of (entries p) key = Some e \<Longrightarrow> now \<le> bannedUntil e \<Longrightarrow>
      map_of (entries (cleanupLocked now p)) key = Some e"
    and "map_ok (entries (cleanupLocked now p))"
  using assms
  by (auto simp: cleanupLocked_def map_of_filter_ok map_ok_filter simp del: map_of_eq_Some_iff
      split: option.splits if_splits)

declare map_of_eq_Some_iff [simp del]

lemma lookup_update_cases:
  "map_of (AList.update k v m) key = Some e \<longleftrightarrow> (if key = k then e = v else map_of m key = Some e)"
  by auto

lemma same_cfg_entries: "same_cfg p q \<Longrightarrow> same_cfg p (q\<lparr>entries := es\<rparr>)"
  by (simp add: same_cfg_def)

lemma pb_step_cfg: "same_cfg p (pb_step p ev)"
  by (cases ev)
    (simp_all add: banned_def recordViolation_def Let_def same_cfg_entries split: option.split prod.split)

lemma pb_step_map_ok: "map_ok (entries p) \<Longrightarrow> map_ok (entries (pb_step p ev))"
  by (cases ev)
    (simp_all add: banned_def recordViolation_def Let_def cleanup_lookup(3) split: option.split prod.split)

text \<open>
  What a step does to the entry of a key: it is kept, touched, or changed by a violation; an
  entry that was not there comes from a violation.
\<close>

lemma pb_step_entry:
  assumes "map_ok (entries p)" "map_of (entries (pb_step p ev)) key = Some e'"
  obtains (Kept) e where "map_of (entries p) key = Some e" "e' = e \<or> e' = e\<lparr>lastActivity := ev_time ev\<rparr>"
  | (Violated) e where "map_of (entries p) key = Some e \<or> e = new_entry (ev_time ev)"
      "e' = snd (violate p (ev_time ev) e)"
proof -
  note lookup = cleanup_lookup(1) [OF assms(1)]
  have vio: "violate (cleanupLocked now p) = violate p" for now
    using same_cfg_fields [OF same_cfg_ops(2) [where p = p and now = now]]
    by (simp add: violate_def banDuration_def fun_eq_iff Let_def)
  show thesis
  proof (cases ev)
    case (EvBanned k now)
    with assms(2) show ?thesis
      by (auto simp: banned_def Let_def lookup_update_cases split: if_splits option.splits
          dest: lookup intro: Kept)
  next
    case (EvViolation k now)
    with assms(2) show ?thesis
      by (auto simp: recordViolation_def Let_def lookup_update_cases vio
          split: if_splits option.splits prod.splits dest: lookup intro: Kept)
        (metis Violated lookup snd_conv ev_time.simps(2))+
  qed
qed

lemma entry_ok_same_cfg: "same_cfg p q \<Longrightarrow> entry_ok q e = entry_ok p e"
  by (drule same_cfg_fields) (simp add: entry_ok_def)

lemma pb_cfg_ok_same_cfg: "same_cfg p q \<Longrightarrow> pb_cfg_ok q = pb_cfg_ok p"
  by (drule same_cfg_fields) (simp add: pb_cfg_ok_def)

lemma new_entry_ok: "pb_cfg_ok p \<Longrightarrow> entry_ok p (new_entry now)"
  by (simp add: entry_ok_def new_entry_def pb_cfg_ok_def)

lemma pb_step_inv: "pb_inv p \<Longrightarrow> pb_inv (pb_step p ev)"
proof -
  assume inv: "pb_inv p"
  then have ok: "pb_cfg_ok p" "map_ok (entries p)" by (simp_all add: pb_inv_def)
  have "entry_ok p e'" if "map_of (entries (pb_step p ev)) key = Some e'" for key e'
    using ok(2) that
  proof (cases rule: pb_step_entry)
    case (Kept e)
    with inv show ?thesis by (auto simp: pb_inv_def entry_ok_def)
  next
    case (Violated e)
    with inv ok have "entry_ok p e" by (auto simp: pb_inv_def new_entry_ok)
    with ok Violated show ?thesis by (simp add: violate_ok)
  qed
  with ok pb_step_cfg [of p ev] show ?thesis
    by (simp add: pb_inv_def pb_step_map_ok entry_ok_same_cfg pb_cfg_ok_same_cfg)
qed

definition pb_args_ok :: "int64 \<Rightarrow> duration \<Rightarrow> bool" where
  "pb_args_ok thr win \<longleftrightarrow> in_int64 thr \<and> in_int64 win"

lemma newPenaltyBox_inv: "pb_args_ok thr win \<Longrightarrow> pb_inv (newPenaltyBox en thr win base esc mx)"
  by (auto simp: pb_inv_def pb_cfg_ok_def newPenaltyBox_def pb_args_ok_def duration_defs in_int64_def
      min_int64_def max_int64_def)

interpretation pb: transition_system
  "\<lambda>p. \<exists>en thr win base esc mx. pb_args_ok thr win \<and> p = newPenaltyBox en thr win base esc mx"
  pb_step "\<lambda>_ _. True" pb_inv
  by unfold_locales (auto intro: newPenaltyBox_inv pb_step_inv)

section \<open>Bans hold and escalate\<close>

text \<open>
  The state after at most \<open>n\<close> steps up to time \<open>t\<close>: an offence counter is at most the number of
  steps, and no ban ends later than its duration from now.
\<close>

definition hist_inv :: "nat \<Rightarrow> go_time \<Rightarrow> penaltyBox \<Rightarrow> bool" where
  "hist_inv n t p \<longleftrightarrow> pb_inv p \<and> 0 \<le> t \<and>
     (\<forall>key e. map_of (entries p) key = Some e \<longrightarrow>
        0 \<le> offenses e \<and> offenses e \<le> int n \<and> bannedUntil e \<le> t + banDuration p (offenses e))"

definition escalating :: "penaltyBox \<Rightarrow> bool" where
  "escalating p \<longleftrightarrow> baseBan p \<le> escalatedBan p \<and> escalatedBan p \<le> maxBan p"

lemma banDuration_mono: "escalating p \<Longrightarrow> a \<le> b \<Longrightarrow> banDuration p a \<le> banDuration p b"
  by (auto simp: banDuration_def escalating_def)

lemma banDuration_pos: "pb_cfg_ok p \<Longrightarrow> 0 < banDuration p a"
  by (simp add: banDuration_def pb_cfg_ok_def)

lemma banDuration_same_cfg: "same_cfg p q \<Longrightarrow> banDuration q = banDuration p"
  by (drule same_cfg_fields) (simp add: banDuration_def fun_eq_iff)

lemma in_int64_24h: "in_int64 (24 * hour)" "(0::int) \<le> 24 * hour"
  by (simp_all add: duration_defs in_int64_def min_int64_def max_int64_def)

text \<open>A violation bans for the duration of the next offence, or leaves the ban as it is.\<close>

lemma violate_ban:
  fixes now :: go_time
  assumes cfg: "pb_cfg_ok p" and off: "0 \<le> offenses e" "offenses e < max_int64"
  defines "e' \<equiv> snd (violate p now e)"
  shows "(bannedUntil e' = bannedUntil e \<or> bannedUntil e' = now + banDuration p (offenses e')) \<and>
    0 \<le> offenses e' \<and> offenses e' \<le> offenses e + 1 \<and>
    (offenses e \<le> offenses e' \<or> bannedUntil e < now)"
proof -
  have w: "in_int64 (offenses e + 1)" "in_int64 (1::int)"
    using off by (simp_all add: in_int64_def min_int64_def max_int64_def)
  have reset: "offenseReset p < time_sub now (bannedUntil e) \<Longrightarrow> bannedUntil e < now"
    using cfg in_int64_24h time_sub_le [OF in_int64_24h, of now "bannedUntil e"]
    by (simp add: pb_cfg_ok_def)
  show ?thesis
    unfolding e'_def using w reset off(1)
    by (simp add: violate_def Let_def i64_add_def)
qed

lemma hist_inv_step:
  assumes inv: "hist_inv n t p" and t: "t \<le> ev_time ev" and n: "int n < max_int64" and esc: "escalating p"
  shows "hist_inv (Suc n) (ev_time ev) (pb_step p ev)"
proof -
  let ?t = "ev_time ev"
  have ok: "pb_inv p" "0 \<le> t" "pb_cfg_ok p" "map_ok (entries p)" using inv by (simp_all add: hist_inv_def pb_inv_def)
  have old: "0 \<le> offenses e \<and> offenses e \<le> int n \<and> bannedUntil e \<le> ?t + banDuration p (offenses e)"
    if "map_of (entries p) key = Some e" for key e
    using inv that t by (fastforce simp: hist_inv_def)
  have fresh: "0 \<le> offenses (new_entry ?t) \<and> offenses (new_entry ?t) \<le> int n \<and>
      bannedUntil (new_entry ?t) \<le> ?t + banDuration p (offenses (new_entry ?t))"
    using ok(2,3) t banDuration_pos [of p 0] by (simp add: new_entry_def)
  have "0 \<le> offenses e' \<and> offenses e' \<le> int (Suc n) \<and> bannedUntil e' \<le> ?t + banDuration p (offenses e')"
    if "map_of (entries (pb_step p ev)) key = Some e'" for key e'
    using ok(4) that
  proof (cases rule: pb_step_entry)
    case (Kept e)
    with old [of key e] show ?thesis by auto
  next
    case (Violated e)
    then have e: "0 \<le> offenses e" "offenses e \<le> int n" "bannedUntil e \<le> ?t + banDuration p (offenses e)"
      using old fresh by blast+
    with n have "offenses e < max_int64" by simp
    from violate_ban [OF ok(3) e(1) this, of ?t] Violated(2)
    have v: "bannedUntil e' = bannedUntil e \<or> bannedUntil e' = ?t + banDuration p (offenses e')"
        "0 \<le> offenses e'" "offenses e' \<le> offenses e + 1" "offenses e \<le> offenses e' \<or> bannedUntil e < ?t"
      by auto
    have "bannedUntil e \<le> ?t + banDuration p (offenses e')"
      using v(4) e(3) banDuration_mono [OF esc, of "offenses e" "offenses e'"] banDuration_pos [OF ok(3), of "offenses e'"]
      by linarith
    with v(1-3) e(2) show ?thesis by linarith
  qed
  with ok pb_step_inv [OF ok(1)] t banDuration_same_cfg [OF pb_step_cfg] show ?thesis
    by (simp add: hist_inv_def)
qed

text \<open>The entry of the key is banned at least until \<open>u\<close>.\<close>

definition banned_to :: "penaltyBox \<Rightarrow> string \<Rightarrow> go_time \<Rightarrow> bool" where
  "banned_to p key u \<longleftrightarrow> (\<exists>e. map_of (entries p) key = Some e \<and> u \<le> bannedUntil e)"

lemma violate_during_ban:
  assumes "pb_cfg_ok p" "escalating p" "0 \<le> offenses e" "offenses e < max_int64"
    and "bannedUntil e \<le> t + banDuration p (offenses e)" "t \<le> now" "now < bannedUntil e"
  shows "bannedUntil e \<le> bannedUntil (snd (violate p now e))"
  using violate_ban [OF assms(1,3,4), of now] assms(5-7)
    banDuration_mono [OF assms(2), of "offenses e" "offenses (snd (violate p now e))"]
  by linarith

lemma step_keeps_ban:
  assumes inv: "hist_inv n t p" and t: "t \<le> ev_time ev" and n: "int n < max_int64" and esc: "escalating p"
    and ban: "banned_to p key u" and before: "ev_time ev < u"
  shows "banned_to (pb_step p ev) key u"
proof -
  obtain e where e: "map_of (entries p) key = Some e" "u \<le> bannedUntil e" using ban by (auto simp: banned_to_def)
  have ok: "pb_cfg_ok p" "map_ok (entries p)" "0 \<le> offenses e" "offenses e < max_int64"
      "bannedUntil e \<le> t + banDuration p (offenses e)"
    using inv e(1) n by (auto simp: hist_inv_def pb_inv_def) (meson le_less_trans)
  have kept: "map_of (entries (cleanupLocked (ev_time ev) p)) key = Some e"
    using cleanup_lookup(2) [OF ok(2) e(1)] e(2) before by simp
  have vio: "violate (cleanupLocked now p) = violate p" for now
    using same_cfg_fields [OF same_cfg_ops(2) [where p = p and now = now]]
    by (simp add: violate_def banDuration_def fun_eq_iff Let_def)
  show ?thesis
  proof (cases ev)
    case (EvBanned k now)
    with kept e show ?thesis
      by (cases "k = key") (auto simp: banned_to_def banned_def Let_def split: option.split)
  next
    case (EvViolation k now)
    have "u \<le> bannedUntil (snd (violate p now e))"
      using violate_during_ban [OF ok(1) esc ok(3-5), of now] t before e(2) EvViolation by simp
    with EvViolation kept e show ?thesis
      by (cases "k = key")
        (auto simp: banned_to_def recordViolation_def Let_def vio split: option.split prod.split)
  qed
qed

lemma escalating_step: "escalating (pb_step p ev) = escalating p"
  using same_cfg_fields [OF pb_step_cfg, of p ev] by (simp add: escalating_def)

lemma hist_inv_run:
  assumes "hist_inv n t p" "escalating p" "sorted (t # map ev_time evs)" "int (n + length evs) < max_int64"
  shows "hist_inv (n + length evs) (last (t # map ev_time evs)) (foldl pb_step p evs) \<and>
    escalating (foldl pb_step p evs)"
  using assms
proof (induction evs arbitrary: n t p)
  case Nil
  then show ?case by simp
next
  case (Cons ev evs)
  have "hist_inv (Suc n) (ev_time ev) (pb_step p ev)"
    by (rule hist_inv_step) (use Cons.prems in auto)
  from Cons.IH [OF this] Cons.prems show ?case by (simp add: escalating_step)
qed

lemma ban_run:
  assumes "hist_inv n t p" "escalating p" "sorted (t # map ev_time evs)" "int (n + length evs) < max_int64"
    and "banned_to p key u" "list_all (\<lambda>ev. ev_time ev < u) evs"
  shows "banned_to (foldl pb_step p evs) key u"
  using assms
proof (induction evs arbitrary: n t p)
  case Nil
  then show ?case by simp
next
  case (Cons ev evs)
  have n: "int n < max_int64" and t: "t \<le> ev_time ev" "ev_time ev < u" using Cons.prems(3,4,6) by auto
  note step = hist_inv_step [OF Cons.prems(1) t(1) n Cons.prems(2)]
    step_keeps_ban [OF Cons.prems(1) t(1) n Cons.prems(2,5) t(2)]
  from Cons.IH [OF step(1) _ _ _ step(2)] Cons.prems show ?case by (simp add: escalating_step)
qed

lemma banned_answer:
  assumes "map_ok (entries p)" "pb_enabled p" "key \<noteq> []" "banned_to p key u" "now < u"
  shows "fst (fst (banned key now p)) \<and> u \<le> snd (fst (banned key now p))"
proof -
  obtain e where e: "map_of (entries p) key = Some e" "u \<le> bannedUntil e" using assms(4) by (auto simp: banned_to_def)
  have "map_of (entries (cleanupLocked now p)) key = Some e"
    using cleanup_lookup(2) [OF assms(1) e(1)] e(2) assms(5) by simp
  with assms e show ?thesis by (simp add: banned_def Let_def)
qed

lemma enabled_run: "pb_enabled (foldl pb_step p evs) = pb_enabled p"
  by (induction evs arbitrary: p) (simp_all add: same_cfg_fields [OF pb_step_cfg])

lemma recordViolation_bans:
  "recordViolation key now p = ((True, u), p') \<Longrightarrow> banned_to p' key u \<and> p' = pb_step p (EvViolation key now)"
  by (auto simp: recordViolation_def banned_to_def violate_def Let_def split: if_splits prod.splits option.splits)

lemma hist_inv_new:
  "pb_args_ok thr win \<Longrightarrow> hist_inv 0 0 (newPenaltyBox en thr win base esc mx)"
  by (simp add: hist_inv_def newPenaltyBox_inv) (simp add: newPenaltyBox_def)

text \<open>
  A ban holds until it expires: in any history of a penalty box whose ban durations do not
  decrease, once \<open>recordViolation\<close> has answered that a key is banned until \<open>u\<close>, every later query
  \<open>banned\<close> before \<open>u\<close> reports the key as banned, at least until \<open>u\<close>, whatever queries, violations
  (of this or other keys) and clean-ups happened in between.
\<close>

theorem ban_holds_until_expiry:
  assumes "p0 = newPenaltyBox True thr win base esc mx" "pb_args_ok thr win" "escalating p0"
    and "recordViolation key now (foldl pb_step p0 before) = ((True, u), p1)"
    and "sorted (0 # map ev_time before @ now # map ev_time between)"
    and "list_all (\<lambda>ev. ev_time ev < u) between" "t < u" "key \<noteq> []"
    and "int (length before + length between) < max_int64 - 1"
  shows "fst (fst (banned key t (foldl pb_step p1 between))) \<and>
    u \<le> snd (fst (banned key t (foldl pb_step p1 between)))"
proof -
  let ?evs = "before @ [EvViolation key now]"
  have p1: "p1 = foldl pb_step p0 ?evs" and ban: "banned_to p1 key u"
    using recordViolation_bans [OF assms(4)] by auto
  have "hist_inv 0 0 p0" using assms(1,2) hist_inv_new by blast
  from hist_inv_run [OF this assms(3), of ?evs] assms(5,9)
  have h: "hist_inv (length ?evs) now p1" "escalating p1"
    by (auto simp: p1 sorted_append)
  have srt: "sorted (now # map ev_time between)" using assms(5) by (simp add: sorted_append)
  have "banned_to (foldl pb_step p1 between) key u"
    by (rule ban_run [OF h srt _ ban assms(6)]) (use assms(9) in simp)
  moreover have "hist_inv (length ?evs + length between) (last (now # map ev_time between)) (foldl pb_step p1 between)"
    using hist_inv_run [OF h srt] assms(9) by simp
  then have "map_ok (entries (foldl pb_step p1 between))" by (simp add: hist_inv_def pb_inv_def)
  moreover have "pb_enabled (foldl pb_step p1 between)"
    unfolding p1 enabled_run assms(1) by (simp add: newPenaltyBox_def)
  ultimately show ?thesis using banned_answer assms(7,8) by blast
qed

definition sample_box :: penaltyBox where
  "sample_box = newPenaltyBox True 2 100 1000 2000 3000"

theorem ban_holds_until_expiry_witness:
  "fst (fst (banned ''ip'' 900 (foldl pb_step (foldl pb_step sample_box [EvViolation ''ip'' 10, EvViolation ''ip'' 20])
     [EvBanned ''ip'' 30, EvViolation ''other'' 40, EvViolation ''ip'' 50])))"
proof -
  let ?p1 = "foldl pb_step sample_box [EvViolation ''ip'' 10, EvViolation ''ip'' 20]"
  let ?r = "recordViolation ''ip'' 20 (foldl pb_step sample_box [EvViolation ''ip'' 10])"
  have "fst ?r = (True, 1020)" by code_simp
  then have r: "?r = ((True, 1020), ?p1)" by (cases ?r) simp
  have esc: "escalating sample_box" by code_simp
  have args: "pb_args_ok 2 100" by (simp add: pb_args_ok_def in_int64_def min_int64_def max_int64_def)
  show ?thesis
    by (rule conjunct1 [OF ban_holds_until_expiry [OF sample_box_def args esc r]])
      (simp_all add: max_int64_def)
qed

text \<open>A sequence of violations of one key, with the answers.\<close>

fun violations_at :: "string \<Rightarrow> go_time list \<Rightarrow> penaltyBox \<Rightarrow> (bool \<times> go_time) list \<times> penaltyBox" where
  "violations_at key [] p = ([], p)"
| "violations_at key (t # ts) p =
     (case recordViolation key t p of (r, p) \<Rightarrow>
        (case violations_at key ts p of (rs, p) \<Rightarrow> (r # rs, p)))"

text \<open>The entry of a key that has violated \<open>k\<close> times in the window that began at \<open>t0\<close>.\<close>

definition counting :: "penaltyBox \<Rightarrow> string \<Rightarrow> go_time \<Rightarrow> go_time \<Rightarrow> int \<Rightarrow> bool" where
  "counting p key t0 t k \<longleftrightarrow> map_of (entries p) key =
     Some \<lparr> windowStart = t0, violations = k, bannedUntil = 0, offenses = 0, lastActivity = t \<rparr>"

lemma counting_violation:
  assumes inv: "pb_inv p" "pb_enabled p" "key \<noteq> []" and c: "counting p key t0 t k"
    and win: "window p \<le> 24 * hour" and t: "t0 \<le> t" "t \<le> now" "now \<le> t0 + window p"
  shows "if k + 1 < threshold p
    then fst (recordViolation key now p) = (False, 0) \<and> counting (snd (recordViolation key now p)) key t0 now (k + 1)
    else fst (recordViolation key now p) = (True, now + baseBan p)"
proof -
  have cfg: "pb_cfg_ok p" "map_ok (entries p)" using inv by (simp_all add: pb_inv_def)
  have "entry_ok p \<lparr> windowStart = t0, violations = k, bannedUntil = 0, offenses = 0, lastActivity = t \<rparr>"
    using inv(1) c by (simp add: pb_inv_def counting_def)
  then have k: "0 \<le> k" "k < threshold p" by (simp_all add: entry_ok_def)
  have one: "in_int64 (k + 1)" "in_int64 (1::int)"
    using in_int64_succ [of "threshold p" k] k cfg by (auto simp: pb_cfg_ok_def in_int64_def min_int64_def max_int64_def)
  have "\<not> window p < time_sub now t0"
    using cfg t time_sub_le [of "window p" now t0] by (simp add: pb_cfg_ok_def)
  moreover have "\<not> offenseReset p < time_sub now t"
    using cfg t win time_sub_le [OF in_int64_24h, of now t] by (simp add: pb_cfg_ok_def)
  then have "map_of (entries (cleanupLocked now p)) key = map_of (entries p) key"
    using cfg(2) c by (simp add: cleanupLocked_def map_of_filter_ok counting_def)
  moreover note same_cfg_fields [OF same_cfg_ops(2) [where p = p and now = now]]
  ultimately show ?thesis
    using inv c one
    by (simp add: recordViolation_def counting_def violate_def Let_def i64_add_def time_is_zero_def banDuration_def)
qed

lemma counting_violations:
  assumes "pb_inv p" "pb_enabled p" "key \<noteq> []" "counting p key t0 t k" "window p \<le> 24 * hour"
    and "sorted (t # ts)" "t0 \<le> t" "last (t # ts) \<le> t0 + window p"
    and "int (length ts) = threshold p - k" "ts \<noteq> []"
  shows "fst (violations_at key ts p) = replicate (length ts - 1) (False, 0) @ [(True, last ts + baseBan p)]"
  using assms
proof (induction ts arbitrary: p t k)
  case Nil
  then show ?case by simp
next
  case (Cons now ts)
  have now: "t \<le> now" "now \<le> t0 + window p"
    using Cons.prems(6,8) by (auto dest: order_trans [of now "last ts"] split: if_splits)
  obtain r q where rq: "recordViolation key now p = (r, q)" by (cases "recordViolation key now p")
  note step = counting_violation [OF Cons.prems(1-5,7) now, unfolded rq]
  have q: "q = pb_step p (EvViolation key now)" using rq by simp
  have qc: "pb_inv q" "pb_enabled q" "window q = window p" "threshold q = threshold p" "baseBan q = baseBan p"
    using pb_step_inv [OF Cons.prems(1)] same_cfg_fields [OF pb_step_cfg [of p "EvViolation key now"]] Cons.prems(2)
    by (simp_all only: q)
  show ?case
  proof (cases ts)
    case Nil
    with Cons.prems(9) step rq show ?thesis by simp
  next
    case (Cons now' ts')
    with Cons.prems(9) step have r: "r = (False, 0)" and c: "counting q key t0 now (k + 1)"
      by auto
    have "fst (violations_at key ts q) = replicate (length ts - 1) (False, 0) @ [(True, last ts + baseBan q)]"
      by (rule Cons.IH [OF qc(1,2) Cons.prems(3) c]) (use Cons.prems now Cons qc in auto)
    moreover have "fst (violations_at key (now # ts) p) = r # fst (violations_at key ts q)"
      using rq by (simp split: prod.split)
    moreover have "length (now # ts) - 1 = Suc (length ts - 1)" "last (now # ts) = last ts"
      using Cons by simp_all
    ultimately show ?thesis using r qc(5) by (simp only: replicate.simps append_Cons)
  qed
qed

text \<open>
  From a new penalty box whose window is at most a day, the violations of one key within one
  window are tolerated up to the threshold: all but the last of \<open>threshold\<close> violations are
  answered with no ban, and the last one bans the key for exactly \<open>baseBan\<close>.
\<close>

theorem ban_exactly_at_threshold:
  assumes "p = newPenaltyBox True thr win base esc mx" "pb_args_ok thr win" "key \<noteq> []"
    and "window p \<le> 24 * hour" "sorted (t0 # ts)" "last (t0 # ts) \<le> t0 + window p" "0 \<le> t0"
    and "int (length (t0 # ts)) = threshold p"
  shows "fst (violations_at key (t0 # ts) p) =
    replicate (length ts) (False, 0) @ [(True, last (t0 # ts) + baseBan p)]"
proof -
  have inv: "pb_inv p" "pb_enabled p" "entries p = []"
    using assms(1,2) newPenaltyBox_inv by (auto simp: newPenaltyBox_def)
  have one: "in_int64 (1::int)" by (simp add: in_int64_def min_int64_def max_int64_def)
  have sub: "time_sub t0 t0 = 0" by (simp add: time_sub_def min_int64_def max_int64_def)
  let ?q = "snd (recordViolation key t0 p)"
  have cl: "entries (cleanupLocked t0 p) = []" using inv(3) by (simp add: cleanupLocked_def)
  note cfg = same_cfg_fields [OF same_cfg_ops(2) [where p = p and now = t0]]
  have win: "0 < window p" using inv(1) by (simp add: pb_inv_def pb_cfg_ok_def)
  have step: "recordViolation key t0 p = (if 1 < threshold p then ((False, 0), ?q) else ((True, t0 + baseBan p), ?q))"
    "1 < threshold p \<Longrightarrow> counting ?q key t0 t0 1"
    using inv(2) assms(3) one sub cl cfg win
    by (simp_all add: recordViolation_def new_entry_def violate_def Let_def i64_add_def time_is_zero_def
        banDuration_def counting_def)
  have q: "?q = pb_step p (EvViolation key t0)" by simp
  have qc: "pb_inv ?q" "pb_enabled ?q" "window ?q = window p" "threshold ?q = threshold p" "baseBan ?q = baseBan p"
    using pb_step_inv [OF inv(1)] same_cfg_fields [OF pb_step_cfg [of p "EvViolation key t0"]] inv(2)
    by (simp_all only: q)
  have first: "fst (violations_at key (t0 # ts) p) =
      fst (recordViolation key t0 p) # fst (violations_at key ts ?q)"
    by (simp split: prod.split)
  show ?thesis
  proof (cases ts)
    case Nil
    with first assms(8) step(1) show ?thesis by (metis (no_types, lifting) append_Nil fst_conv last.simps
          length_Cons list.size(3) of_nat_1 One_nat_def order_less_irrefl replicate_0 violations_at.simps(1))
  next
    case (Cons t ts')
    with assms(8) have thr: "1 < threshold p" by simp
    have "fst (violations_at key ts ?q) = replicate (length ts - 1) (False, 0) @ [(True, last ts + baseBan ?q)]"
      by (rule counting_violations [OF qc(1,2) assms(3) step(2) [OF thr]]) (use assms Cons qc in auto)
    moreover have "fst (recordViolation key t0 p) = (False, 0)" using step(1) thr by (metis fst_conv)
    moreover have "length ts = Suc (length ts - 1)" "last (t0 # ts) = last ts" using Cons by simp_all
    ultimately show ?thesis unfolding first qc(5) by (metis append_Cons replicate_Suc)
  qed
qed

theorem ban_exactly_at_threshold_witness:
  "fst (violations_at ''ip'' [10, 20, 30] (newPenaltyBox True 3 100 1000 2000 3000)) =
    replicate 2 (False, 0) @ [(True, 1030)]"
proof -
  have "pb_args_ok 3 100" by (simp add: pb_args_ok_def in_int64_def min_int64_def max_int64_def)
  from ban_exactly_at_threshold [OF refl this, where key = "''ip''" and ?t0.0 = 10 and ts = "[20, 30]"
      and base = 1000 and esc = 2000 and mx = 3000] show ?thesis
    by (simp add: newPenaltyBox_def duration_defs numeral_2_eq_2)
qed

end
