(* ===== verification/Psp_Router.thy ===== *)
theory Psp_Router
  imports Evm_Types
begin

text \<open>
  The PIX provider router of \<open>internal/psp/provider.go\<close>: an active and a backup provider, a counter
  of consecutive failures, promotion of the backup at five failures and the attempt to restore
  the original. A provider is the record of its methods, each a function on a world state that
  stands for the remote services; amounts are floating-point numbers that are only passed on.
\<close>

section \<open>Data\<close>

record PixCharge =
  ExternalID :: string
  pc_AmountBRL :: float64
  Description :: string
  PayerName :: string
  PayerCPF :: string
  ExpirySec :: int64

record PixChargeResult =
  pr_Provider :: string
  ChargeID :: string
  TXID :: string
  PixCopyPaste :: string
  QRCodeB64 :: string
  pr_ExpiresAt :: go_time
  pr_AmountBRL :: float64

record PixWebhookPayload =
  pw_Provider :: string
  pw_TXID :: string
  EndToEndID :: string
  pw_AmountBRL :: float64
  PaidAt :: go_time
  pw_PayerName :: string
  PayerKey :: string

record 'w Provider =
  prov_Name :: string
  prov_CreateCharge :: "PixCharge \<Rightarrow> 'w \<Rightarrow> (string + PixChargeResult) \<times> 'w"
  prov_ParseWebhook :: "bytes \<Rightarrow> string \<Rightarrow> 'w \<Rightarrow> (string + PixWebhookPayload) \<times> 'w"
  prov_ParseWebhookAll :: "bytes \<Rightarrow> string \<Rightarrow> 'w \<Rightarrow> (string + PixWebhookPayload list) \<times> 'w"
  prov_HealthCheck :: "'w \<Rightarrow> string option \<times> 'w"

definition FailureThreshold :: int64 where
  "FailureThreshold = 5"

datatype psp_error =
    ErrNoProvider
  | ProviderError string
  | AllProvidersFailed string string
  | UnknownProvider string

record 'w Router =
  active :: "'w Provider option"
  backup :: "'w Provider option"
  consecutiveFails :: int64
  failedOver :: bool
  failoverAt :: go_time

section \<open>Operations\<close>

definition NewRouter :: "'w Provider option \<Rightarrow> 'w Provider option \<Rightarrow> 'w Router" where
  "NewRouter a b = \<lparr> active = a, backup = b, consecutiveFails = 0, failedOver = False, failoverAt = 0 \<rparr>"

definition ActiveProvider :: "'w Router \<Rightarrow> string" where
  "ActiveProvider rt = (case active rt of None \<Rightarrow> ''none'' | Some p \<Rightarrow> prov_Name p)"

definition promoteBackup :: "go_time \<Rightarrow> 'w Router \<Rightarrow> 'w Router" where
  "promoteBackup now rt =
     (if Option.is_none (backup rt) then rt
      else rt\<lparr>active := backup rt, backup := active rt, failedOver := True, failoverAt := now,
              consecutiveFails := 0\<rparr>)"

text \<open>The retry on the backup at the end of \<open>CreateCharge\<close>, \<open>err\<close> being the first error.\<close>

definition retry_on_backup ::
  "PixCharge \<Rightarrow> string \<Rightarrow> 'w Router \<Rightarrow> 'w \<Rightarrow> (psp_error + PixChargeResult) \<times> 'w" where
  "retry_on_backup charge err rt w =
     (case (backup rt, active rt) of
        (Some b, Some a) \<Rightarrow>
          if prov_Name b \<noteq> prov_Name a then
            (case prov_CreateCharge b charge w of
               (Inr result, w) \<Rightarrow> (Inr result, w)
             | (Inl backupErr, w) \<Rightarrow> (Inl (AllProvidersFailed err backupErr), w))
          else (Inl (ProviderError err), w)
      | _ \<Rightarrow> (Inl (ProviderError err), w))"

definition CreateCharge ::
  "go_time \<Rightarrow> PixCharge \<Rightarrow> 'w Router \<Rightarrow> 'w \<Rightarrow> (psp_error + PixChargeResult) \<times> 'w Router \<times> 'w" where
  "CreateCharge now charge rt w =
     (case active rt of
        None \<Rightarrow> (Inl ErrNoProvider, rt, w)
      | Some a \<Rightarrow>
          (case prov_CreateCharge a charge w of
             (Inr result, w) \<Rightarrow> (Inr result, rt\<lparr>consecutiveFails := 0\<rparr>, w)
           | (Inl err, w) \<Rightarrow>
               let fails = i64_add (consecutiveFails rt) 1;
                   rt = rt\<lparr>consecutiveFails := fails\<rparr>;
                   rt = (if FailureThreshold \<le> fails \<and> \<not> Option.is_none (backup rt) \<and> \<not> failedOver rt
                         then promoteBackup now rt else rt) in
               (case retry_on_backup charge err rt w of (res, w) \<Rightarrow> (res, rt, w))))"

definition router_ParseWebhookAll ::
  "bytes \<Rightarrow> string \<Rightarrow> 'w Router \<Rightarrow> 'w \<Rightarrow> (psp_error + PixWebhookPayload list) \<times> 'w" where
  "router_ParseWebhookAll body secret rt w =
     (case active rt of
        None \<Rightarrow> (Inl ErrNoProvider, w)
      | Some p \<Rightarrow>
          (case prov_ParseWebhookAll p body secret w of
             (Inl e, w) \<Rightarrow> (Inl (ProviderError e), w) | (Inr xs, w) \<Rightarrow> (Inr xs, w)))"

fun parse_by_name ::
  "'w Provider option list \<Rightarrow> string \<Rightarrow> bytes \<Rightarrow> string \<Rightarrow> 'w \<Rightarrow> (psp_error + PixWebhookPayload) \<times> 'w" where
  "parse_by_name [] providerName body secret w = (Inl (UnknownProvider providerName), w)"
| "parse_by_name (None # ps) providerName body secret w = parse_by_name ps providerName body secret w"
| "parse_by_name (Some p # ps) providerName body secret w =
     (if prov_Name p = providerName then
        (case prov_ParseWebhook p body secret w of
           (Inl e, w) \<Rightarrow> (Inl (ProviderError e), w) | (Inr x, w) \<Rightarrow> (Inr x, w))
      else parse_by_name ps providerName body secret w)"

definition router_ParseWebhook ::
  "string \<Rightarrow> bytes \<Rightarrow> string \<Rightarrow> 'w Router \<Rightarrow> 'w \<Rightarrow> (psp_error + PixWebhookPayload) \<times> 'w" where
  "router_ParseWebhook providerName body secret rt w =
     parse_by_name [active rt, backup rt] providerName body secret w"

definition tryRestoreActive :: "'w Provider option \<Rightarrow> 'w Router \<Rightarrow> 'w \<Rightarrow> 'w Router \<times> 'w" where
  "tryRestoreActive original rt w =
     (case original of
        None \<Rightarrow> (rt, w)
      | Some p \<Rightarrow>
          (case prov_HealthCheck p w of
             (Some err, w) \<Rightarrow> (rt, w)
           | (None, w) \<Rightarrow>
               (rt\<lparr>active := original, backup := active rt, failedOver := False, consecutiveFails := 0\<rparr>, w)))"

fun health_checks :: "'w Provider option list \<Rightarrow> 'w \<Rightarrow> 'w" where
  "health_checks [] w = w"
| "health_checks (None # ps) w = health_checks ps w"
| "health_checks (Some p # ps) w = health_checks ps (snd (prov_HealthCheck p w))"

definition ProbeAll :: "go_time \<Rightarrow> 'w Router \<Rightarrow> 'w \<Rightarrow> 'w Router \<times> 'w" where
  "ProbeAll now rt w =
     (let w = health_checks [active rt, backup rt] w in
      if failedOver rt \<and> 5 * minute < time_sub now (failoverAt rt)
      then tryRestoreActive (active rt) rt w
      else (rt, w))"

section \<open>Failover\<close>

lemma Option_is_none_simps [simp]: "Option.is_none None" "\<not> Option.is_none (Some x)"
  by (simp_all add: Option.is_none_def)

lemma i64_add_small: "0 \<le> a \<Longrightarrow> a < 1000 \<Longrightarrow> i64_add a 1 = a + 1"
  by (simp add: i64_add_def in_int64_def min_int64_def max_int64_def)

text \<open>A sequence of charges, with the results.\<close>

fun charges ::
  "(go_time \<times> PixCharge) list \<Rightarrow> 'w Router \<Rightarrow> 'w \<Rightarrow> (psp_error + PixChargeResult) list \<times> 'w Router \<times> 'w" where
  "charges [] rt w = ([], rt, w)"
| "charges ((now, c) # cs) rt w =
     (case CreateCharge now c rt w of (r, rt, w) \<Rightarrow>
        (case charges cs rt w of (rs, rt, w) \<Rightarrow> (r # rs, rt, w)))"

text \<open>What a failing first provider leaves to the second one.\<close>

definition served_by_backup ::
  "'w Provider \<Rightarrow> 'w Provider \<Rightarrow> PixCharge \<Rightarrow> 'w \<Rightarrow> (psp_error + PixChargeResult) \<times> 'w" where
  "served_by_backup a b c w =
     (case prov_CreateCharge a c w of
        (Inr r, w) \<Rightarrow> (Inr r, w)
      | (Inl e, w) \<Rightarrow>
          (case prov_CreateCharge b c w of
             (Inr r, w) \<Rightarrow> (Inr r, w) | (Inl e', w) \<Rightarrow> (Inl (AllProvidersFailed e e'), w)))"

fun all_served :: "'w Provider \<Rightarrow> 'w Provider \<Rightarrow> PixCharge list \<Rightarrow> 'w \<Rightarrow> (psp_error + PixChargeResult) list \<times> 'w" where
  "all_served a b [] w = ([], w)"
| "all_served a b (c # cs) w =
     (case served_by_backup a b c w of (r, w) \<Rightarrow> (case all_served a b cs w of (rs, w) \<Rightarrow> (r # rs, w)))"

definition always_fails :: "'w Provider \<Rightarrow> bool" where
  "always_fails a \<longleftrightarrow> (\<forall>c w. isl (fst (prov_CreateCharge a c w)))"

definition routing :: "'w Provider \<Rightarrow> 'w Provider \<Rightarrow> int \<Rightarrow> 'w Router \<Rightarrow> bool" where
  "routing a b n rt \<longleftrightarrow> active rt = Some a \<and> backup rt = Some b \<and> consecutiveFails rt = n \<and> \<not> failedOver rt"

lemma failing_result:
  assumes "always_fails a"
  obtains e w' where "prov_CreateCharge a c w = (Inl e, w')"
proof -
  obtain r w' where rw: "prov_CreateCharge a c w = (r, w')" by (cases "prov_CreateCharge a c w")
  with assms have "isl r" unfolding always_fails_def by (metis fst_conv)
  with rw that show thesis by (cases r) auto
qed

lemma CreateCharge_failing:
  assumes fail: "always_fails a" and r: "routing a b n rt" and names: "prov_Name a \<noteq> prov_Name b"
    and n: "0 \<le> n" "n < 4"
  shows "\<exists>rt'. CreateCharge now c rt w = (fst (served_by_backup a b c w), rt', snd (served_by_backup a b c w)) \<and>
    routing a b (n + 1) rt'"
proof -
  obtain e w' where e: "prov_CreateCharge a c w = (Inl e, w')" using failing_result [OF fail] by metis
  have "i64_add n 1 = n + 1" using n by (simp add: i64_add_small)
  with e r names n show ?thesis
    by (auto simp: CreateCharge_def served_by_backup_def retry_on_backup_def routing_def FailureThreshold_def
        Let_def split: prod.split sum.split)
qed

lemma charges_failing:
  assumes "always_fails a" "routing a b n rt" "prov_Name a \<noteq> prov_Name b" "0 \<le> n" "n + int (length cs) \<le> 4"
  shows "\<exists>rt'. charges cs rt w = (fst (all_served a b (map snd cs) w), rt', snd (all_served a b (map snd cs) w)) \<and>
    routing a b (n + int (length cs)) rt'"
  using assms
proof (induction cs arbitrary: n rt w)
  case Nil
  then show ?case by simp
next
  case (Cons c cs)
  obtain now ch where c: "c = (now, ch)" by (cases c)
  obtain r w1 where sb: "served_by_backup a b ch w = (r, w1)" by (cases "served_by_backup a b ch w")
  obtain rt1 where rt1: "CreateCharge now ch rt w = (r, rt1, w1)" "routing a b (n + 1) rt1"
    using CreateCharge_failing [OF Cons.prems(1-4), of now ch w] Cons.prems(5) sb by auto
  from Cons.IH [OF Cons.prems(1) rt1(2) Cons.prems(3), of w1] Cons.prems(4,5)
  obtain rt' where "charges cs rt1 w1 = (fst (all_served a b (map snd cs) w1), rt', snd (all_served a b (map snd cs) w1))"
      "routing a b (n + 1 + int (length cs)) rt'"
    by auto
  with c rt1 sb show ?case by (auto simp: algebra_simps split: prod.split)
qed

text \<open>
  Failover. While the active provider fails every charge, the first four charges of a new
  router are answered by the backup, with exactly the backup's results, and the active provider
  stays in place; the fifth charge makes the backup the active provider.
\<close>

theorem failover_at_fifth_failure:
  assumes "always_fails a" "prov_Name a \<noteq> prov_Name b" "length cs = 4"
    and "charges cs (NewRouter (Some a) (Some b)) w = (rs, rt, w1)"
    and "CreateCharge now c rt w1 = (r, rt', w2)"
  shows "(rs, w1) = all_served a b (map snd cs) w \<and> active rt = Some a \<and>
    active rt' = Some b \<and> backup rt' = Some a \<and> failedOver rt' \<and> failoverAt rt' = now"
proof -
  have "routing a b 0 (NewRouter (Some a) (Some b))" by (simp add: routing_def NewRouter_def)
  from charges_failing [OF assms(1) this assms(2), of cs w] assms(3,4)
  have first: "rs = fst (all_served a b (map snd cs) w)" "w1 = snd (all_served a b (map snd cs) w)"
    and rt: "routing a b 4 rt"
    by auto
  obtain e w' where e: "prov_CreateCharge a c w1 = (Inl e, w')" using failing_result [OF assms(1)] by metis
  have "rt' = promoteBackup now (rt\<lparr>consecutiveFails := 5\<rparr>)"
    using assms(5) e rt by (auto simp: CreateCharge_def routing_def FailureThreshold_def i64_add_small Let_def split: prod.splits)
  with first rt show ?thesis by (simp add: promoteBackup_def routing_def)
qed

text \<open>Providers of a world that counts the calls.\<close>

definition sample_result :: PixChargeResult where
  "sample_result = \<lparr> pr_Provider = ''b'', ChargeID = ''1'', TXID = ''t'', PixCopyPaste = [], QRCodeB64 = [],
     pr_ExpiresAt = 0, pr_AmountBRL = 0 \<rparr>"

definition sample_charge :: PixCharge where
  "sample_charge = \<lparr> ExternalID = ''x'', pc_AmountBRL = 0, Description = [], PayerName = [], PayerCPF = [], ExpirySec = 60 \<rparr>"

definition failing_provider :: "nat Provider" where
  "failing_provider = \<lparr> prov_Name = ''a'', prov_CreateCharge = (\<lambda>_ w. (Inl ''down'', w + 1)),
     prov_ParseWebhook = (\<lambda>_ _ w. (Inl ''down'', w)), prov_ParseWebhookAll = (\<lambda>_ _ w. (Inl ''down'', w)),
     prov_HealthCheck = (\<lambda>w. (Some ''down'', w)) \<rparr>"

definition working_provider :: "nat Provider" where
  "working_provider = \<lparr> prov_Name = ''b'', prov_CreateCharge = (\<lambda>_ w. (Inr sample_result, w + 100)),
     prov_ParseWebhook = (\<lambda>_ _ w. (Inl ''none'', w)), prov_ParseWebhookAll = (\<lambda>_ _ w. (Inr [], w)),
     prov_HealthCheck = (\<lambda>w. (None, w)) \<rparr>"

lemma failing_provider_fails: "always_fails failing_provider"
  by (simp add: always_fails_def failing_provider_def)

definition after_four :: "(psp_error + PixChargeResult) list \<times> nat Router \<times> nat" where
  "after_four = charges (replicate 4 (0, sample_charge)) (NewRouter (Some failing_provider) (Some working_provider)) 0"

theorem failover_at_fifth_failure_witness:
  "fst after_four = replicate 4 (Inr sample_result) \<and>
   active (fst (snd (CreateCharge 7 sample_charge (fst (snd after_four)) 404))) = Some working_provider"
proof -
  obtain rs rt w1 where out: "after_four = (rs, rt, w1)" by (cases after_four)
  obtain r rt' w2 where fifth: "CreateCharge 7 sample_charge rt w1 = (r, rt', w2)"
    by (cases "CreateCharge 7 sample_charge rt w1") auto
  have names: "prov_Name failing_provider \<noteq> prov_Name working_provider"
    by (simp add: failing_provider_def working_provider_def)
  have len: "length (replicate 4 (0::int, sample_charge)) = 4" by simp
  have served: "all_served failing_provider working_provider (replicate 4 sample_charge) 0 =
      (replicate 4 (Inr sample_result), 404)"
    by (simp add: failing_provider_def working_provider_def served_by_backup_def eval_nat_numeral)
  from failover_at_fifth_failure [OF failing_provider_fails names len out [unfolded after_four_def] fifth]
  have "(rs, w1) = all_served failing_provider working_provider (replicate 4 sample_charge) 0"
    and "active rt' = Some working_provider"
    by simp_all
  with served have eq: "rs = replicate 4 (Inr sample_result)" "w1 = 404" by simp_all
  from \<open>active rt' = Some working_provider\<close> fifth show ?thesis unfolding out eq by simp
qed

section \<open>Where failover goes wrong\<close>

text \<open>
  The charge that triggers the failover is retried on the provider that has just failed: after
  the swap the code reads \<open>rt.backup\<close>, which is now the failed provider. The promoted provider
  is not asked, whatever it would have answered, and the charge fails if the failed provider
  fails again.
\<close>

theorem failover_retries_failed_provider:
  assumes "active rt = Some a" "backup rt = Some b" "prov_Name a \<noteq> prov_Name b"
    and "consecutiveFails rt = FailureThreshold - 1" "\<not> failedOver rt"
    and "prov_CreateCharge a charge w = (Inl e1, w1)" "prov_CreateCharge a charge w1 = (Inl e2, w2)"
  shows "CreateCharge now charge rt w =
    (Inl (AllProvidersFailed e1 e2), promoteBackup now (rt\<lparr>consecutiveFails := FailureThreshold\<rparr>), w2)"
  using assms
  by (simp add: CreateCharge_def retry_on_backup_def promoteBackup_def FailureThreshold_def i64_add_small Let_def)

theorem failover_retries_failed_provider_witness:
  "fst (CreateCharge 7 sample_charge
     ((NewRouter (Some failing_provider) (Some working_provider))\<lparr>consecutiveFails := 4\<rparr>) (0::nat)) =
   Inl (AllProvidersFailed ''down'' ''down'') \<and>
   fst (prov_CreateCharge working_provider sample_charge 0) = Inr sample_result"
proof -
  have "CreateCharge 7 sample_charge
      ((NewRouter (Some failing_provider) (Some working_provider))\<lparr>consecutiveFails := 4\<rparr>) (0::nat) =
    (Inl (AllProvidersFailed ''down'' ''down''),
     promoteBackup 7 ((NewRouter (Some failing_provider) (Some working_provider))
       \<lparr>consecutiveFails := 4, consecutiveFails := FailureThreshold\<rparr>), 2)"
    by (rule failover_retries_failed_provider [where a = failing_provider and b = working_provider and ?w1.0 = 1])
      (simp_all add: NewRouter_def failing_provider_def working_provider_def FailureThreshold_def)
  then show ?thesis by (simp add: working_provider_def)
qed

datatype psp_event = PspCharge go_time PixCharge | PspProbe go_time

fun psp_step :: "'w Router \<times> 'w \<Rightarrow> psp_event \<Rightarrow> 'w Router \<times> 'w" where
  "psp_step (rt, w) (PspCharge now c) = snd (CreateCharge now c rt w)"
| "psp_step (rt, w) (PspProbe now) = ProbeAll now rt w"

text \<open>Both slots hold the same provider, for good.\<close>

definition stuck_on :: "'w Provider \<Rightarrow> 'w Router \<times> 'w \<Rightarrow> bool" where
  "stuck_on b s \<longleftrightarrow> active (fst s) = Some b \<and> backup (fst s) = Some b"

lemma stuck_router_step: "stuck_on b s \<Longrightarrow> stuck_on b (psp_step s ev)"
  by (cases s; cases ev)
    (auto simp: stuck_on_def CreateCharge_def promoteBackup_def ProbeAll_def tryRestoreActive_def Let_def
      split: prod.split sum.split option.split)

text \<open>
  The attempt to restore the original provider loses it: once a failed-over router is probed
  more than five minutes after the failover and its current provider is healthy, that provider
  becomes both the active and the backup one, and no later sequence of charges and probes uses
  the original provider again.
\<close>

theorem restore_forgets_original:
  assumes "active rt = Some b" "failedOver rt" "5 * minute < time_sub now (failoverAt rt)"
    and "fst (prov_HealthCheck b (health_checks [active rt, backup rt] w)) = None"
  shows "stuck_on b (foldl psp_step (ProbeAll now rt w) evs)"
proof -
  have "stuck_on b (ProbeAll now rt w)"
    using assms by (auto simp: stuck_on_def ProbeAll_def tryRestoreActive_def Let_def split: prod.splits)
  then show ?thesis by (induction evs arbitrary: rule: rev_induct) (simp_all add: stuck_router_step)
qed

theorem restore_forgets_original_witness:
  "stuck_on working_provider
     (foldl psp_step (ProbeAll (6 * minute) (promoteBackup 0 (NewRouter (Some failing_provider) (Some working_provider))) 0)
       [PspCharge 1 sample_charge, PspProbe 2])"
  by (rule restore_forgets_original)
    (simp_all add: promoteBackup_def NewRouter_def working_provider_def failing_provider_def
      time_sub_def duration_defs min_int64_def max_int64_def)

end
