(* ===== verification/Nfc_Protocol.thy ===== *)
theory Nfc_Protocol
  imports Go_Strings
begin

text \<open>
  The contactless payment protocol of \<open>internal/nfc\<close>: the TLV response with the payment token
  (\<open>protocol.go\<close>), the card applet that answers command APDUs (\<open>hce.go\<close>) and the signed token
  (\<open>token.go\<close>). HMAC-SHA256, base64url and JSON are arguments of the token functions.
\<close>

section \<open>TLV encoding\<close>

definition ChainFXAIDHex :: string where
  "ChainFXAIDHex = ''F222222222''"

definition TokenTag :: nat where
  "TokenTag = 0xDF01"

definition VersionTag :: nat where
  "VersionTag = 0xDF02"

definition StatusOK :: bytes where
  "StatusOK = [byte_of 0x90, byte_of 0x00]"

definition StatusFailed :: bytes where
  "StatusFailed = [byte_of 0x6F, byte_of 0x00]"

definition StatusWrongLength :: bytes where
  "StatusWrongLength = [byte_of 0x67, byte_of 0x00]"

definition encodeLength :: "nat \<Rightarrow> bytes" where
  "encodeLength n =
     (if n < 0x80 then [byte_of n]
      else if n \<le> 0xff then [byte_of 0x81, byte_of n]
      else [byte_of 0x82, byte_of (n div 256), byte_of n])"

definition decodeLength :: "bytes \<Rightarrow> string + nat \<times> nat" where
  "decodeLength raw =
     (case raw of
        [] \<Rightarrow> Inl ''nfc: missing length''
      | b # rest \<Rightarrow>
          if code b < 0x80 then Inr (code b, 1)
          else if code b = 0x81 then
            (case rest of
               [] \<Rightarrow> Inl ''nfc: short extended length''
             | c # _ \<Rightarrow> Inr (code c, 2))
          else if code b = 0x82 then
            (case rest of
               c # d # _ \<Rightarrow> Inr (code c * 256 + code d, 3)
             | _ \<Rightarrow> Inl ''nfc: short extended length'')
          else Inl ''nfc: unsupported length encoding'')"

definition put_uint16 :: "nat \<Rightarrow> bytes" where
  "put_uint16 n = [byte_of (n div 256), byte_of n]"

definition appendTLV :: "bytes \<Rightarrow> nat \<Rightarrow> bytes \<Rightarrow> bytes" where
  "appendTLV dst tag val = dst @ put_uint16 tag @ encodeLength (length val) @ val"

function parse_fields :: "(nat, bytes) go_map \<Rightarrow> bytes \<Rightarrow> string + (nat, bytes) go_map" where
  "parse_fields fields raw =
     (if raw = [] then Inr fields
      else if length raw < 3 then Inl ''nfc: short tlv''
      else
        let tag = code (raw ! 0) * 256 + code (raw ! 1) in
        case decodeLength (drop 2 raw) of
          Inl e \<Rightarrow> Inl e
        | Inr (len, used) \<Rightarrow>
            let start = 2 + used; stop = start + len in
            if stop > length raw then Inl ''nfc: tlv length overflow''
            else parse_fields (AList.update tag (take len (drop start raw)) fields) (drop stop raw))"
  by pat_completeness auto
termination
  by (relation "measure (\<lambda>(_, raw). length raw)") auto

declare parse_fields.simps [simp del]

definition parseTLV :: "bytes \<Rightarrow> string + (nat, bytes) go_map" where
  "parseTLV raw = parse_fields [] raw"

definition BuildTokenResponse :: "string \<Rightarrow> string + bytes" where
  "BuildTokenResponse token =
     (if token = [] then Inl ''nfc: token is required''
      else
        let body = appendTLV [] VersionTag [byte_of 1];
            body = appendTLV body TokenTag token in
        Inr ([byte_of 0x70] @ encodeLength (length body) @ body @ StatusOK))"

definition ParseTokenResponse :: "bytes \<Rightarrow> string + string" where
  "ParseTokenResponse apdu =
     (if length apdu < 4 then Inl ''nfc: response too short''
      else if drop (length apdu - 2) apdu \<noteq> StatusOK then Inl ''nfc: response status is not 9000''
      else
        let payload = take (length apdu - 2) apdu in
        if length payload < 2 \<or> payload ! 0 \<noteq> byte_of 0x70 then Inl ''nfc: missing response template''
        else
          (case decodeLength (drop 1 payload) of
             Inl e \<Rightarrow> Inl e
           | Inr (templateLen, used) \<Rightarrow>
               let start = 1 + used in
               if length (drop start payload) \<noteq> templateLen then Inl ''nfc: invalid template length''
               else
                 (case parseTLV (drop start payload) of
                    Inl e \<Rightarrow> Inl e
                  | Inr fields \<Rightarrow>
                      let token = (case map_of fields TokenTag of None \<Rightarrow> [] | Some v \<Rightarrow> v) in
                      if token = [] then Inl ''nfc: token tag missing'' else Inr token)))"

section \<open>Round trip\<close>

lemma mod_two_bytes: "(n div 256) mod 256 * 256 + n mod 256 = n mod (65536::nat)"
  using mod_mult2_eq [of n 256 256] by simp

lemma decode_encode_length:
  "decodeLength (encodeLength n @ rest) = Inr (n mod 65536, length (encodeLength n))"
proof -
  consider "n < 128" | "128 \<le> n" "n \<le> 255" | "255 < n" by linarith
  then show ?thesis
  proof cases
    case 3
    then have "\<not> n < 128" "\<not> n \<le> 255" by simp_all
    then show ?thesis
      by (simp add: decodeLength_def encodeLength_def mod_two_bytes)
  qed (simp_all add: decodeLength_def encodeLength_def)
qed

lemma encodeLength_nonempty: "encodeLength n \<noteq> []" "0 < length (encodeLength n)"
  by (auto simp: encodeLength_def)

lemma parse_fields_TLV:
  assumes "length v < 65536" "tag < 65536"
  shows "parse_fields fields (appendTLV [] tag v @ rest) = parse_fields (AList.update tag v fields) rest"
proof -
  let ?raw = "appendTLV [] tag v @ rest"
  have raw: "?raw = byte_of (tag div 256) # byte_of tag # encodeLength (length v) @ v @ rest"
    by (simp add: appendTLV_def put_uint16_def)
  have tag: "code (byte_of (tag div 256)) * 256 + code (byte_of tag) = tag"
    using assms(2) by (simp add: div_less_iff_less_mult)
  have len: "\<not> length ?raw < 3" using encodeLength_nonempty [of "length v"] by (simp add: raw Suc_le_eq)
  show ?thesis
    using len assms(1) encodeLength_nonempty [of "length v"]
    by (subst parse_fields.simps) (simp add: raw decode_encode_length tag del: code_byte_of)
qed

lemma parse_body:
  assumes "length token < 65536"
  shows "parseTLV (appendTLV (appendTLV [] VersionTag [byte_of 1]) TokenTag token) =
    Inr [(VersionTag, [byte_of 1]), (TokenTag, token)]"
proof -
  have split: "appendTLV a t v = a @ appendTLV [] t v" for a t v by (simp add: appendTLV_def)
  have "parseTLV (appendTLV (appendTLV [] VersionTag [byte_of 1]) TokenTag token) =
      parse_fields [(VersionTag, [byte_of 1])] (appendTLV [] TokenTag token @ [])"
    unfolding parseTLV_def split [of "appendTLV [] VersionTag [byte_of 1]"]
    by (subst parse_fields_TLV) (simp_all add: VersionTag_def)
  also have "\<dots> = parse_fields [(VersionTag, [byte_of 1]), (TokenTag, token)] []"
    by (subst parse_fields_TLV) (simp_all add: assms TokenTag_def VersionTag_def)
  finally show ?thesis by (simp add: parse_fields.simps)
qed

lemma parse_template:
  fixes body :: bytes
  shows "ParseTokenResponse ([byte_of 0x70] @ encodeLength (length body) @ body @ StatusOK) =
    (if 65536 \<le> length body then Inl ''nfc: invalid template length''
     else case parseTLV body of
       Inl e \<Rightarrow> Inl e
     | Inr fields \<Rightarrow>
         let token = (case map_of fields TokenTag of None \<Rightarrow> [] | Some v \<Rightarrow> v) in
         if token = [] then Inl ''nfc: token tag missing'' else Inr token)"
proof -
  let ?enc = "encodeLength (length body)"
  let ?payload = "[byte_of 0x70] @ ?enc @ body"
  have st: "length StatusOK = 2" by (simp add: StatusOK_def)
  have apdu: "[byte_of 0x70] @ ?enc @ body @ StatusOK = ?payload @ StatusOK" by simp
  have pos: "0 < length ?enc" by (rule encodeLength_nonempty)
  have cut: "take (length (?payload @ StatusOK) - 2) (?payload @ StatusOK) = ?payload"
      "drop (length (?payload @ StatusOK) - 2) (?payload @ StatusOK) = StatusOK"
    by (simp_all only: length_append st diff_add_inverse2) simp_all
  have dec: "decodeLength (drop 1 ?payload) = Inr (length body mod 65536, length ?enc)"
    by (simp add: decode_encode_length)
  have body: "drop (1 + length ?enc) ?payload = body" by simp
  have big: "length body \<noteq> length body mod 65536 \<longleftrightarrow> 65536 \<le> length body"
    by (metis leI mod_less mod_less_divisor not_le zero_less_numeral)
  have enough: "\<not> length (?payload @ StatusOK) < 4" "\<not> (length ?payload < 2 \<or> ?payload ! 0 \<noteq> byte_of 0x70)"
    using pos st by (simp_all add: Suc_le_eq)
  show ?thesis
    unfolding ParseTokenResponse_def apdu cut Let_def
    using enough by (simp only: dec body if_False not_True_eq_False sum.case prod.case big)
      (simp split: sum.split)
qed

definition max_token :: nat where
  "max_token = 65526"

lemma length_body:
  "length (appendTLV (appendTLV [] VersionTag [byte_of 1]) TokenTag token) =
   length token + 6 + length (encodeLength (length token))"
  by (simp add: appendTLV_def put_uint16_def encodeLength_def)

lemma body_fits: "length (appendTLV (appendTLV [] VersionTag [byte_of 1]) TokenTag token) < 65536 \<longleftrightarrow>
    length token \<le> max_token"
  unfolding length_body by (simp add: encodeLength_def max_token_def) linarith

lemma tags: "VersionTag \<noteq> TokenTag" "TokenTag \<noteq> VersionTag"
  by (simp_all add: TokenTag_def VersionTag_def)

lemma token_response:
  assumes "BuildTokenResponse token = Inr apdu"
  shows "ParseTokenResponse apdu =
    (if length token \<le> max_token then Inr token else Inl ''nfc: invalid template length'')"
proof -
  let ?body = "appendTLV (appendTLV [] VersionTag [byte_of 1]) TokenTag token"
  have tok: "token \<noteq> []" and apdu: "apdu = [byte_of 0x70] @ encodeLength (length ?body) @ ?body @ StatusOK"
    using assms by (simp_all add: BuildTokenResponse_def Let_def split: if_splits)
  show ?thesis
  proof (cases "length token \<le> max_token")
    case True
    then have "length token < 65536" "\<not> 65536 \<le> length ?body"
      using body_fits [of token] by (simp_all add: max_token_def not_le)
    with True tok show ?thesis
      unfolding apdu parse_template by (simp add: parse_body [simplified] tags)
  next
    case False
    with body_fits [of token] have "65536 \<le> length ?body" by (simp add: not_le not_less)
    with False show ?thesis unfolding apdu parse_template by simp
  qed
qed

text \<open>
  The token response is a faithful encoding exactly for tokens of 1 to 65526 bytes: an empty
  token is refused, any other token yields a response, and parsing that response returns the
  token, or, for a longer token, whose length does not fit the two-byte length field, fails with
  an error rather than returning another token.
\<close>

theorem token_response_roundtrip:
  "case BuildTokenResponse token of
     Inl _ \<Rightarrow> token = []
   | Inr apdu \<Rightarrow> token \<noteq> [] \<and>
       ParseTokenResponse apdu =
         (if length token \<le> 65526 then Inr token else Inl ''nfc: invalid template length'')"
proof (cases "BuildTokenResponse token")
  case (Inl e)
  then show ?thesis by (simp add: BuildTokenResponse_def Let_def split: if_splits)
next
  case (Inr apdu)
  then have "token \<noteq> []" by (simp add: BuildTokenResponse_def Let_def split: if_splits)
  with Inr token_response [OF Inr] show ?thesis by (simp add: max_token_def)
qed

text \<open>As a codec.\<close>

definition token_apdu :: "string \<Rightarrow> bytes" where
  "token_apdu token = (case BuildTokenResponse token of Inl _ \<Rightarrow> [] | Inr apdu \<Rightarrow> apdu)"

definition parse_apdu :: "bytes \<Rightarrow> string option" where
  "parse_apdu apdu = (case ParseTokenResponse apdu of Inl _ \<Rightarrow> None | Inr t \<Rightarrow> Some t)"

lemma build_nonempty: "token \<noteq> [] \<Longrightarrow> \<exists>apdu. BuildTokenResponse token = Inr apdu"
  by (simp add: BuildTokenResponse_def Let_def)

interpretation nfc: codec token_apdu parse_apdu "\<lambda>t. t \<noteq> [] \<and> length t \<le> max_token"
proof unfold_locales
  fix t :: string
  assume t: "t \<noteq> [] \<and> length t \<le> max_token"
  then obtain apdu where "BuildTokenResponse t = Inr apdu" using build_nonempty by blast
  with t token_response [OF this] show "parse_apdu (token_apdu t) = Some t"
    by (simp add: token_apdu_def parse_apdu_def)
qed

section \<open>The card applet\<close>

record CardApplet =
  AID :: string
  Label :: string
  Token :: string

definition NewCardApplet :: "string \<Rightarrow> CardApplet" where
  "NewCardApplet token = \<lparr> AID = ChainFXAIDHex, Label = ''ChainFX NFC'', Token = trim_space token \<rparr>"

definition applet_aid :: "CardApplet \<Rightarrow> string" where
  "applet_aid c = (let aid = trim_space (AID c) in if aid = [] then ChainFXAIDHex else aid)"

definition SelectCommand :: "CardApplet \<Rightarrow> string + bytes" where
  "SelectCommand c =
     (case hex_decode (applet_aid c) of
        None \<Rightarrow> Inl ''hex''
      | Some raw \<Rightarrow> Inr ([byte_of 0x00, byte_of 0xA4, byte_of 0x04, byte_of 0x00, byte_of (length raw)] @ raw))"

definition isSelectAID :: "CardApplet \<Rightarrow> bytes \<Rightarrow> bool" where
  "isSelectAID c apdu =
     (case SelectCommand c of
        Inl _ \<Rightarrow> False
      | Inr selectCmd \<Rightarrow> length selectCmd \<le> length apdu \<and> take (length selectCmd) apdu = selectCmd)"

text \<open>A response with an optional error, as the two results of the Go methods.\<close>

definition selectResponse :: "CardApplet \<Rightarrow> bytes \<times> string option" where
  "selectResponse c =
     (case hex_decode (applet_aid c) of
        None \<Rightarrow> (StatusFailed, Some ''hex'')
      | Some aidBytes \<Rightarrow>
          let label = trim_space (Label c);
              label = (if label = [] then ''ChainFX NFC'' else label);
              a5 = [byte_of 0x50] @ encodeLength (length label) @ label @ [byte_of 0x87, byte_of 1, byte_of 1];
              body = [byte_of 0x84] @ encodeLength (length aidBytes) @ aidBytes @
                     [byte_of 0xA5] @ encodeLength (length a5) @ a5 in
          ([byte_of 0x6F] @ encodeLength (length body) @ body @ StatusOK, None))"

definition isGPO :: "bytes \<Rightarrow> bool" where
  "isGPO apdu \<longleftrightarrow> 2 \<le> length apdu \<and> code (apdu ! 1) = 0xA8"

definition isReadRecord :: "bytes \<Rightarrow> bool" where
  "isReadRecord apdu \<longleftrightarrow> 2 \<le> length apdu \<and> code (apdu ! 1) = 0xB2"

definition isGetData :: "bytes \<Rightarrow> bool" where
  "isGetData apdu \<longleftrightarrow> 2 \<le> length apdu \<and> code (apdu ! 1) = 0xCA"

definition ProcessCommandAPDU :: "CardApplet \<Rightarrow> bytes \<Rightarrow> bytes \<times> string option" where
  "ProcessCommandAPDU c apdu =
     (if length apdu < 4 then (StatusWrongLength, Some ''nfc hce: APDU too short'')
      else if isSelectAID c apdu then selectResponse c
      else if isGPO apdu \<or> isReadRecord apdu \<or> isGetData apdu then
        (if trim_space (Token c) = [] then ([byte_of 0x69, byte_of 0x85], Some ''nfc hce: token not provisioned'')
         else
           (case BuildTokenResponse (Token c) of
              Inl e \<Rightarrow> ([], Some e)
            | Inr out \<Rightarrow> (out, None)))
      else (StatusFailed, Some ''nfc hce: unsupported APDU instruction''))"

lemma select_ins: "isSelectAID c apdu \<Longrightarrow> code (apdu ! 1) = 0xA4"
proof -
  assume "isSelectAID c apdu"
  then obtain raw where raw: "length raw + 5 \<le> length apdu"
    "take (length raw + 5) apdu = [byte_of 0x00, byte_of 0xA4, byte_of 0x04, byte_of 0x00, byte_of (length raw)] @ raw"
    by (auto simp: isSelectAID_def SelectCommand_def eval_nat_numeral split: sum.splits option.splits)
  have "apdu ! 1 = take (length raw + 5) apdu ! 1" by simp
  also have "\<dots> = byte_of 0xA4" unfolding raw(2) by simp
  finally show ?thesis by simp
qed

text \<open>
  A terminal that sends the applet any well-formed GET PROCESSING OPTIONS, READ RECORD or GET
  DATA command reads back the provisioned token (without surrounding white space), and a
  terminal that sends the applet its own SELECT command gets an answer that ends in 9000.
\<close>

theorem applet_serves_token:
  assumes "4 \<le> length apdu" "code (apdu ! 1) \<in> {0xA8, 0xB2, 0xCA}"
    and "trim_space token \<noteq> []" "length (trim_space token) \<le> 65526"
  shows "snd (ProcessCommandAPDU (NewCardApplet token) apdu) = None \<and>
    ParseTokenResponse (fst (ProcessCommandAPDU (NewCardApplet token) apdu)) = Inr (trim_space token) \<and>
    (\<exists>sel out. SelectCommand (NewCardApplet token) = Inr sel \<and>
       ProcessCommandAPDU (NewCardApplet token) sel = (out @ StatusOK, None))"
proof -
  let ?c = "NewCardApplet token"
  have not_sel: "\<not> isSelectAID ?c apdu" using assms(2) select_ins [of ?c apdu] by auto
  obtain out where out: "BuildTokenResponse (trim_space token) = Inr out"
    using build_nonempty [OF assms(3)] by blast
  have "trim_space (Token ?c) \<noteq> []" "Token ?c = trim_space token"
    using assms(3) by (simp_all add: NewCardApplet_def)
  then have resp: "ProcessCommandAPDU ?c apdu = (out, None)"
    using assms(1,2) not_sel out by (auto simp: ProcessCommandAPDU_def isGPO_def isReadRecord_def isGetData_def)
  have aid: "applet_aid ?c = ChainFXAIDHex"
    by (simp add: applet_aid_def NewCardApplet_def ChainFXAIDHex_def trim_space_def trim_both_def
        trim_left_def trim_right_def is_space_def)
  then obtain raw where raw: "hex_decode (applet_aid ?c) = Some raw"
    by (simp add: ChainFXAIDHex_def hex_val_def)
  then obtain sel where sel: "SelectCommand ?c = Inr sel" "5 \<le> length sel" "isSelectAID ?c sel"
    by (simp add: SelectCommand_def isSelectAID_def)
  have "\<exists>pre. selectResponse ?c = (pre @ StatusOK, None)"
    using raw by (simp add: selectResponse_def Let_def)
  with sel have "\<exists>out. ProcessCommandAPDU ?c sel = (out @ StatusOK, None)"
    by (simp add: ProcessCommandAPDU_def)
  with sel(1) resp token_response [OF out] assms(4) show ?thesis by (simp add: max_token_def)
qed

theorem applet_serves_token_witness:
  "ParseTokenResponse (fst (ProcessCommandAPDU (NewCardApplet '' nfc1.abc '')
     [byte_of 0, byte_of 0xB2, byte_of 1, byte_of 0x0C])) = Inr ''nfc1.abc''"
proof -
  have t: "trim_space '' nfc1.abc '' = ''nfc1.abc''" by code_simp
  from applet_serves_token [of "[byte_of 0, byte_of 0xB2, byte_of 1, byte_of 0x0C]" "'' nfc1.abc ''"]
  show ?thesis unfolding t by simp
qed

section \<open>Signed tokens\<close>

text \<open>
  \<open>token.go\<close>. The library functions are in a record: HMAC-SHA256, base64url without padding, and
  JSON of the claims. The two random strings of \<open>newRandomHex\<close> are arguments of \<open>IssueToken\<close>.
\<close>

definition TokenPrefix :: string where
  "TokenPrefix = ''nfc1''"

datatype token_error = ErrSecretRequired | ErrInvalidToken | ErrExpiredToken | ErrMarshal

record TokenClaims =
  TokenID :: string
  Wallet :: string
  DeviceID :: string
  Network :: string
  IssuedAtUnix :: int64
  ExpiresAtUnix :: int64
  Nonce :: string

record token_lib =
  hmac_sha256 :: "string \<Rightarrow> bytes \<Rightarrow> bytes"
  b64_encode :: "bytes \<Rightarrow> string"
  b64_decode :: "string \<Rightarrow> bytes option"
  json_marshal :: "TokenClaims \<Rightarrow> bytes option"
  json_unmarshal :: "bytes \<Rightarrow> TokenClaims option"

text \<open>\<open>Unix()\<close> and \<open>time.Unix(s, 0)\<close>: seconds from 1 January 1970, rounded down.\<close>

definition unix_epoch :: go_time where
  "unix_epoch = 62135596800 * second"

definition time_unix :: "go_time \<Rightarrow> int64" where
  "time_unix t = (t - unix_epoch) div second"

definition unix_time :: "int64 \<Rightarrow> go_time" where
  "unix_time s = unix_epoch + s * second"

definition nfc_sign :: "token_lib \<Rightarrow> string \<Rightarrow> string \<Rightarrow> string" where
  "nfc_sign lib secret payloadPart = b64_encode lib (hmac_sha256 lib secret payloadPart)"

definition issue_claims ::
  "string \<Rightarrow> string \<Rightarrow> string \<Rightarrow> string \<Rightarrow> string \<Rightarrow> duration \<Rightarrow> go_time \<Rightarrow> TokenClaims" where
  "issue_claims tid nonce wallet deviceID network ttl now =
     (let ttl = (if ttl \<le> 0 then 2 * minute else ttl) in
      \<lparr> TokenID = tid, Wallet = to_lower (trim_space wallet), DeviceID = trim_space deviceID,
        Network = to_upper (trim_space network), IssuedAtUnix = time_unix now,
        ExpiresAtUnix = time_unix (now + ttl), Nonce = nonce \<rparr>)"

definition IssueToken ::
  "token_lib \<Rightarrow> string \<Rightarrow> string \<Rightarrow> string \<Rightarrow> string \<Rightarrow> string \<Rightarrow> string \<Rightarrow> duration \<Rightarrow> go_time \<Rightarrow>
   token_error + string \<times> TokenClaims" where
  "IssueToken lib tid nonce secret wallet deviceID network ttl now =
     (let secret = trim_space secret in
      if secret = [] then Inl ErrSecretRequired
      else
        let claims = issue_claims tid nonce wallet deviceID network ttl now in
        case json_marshal lib claims of
          None \<Rightarrow> Inl ErrMarshal
        | Some payload \<Rightarrow>
            let payloadPart = b64_encode lib payload;
                sig = nfc_sign lib secret payloadPart in
            Inr (TokenPrefix @ ''.'' @ payloadPart @ ''.'' @ sig, claims))"

definition VerifyToken :: "token_lib \<Rightarrow> string \<Rightarrow> string \<Rightarrow> go_time \<Rightarrow> token_error + TokenClaims" where
  "VerifyToken lib secret token now =
     (let secret = trim_space secret in
      if secret = [] then Inl ErrSecretRequired
      else
        let parts = split_on CHR ''.'' (trim_space token) in
        if length parts \<noteq> 3 \<or> parts ! 0 \<noteq> TokenPrefix then Inl ErrInvalidToken
        else
          let want = nfc_sign lib secret (parts ! 1) in
          case b64_decode lib (parts ! 2) of
            None \<Rightarrow> Inl ErrInvalidToken
          | Some got \<Rightarrow>
              (case b64_decode lib want of
                 None \<Rightarrow> Inl ErrInvalidToken
               | Some expected \<Rightarrow>
                   if got \<noteq> expected then Inl ErrInvalidToken
                   else
                     (case b64_decode lib (parts ! 1) of
                        None \<Rightarrow> Inl ErrInvalidToken
                      | Some raw \<Rightarrow>
                          (case json_unmarshal lib raw of
                             None \<Rightarrow> Inl ErrInvalidToken
                           | Some claims \<Rightarrow>
                               if TokenID claims = [] \<or> Wallet claims = [] \<or> ExpiresAtUnix claims \<le> 0
                               then Inl ErrInvalidToken
                               else if \<not> now < unix_time (ExpiresAtUnix claims) then Inl ErrExpiredToken
                               else Inr (claims\<lparr>Wallet := to_lower (trim_space (Wallet claims)),
                                                Network := to_upper (trim_space (Network claims))\<rparr>)))))"

text \<open>Documented behaviour of base64url: decoding inverts encoding, and its alphabet.\<close>

definition b64_ok :: "token_lib \<Rightarrow> bool" where
  "b64_ok lib \<longleftrightarrow> (\<forall>x. b64_decode lib (b64_encode lib x) = Some x \<and>
     list_all (\<lambda>c. c \<noteq> CHR ''.'' \<and> \<not> is_space c) (b64_encode lib x))"

lemma b64_okD:
  assumes "b64_ok lib"
  shows "b64_decode lib (b64_encode lib x) = Some x" "CHR ''.'' \<notin> set (b64_encode lib x)"
    "\<forall>c\<in>set (b64_encode lib x). \<not> is_space c"
  using assms by (auto simp: b64_ok_def list_all_iff)

lemma split_three: "CHR ''.'' \<notin> set a \<Longrightarrow> CHR ''.'' \<notin> set b \<Longrightarrow> CHR ''.'' \<notin> set c \<Longrightarrow>
   split_on CHR ''.'' (a @ ''.'' @ b @ ''.'' @ c) = [a, b, c]"
  by (simp add: split_on_append split_on_no_sep)

lemma token_trimmed:
  assumes "\<forall>c\<in>set sig. \<not> is_space c"
  shows "trim_space (TokenPrefix @ ''.'' @ p @ ''.'' @ sig) = TokenPrefix @ ''.'' @ p @ ''.'' @ sig"
proof (rule trim_space_trimmed)
  have "last (TokenPrefix @ ''.'' @ p @ ''.'' @ sig) = (if sig = [] then CHR ''.'' else last sig)" by simp
  moreover have "\<not> is_space (if sig = [] then CHR ''.'' else last sig)"
    using assms by (auto simp: is_space_def)
  moreover have "\<not> is_space (hd (TokenPrefix @ ''.'' @ p @ ''.'' @ sig))"
    by (simp add: TokenPrefix_def is_space_def)
  ultimately show "trimmed (TokenPrefix @ ''.'' @ p @ ''.'' @ sig)" unfolding trimmed_def by simp
qed

text \<open>Only tokens that carry the HMAC of their payload under the secret are accepted.\<close>

lemma VerifyToken_authentic:
  assumes "VerifyToken lib secret token now = Inr claims"
  shows "\<exists>p s raw. split_on CHR ''.'' (trim_space token) = [TokenPrefix, p, s] \<and>
    b64_decode lib s = b64_decode lib (nfc_sign lib (trim_space secret) p) \<and> b64_decode lib s \<noteq> None \<and>
    b64_decode lib p = Some raw \<and>
    (\<exists>c. json_unmarshal lib raw = Some c \<and> now < unix_time (ExpiresAtUnix c) \<and> TokenID claims = TokenID c)"
proof -
  let ?parts = "split_on CHR ''.'' (trim_space token)"
  have len: "length ?parts = 3" "?parts ! 0 = TokenPrefix"
    using assms by (auto simp: VerifyToken_def Let_def split: if_splits)
  then obtain p s where parts: "?parts = [TokenPrefix, p, s]"
    by (cases ?parts; cases "tl ?parts"; cases "tl (tl ?parts)") auto
  with assms show ?thesis
    by (auto simp: VerifyToken_def Let_def split: if_splits option.splits)
qed

text \<open>
  C34. A token that the gateway issues is accepted by \<open>VerifyToken\<close> with the same secret, with
  exactly the issued claims, at every time before its expiry second, and refused as expired from
  then on. Base64url decoding must invert encoding, and JSON must read back the claims.
\<close>

theorem issued_token_verifies:
  assumes "b64_ok lib" "IssueToken lib tid nonce secret wallet device network ttl now = Inr (token, claims)"
    and "\<forall>payload. json_marshal lib claims = Some payload \<longrightarrow> json_unmarshal lib payload = Some claims"
    and "tid \<noteq> []" "trim_space wallet \<noteq> []" "0 < ExpiresAtUnix claims"
  shows "VerifyToken lib secret token later =
    (if later < unix_time (ExpiresAtUnix claims) then Inr claims else Inl ErrExpiredToken)"
proof -
  note b64 = b64_okD [OF assms(1)]
  obtain payload where pl: "json_marshal lib claims = Some payload" and sec: "trim_space secret \<noteq> []"
    and cl: "claims = issue_claims tid nonce wallet device network ttl now"
    and tok: "token = TokenPrefix @ ''.'' @ b64_encode lib payload @ ''.'' @
      nfc_sign lib (trim_space secret) (b64_encode lib payload)"
    using assms(2) by (auto simp: IssueToken_def Let_def split: if_splits option.splits)
  have "trim_space token = token" unfolding tok by (rule token_trimmed) (simp add: nfc_sign_def b64)
  moreover have "split_on CHR ''.'' token =
      [TokenPrefix, b64_encode lib payload, nfc_sign lib (trim_space secret) (b64_encode lib payload)]"
    unfolding tok by (rule split_three) (simp_all add: TokenPrefix_def nfc_sign_def b64)
  moreover have "json_unmarshal lib payload = Some claims" using assms(3) pl by simp
  moreover have "to_lower (trim_space (Wallet claims)) = Wallet claims"
      "to_upper (trim_space (Network claims)) = Network claims" "TokenID claims \<noteq> []" "Wallet claims \<noteq> []"
    using assms(4,5) by (simp_all add: cl issue_claims_def Let_def trim_space_lower trim_space_upper)
  ultimately show ?thesis
    using sec assms(6) by (simp add: VerifyToken_def Let_def nfc_sign_def b64)
qed

text \<open>A library for concrete tokens: hexadecimal instead of base64url and a fixed layout of the claims.\<close>

definition sample_unmarshal :: "bytes \<Rightarrow> TokenClaims option" where
  "sample_unmarshal raw =
     (case split_on CHR '':'' raw of
        [a, b, c, d, e, f, g] \<Rightarrow>
          (case (parse_big e, parse_big f) of
             (Some i, Some x) \<Rightarrow> Some \<lparr> TokenID = a, Wallet = b, DeviceID = c, Network = d,
                IssuedAtUnix = i, ExpiresAtUnix = x, Nonce = g \<rparr>
           | _ \<Rightarrow> None)
      | _ \<Rightarrow> None)"

definition sample_token_lib :: token_lib where
  "sample_token_lib = \<lparr> hmac_sha256 = (\<lambda>k m. rev k @ m), b64_encode = hex_encode, b64_decode = hex_decode,
     json_marshal = (\<lambda>c. Some (TokenID c @ '':'' @ Wallet c @ '':'' @ DeviceID c @ '':'' @ Network c @ '':'' @
       int_str (IssuedAtUnix c) @ '':'' @ int_str (ExpiresAtUnix c) @ '':'' @ Nonce c)),
     json_unmarshal = sample_unmarshal \<rparr>"

lemma hex_digit_plain: "n < 16 \<Longrightarrow> hex_digit n \<noteq> CHR ''.'' \<and> \<not> is_space (hex_digit n)"
proof -
  assume "n < 16"
  then have "code (hex_digit n) = (if n < 10 then 48 + n else 87 + n)" by (simp add: hex_digit_def)
  moreover from this have "hex_digit n \<noteq> CHR ''.''" using \<open>n < 16\<close> by (auto split: if_splits)
  ultimately show ?thesis by (simp add: is_space_def)
qed

lemma sample_token_lib_ok: "b64_ok sample_token_lib"
proof -
  have "list_all (\<lambda>c. c \<noteq> CHR ''.'' \<and> \<not> is_space c) (hex_encode x)" for x
    by (auto simp: list_all_iff hex_encode_def code_nibbles hex_digit_plain)
  then show ?thesis by (simp add: b64_ok_def sample_token_lib_def)
qed

definition sample_claims :: TokenClaims where
  "sample_claims = issue_claims ''01'' ''02'' ''0xAB'' ''dev'' ''bsc'' (2 * second) (unix_time 1)"

definition sample_token :: string where
  "sample_token = (case IssueToken sample_token_lib ''01'' ''02'' ''key'' ''0xAB'' ''dev'' ''bsc'' (2 * second)
     (unix_time 1) of Inl _ \<Rightarrow> [] | Inr (t, _) \<Rightarrow> t)"

theorem issued_token_verifies_witness:
  "VerifyToken sample_token_lib ''key'' sample_token (unix_time 2) = Inr sample_claims \<and>
   VerifyToken sample_token_lib ''key'' sample_token (unix_time 3) = Inl ErrExpiredToken"
proof -
  have key: "trim_space ''key'' = ''key''" by code_simp
  have issued: "IssueToken sample_token_lib ''01'' ''02'' ''key'' ''0xAB'' ''dev'' ''bsc'' (2 * second) (unix_time 1) =
      Inr (sample_token, sample_claims)"
    by (simp add: IssueToken_def Let_def sample_token_def sample_claims_def key sample_token_lib_def)
  have json: "\<forall>p. json_marshal sample_token_lib sample_claims = Some p \<longrightarrow> json_unmarshal sample_token_lib p = Some sample_claims"
  proof -
    have "(case json_marshal sample_token_lib sample_claims of None \<Rightarrow> False
        | Some p \<Rightarrow> json_unmarshal sample_token_lib p = Some sample_claims)"
      by code_simp
    then show ?thesis by (auto split: option.splits)
  qed
  have "trim_space ''0xAB'' \<noteq> []" "0 < ExpiresAtUnix sample_claims" "ExpiresAtUnix sample_claims = 3"
    by code_simp+
  with issued_token_verifies [OF sample_token_lib_ok issued json, of "unix_time 2"]
    issued_token_verifies [OF sample_token_lib_ok issued json, of "unix_time 3"]
  show ?thesis by (simp add: unix_time_def second_def)
qed

end
