(* ===== verification/Base58.thy ===== *)
theory Base58
  imports Go_Strings
begin

text \<open>
  Base58 and Base58Check, \<open>internal/bitcoin/base58.go\<close>. The number that the digits or bytes denote
  is a natural number of any size, as \<open>big.Int\<close> is; SHA-256 is an argument. A Go \<open>range\<close> over a
  string visits its runes; a byte of a multi-byte rune is not in the alphabet either, so the
  loop over bytes fails on the same strings.
\<close>

section \<open>Digits\<close>

definition base58Alphabet :: string where
  "base58Alphabet = ''123456789ABCDEFGHJKLMNPQRSTUVWXYZabcdefghijkmnopqrstuvwxyz''"

text \<open>The position of a character in the alphabet.\<close>

fun index_of :: "char \<Rightarrow> string \<Rightarrow> nat option" where
  "index_of c [] = None"
| "index_of c (d # ds) = (if d = c then Some 0 else map_option Suc (index_of c ds))"

text \<open>\<open>Bytes()\<close> and \<open>SetBytes\<close> of \<open>big.Int\<close>: big-endian, without leading zeros.\<close>

fun to_digits :: "nat \<Rightarrow> nat \<Rightarrow> nat list" where
  "to_digits b n = (if b < 2 \<or> n = 0 then [] else to_digits b (n div b) @ [n mod b])"

declare to_digits.simps [simp del]

definition of_digits :: "nat \<Rightarrow> nat list \<Rightarrow> nat" where
  "of_digits b ds = foldl (\<lambda>acc d. acc * b + d) 0 ds"

definition big_bytes :: "nat \<Rightarrow> bytes" where
  "big_bytes n = map byte_of (to_digits 256 n)"

definition big_set_bytes :: "bytes \<Rightarrow> nat" where
  "big_set_bytes data = of_digits 256 (map of_char data)"

fun decode_digits :: "nat \<Rightarrow> string \<Rightarrow> nat option" where
  "decode_digits result [] = Some result"
| "decode_digits result (c # s) =
     (case index_of c base58Alphabet of
        None \<Rightarrow> None
      | Some idx \<Rightarrow> decode_digits (result * 58 + idx) s)"

definition base58Decode :: "string \<Rightarrow> string + bytes" where
  "base58Decode s =
     (case decode_digits 0 s of
        None \<Rightarrow> Inl ''base58: invalid character''
      | Some result \<Rightarrow>
          let decoded = big_bytes result;
              numLeadingZeros = length (takeWhile (\<lambda>c. c = CHR ''1'') s) in
          Inr (replicate numLeadingZeros (byte_of 0) @ decoded))"

text \<open>The digits are produced least significant first, followed by the ones, and reversed.\<close>

fun encode_digits :: "nat \<Rightarrow> string" where
  "encode_digits n = (if n = 0 then [] else (base58Alphabet ! (n mod 58)) # encode_digits (n div 58))"

declare encode_digits.simps [simp del]

definition base58Encode :: "bytes \<Rightarrow> string" where
  "base58Encode data =
     (let numLeadingZeros = length (takeWhile (\<lambda>b. b = byte_of 0) data);
          result = encode_digits (big_set_bytes data) @ replicate numLeadingZeros (base58Alphabet ! 0) in
      rev result)"

definition dsha256 :: "(bytes \<Rightarrow> bytes) \<Rightarrow> bytes \<Rightarrow> bytes" where
  "dsha256 sha256 data = sha256 (sha256 data)"

definition base58CheckEncode :: "(bytes \<Rightarrow> bytes) \<Rightarrow> bytes \<Rightarrow> string" where
  "base58CheckEncode sha256 payload = base58Encode (payload @ take 4 (dsha256 sha256 payload))"

definition base58CheckDecode :: "(bytes \<Rightarrow> bytes) \<Rightarrow> string \<Rightarrow> string + bytes" where
  "base58CheckDecode sha256 s =
     bind_result (base58Decode s) (\<lambda>decoded.
     if length decoded < 4 then Inl ''base58check: too short''
     else
       let payload = take (length decoded - 4) decoded;
           checksum = drop (length decoded - 4) decoded;
           expected = dsha256 sha256 payload in
       if expected ! 0 \<noteq> checksum ! 0 \<or> expected ! 1 \<noteq> checksum ! 1 \<or>
          expected ! 2 \<noteq> checksum ! 2 \<or> expected ! 3 \<noteq> checksum ! 3
       then Inl ''base58check: invalid checksum'' else Inr payload)"

section \<open>Positional notation\<close>

lemma of_digits_snoc [simp]: "of_digits b (ds @ [d]) = of_digits b ds * b + d"
  by (simp add: of_digits_def)

lemma of_digits_Nil [simp]: "of_digits b [] = 0"
  by (simp add: of_digits_def)

lemma to_digits_0 [simp]: "to_digits b 0 = []"
  by (simp add: to_digits.simps)

lemma encode_digits_0 [simp]: "encode_digits 0 = []"
  by (simp add: encode_digits.simps)

lemma of_to_digits: "2 \<le> b \<Longrightarrow> of_digits b (to_digits b n) = n"
proof (induction b n rule: to_digits.induct)
  case (1 b n)
  then show ?case by (cases "n = 0") (simp_all add: to_digits.simps [of b n])
qed

lemma to_digits_less: "2 \<le> b \<Longrightarrow> d \<in> set (to_digits b n) \<Longrightarrow> d < b"
proof (induction b n rule: to_digits.induct)
  case (1 b n)
  then show ?case by (cases "n = 0") (auto simp: to_digits.simps [of b n])
qed

text \<open>Digits without leading zeros are the digits of their number.\<close>

lemma to_of_digits:
  "2 \<le> b \<Longrightarrow> \<forall>d\<in>set ds. d < b \<Longrightarrow> to_digits b (of_digits b ds) = dropWhile (\<lambda>d. d = 0) ds"
proof (induction ds rule: rev_induct)
  case Nil
  then show ?case by (simp add: to_digits.simps)
next
  case (snoc d ds)
  then have IH: "to_digits b (of_digits b ds) = dropWhile (\<lambda>d. d = 0) ds" and d: "d < b" by simp_all
  let ?n = "of_digits b ds * b + d"
  have nd: "?n div b = of_digits b ds" "?n mod b = d" using d snoc.prems(1) by simp_all
  show ?case
  proof (cases "?n = 0")
    case True
    with IH snoc.prems(1) have "d = 0" "dropWhile (\<lambda>d. d = 0) ds = []" by (auto simp: to_digits.simps)
    then show ?thesis using True by (simp add: to_digits.simps dropWhile_append)
  next
    case False
    then have "to_digits b ?n = dropWhile (\<lambda>d. d = 0) ds @ [d]"
      using snoc.prems(1) IH nd by (subst to_digits.simps) simp
    moreover have "dropWhile (\<lambda>d. d = 0) (ds @ [d]) = dropWhile (\<lambda>d. d = 0) ds @ [d]"
    proof (cases "dropWhile (\<lambda>d. d = 0) ds = []")
      case True
      then have "of_digits b ds = 0" using IH of_to_digits [OF snoc.prems(1), of "of_digits b ds"]
        by (metis of_digits_Nil)
      with False True show ?thesis by (simp add: dropWhile_append dropWhile_eq_Nil_conv)
    qed (auto simp: dropWhile_append)
    ultimately show ?thesis by simp
  qed
qed

section \<open>Round trips\<close>

lemma index_of_nth: "distinct s \<Longrightarrow> i < length s \<Longrightarrow> index_of (s ! i) s = Some i"
proof (induction s arbitrary: i)
  case (Cons c s)
  then show ?case by (cases i) (auto simp: nth_mem)
qed simp

lemma alphabet: "length base58Alphabet = 58" "distinct base58Alphabet" "base58Alphabet ! 0 = CHR ''1''"
  unfolding base58Alphabet_def by (simp_all add: eval_nat_numeral)

lemma decode_digits_append:
  "decode_digits r (s @ t) = (case decode_digits r s of None \<Rightarrow> None | Some r' \<Rightarrow> decode_digits r' t)"
  by (induction r s rule: decode_digits.induct) (auto split: option.split)

lemma decode_encode_digits: "decode_digits 0 (rev (encode_digits n)) = Some n"
proof (induction n rule: encode_digits.induct)
  case (1 n)
  show ?case
  proof (cases "n = 0")
    case True
    then show ?thesis by (simp add: encode_digits.simps)
  next
    case False
    have "index_of (base58Alphabet ! (n mod 58)) base58Alphabet = Some (n mod 58)"
      by (rule index_of_nth) (simp_all add: alphabet)
    with False 1 show ?thesis by (simp add: encode_digits.simps [of n] decode_digits_append)
  qed
qed

lemma decode_ones: "decode_digits 0 (replicate k CHR ''1'' @ s) = decode_digits 0 s"
proof (induction k)
  case (Suc k)
  have "index_of CHR ''1'' base58Alphabet = Some 0" using index_of_nth [of base58Alphabet 0] by (simp add: alphabet)
  with Suc show ?case by simp
qed simp

lemma encode_digits_lead: "n \<noteq> 0 \<Longrightarrow> \<exists>c cs. rev (encode_digits n) = c # cs \<and> c \<noteq> CHR ''1''"
proof (induction n rule: encode_digits.induct)
  case (1 n)
  show ?case
  proof (cases "n div 58 = 0")
    case True
    have nz: "n mod 58 \<noteq> 0" "n mod 58 < 58" using True "1.prems" by (simp_all add: div_eq_0_iff)
    then have "base58Alphabet ! (n mod 58) \<noteq> base58Alphabet ! 0"
      using nth_eq_iff_index_eq [OF alphabet(2), of "n mod 58" 0] by (simp add: alphabet(1))
    with True "1.prems" show ?thesis
      by (simp add: encode_digits.simps [of n] alphabet(3))
  next
    case False
    from "1.IH" [OF "1.prems" this] obtain c cs where "rev (encode_digits (n div 58)) = c # cs" "c \<noteq> CHR ''1''"
      by blast
    with "1.prems" show ?thesis by (simp add: encode_digits.simps [of n])
  qed
qed

lemma leading_split:
  assumes "\<forall>x\<in>set zs. P x" "ys = [] \<or> \<not> P (hd ys)"
  shows "takeWhile P (zs @ ys) = zs" "dropWhile P (zs @ ys) = ys"
  using assms by (induction zs) (cases ys; auto)+

lemma dropWhile_codes: "dropWhile (\<lambda>d. d = 0) (map (of_char :: char \<Rightarrow> nat) data) = map of_char (dropWhile (\<lambda>c. c = byte_of 0) data)"
proof (induction data)
  case (Cons c data)
  have "of_char c = (0::nat) \<longleftrightarrow> c = byte_of 0" by (metis byte_of_code code_byte_of mod_0)
  with Cons show ?case by simp
qed simp

lemma big_bytes_set_bytes: "big_bytes (big_set_bytes data) = dropWhile (\<lambda>c. c = byte_of 0) data"
proof -
  have "to_digits 256 (big_set_bytes data) = dropWhile (\<lambda>d. d = 0) (map of_char data)"
    unfolding big_set_bytes_def by (rule to_of_digits) auto
  then show ?thesis by (simp add: big_bytes_def dropWhile_codes comp_def)
qed

lemma takeWhile_eq_replicate: "takeWhile (\<lambda>c. c = z) xs = replicate (length (takeWhile (\<lambda>c. c = z) xs)) z"
  by (induction xs) auto

lemma decode_encode: "base58Decode (base58Encode data) = Inr data"
proof -
  let ?z = "length (takeWhile (\<lambda>b. b = byte_of 0) data)" and ?n = "big_set_bytes data"
  have enc: "base58Encode data = replicate ?z CHR ''1'' @ rev (encode_digits ?n)"
    by (simp add: base58Encode_def alphabet(3) Let_def)
  have "rev (encode_digits ?n) = [] \<or> hd (rev (encode_digits ?n)) \<noteq> CHR ''1''"
    using encode_digits_lead [of ?n] by (cases "?n = 0") auto
  then have "takeWhile (\<lambda>c. c = CHR ''1'') (base58Encode data) = replicate ?z CHR ''1''"
    unfolding enc by (intro leading_split(1)) auto
  moreover have "decode_digits 0 (base58Encode data) = Some ?n"
    unfolding enc decode_ones by (rule decode_encode_digits)
  ultimately have "base58Decode (base58Encode data) =
      Inr (replicate ?z (byte_of 0) @ dropWhile (\<lambda>c. c = byte_of 0) data)"
    by (simp add: base58Decode_def big_bytes_set_bytes)
  moreover have "replicate ?z (byte_of 0) @ dropWhile (\<lambda>c. c = byte_of 0) data = data"
    by (metis takeWhile_dropWhile_id takeWhile_eq_replicate)
  ultimately show ?thesis by simp
qed

lemma index_of_Some: "index_of c s = Some i \<Longrightarrow> i < length s \<and> s ! i = c"
proof (induction s arbitrary: i)
  case (Cons d s)
  then show ?case by (cases i) (auto split: if_splits)
qed simp

lemma decode_digits_values:
  "decode_digits r s = Some n \<Longrightarrow> \<exists>ds. s = map ((!) base58Alphabet) ds \<and> (\<forall>d\<in>set ds. d < 58) \<and>
     n = foldl (\<lambda>acc d. acc * 58 + d) r ds"
proof (induction r s rule: decode_digits.induct)
  case (1 r)
  then show ?case by simp
next
  case (2 r c s)
  then obtain i where i: "index_of c base58Alphabet = Some i" "decode_digits (r * 58 + i) s = Some n"
    by (auto split: option.splits)
  from "2.IH" [OF i] obtain ds where "s = map ((!) base58Alphabet) ds" "\<forall>d\<in>set ds. d < 58"
      "n = foldl (\<lambda>acc d. acc * 58 + d) (r * 58 + i) ds"
    by blast
  with index_of_Some [OF i(1)] show ?case
    by (intro exI [of _ "i # ds"]) (auto simp: alphabet(1))
qed

lemma encode_digits_eq: "rev (encode_digits n) = map ((!) base58Alphabet) (to_digits 58 n)"
proof (induction n rule: encode_digits.induct)
  case (1 n)
  then show ?case
    by (cases "n = 0") (simp_all add: encode_digits.simps [of n] to_digits.simps [of 58 n])
qed

lemma alphabet_zero: "d < 58 \<Longrightarrow> base58Alphabet ! d = CHR ''1'' \<longleftrightarrow> d = 0"
  using nth_eq_iff_index_eq [OF alphabet(2), of d 0] alphabet by simp

lemma big_set_bytes_digits: "big_set_bytes (map byte_of (to_digits 256 n)) = n"
proof -
  have "map of_char (map byte_of (to_digits 256 n)) = to_digits 256 n"
    using to_digits_less [of 256 _ n] by (auto intro!: map_idI)
  then show ?thesis by (simp only: big_set_bytes_def of_to_digits)
qed

lemma set_bytes_zeros: "big_set_bytes (replicate k (byte_of 0) @ data) = big_set_bytes data"
proof (induction k)
  case (Suc k)
  then show ?case by (simp add: big_set_bytes_def of_digits_def)
qed simp

lemma to_digits_lead: "2 \<le> b \<Longrightarrow> to_digits b n = [] \<or> hd (to_digits b n) \<noteq> 0"
proof (induction b n rule: to_digits.induct)
  case (1 b n)
  show ?case
  proof (cases "n = 0 \<or> n div b = 0")
    case True
    then show ?thesis using "1.prems" by (cases "n = 0") (auto simp: to_digits.simps [of b n] div_eq_0_iff)
  next
    case False
    with 1 have "to_digits b (n div b) = [] \<or> hd (to_digits b (n div b)) \<noteq> 0" by simp
    with False "1.prems" show ?thesis
      using of_to_digits [of b "n div b"] by (auto simp: to_digits.simps [of b n] hd_append)
  qed
qed

lemma encode_decode:
  assumes "base58Decode s = Inr data"
  shows "base58Encode data = s"
proof -
  obtain n where n: "decode_digits 0 s = Some n" using assms by (auto simp: base58Decode_def split: option.splits)
  let ?z = "length (takeWhile (\<lambda>c. c = CHR ''1'') s)"
  have data: "data = replicate ?z (byte_of 0) @ big_bytes n" using assms n by (simp add: base58Decode_def Let_def)
  obtain ds where ds: "s = map ((!) base58Alphabet) ds" "\<forall>d\<in>set ds. d < 58" "n = of_digits 58 ds"
    using decode_digits_values [OF n] by (auto simp: of_digits_def)
  have bytes: "big_bytes n = [] \<or> hd (big_bytes n) \<noteq> byte_of 0"
  proof (cases "to_digits 256 n")
    case (Cons d rest)
    with to_digits_lead [of 256 n] to_digits_less [of 256 d n] have "d \<noteq> 0" "d < 256" by auto
    then show ?thesis using Cons by (metis big_bytes_def code_byte_of list.sel(1) list.simps(9) mod_0 mod_less)
  qed (simp add: big_bytes_def)
  have zeros: "length (takeWhile (\<lambda>b. b = byte_of 0) data) = ?z"
    unfolding data
    using leading_split(1) [of "replicate ?z (byte_of 0)" "\<lambda>b. b = byte_of 0" "big_bytes n"] bytes by simp
  have "big_set_bytes data = n" unfolding data set_bytes_zeros by (simp add: big_bytes_def big_set_bytes_digits)
  then have enc: "base58Encode data = replicate ?z CHR ''1'' @ map ((!) base58Alphabet) (to_digits 58 n)"
    by (simp add: base58Encode_def zeros alphabet(3) encode_digits_eq Let_def)
  have "to_digits 58 n = dropWhile (\<lambda>d. d = 0) ds" unfolding ds(3) by (rule to_of_digits) (use ds(2) in auto)
  moreover have "map ((!) base58Alphabet) (dropWhile (\<lambda>d. d = 0) ds) = dropWhile (\<lambda>c. c = CHR ''1'') s"
    unfolding ds(1) using ds(2) by (induction ds) (auto simp: alphabet_zero)
  ultimately show ?thesis unfolding enc by (metis takeWhile_dropWhile_id takeWhile_eq_replicate)
qed

interpretation base58: codec base58Encode "\<lambda>s. case base58Decode s of Inl _ \<Rightarrow> None | Inr d \<Rightarrow> Some d" "\<lambda>_. True"
  by unfold_locales (simp add: decode_encode)

text \<open>
  Base58 is a bijection between byte strings and strings over its alphabet: decoding an
  encoding returns the bytes, leading zero bytes included, and a string that decodes is the
  encoding of what it decodes to, so an address has only one spelling.
\<close>

theorem base58_bijection:
  "base58Decode (base58Encode data) = Inr data \<and>
   (case base58Decode s of Inl _ \<Rightarrow> decode_digits 0 s = None | Inr d \<Rightarrow> base58Encode d = s)"
  using decode_encode encode_decode
  by (auto simp: base58Decode_def Let_def split: sum.split option.split)

lemma check_decode_encode:
  assumes "\<And>x. length (sha256 x) = 32"
  shows "base58CheckDecode sha256 (base58CheckEncode sha256 payload) = Inr payload"
proof -
  have l: "length (dsha256 sha256 payload) = 32" using assms by (simp add: dsha256_def)
  then show ?thesis
    by (simp add: base58CheckDecode_def base58CheckEncode_def decode_encode Let_def)
qed

text \<open>
  C32. Base58Check: decoding an encoding returns the payload, and whatever decodes carries the
  first four bytes of the double SHA-256 of its payload. SHA-256 is any function with 32-byte
  results.
\<close>

theorem base58check_sound_complete:
  assumes "\<And>x. length (sha256 x) = 32"
  shows "base58CheckDecode sha256 (base58CheckEncode sha256 payload) = Inr payload \<and>
    (\<forall>s p. base58CheckDecode sha256 s = Inr p \<longrightarrow> s = base58CheckEncode sha256 p)"
proof (intro conjI allI impI)
  show "base58CheckDecode sha256 (base58CheckEncode sha256 payload) = Inr payload"
    using assms by (rule check_decode_encode)
next
  fix s p
  assume dec: "base58CheckDecode sha256 s = Inr p"
  then obtain d where d0: "base58Decode s = Inr d" by (auto simp: base58CheckDecode_def result_iff)
  with dec have d: "base58Decode s = Inr d" "4 \<le> length d" and p: "p = take (length d - 4) d"
    and ch: "dsha256 sha256 p ! 0 = drop (length d - 4) d ! 0" "dsha256 sha256 p ! 1 = drop (length d - 4) d ! 1"
      "dsha256 sha256 p ! 2 = drop (length d - 4) d ! 2" "dsha256 sha256 p ! 3 = drop (length d - 4) d ! 3"
    unfolding base58CheckDecode_def by (auto simp only: Let_def bind_result_simps sum.inject not_less split: if_splits)
  have "i = 0 \<or> i = 1 \<or> i = 2 \<or> i = 3" if "i < 4" for i :: nat using that by linarith
  with ch have eq: "\<forall>i<4. dsha256 sha256 p ! i = drop (length d - 4) d ! i" by blast
  have "take 4 (dsha256 sha256 p) = drop (length d - 4) d"
    by (rule nth_equalityI) (use d(2) eq assms in \<open>auto simp: dsha256_def\<close>)
  then have "p @ take 4 (dsha256 sha256 p) = d" using p by simp
  then show "s = base58CheckEncode sha256 p" using encode_decode [OF d(1)] by (simp add: base58CheckEncode_def)
qed

definition toy_sha256 :: "bytes \<Rightarrow> bytes" where
  "toy_sha256 x = take 32 (x @ replicate 32 (byte_of (length x)))"

theorem base58check_sound_complete_witness:
  "base58CheckDecode toy_sha256 (base58CheckEncode toy_sha256 [byte_of 0, byte_of 7]) = Inr [byte_of 0, byte_of 7]"
proof -
  have "length (toy_sha256 x) = 32" for x by (simp add: toy_sha256_def)
  with base58check_sound_complete [of toy_sha256 "[byte_of 0, byte_of 7]"] show ?thesis by blast
qed

end
