(* ===== verification/Bech32.thy ===== *)
theory Bech32
  imports Base58 Evm_Types
begin

unbundle bit_operations_syntax

text \<open>
  Native SegWit addresses, \<open>internal/bitcoin/bech32.go\<close>. A \<open>[]byte\<close> of 5-bit or 8-bit groups is a
  list of natural numbers, the checksum register is a 32-bit word. SHA-256 and RIPEMD-160 are
  arguments. Human-readable parts and addresses are ASCII.
\<close>

section \<open>The code\<close>

datatype bech_error =
    PubKeyLength | NotP2WPKHScript | NotP2WPKHAddress | ValueOutOfRange | InvalidPadding | MixedCase
  | MissingSeparator | InvalidCharacter | InvalidChecksum | InvalidVersion | InvalidProgramLength
  | HrpMismatch | EmptyData | IndexOutOfRange

definition bech32Charset :: string where
  "bech32Charset = ''qpzry9x8gf2tvdw0s3jn54khce6mua7l''"

definition bech32Generator :: "32 word list" where
  "bech32Generator = [0x3b6a57b2, 0x26508e6d, 0x1ea119fa, 0x3d4233dd, 0x2a1462b3]"

definition gen_bit :: "32 word \<Rightarrow> nat \<Rightarrow> 32 word" where
  "gen_bit b i = (if bit b i then bech32Generator ! i else 0)"

text \<open>One turn of the loop: the inner loop xors the generators of the set bits.\<close>

definition polymod_step :: "32 word \<Rightarrow> nat \<Rightarrow> 32 word" where
  "polymod_step chk v =
     (let b = drop_bit 25 chk;
          chk = push_bit 5 (chk AND 0x1ffffff) XOR of_nat v in
      foldl (\<lambda>chk i. chk XOR gen_bit b i) chk [0, 1, 2, 3, 4])"

definition bech32Polymod :: "nat list \<Rightarrow> 32 word" where
  "bech32Polymod values = foldl polymod_step 1 values"

definition bech32HRPExpand :: "string \<Rightarrow> nat list" where
  "bech32HRPExpand hrp =
     (let lower = to_lower hrp in
      map (\<lambda>c. drop_bit 5 (code c)) lower @ [0] @ map (\<lambda>c. code c AND 31) lower)"

text \<open>The inner loop of \<open>convertBits\<close> and one turn of the outer one.\<close>

function emit_groups :: "nat \<Rightarrow> nat \<Rightarrow> nat \<Rightarrow> nat list \<Rightarrow> nat \<times> nat list" where
  "emit_groups acc toBits bits ret =
     (if toBits \<le> bits \<and> 0 < toBits
      then emit_groups acc toBits (bits - toBits)
             (ret @ [(drop_bit (bits - toBits) acc AND (2 ^ toBits - 1)) mod 256])
      else (bits, ret))"
  by pat_completeness auto
termination
  by (relation "measure (\<lambda>(_, _, bits, _). bits)") auto

declare emit_groups.simps [simp del]

fun convert_loop :: "nat \<Rightarrow> nat \<Rightarrow> nat \<Rightarrow> nat \<Rightarrow> nat list \<Rightarrow> nat list \<Rightarrow> bech_error + nat \<times> nat \<times> nat list" where
  "convert_loop fromBits toBits acc bits ret [] = Inr (acc, bits, ret)"
| "convert_loop fromBits toBits acc bits ret (v # vs) =
     (if drop_bit fromBits v \<noteq> 0 then Inl ValueOutOfRange
      else
        let acc = (push_bit fromBits acc OR v) AND (2 ^ (fromBits + toBits - 1) - 1) in
        case emit_groups acc toBits (bits + fromBits) ret of
          (bits, ret) \<Rightarrow> convert_loop fromBits toBits acc bits ret vs)"

definition convertBits :: "nat list \<Rightarrow> nat \<Rightarrow> nat \<Rightarrow> bool \<Rightarrow> bech_error + nat list" where
  "convertBits data fromBits toBits pad =
     bind_result (convert_loop fromBits toBits 0 0 [] data) (\<lambda>(acc, bits, ret).
       let rest = push_bit (toBits - bits) acc AND (2 ^ toBits - 1) in
       if pad then Inr (if 0 < bits then ret @ [rest mod 256] else ret)
       else if fromBits \<le> bits \<or> rest \<noteq> 0 then Inl InvalidPadding
       else Inr ret)"

definition checksum_of :: "32 word \<Rightarrow> nat list" where
  "checksum_of m = map (\<lambda>i. unat (drop_bit (5 * (5 - i)) m AND 31)) [0, 1, 2, 3, 4, 5]"

definition bech32Encode :: "string \<Rightarrow> nat list \<Rightarrow> bech_error + string" where
  "bech32Encode hrp data =
     (let combined = bech32HRPExpand hrp @ data @ [0, 0, 0, 0, 0, 0];
          m = bech32Polymod combined XOR 1;
          payload = data @ checksum_of m in
      if list_all (\<lambda>b. b < length bech32Charset) payload
      then Inr (to_lower hrp @ ''1'' @ map ((!) bech32Charset) payload)
      else Inl IndexOutOfRange)"

text \<open>\<open>strings.LastIndex(s, "1")\<close>: the text before and after the last one.\<close>

definition split_last_one :: "string \<Rightarrow> (string \<times> string) option" where
  "split_last_one s =
     (if CHR ''1'' \<in> set s
      then Some (rev (tl (dropWhile (\<lambda>c. c \<noteq> CHR ''1'') (rev s))), rev (takeWhile (\<lambda>c. c \<noteq> CHR ''1'') (rev s)))
      else None)"

fun charset_values :: "string \<Rightarrow> bech_error + nat list" where
  "charset_values [] = Inr []"
| "charset_values (c # s) =
     (case index_of c bech32Charset of
        None \<Rightarrow> Inl InvalidCharacter
      | Some i \<Rightarrow> bind_result (charset_values s) (\<lambda>vs. Inr (i # vs)))"

definition bech32Decode :: "string \<Rightarrow> bech_error + string \<times> nat list" where
  "bech32Decode bechString =
     (let lower = to_lower bechString in
      if bechString \<noteq> lower \<and> bechString \<noteq> to_upper bechString then Inl MixedCase
      else
        case split_last_one lower of
          None \<Rightarrow> Inl MissingSeparator
        | Some (hrp, rest) \<Rightarrow>
            if length hrp < 1 \<or> length hrp + 7 > length lower then Inl MissingSeparator
            else bind_result (charset_values rest) (\<lambda>data.
              if bech32Polymod (bech32HRPExpand hrp @ data) \<noteq> 1 then Inl InvalidChecksum
              else Inr (hrp, take (length data - 6) data)))"

definition segwitAddrEncode :: "string \<Rightarrow> int64 \<Rightarrow> nat list \<Rightarrow> bech_error + string" where
  "segwitAddrEncode hrp version program =
     (if version < 0 \<or> version > 16 then Inl InvalidVersion
      else if length program < 2 \<or> length program > 40 then Inl InvalidProgramLength
      else bind_result (convertBits program 8 5 True) (\<lambda>fiveBit.
        bech32Encode hrp (nat version # fiveBit)))"

definition segwitAddrDecode :: "string \<Rightarrow> string \<Rightarrow> bech_error + int64 \<times> nat list" where
  "segwitAddrDecode hrp addr =
     bind_result (bech32Decode addr) (\<lambda>(decodedHRP, data).
       if decodedHRP \<noteq> to_lower hrp then Inl HrpMismatch
       else
         case data of
           [] \<Rightarrow> Inl EmptyData
         | version # rest \<Rightarrow>
             if version > 16 then Inl InvalidVersion
             else bind_result (convertBits rest 5 8 False) (\<lambda>prog.
               if length prog < 2 \<or> length prog > 40 then Inl InvalidProgramLength
               else if version = 0 \<and> length prog \<noteq> 20 \<and> length prog \<noteq> 32 then Inl InvalidProgramLength
               else Inr (int version, prog)))"

definition ValidateAddress :: "string \<Rightarrow> string \<Rightarrow> bech_error option" where
  "ValidateAddress addr hrp = (case segwitAddrDecode hrp addr of Inl e \<Rightarrow> Some e | Inr _ \<Rightarrow> None)"

definition Hash160FromAddress :: "string \<Rightarrow> string \<Rightarrow> bech_error + nat list" where
  "Hash160FromAddress addr hrp =
     bind_result (segwitAddrDecode hrp addr) (\<lambda>(ver, prog).
       if ver \<noteq> 0 \<or> length prog \<noteq> 20 then Inl NotP2WPKHAddress else Inr prog)"

text \<open>\<open>hash160PubKey\<close> is RIPEMD-160 of SHA-256, both of package code: two arguments.\<close>

definition hash160PubKey :: "(nat list \<Rightarrow> nat list) \<Rightarrow> (nat list \<Rightarrow> nat list) \<Rightarrow> nat list \<Rightarrow> nat list" where
  "hash160PubKey sha256 ripemd160 pubKey = ripemd160 (sha256 pubKey)"

definition P2WPKHAddress ::
  "(nat list \<Rightarrow> nat list) \<Rightarrow> (nat list \<Rightarrow> nat list) \<Rightarrow> nat list \<Rightarrow> string \<Rightarrow> bech_error + string" where
  "P2WPKHAddress sha256 ripemd160 pubKey hrp =
     (if length pubKey \<noteq> 33 then Inl PubKeyLength
      else segwitAddrEncode hrp 0 (hash160PubKey sha256 ripemd160 pubKey))"

definition P2WPKHScript ::
  "(nat list \<Rightarrow> nat list) \<Rightarrow> (nat list \<Rightarrow> nat list) \<Rightarrow> nat list \<Rightarrow> bech_error + nat list" where
  "P2WPKHScript sha256 ripemd160 pubKey =
     (if length pubKey \<noteq> 33 then Inl PubKeyLength
      else
        let h160 = take 20 (hash160PubKey sha256 ripemd160 pubKey) in
        Inr ([0x00, 0x14] @ h160 @ replicate (20 - length h160) 0))"

definition Hash160FromScript :: "nat list \<Rightarrow> bech_error + nat list" where
  "Hash160FromScript script =
     (if length script \<noteq> 22 \<or> script ! 0 \<noteq> 0x00 \<or> script ! 1 \<noteq> 0x14 then Inl NotP2WPKHScript
      else Inr (drop 2 script))"

section \<open>The checksum\<close>

text \<open>The register update is linear over exclusive or, apart from the value that enters.\<close>

definition poly_shift :: "32 word \<Rightarrow> 32 word" where
  "poly_shift s = polymod_step s 0"

lemma gen_bit_xor: "gen_bit (a XOR b) i = gen_bit a i XOR gen_bit b i"
  by (simp add: gen_bit_def bit_xor_iff)

lemmas xor_ac = xor.assoc xor.commute xor.left_commute

lemma polymod_step_shift: "polymod_step s v = poly_shift s XOR of_nat v"
  by (simp add: poly_shift_def polymod_step_def Let_def xor_ac)

lemma mask_xor: "(a XOR b) AND m = (a AND m) XOR (b AND (m :: 32 word))"
  by (rule bit_word_eqI) (auto simp: bit_and_iff bit_xor_iff)

lemma poly_shift_xor: "poly_shift (a XOR b) = poly_shift a XOR poly_shift b"
  by (simp add: poly_shift_def polymod_step_def Let_def mask_xor drop_bit_xor push_bit_xor gen_bit_xor xor_ac)

lemma mask25: "(s :: 32 word) AND 0x1ffffff = take_bit 25 s"
  by (simp add: take_bit_eq_mask mask_eq_exp_minus_1)

lemma and31: "(s :: 32 word) AND 31 = take_bit 5 s"
  by (simp add: take_bit_eq_mask mask_eq_exp_minus_1)

lemma poly_shift_small:
  assumes "drop_bit 25 s = 0"
  shows "poly_shift s = push_bit 5 s"
proof -
  have "take_bit 25 s = s" using assms bits_ident [of 25 s] by simp
  then show ?thesis using assms by (simp add: poly_shift_def polymod_step_def Let_def mask25 gen_bit_def)
qed

lemma group_small: "j \<le> 4 \<Longrightarrow> drop_bit 25 (push_bit (5 * j) (take_bit 5 (x :: 32 word))) = 0"
  by (rule bit_word_eqI) (auto simp: bit_drop_bit_eq bit_push_bit_iff bit_take_bit_iff)

lemma poly_shift_group: "j \<le> 4 \<Longrightarrow> poly_shift (push_bit (5 * j) (take_bit 5 x)) = push_bit (5 * Suc j) (take_bit 5 x)"
  by (simp add: poly_shift_small group_small push_bit_push_bit)

lemma gens_small: "drop_bit 30 (gen_bit b i) = 0" if "i < 5"
proof -
  have "i = 0 \<or> i = 1 \<or> i = 2 \<or> i = 3 \<or> i = 4" using that by linarith
  then show ?thesis by (auto simp: gen_bit_def bech32Generator_def)
qed

lemma poly_shift_30: "drop_bit 30 (poly_shift s) = 0"
proof -
  have "drop_bit 30 (push_bit 5 (take_bit 25 s)) = 0"
    by (rule bit_word_eqI) (auto simp: bit_drop_bit_eq bit_push_bit_iff bit_take_bit_iff)
  then show ?thesis
    by (simp add: poly_shift_def polymod_step_def Let_def mask25 drop_bit_xor gens_small)
qed

lemma split_group: "(m :: 32 word) = push_bit 5 (drop_bit 5 m) XOR take_bit 5 m"
  by (rule bit_word_eqI) (auto simp: bit_drop_bit_eq bit_push_bit_iff bit_take_bit_iff bit_xor_iff)

lemma groups_recombine:
  assumes "drop_bit 30 (m :: 32 word) = 0"
  shows "push_bit 25 (take_bit 5 (drop_bit 25 m)) XOR push_bit 20 (take_bit 5 (drop_bit 20 m)) XOR
    push_bit 15 (take_bit 5 (drop_bit 15 m)) XOR push_bit 10 (take_bit 5 (drop_bit 10 m)) XOR
    push_bit 5 (take_bit 5 (drop_bit 5 m)) XOR take_bit 5 m = m"
proof -
  have top: "take_bit 5 (drop_bit 25 m) = drop_bit 25 m"
    using split_group [of "drop_bit 25 m"] assms by (simp add: drop_bit_drop_bit)
  have d: "drop_bit (5 * k) m = push_bit 5 (drop_bit (5 * Suc k) m) XOR take_bit 5 (drop_bit (5 * k) m)" for k
    using split_group [of "drop_bit (5 * k) m"] by (simp add: drop_bit_drop_bit add.commute)
  have d4: "drop_bit 20 m = push_bit 5 (drop_bit 25 m) XOR take_bit 5 (drop_bit 20 m)" using d [of 4] by simp
  have d3: "drop_bit 15 m = push_bit 5 (drop_bit 20 m) XOR take_bit 5 (drop_bit 15 m)" using d [of 3] by simp
  have d2: "drop_bit 10 m = push_bit 5 (drop_bit 15 m) XOR take_bit 5 (drop_bit 10 m)" using d [of 2] by simp
  have d1: "drop_bit 5 m = push_bit 5 (drop_bit 10 m) XOR take_bit 5 (drop_bit 5 m)" using d [of 1] by simp
  have "m = push_bit 5 (drop_bit 5 m) XOR take_bit 5 m" by (rule split_group)
  also have "push_bit 5 (drop_bit 5 m) = push_bit 10 (drop_bit 10 m) XOR push_bit 5 (take_bit 5 (drop_bit 5 m))"
    by (subst d1) (simp add: push_bit_xor push_bit_push_bit)
  also have "push_bit 10 (drop_bit 10 m) = push_bit 15 (drop_bit 15 m) XOR push_bit 10 (take_bit 5 (drop_bit 10 m))"
    by (subst d2) (simp add: push_bit_xor push_bit_push_bit)
  also have "push_bit 15 (drop_bit 15 m) = push_bit 20 (drop_bit 20 m) XOR push_bit 15 (take_bit 5 (drop_bit 15 m))"
    by (subst d3) (simp add: push_bit_xor push_bit_push_bit)
  also have "push_bit 20 (drop_bit 20 m) = push_bit 25 (drop_bit 25 m) XOR push_bit 20 (take_bit 5 (drop_bit 20 m))"
    by (subst d4) (simp add: push_bit_xor push_bit_push_bit)
  finally show ?thesis by (simp add: top xor.assoc)
qed

lemma checksum_absorbed:
  fixes s :: "32 word"
  defines "m \<equiv> foldl polymod_step s [0, 0, 0, 0, 0, 0] XOR 1"
  shows "foldl polymod_step s (checksum_of m) = 1"
proof -
  let ?L = poly_shift
  let ?c = "\<lambda>k. take_bit 5 (drop_bit (5 * k) m)"
  have m: "m = ?L (?L (?L (?L (?L (?L s))))) XOR 1" by (simp add: m_def polymod_step_shift)
  have drop30: "drop_bit 30 m = 0" unfolding m by (simp add: drop_bit_xor poly_shift_30)
  have p0: "?L (take_bit 5 x) = push_bit 5 (take_bit 5 x)" for x using poly_shift_group [of 0 x] by simp
  have p: "?L (push_bit 5 (take_bit 5 x)) = push_bit 10 (take_bit 5 x)"
      "?L (push_bit 10 (take_bit 5 x)) = push_bit 15 (take_bit 5 x)"
      "?L (push_bit 15 (take_bit 5 x)) = push_bit 20 (take_bit 5 x)"
      "?L (push_bit 20 (take_bit 5 x)) = push_bit 25 (take_bit 5 x)" for x
    using poly_shift_group [of 1 x] poly_shift_group [of 2 x] poly_shift_group [of 3 x] poly_shift_group [of 4 x]
    by simp_all
  have "checksum_of m = map (\<lambda>k. unat (?c k)) [5, 4, 3, 2, 1, 0]"
    by (simp add: checksum_of_def and31)
  then have "foldl polymod_step s (checksum_of m) =
      ?L (?L (?L (?L (?L (?L s))))) XOR
      (push_bit 25 (?c 5) XOR push_bit 20 (?c 4) XOR push_bit 15 (?c 3) XOR push_bit 10 (?c 2) XOR
       push_bit 5 (?c 1) XOR ?c 0)"
    by (simp only: list.map foldl.simps polymod_step_shift of_nat_unat poly_shift_xor)
      (simp add: p0 p xor.assoc)
  also have "\<dots> = ?L (?L (?L (?L (?L (?L s))))) XOR m"
    using groups_recombine [OF drop30] by simp
  also have "\<dots> = 1" unfolding m by (simp add: xor.assoc [symmetric])
  finally show ?thesis .
qed

section \<open>Regrouping of bits\<close>

fun bits_of :: "nat \<Rightarrow> nat \<Rightarrow> bool list" where
  "bits_of 0 v = []"
| "bits_of (Suc w) v = bits_of w (v div 2) @ [odd v]"

lemma length_bits_of [simp]: "length (bits_of w v) = w"
  by (induction w arbitrary: v) simp_all

lemma bits_of_append: "bits_of (a + b) v = bits_of a (v div 2 ^ b) @ bits_of b v"
  by (induction b arbitrary: v) (simp_all add: div_mult2_eq)

lemma bits_of_mod: "w \<le> k \<Longrightarrow> bits_of w (v mod 2 ^ k) = bits_of w v"
proof (induction w arbitrary: k v)
  case (Suc w)
  then obtain j where k: "k = Suc j" "w \<le> j" by (cases k) auto
  have "v mod 2 ^ k div 2 = (v div 2) mod 2 ^ j" by (simp add: k mod_mult2_eq)
  moreover have "odd (v mod 2 ^ k) = odd v" by (simp add: k mod_mult2_eq)
  ultimately show ?case using Suc.IH [OF k(2)] by simp
qed simp

lemma bits_of_inj: "v < 2 ^ w \<Longrightarrow> u < 2 ^ w \<Longrightarrow> bits_of w v = bits_of w u \<Longrightarrow> v = u"
proof (induction w arbitrary: v u)
  case (Suc w)
  then have "v div 2 = u div 2" "odd v = odd u" by auto
  then show ?case by (metis div_mod_decomp odd_iff_mod_2_eq_one even_iff_mod_2_eq_zero)
qed simp

lemma bits_of_zero: "bits_of w 0 = replicate w False"
  by (induction w) (simp_all add: replicate_append_same)

lemma bits_of_shift: "bits_of (a + b) (v * 2 ^ b) = bits_of a v @ replicate b False"
proof -
  have "bits_of b (v * 2 ^ b) = bits_of b (v * 2 ^ b mod 2 ^ b)" by (rule bits_of_mod [symmetric]) simp
  also have "\<dots> = replicate b False" by (simp add: bits_of_zero)
  finally show ?thesis by (simp add: bits_of_append)
qed

definition bit_stream :: "nat \<Rightarrow> nat list \<Rightarrow> bool list" where
  "bit_stream w vs = concat (map (bits_of w) vs)"

lemma bit_stream_simps [simp]:
  "bit_stream w [] = []" "bit_stream w (v # vs) = bits_of w v @ bit_stream w vs"
  "bit_stream w (us @ vs) = bit_stream w us @ bit_stream w vs"
  by (simp_all add: bit_stream_def)

lemma length_bit_stream [simp]: "length (bit_stream w vs) = w * length vs"
  by (induction vs) simp_all

lemma bit_stream_inj:
  "bit_stream w us = bit_stream w vs \<Longrightarrow> length us = length vs \<Longrightarrow> \<forall>v\<in>set us \<union> set vs. v < 2 ^ w \<Longrightarrow> us = vs"
proof (induction us arbitrary: vs)
  case (Cons u us)
  then obtain v vs' where vs: "vs = v # vs'" by (cases vs) auto
  with Cons.prems(1) have "bits_of w u = bits_of w v" "bit_stream w us = bit_stream w vs'" by simp_all
  with Cons vs bits_of_inj [of u w v] show ?case by simp
qed simp

lemma and_mask_nat: "(x :: nat) AND (2 ^ k - 1) = x mod 2 ^ k"
  unfolding mask_eq_exp_minus_1 [symmetric] take_bit_eq_mask [symmetric] by (rule take_bit_eq_mod)

lemma emit_groups_spec:
  assumes "0 < t" "t \<le> 8"
  shows "\<exists>bits' gs. emit_groups acc t bits ret = (bits', ret @ gs) \<and> bits' < t \<and> (\<forall>g\<in>set gs. g < 2 ^ t) \<and>
    bit_stream t gs @ bits_of bits' acc = bits_of bits acc"
  using assms
proof (induction acc t bits ret rule: emit_groups.induct)
  case (1 acc t bits ret)
  show ?case
  proof (cases "t \<le> bits")
    case False
    then show ?thesis by (subst emit_groups.simps) simp
  next
    case True
    let ?g = "(drop_bit (bits - t) acc AND (2 ^ t - 1)) mod 256"
    have pow: "(2::nat) ^ t \<le> 256" using power_increasing [of t 8 "2::nat"] "1.prems"(2) by simp
    have g: "?g = acc div 2 ^ (bits - t) mod 2 ^ t"
    proof -
      have "acc div 2 ^ (bits - t) mod 2 ^ t < 2 ^ t" by simp
      with pow have "acc div 2 ^ (bits - t) mod 2 ^ t < 256" by linarith
      then show ?thesis unfolding and_mask_nat drop_bit_eq_div by simp
    qed
    from "1.IH" True "1.prems" obtain bits' gs where
        e: "emit_groups acc t (bits - t) (ret @ [?g]) = (bits', (ret @ [?g]) @ gs)" "bits' < t" "\<forall>g\<in>set gs. g < 2 ^ t"
        "bit_stream t gs @ bits_of bits' acc = bits_of (bits - t) acc"
      by blast
    have "bits_of bits acc = bits_of t (acc div 2 ^ (bits - t)) @ bits_of (bits - t) acc"
      using bits_of_append [of t "bits - t" acc] True by simp
    also have "bits_of t (acc div 2 ^ (bits - t)) = bits_of t ?g" unfolding g by (simp add: bits_of_mod)
    finally have "bit_stream t (?g # gs) @ bits_of bits' acc = bits_of bits acc" using e(4) by simp
    moreover have "emit_groups acc t bits ret = (bits', ret @ ?g # gs)"
      using True "1.prems"(1) e(1) by (subst emit_groups.simps) simp
    moreover have "\<forall>x\<in>set (?g # gs). x < 2 ^ t" using e(3) g by simp
    ultimately show ?thesis using e(2) by blast
  qed
qed

lemma push_or: "v < 2 ^ f \<Longrightarrow> (push_bit f acc OR v) AND (2 ^ k - 1) = (acc * 2 ^ f + v) mod (2 ^ k :: nat)"
proof -
  assume "v < 2 ^ f"
  then have "take_bit f v = v" by (simp add: take_bit_nat_eq_self)
  then have "push_bit f acc AND v = 0"
    by (metis (no_types, opaque_lifting) bit_and_iff bit_eq_iff bit_push_bit_iff bit_take_bit_iff bit_0_eq bot_fun_def
        bot_bool_def not_le)
  then have "push_bit f acc OR v = push_bit f acc + v" by (simp add: disjunctive_add_eq_or)
  then show ?thesis unfolding and_mask_nat by (simp add: push_bit_eq_mult)
qed

lemma convert_loop_spec:
  assumes "0 < t" "t \<le> 8" "0 < f" "\<forall>v\<in>set vs. v < 2 ^ f" "bits < t" "\<forall>g\<in>set ret. g < 2 ^ t"
  shows "\<exists>acc' bits' ret'. convert_loop f t acc bits ret vs = Inr (acc', bits', ret') \<and> bits' < t \<and>
    (\<forall>g\<in>set ret'. g < 2 ^ t) \<and>
    bit_stream t ret' @ bits_of bits' acc' = bit_stream t ret @ bits_of bits acc @ bit_stream f vs"
  using assms
proof (induction vs arbitrary: acc bits ret)
  case Nil
  then show ?case by simp
next
  case (Cons v vs)
  let ?acc = "(push_bit f acc OR v) AND (2 ^ (f + t - 1) - 1)"
  have v: "v < 2 ^ f" "drop_bit f v = 0" using Cons.prems(4) by (simp_all add: drop_bit_eq_div)
  have acc: "?acc = (acc * 2 ^ f + v) mod 2 ^ (f + t - 1)" using push_or [OF v(1)] by simp
  have "bits_of (bits + f) ?acc = bits_of (bits + f) (acc * 2 ^ f + v)"
    unfolding acc using Cons.prems(5) by (intro bits_of_mod) simp
  also have "\<dots> = bits_of bits ((acc * 2 ^ f + v) div 2 ^ f) @ bits_of f (acc * 2 ^ f + v)"
    by (rule bits_of_append)
  also have "(acc * 2 ^ f + v) div 2 ^ f = acc" using v(1) by simp
  also have "bits_of f (acc * 2 ^ f + v) = bits_of f ((acc * 2 ^ f + v) mod 2 ^ f)"
    by (rule bits_of_mod [symmetric]) simp
  also have "\<dots> = bits_of f v" using v(1) by simp
  finally have str: "bits_of (bits + f) ?acc = bits_of bits acc @ bits_of f v" .
  obtain bits1 gs where e: "emit_groups ?acc t (bits + f) ret = (bits1, ret @ gs)" "bits1 < t" "\<forall>g\<in>set gs. g < 2 ^ t"
      "bit_stream t gs @ bits_of bits1 ?acc = bits_of (bits + f) ?acc"
    using emit_groups_spec [OF Cons.prems(1,2)] by blast
  have step: "convert_loop f t acc bits ret (v # vs) = convert_loop f t ?acc bits1 (ret @ gs) vs"
    by (simp add: v(2) e(1) [simplified] Let_def)
  have vs_ok: "\<forall>v\<in>set vs. v < 2 ^ f" using Cons.prems(4) by simp
  have gs_ok: "\<forall>g\<in>set (ret @ gs). g < 2 ^ t" using Cons.prems(6) e(3) by auto
  obtain acc' bits' ret' where "convert_loop f t ?acc bits1 (ret @ gs) vs = Inr (acc', bits', ret')" "bits' < t"
      "\<forall>g\<in>set ret'. g < 2 ^ t"
      "bit_stream t ret' @ bits_of bits' acc' = bit_stream t (ret @ gs) @ bits_of bits1 ?acc @ bit_stream f vs"
    using Cons.IH [OF Cons.prems(1-3) vs_ok e(2) gs_ok, of ?acc] by blast
  with step e(4) str show ?case by (metis append.assoc bit_stream_simps(2,3))
qed

lemma convertBits_pad:
  assumes "0 < t" "t \<le> 8" "0 < f" "\<forall>v\<in>set vs. v < 2 ^ f"
  shows "\<exists>out z. convertBits vs f t True = Inr out \<and> (\<forall>g\<in>set out. g < 2 ^ t) \<and> z < t \<and>
    bit_stream t out = bit_stream f vs @ replicate z False"
proof -
  obtain acc bits ret where loop: "convert_loop f t 0 0 [] vs = Inr (acc, bits, ret)" "bits < t"
      "\<forall>g\<in>set ret. g < 2 ^ t" "bit_stream t ret @ bits_of bits acc = bit_stream f vs"
    using convert_loop_spec [OF assms, of 0 "[]" 0] assms(1) by auto
  show ?thesis
  proof (cases "bits = 0")
    case True
    with loop assms(1) show ?thesis by (intro exI [of _ ret] exI [of _ 0]) (simp add: convertBits_def Let_def)
  next
    case False
    let ?r = "(push_bit (t - bits) acc AND (2 ^ t - 1)) mod 256"
    have "(2::nat) ^ t \<le> 256" using power_increasing [of t 8 "2::nat"] assms(2) by simp
    moreover have "acc * 2 ^ (t - bits) mod 2 ^ t < 2 ^ t" by simp
    ultimately have "acc * 2 ^ (t - bits) mod 2 ^ t < 256" by linarith
    then have r: "?r = acc * 2 ^ (t - bits) mod 2 ^ t" unfolding and_mask_nat push_bit_eq_mult by simp
    have "bits_of t ?r = bits_of (bits + (t - bits)) (acc * 2 ^ (t - bits))"
      unfolding r using loop(2) by (simp add: bits_of_mod)
    then have "bits_of t ?r = bits_of bits acc @ replicate (t - bits) False" by (simp only: bits_of_shift)
    moreover have "?r < 2 ^ t" unfolding r by simp
    ultimately show ?thesis using loop False
      by (intro exI [of _ "ret @ [?r]"] exI [of _ "t - bits"]) (auto simp: convertBits_def Let_def)
  qed
qed

lemma convertBits_roundtrip:
  assumes "\<forall>v\<in>set vs. v < 256"
  shows "\<exists>out. convertBits vs 8 5 True = Inr out \<and> (\<forall>g\<in>set out. g < 32) \<and> convertBits out 5 8 False = Inr vs"
proof -
  obtain out z where out: "convertBits vs 8 5 True = Inr out" "\<forall>g\<in>set out. g < 2 ^ 5" "z < 5"
      "bit_stream 5 out = bit_stream 8 vs @ replicate z False"
    using convertBits_pad [of 5 8 vs] assms by auto
  obtain acc bits ret where loop: "convert_loop 5 8 0 0 [] out = Inr (acc, bits, ret)" "bits < 8"
      "\<forall>g\<in>set ret. g < 2 ^ 8" "bit_stream 8 ret @ bits_of bits acc = bit_stream 5 out"
    using convert_loop_spec [of 8 5 out 0 "[]" 0] out(2) by auto
  have eq: "bit_stream 8 ret @ bits_of bits acc = bit_stream 8 vs @ replicate z False" using loop(4) out(4) by simp
  then have "length (bit_stream 8 ret @ bits_of bits acc) = length (bit_stream 8 vs @ replicate z False)" by simp
  then have "8 * length ret + bits = 8 * length vs + z" by simp
  with loop(2) out(3) have len: "length ret = length vs" "bits = z" by presburger+
  with eq have "bit_stream 8 ret = bit_stream 8 vs" "bits_of z acc = replicate z False" by simp_all
  moreover from this(1) have "ret = vs" by (rule bit_stream_inj) (use len loop(3) assms in auto)
  moreover have "push_bit (8 - z) acc AND (2 ^ 8 - 1) = 0"
  proof -
    have "bits_of z (acc mod 2 ^ z) = bits_of z 0" using \<open>bits_of z acc = replicate z False\<close>
      by (simp add: bits_of_mod bits_of_zero)
    then have "acc mod 2 ^ z = 0" by (intro bits_of_inj [of _ z]) simp_all
    then obtain k where "acc = 2 ^ z * k" by auto
    moreover have "(2::nat) ^ z * 2 ^ (8 - z) = 2 ^ 8" using out(3) by (simp flip: power_add)
    ultimately have "acc * 2 ^ (8 - z) = k * 2 ^ 8" by (metis mult.assoc mult.commute)
    then show ?thesis unfolding and_mask_nat push_bit_eq_mult by simp
  qed
  ultimately show ?thesis using out loop(1) len(2)
    by (intro exI [of _ out]) (simp add: convertBits_def Let_def)
qed

section \<open>Addresses\<close>

lemma charset: "length bech32Charset = 32" "distinct bech32Charset" "CHR ''1'' \<notin> set bech32Charset"
    "map lower_char bech32Charset = bech32Charset"
  unfolding bech32Charset_def by (simp_all add: eval_nat_numeral lower_char_def)

lemma charset_values_map: "\<forall>v\<in>set vs. v < 32 \<Longrightarrow> charset_values (map ((!) bech32Charset) vs) = Inr vs"
  by (induction vs) (simp_all add: index_of_nth charset)

lemma charset_map: "\<forall>v\<in>set vs. v < 32 \<Longrightarrow> CHR ''1'' \<notin> set (map ((!) bech32Charset) vs) \<and>
    to_lower (map ((!) bech32Charset) vs) = map ((!) bech32Charset) vs"
proof (induction vs)
  case (Cons v vs)
  then have v: "v < length bech32Charset" by (simp add: charset(1))
  then have "bech32Charset ! v \<noteq> CHR ''1''" using charset(3) by (metis nth_mem)
  moreover have "lower_char (bech32Charset ! v) = bech32Charset ! v" using v charset(4) by (metis nth_map)
  ultimately show ?case using Cons by (auto simp: to_lower_def)
qed (simp add: to_lower_def)

lemma split_last_one_append: "CHR ''1'' \<notin> set t \<Longrightarrow> split_last_one (h @ ''1'' @ t) = Some (h, t)"
proof -
  assume t: "CHR ''1'' \<notin> set t"
  have r: "rev (h @ ''1'' @ t) = rev t @ CHR ''1'' # rev h" by simp
  have all: "\<forall>c\<in>set (rev t). c \<noteq> CHR ''1''" using t by auto
  have "takeWhile (\<lambda>c. c \<noteq> CHR ''1'') (rev (h @ ''1'' @ t)) = rev t"
      "dropWhile (\<lambda>c. c \<noteq> CHR ''1'') (rev (h @ ''1'' @ t)) = CHR ''1'' # rev h"
    unfolding r by (rule leading_split [OF all]; simp)+
  then show ?thesis by (simp only: split_last_one_def) simp
qed

lemma checksum_of_small: "v \<in> set (checksum_of m) \<Longrightarrow> v < 32"
proof -
  assume "v \<in> set (checksum_of m)"
  then obtain x :: "32 word" where "v = unat (take_bit 5 x)" by (auto simp: checksum_of_def and31)
  then have "v = take_bit 5 (unat x)" by (simp add: unsigned_take_bit_eq)
  then show ?thesis using take_bit_nat_less_exp [of 5 "unat x"] by simp
qed

lemma length_checksum_of: "length (checksum_of m) = 6"
  by (simp add: checksum_of_def)

lemma polymod_append: "bech32Polymod (xs @ ys) = foldl polymod_step (bech32Polymod xs) ys"
  by (simp add: bech32Polymod_def)

lemma hrp_expand_lower: "bech32HRPExpand (to_lower hrp) = bech32HRPExpand hrp"
  by (simp add: bech32HRPExpand_def)

lemma bech32_roundtrip:
  assumes "\<forall>v\<in>set data. v < 32" "hrp \<noteq> []"
  shows "\<exists>s. bech32Encode hrp data = Inr s \<and> bech32Decode s = Inr (to_lower hrp, data)"
proof -
  let ?m = "bech32Polymod (bech32HRPExpand hrp @ data @ [0, 0, 0, 0, 0, 0]) XOR 1"
  let ?payload = "data @ checksum_of ?m"
  let ?rest = "map ((!) bech32Charset) ?payload"
  let ?s = "to_lower hrp @ ''1'' @ ?rest"
  have small: "\<forall>v\<in>set ?payload. v < 32" using assms(1) checksum_of_small by auto
  then have enc: "bech32Encode hrp data = Inr ?s"
    by (simp add: bech32Encode_def Let_def list_all_iff charset(1))
  have one: "lower_char CHR ''1'' = CHR ''1''" by (simp add: lower_char_def)
  have low: "to_lower ?s = ?s" using charset_map [OF small] one by (simp add: to_lower_def comp_def)
  have sp: "split_last_one ?s = Some (to_lower hrp, ?rest)"
    by (rule split_last_one_append) (use charset_map [OF small] in blast)
  have "bech32Polymod (bech32HRPExpand (to_lower hrp) @ ?payload) = 1"
    using checksum_absorbed [of "bech32Polymod (bech32HRPExpand hrp @ data)"]
    by (simp add: hrp_expand_lower polymod_append)
  then have "bech32Decode ?s = Inr (to_lower hrp, data)"
    using assms(2)
    by (simp only: bech32Decode_def low Let_def sp option.case prod.case
        charset_values_map [OF small] bind_result_simps)
      (simp add: length_checksum_of to_lower_def)
  with enc show ?thesis by blast
qed

definition program_ok :: "int \<Rightarrow> nat list \<Rightarrow> bool" where
  "program_ok version program \<longleftrightarrow> 0 \<le> version \<and> version \<le> 16 \<and> list_all (\<lambda>b. b < 256) program \<and>
     2 \<le> length program \<and> length program \<le> 40 \<and>
     (version = 0 \<longrightarrow> length program = 20 \<or> length program = 32)"

lemma segwit_decode_encode:
  assumes "program_ok version program" "hrp \<noteq> []"
  shows "\<exists>addr. segwitAddrEncode hrp version program = Inr addr \<and> segwitAddrDecode hrp addr = Inr (version, program)"
proof -
  have bytes: "\<forall>v\<in>set program. v < 256" using assms(1) by (simp add: program_ok_def list_all_iff)
  obtain out where out: "convertBits program 8 5 True = Inr out" "\<forall>g\<in>set out. g < 32" "convertBits out 5 8 False = Inr program"
    using convertBits_roundtrip [OF bytes] by blast
  have v: "0 \<le> version" "version \<le> 16" using assms(1) by (simp_all add: program_ok_def)
  then have "\<forall>g\<in>set (nat version # out). g < 32" using out(2) by auto
  from bech32_roundtrip [OF this assms(2)] obtain s where
      "bech32Encode hrp (nat version # out) = Inr s" "bech32Decode s = Inr (to_lower hrp, nat version # out)"
    by blast
  with out v assms(1) show ?thesis
    by (auto simp: segwitAddrEncode_def segwitAddrDecode_def program_ok_def nat_eq_iff)
qed

text \<open>
  C33. SegWit addresses round trip: for every witness version from 0 to 16 and every program that
  version allows (2 to 40 bytes; 20 or 32 bytes for version 0), with any human-readable part,
  encoding succeeds and decoding the address returns the version and the program, checksum and
  padding included.
\<close>

theorem segwit_address_roundtrip:
  assumes "program_ok version program" "hrp \<noteq> []"
  shows "\<exists>addr. segwitAddrEncode hrp version program = Inr addr \<and>
    segwitAddrDecode hrp addr = Inr (version, program) \<and> ValidateAddress addr hrp = None"
  using segwit_decode_encode [OF assms] by (auto simp: ValidateAddress_def)

theorem segwit_address_roundtrip_witness:
  "\<exists>addr. segwitAddrEncode ''bc'' 0 (replicate 20 255) = Inr addr \<and>
     segwitAddrDecode ''bc'' addr = Inr (0, replicate 20 255)"
proof -
  have "program_ok 0 (replicate 20 255)" by (simp add: program_ok_def list_all_iff)
  from segwit_address_roundtrip [OF this, of "''bc''"] show ?thesis by auto
qed

text \<open>The same for the addresses and scripts of public keys, for hashes of 20 bytes.\<close>

lemma P2WPKH_address_script:
  assumes "length pubKey = 33" "hrp \<noteq> []" "h = hash160PubKey sha256 ripemd160 pubKey"
    and "length h = 20" "list_all (\<lambda>b. b < 256) h"
  shows "\<exists>addr script. P2WPKHAddress sha256 ripemd160 pubKey hrp = Inr addr \<and> Hash160FromAddress addr hrp = Inr h \<and>
    P2WPKHScript sha256 ripemd160 pubKey = Inr script \<and> Hash160FromScript script = Inr h"
proof -
  have "program_ok 0 h" using assms(4,5) by (simp add: program_ok_def)
  from segwit_decode_encode [OF this assms(2)] obtain addr where
      "segwitAddrEncode hrp 0 h = Inr addr" "segwitAddrDecode hrp addr = Inr (0, h)"
    by blast
  then show ?thesis using assms
    by (auto simp: P2WPKHAddress_def Hash160FromAddress_def P2WPKHScript_def Hash160FromScript_def)
qed

end
