(* ===== verification/Coin_Select.thy ===== *)
theory Coin_Select
  imports Evm_Types "HOL-Library.Multiset"
begin

text \<open>
  Selection of the inputs of a Bitcoin withdrawal, \<open>internal/bitcoin/coin_select.go\<close>. All
  arithmetic is on \<open>int64\<close> and wraps; the theorems give bounds under which it does not.
  \<open>sort.Slice\<close> does not promise the order of equal values, so the sorting function is an
  argument and the theorems hold for every permutation it may return.
\<close>

section \<open>The code\<close>

record UTXO =
  utxo_ID :: string
  utxo_Network :: string
  utxo_UserID :: string
  WalletAddressID :: string
  utxo_Address :: string
  Txid :: string
  Vout :: "32 word"
  ValueSats :: int64
  ScriptPubKey :: string
  BlockHeight :: int64
  Confirmations :: int64
  utxo_Status :: string
  SpentByTxid :: string
  DetectedAt :: go_time
  ConfirmedAt :: "go_time option"
  SpentAt :: "go_time option"
  CreatedAt :: go_time
  UpdatedAt :: go_time

datatype coin_error = ErrNoUTXOs | AmountNotPositive | ErrInsufficientFunds int64 int64 int64

definition txOverheadBase :: int64 where "txOverheadBase = 10"
definition txWitnessOverhead :: int64 where "txWitnessOverhead = 2"
definition p2wpkhInputBase :: int64 where "p2wpkhInputBase = 41"
definition p2wpkhInputWit :: int64 where "p2wpkhInputWit = 108"
definition p2wpkhOutputSize :: int64 where "p2wpkhOutputSize = 31"

lemmas size_consts = txOverheadBase_def txWitnessOverhead_def p2wpkhInputBase_def p2wpkhInputWit_def
  p2wpkhOutputSize_def

definition EstimateVSize :: "int64 \<Rightarrow> int64 \<Rightarrow> int64" where
  "EstimateVSize nInputs nOutputs =
     (let baseSize = i64_add (i64_add txOverheadBase (i64_mul nInputs p2wpkhInputBase))
                       (i64_mul nOutputs p2wpkhOutputSize);
          witnessSize = i64_add txWitnessOverhead (i64_mul nInputs p2wpkhInputWit);
          weight = i64_add (i64_mul baseSize 4) witnessSize in
      i64_quot (i64_add weight 3) 4)"

definition fee_for :: "int64 \<Rightarrow> nat \<Rightarrow> int64 \<Rightarrow> int64" where
  "fee_for feeRateSatVB n nOut = i64_mul (EstimateVSize (int n) nOut) feeRateSatVB"

text \<open>The body of the loop once \<open>u\<close> has been chosen: the result, when it returns.\<close>

definition try_select ::
  "int64 \<Rightarrow> int64 \<Rightarrow> int64 \<Rightarrow> nat \<Rightarrow> int64 \<Rightarrow> (int64 \<times> int64) option" where
  "try_select amountSats feeRateSatVB dustLimitSats n accumulated =
     (let fee = fee_for feeRateSatVB n 2;
          total = i64_add amountSats fee;
          feeNoChange = fee_for feeRateSatVB n 1 in
      if i64_add amountSats feeNoChange \<le> accumulated \<and>
         i64_sub accumulated (i64_add amountSats feeNoChange) < dustLimitSats
      then Some (0, i64_sub accumulated amountSats)
      else if total \<le> accumulated then
        let change = i64_sub accumulated total in
        if 0 < change \<and> change < dustLimitSats then
          let fee = fee_for feeRateSatVB n 1; total = i64_add amountSats fee in
          if total \<le> accumulated then
            let change = i64_sub accumulated total in
            if change < dustLimitSats then Some (0, i64_sub accumulated amountSats)
            else Some (change, fee)
          else Some (change, fee)
        else Some (change, fee)
      else None)"

fun select_loop ::
  "int64 \<Rightarrow> int64 \<Rightarrow> int64 \<Rightarrow> UTXO list \<Rightarrow> int64 \<Rightarrow> UTXO list \<Rightarrow>
   (UTXO list \<times> int64 \<times> int64) option \<times> int64" where
  "select_loop amount rate dust chosen accumulated [] = (None, accumulated)"
| "select_loop amount rate dust chosen accumulated (u # us) =
     (let chosen = chosen @ [u]; accumulated = i64_add accumulated (ValueSats u) in
      case try_select amount rate dust (length chosen) accumulated of
        Some (change, fee) \<Rightarrow> (Some (chosen, change, fee), accumulated)
      | None \<Rightarrow> select_loop amount rate dust chosen accumulated us)"

definition SelectUTXOs ::
  "(UTXO list \<Rightarrow> UTXO list) \<Rightarrow> UTXO list \<Rightarrow> int64 \<Rightarrow> int64 \<Rightarrow> int64 \<Rightarrow>
   coin_error + UTXO list \<times> int64 \<times> int64" where
  "SelectUTXOs sort_desc utxos amountSats feeRateSatVB dustLimitSats =
     (if utxos = [] then Inl ErrNoUTXOs
      else if amountSats \<le> 0 then Inl AmountNotPositive
      else
        let ordered = sort_desc utxos in
        case select_loop amountSats feeRateSatVB dustLimitSats [] 0 ordered of
          (Some r, _) \<Rightarrow> Inr r
        | (None, accumulated) \<Rightarrow>
            let fee = fee_for feeRateSatVB (length ordered) 2;
                need = i64_add amountSats fee in
            Inl (ErrInsufficientFunds accumulated need fee))"

section \<open>Bounds\<close>

text \<open>
  Up to about a million inputs and a million satoshis per virtual byte, and amounts up to
  \<open>2 ^ 60\<close> satoshis (the whole supply is below \<open>2 ^ 51\<close>), nothing wraps.
\<close>

definition vsize :: "int \<Rightarrow> int \<Rightarrow> int" where
  "vsize n m = (4 * (10 + 41 * n + 31 * m) + 2 + 108 * n + 3) div 4"

lemma in_int64_small: "- (2 ^ 62) \<le> z \<Longrightarrow> z \<le> 2 ^ 62 \<Longrightarrow> in_int64 z"
  by (simp add: in_int64_def min_int64_def max_int64_def)

lemma EstimateVSize_exact:
  assumes "0 \<le> n" "n \<le> 2 ^ 20" "0 \<le> m" "m \<le> 2"
  shows "EstimateVSize n m = vsize n m"
proof -
  have "in_int64 (n * 41)" "in_int64 (n * 108)" "in_int64 (m * 31)" "in_int64 (10 + n * 41)"
    "in_int64 (10 + n * 41 + m * 31)" "in_int64 ((10 + n * 41 + m * 31) * 4)" "in_int64 (2 + n * 108)"
    "in_int64 ((10 + n * 41 + m * 31) * 4 + (2 + n * 108))"
    "in_int64 ((10 + n * 41 + m * 31) * 4 + (2 + n * 108) + 3)"
    using assms by (auto intro!: in_int64_small)
  with assms show ?thesis
    by (simp add: EstimateVSize_def size_consts i64_add_def i64_mul_def i64_quot_nonneg vsize_def algebra_simps Let_def)
qed

lemma vsize_bounds: "0 \<le> n \<Longrightarrow> n \<le> 2 ^ 20 \<Longrightarrow> 0 \<le> m \<Longrightarrow> m \<le> 2 \<Longrightarrow> 0 < vsize n m \<and> vsize n m \<le> 2 ^ 27"
  unfolding vsize_def by simp linarith

lemma vsize_outputs: "vsize n 2 = vsize n 1 + 31"
  unfolding vsize_def by simp

definition amounts_ok :: "int \<Rightarrow> int \<Rightarrow> int \<Rightarrow> bool" where
  "amounts_ok amount rate dust \<longleftrightarrow> 0 < amount \<and> amount \<le> 2 ^ 60 \<and> 0 \<le> rate \<and> rate \<le> 2 ^ 20 \<and>
     0 \<le> dust \<and> dust \<le> 2 ^ 60"

lemma fee_for_exact:
  assumes "int n \<le> 2 ^ 20" "m = 1 \<or> m = 2" "0 \<le> rate" "rate \<le> 2 ^ 20"
  shows "fee_for rate n m = vsize (int n) m * rate \<and> 0 \<le> vsize (int n) m * rate \<and> vsize (int n) m * rate \<le> 2 ^ 47"
proof -
  have v: "0 < vsize (int n) m" "vsize (int n) m \<le> 2 ^ 27" using vsize_bounds [of "int n" m] assms by auto
  then have "vsize (int n) m * rate \<le> 2 ^ 27 * 2 ^ 20" "0 \<le> vsize (int n) m * rate"
    using assms by (intro mult_mono mult_nonneg_nonneg; simp)+
  moreover from this have "in_int64 (vsize (int n) m * rate)" by (auto intro!: in_int64_small)
  moreover have "EstimateVSize (int n) m = vsize (int n) m" using assms by (auto intro: EstimateVSize_exact)
  ultimately show ?thesis by (simp add: fee_for_def i64_mul_def)
qed

section \<open>What a selection guarantees\<close>

text \<open>The possible results of the loop body, in exact arithmetic.\<close>

lemma try_select_cases:
  assumes ok: "amounts_ok amount rate dust" and n: "int n \<le> 2 ^ 20" and acc: "0 \<le> acc" "acc \<le> 2 ^ 60"
  defines "f1 \<equiv> vsize (int n) 1 * rate" and "f2 \<equiv> vsize (int n) 2 * rate"
  shows "try_select amount rate dust n acc =
    (if amount + f1 \<le> acc \<and> acc - (amount + f1) < dust then Some (0, acc - amount)
     else if amount + f2 \<le> acc then
       if 0 < acc - (amount + f2) \<and> acc - (amount + f2) < dust
       then Some (acc - (amount + f1), f1) else Some (acc - (amount + f2), f2)
     else None)"
proof -
  have a: "0 < amount" "amount \<le> 2 ^ 60" "0 \<le> rate" "rate \<le> 2 ^ 20" "0 \<le> dust" "dust \<le> 2 ^ 60"
    using ok by (simp_all add: amounts_ok_def)
  note f = fee_for_exact [OF n _ a(3,4)]
  have f1: "fee_for rate n 1 = f1" "0 \<le> f1" "f1 \<le> 2 ^ 47" using f [of 1] by (simp_all add: f1_def)
  have f2: "fee_for rate n 2 = f2" "0 \<le> f2" "f2 \<le> 2 ^ 47" using f [of 2] by (simp_all add: f2_def)
  have le: "f1 \<le> f2" using a(3) by (simp add: f1_def f2_def vsize_outputs algebra_simps)
  have w: "in_int64 (amount + f1)" "in_int64 (amount + f2)" "in_int64 (acc - amount)"
      "in_int64 (acc - (amount + f1))" "in_int64 (acc - (amount + f2))"
    using a f1 f2 acc by (auto intro!: in_int64_small)
  show ?thesis
    using w le by (simp add: try_select_def f1(1) f2(1) i64_add_def i64_sub_def Let_def)
qed

definition total_value :: "UTXO list \<Rightarrow> int" where
  "total_value us = sum_list (map ValueSats us)"

definition utxos_ok :: "UTXO list \<Rightarrow> bool" where
  "utxos_ok us \<longleftrightarrow> list_all (\<lambda>u. 0 \<le> ValueSats u) us \<and> total_value us \<le> 2 ^ 60 \<and> int (length us) \<le> 2 ^ 20"

text \<open>
  A selection of \<open>n\<close> inputs worth \<open>v\<close> is good: the value is split into amount, change and fee
  without loss, change is zero or above the dust limit, and the fee is at least the requested
  rate for a transaction with one output.
\<close>

definition good_selection :: "int \<Rightarrow> int \<Rightarrow> int \<Rightarrow> nat \<Rightarrow> int \<Rightarrow> int \<Rightarrow> int \<Rightarrow> bool" where
  "good_selection amount rate dust n v change fee \<longleftrightarrow>
     v = amount + change + fee \<and> 0 \<le> change \<and> (change = 0 \<or> dust \<le> change) \<and>
     vsize (int n) 1 * rate \<le> fee"

lemma try_select_good:
  assumes "amounts_ok amount rate dust" "int n \<le> 2 ^ 20" "0 \<le> acc" "acc \<le> 2 ^ 60"
    and "try_select amount rate dust n acc = Some (change, fee)"
  shows "good_selection amount rate dust n acc change fee"
proof -
  have r: "0 \<le> rate" "0 \<le> dust" using assms(1) by (simp_all add: amounts_ok_def)
  then have "vsize (int n) 2 * rate = vsize (int n) 1 * rate + 31 * rate" "0 \<le> 31 * rate"
    by (simp_all add: vsize_outputs algebra_simps)
  with assms(5) [unfolded try_select_cases [OF assms(1-4)]] r show ?thesis
    by (auto simp: good_selection_def split: if_splits)
qed

lemma select_loop_spec:
  assumes "amounts_ok amount rate dust" "utxos_ok (chosen @ us)" "acc = total_value chosen"
  shows "case select_loop amount rate dust chosen acc us of
      (Some (sel, change, fee), _) \<Rightarrow> (\<exists>rest. chosen @ us = sel @ rest) \<and>
         good_selection amount rate dust (length sel) (total_value sel) change fee
    | (None, acc') \<Rightarrow> acc' = total_value (chosen @ us) \<and>
         (us \<noteq> [] \<longrightarrow> acc' < amount + vsize (int (length (chosen @ us))) 2 * rate)"
  using assms
proof (induction us arbitrary: chosen acc)
  case Nil
  then show ?case by simp
next
  case (Cons u us)
  let ?ch = "chosen @ [u]" and ?acc = "acc + ValueSats u"
  have pos: "\<And>xs. set xs \<subseteq> set (chosen @ u # us) \<Longrightarrow> 0 \<le> total_value xs"
    using Cons.prems(2) unfolding total_value_def utxos_ok_def list_all_iff by (intro sum_list_nonneg) auto
  have tot: "total_value ?ch = ?acc" using Cons.prems(3) by (simp add: total_value_def)
  have split: "total_value (chosen @ u # us) = ?acc + total_value us"
    using Cons.prems(3) by (simp add: total_value_def)
  have "0 \<le> total_value us" "0 \<le> ?acc" using pos [of us] pos [of ?ch] tot by auto
  then have bnd: "0 \<le> ?acc" "?acc \<le> 2 ^ 60" "int (length ?ch) \<le> 2 ^ 20"
    using Cons.prems(2) split by (auto simp: utxos_ok_def)
  then have add: "i64_add acc (ValueSats u) = ?acc" by (simp add: i64_add_def in_int64_small)
  note tc = try_select_cases [OF Cons.prems(1) bnd(3,1,2)]
  show ?case
  proof (cases "try_select amount rate dust (length ?ch) ?acc")
    case (Some cf)
    then show ?thesis
      using try_select_good [OF Cons.prems(1) bnd(3,1,2)] add tot by (cases cf) (simp add: Let_def)
  next
    case None
    then have short: "?acc < amount + vsize (int (length ?ch)) 2 * rate"
      unfolding tc by (auto split: if_splits)
    have "utxos_ok (?ch @ us)" using Cons.prems(2) by simp
    from Cons.IH [OF Cons.prems(1) this tot [symmetric]] None add short tot show ?thesis
      by (cases us) (simp_all add: Let_def split: prod.splits option.splits)
  qed
qed

text \<open>
  C20. Coin selection loses no money. Within the stated bounds, and in whatever order the sort
  leaves inputs of equal value: a selection uses only available inputs, each at most once, their
  value is exactly amount plus change plus fee, the change is zero or at least the dust limit,
  and the fee pays at least the requested rate for a transaction without change; an error means
  that all inputs together do not cover the amount and the fee.
\<close>

theorem SelectUTXOs_conserves:
  assumes "amounts_ok amount rate dust" "utxos_ok utxos" "mset (srt utxos) = mset utxos"
  shows "case SelectUTXOs srt utxos amount rate dust of
      Inr (sel, change, fee) \<Rightarrow> mset sel \<subseteq># mset utxos \<and>
        good_selection amount rate dust (length sel) (total_value sel) change fee
    | Inl e \<Rightarrow> total_value utxos < amount + vsize (int (length utxos)) 2 * rate"
proof (cases "utxos = []")
  case True
  then show ?thesis using assms(1)
    by (simp add: SelectUTXOs_def total_value_def amounts_ok_def vsize_def)
next
  case False
  have len: "length (srt utxos) = length utxos" using assms(3) by (rule mset_eq_length)
  have tot: "total_value (srt utxos) = total_value utxos"
    unfolding total_value_def using assms(3) by (metis mset_map sum_mset_sum_list)
  have "set (srt utxos) = set utxos" using assms(3) by (rule mset_eq_setD)
  then have ok: "utxos_ok ([] @ srt utxos)" using assms(2) len tot by (simp add: utxos_ok_def list_all_iff)
  have ne: "srt utxos \<noteq> []" using False len by auto
  have pos: "\<not> amount \<le> 0" using assms(1) by (simp add: amounts_ok_def)
  note spec = select_loop_spec [OF assms(1) ok, of 0]
  obtain r a where run: "select_loop amount rate dust [] 0 (srt utxos) = (r, a)"
    by (cases "select_loop amount rate dust [] 0 (srt utxos)")
  show ?thesis
  proof (cases r)
    case None
    with spec run ne len tot False pos show ?thesis
      by (simp add: SelectUTXOs_def Let_def total_value_def)
  next
    case (Some s)
    obtain sel change fee where s: "s = (sel, change, fee)" by (cases s)
    with spec run Some obtain rest where "srt utxos = sel @ rest"
        "good_selection amount rate dust (length sel) (total_value sel) change fee"
      by (auto simp: total_value_def)
    moreover from this have "mset sel \<subseteq># mset utxos" using assms(3) by (metis mset_append mset_subset_eq_add_left)
    ultimately show ?thesis using run Some s False pos by (simp add: SelectUTXOs_def Let_def)
  qed
qed

definition sample_utxo :: "int \<Rightarrow> UTXO" where
  "sample_utxo v = \<lparr> utxo_ID = [], utxo_Network = [], utxo_UserID = [], WalletAddressID = [], utxo_Address = [],
     Txid = [], Vout = 0, ValueSats = v, ScriptPubKey = [], BlockHeight = 0, Confirmations = 6, utxo_Status = [],
     SpentByTxid = [], DetectedAt = 0, ConfirmedAt = None, SpentAt = None, CreatedAt = 0, UpdatedAt = 0 \<rparr>"

definition desc :: "UTXO list \<Rightarrow> UTXO list" where
  "desc us = sort_key (\<lambda>u. - ValueSats u) us"

theorem SelectUTXOs_conserves_witness:
  "case SelectUTXOs desc [sample_utxo 5000, sample_utxo 11510] 10000 10 294 of
     Inl e \<Rightarrow> False
   | Inr (sel, change, fee) \<Rightarrow> total_value sel = 10000 + change + fee \<and> (change = 0 \<or> 294 \<le> change)"
proof -
  have ok: "amounts_ok 10000 10 294" "utxos_ok [sample_utxo 5000, sample_utxo 11510]"
    by (simp_all add: amounts_ok_def utxos_ok_def total_value_def sample_utxo_def)
  have "mset (desc us) = mset us" for us by (simp add: desc_def)
  from SelectUTXOs_conserves [where srt = desc, OF ok this]
  have "case SelectUTXOs desc [sample_utxo 5000, sample_utxo 11510] 10000 10 294 of
      Inl e \<Rightarrow> total_value [sample_utxo 5000, sample_utxo 11510] < 10000 + vsize 2 2 * 10
    | Inr (sel, change, fee) \<Rightarrow> good_selection 10000 10 294 (length sel) (total_value sel) change fee"
    by (auto split: sum.splits)
  then show ?thesis
    by (auto simp: good_selection_def total_value_def sample_utxo_def vsize_def split: sum.splits)
qed

text \<open>
  The fee can be too low for the transaction that is built: when the change for two outputs
  is positive but dust while the rest without a change output is not dust, the selection keeps
  a change output and charges the fee of a transaction with one output, 31 virtual bytes short
  of the requested rate.
\<close>

theorem change_with_one_output_fee:
  assumes "amounts_ok amount rate dust" "0 < rate" "ValueSats u \<le> 2 ^ 60"
    and "0 < ValueSats u - (amount + vsize 1 2 * rate)" "ValueSats u - (amount + vsize 1 2 * rate) < dust"
    and "dust \<le> ValueSats u - (amount + vsize 1 1 * rate)" "srt [u] = [u]"
  shows "\<exists>change fee. SelectUTXOs srt [u] amount rate dust = Inr ([u], change, fee) \<and> dust \<le> change \<and>
    0 < change \<and> fee = vsize 1 2 * rate - 31 * rate"
proof -
  have v: "0 \<le> ValueSats u" "0 < amount"
    using assms(1,4) by (simp_all add: amounts_ok_def vsize_def)
  then have "i64_add 0 (ValueSats u) = ValueSats u" using assms(3) by (simp add: i64_add_def in_int64_small)
  moreover have "try_select amount rate dust (length [u]) (ValueSats u) =
      Some (ValueSats u - (amount + vsize 1 1 * rate), vsize 1 1 * rate)"
    using try_select_cases [OF assms(1) _ v(1) assms(3), of "length [u]"] assms(4-6) by simp
  ultimately have "SelectUTXOs srt [u] amount rate dust =
      Inr ([u], ValueSats u - (amount + vsize 1 1 * rate), vsize 1 1 * rate)"
    using v(2) assms(7) by (simp add: SelectUTXOs_def Let_def)
  moreover have "vsize 1 1 * rate = vsize 1 2 * rate - 31 * rate" by (simp add: vsize_outputs algebra_simps)
  ultimately show ?thesis using assms(2,4,6) by auto
qed

theorem change_with_one_output_fee_witness:
  "\<exists>change. SelectUTXOs desc [sample_utxo 11510] 10000 10 294 = Inr ([sample_utxo 11510], change, 1100) \<and> 294 \<le> change"
proof -
  have "amounts_ok 10000 10 294" by (simp add: amounts_ok_def)
  from change_with_one_output_fee [OF this, of "sample_utxo 11510" desc] show ?thesis
    by (auto simp: sample_utxo_def vsize_def desc_def)
qed

end
