(* ===== verification/Idempotency.thy ===== *)
theory Idempotency
  imports Go_Strings
begin

text \<open>
  The idempotency middleware of \<open>internal/mobile/idempotency.go\<close>. The table \<open>operation_ids\<close> is a map
  from (operation_id, user_id) to a row; the transaction locks its row with SELECT FOR UPDATE,
  so it is one atomic step, and every database call in it may fail, which is a \<open>db_fault\<close>. The
  protected handler runs between the transaction and the recording of its outcome: concurrent
  requests, lost writes and crashes are sequences of these steps.
\<close>

section \<open>The transaction\<close>

type_synonym op_key = "string \<times> string"

record op_row =
  op_type :: string
  op_status :: string
  result_ref :: "string option"
  completed_at :: "go_time option"
  expires_at :: go_time

type_synonym op_table = "(op_key, op_row) go_map"

definition anonymousUserID :: string where
  "anonymousUserID = ''00000000-0000-0000-0000-000000000000''"

definition resolvedUID :: "string \<Rightarrow> string" where
  "resolvedUID uid = (if uid = [] then anonymousUserID else uid)"

text \<open>
  The database call that fails, if any. A failed commit may or may not have taken effect on the
  server (\<open>CommitLost\<close>, \<open>CommitUnknown\<close>).
\<close>

datatype db_fault = NoFault | BeginFails | InsertFails | SelectFails | UpdateFails | CommitLost | CommitUnknown

datatype idem_response =
    Replayed string string "go_time option"
  | Conflict string
  | Unavailable
  | InternalError
  | Proceed

definition upsert_pending :: "go_time \<Rightarrow> op_key \<Rightarrow> string \<Rightarrow> op_table \<Rightarrow> op_table" where
  "upsert_pending now k opType table =
     (case map_of table k of
        Some _ \<Rightarrow> table
      | None \<Rightarrow> AList.update k \<lparr> op_type = opType, op_status = ''pending'', result_ref = None,
                  completed_at = None, expires_at = now + 24 * hour \<rparr> table)"

text \<open>A commit with the answer to give when it succeeds.\<close>

definition commit :: "db_fault \<Rightarrow> op_table \<Rightarrow> op_table \<Rightarrow> idem_response \<Rightarrow> idem_response \<times> op_table" where
  "commit fault old new answer =
     (case fault of
        CommitLost \<Rightarrow> (InternalError, old)
      | CommitUnknown \<Rightarrow> (InternalError, new)
      | _ \<Rightarrow> (answer, new))"

definition runIdempotencyTransaction ::
  "db_fault \<Rightarrow> go_time \<Rightarrow> string \<Rightarrow> string \<Rightarrow> string \<Rightarrow> op_table \<Rightarrow> idem_response \<times> op_table" where
  "runIdempotencyTransaction fault now key uid opType table =
     (if fault = BeginFails \<or> fault = InsertFails \<or> fault = SelectFails then (Unavailable, table)
      else
        let t1 = upsert_pending now (key, uid) opType table in
        case map_of t1 (key, uid) of
          None \<Rightarrow> (Unavailable, table)
        | Some row \<Rightarrow>
            if op_status row = ''completed'' then
              commit fault table t1
                (Replayed key (case result_ref row of None \<Rightarrow> [] | Some r \<Rightarrow> r) (completed_at row))
            else if op_status row = ''processing'' then commit fault table t1 (Conflict key)
            else if fault = UpdateFails then (Unavailable, table)
            else commit fault table (AList.update (key, uid) (row\<lparr>op_status := ''processing''\<rparr>) t1) Proceed)"

definition mark ::
  "string \<Rightarrow> go_time \<Rightarrow> string \<Rightarrow> string \<Rightarrow> string \<Rightarrow> op_table \<Rightarrow> op_table" where
  "mark status now key uid ref table =
     (if key = [] then table
      else
        case map_of table (key, uid) of
          None \<Rightarrow> table
        | Some row \<Rightarrow> AList.update (key, uid)
            (row\<lparr>op_status := status, result_ref := Some ref, completed_at := Some now\<rparr>) table)"

definition markIdempotencyComplete :: "go_time \<Rightarrow> string \<Rightarrow> string \<Rightarrow> string \<Rightarrow> op_table \<Rightarrow> op_table" where
  "markIdempotencyComplete now key uid resultRef table = mark ''completed'' now key uid resultRef table"

definition markIdempotencyFailed :: "go_time \<Rightarrow> string \<Rightarrow> string \<Rightarrow> string \<Rightarrow> op_table \<Rightarrow> op_table" where
  "markIdempotencyFailed now key uid reason table = mark ''failed'' now key uid reason table"

section \<open>The middleware\<close>

text \<open>The key of a request: the header, its alternative, or a generated one.\<close>

definition request_key :: "string \<Rightarrow> string \<Rightarrow> string \<Rightarrow> string" where
  "request_key header xheader generated =
     (let key = trim_space header;
          key = (if key = [] then trim_space xheader else key) in
      if key = [] then generated else key)"

definition key_too_long :: "string \<Rightarrow> bool" where
  "key_too_long key \<longleftrightarrow> length key > 128"

text \<open>
  The two halves of \<open>requireIdempotency\<close> around the handler: before it, the transaction; after
  it, the recording of the outcome, a write whose errors are ignored (\<open>written\<close>).
\<close>

datatype gate_result = BadRequest | Answered idem_response | RunHandler op_key

definition idem_before ::
  "db_fault \<Rightarrow> go_time \<Rightarrow> string \<Rightarrow> string \<Rightarrow> string \<Rightarrow> string \<Rightarrow> string \<Rightarrow> op_table \<Rightarrow> gate_result \<times> op_table" where
  "idem_before fault now header xheader generated uid opType table =
     (let key = request_key header xheader generated in
      if key_too_long key then (BadRequest, table)
      else
        case runIdempotencyTransaction fault now key (resolvedUID uid) opType table of
          (Proceed, t) \<Rightarrow> (RunHandler (key, resolvedUID uid), t)
        | (answer, t) \<Rightarrow> (Answered answer, t))"

definition idem_after :: "bool \<Rightarrow> go_time \<Rightarrow> op_key \<Rightarrow> int \<Rightarrow> string \<Rightarrow> op_table \<Rightarrow> op_table" where
  "idem_after written now k status body table =
     (let status = (if status = 0 then 200 else status) in
      if \<not> written then table
      else if 200 \<le> status \<and> status < 300 then markIdempotencyComplete now (fst k) (snd k) body table
      else markIdempotencyFailed now (fst k) (snd k) body table)"

section \<open>Concurrent requests\<close>

record idem_sys =
  op_rows :: op_table
  in_flight :: "(nat, op_key) go_map"
  finished :: "(op_key \<times> int) list"

datatype idem_event =
    Arrive nat db_fault go_time string string string string string
  | HandlerDone nat bool go_time int string
  | Crash nat

fun idem_ok :: "idem_sys \<Rightarrow> idem_event \<Rightarrow> bool" where
  "idem_ok s (Arrive c fault now header xheader generated uid opType) =
     (map_of (in_flight s) c = None \<and> generated \<noteq> [])"
| "idem_ok s (HandlerDone c written now status body) = (map_of (in_flight s) c \<noteq> None)"
| "idem_ok s (Crash c) = (map_of (in_flight s) c \<noteq> None)"

fun idem_step :: "idem_sys \<Rightarrow> idem_event \<Rightarrow> idem_sys" where
  "idem_step s (Arrive c fault now header xheader generated uid opType) =
     (case idem_before fault now header xheader generated uid opType (op_rows s) of
        (RunHandler k, t) \<Rightarrow> s\<lparr>op_rows := t, in_flight := AList.update c k (in_flight s)\<rparr>
      | (_, t) \<Rightarrow> s\<lparr>op_rows := t\<rparr>)"
| "idem_step s (HandlerDone c written now status body) =
     (case map_of (in_flight s) c of
        None \<Rightarrow> s
      | Some k \<Rightarrow> s\<lparr>op_rows := idem_after written now k status body (op_rows s),
                     in_flight := AList.delete c (in_flight s),
                     finished := finished s @ [(k, if status = 0 then 200 else status)]\<rparr>)"
| "idem_step s (Crash c) = s\<lparr>in_flight := AList.delete c (in_flight s)\<rparr>"

definition idem_start :: idem_sys where
  "idem_start = \<lparr> op_rows = [], in_flight = [], finished = [] \<rparr>"

text \<open>The executions of a key that ended with a 2xx status.\<close>

definition successes_of :: "op_key \<Rightarrow> idem_sys \<Rightarrow> nat" where
  "successes_of k s = length (filter (\<lambda>(k', st). k' = k \<and> 200 \<le> st \<and> st < 300) (finished s))"

definition status_of :: "op_key \<Rightarrow> idem_sys \<Rightarrow> string option" where
  "status_of k s = map_option op_status (map_of (op_rows s) k)"

definition closed :: "string option \<Rightarrow> bool" where
  "closed st \<longleftrightarrow> st = Some ''completed'' \<or> st = Some ''processing''"

definition processing :: "string option" where
  "processing = Some ''processing''"

lemma closed_simps [simp]: "closed processing" "\<not> closed None"
  by (simp_all add: closed_def processing_def)

definition idem_inv :: "idem_sys \<Rightarrow> bool" where
  "idem_inv s \<longleftrightarrow>
     (\<forall>c d k. map_of (in_flight s) c = Some k \<and> map_of (in_flight s) d = Some k \<longrightarrow> c = d) \<and>
     (\<forall>c k. map_of (in_flight s) c = Some k \<longrightarrow> status_of k s = processing \<and> successes_of k s = 0 \<and> fst k \<noteq> []) \<and>
     (\<forall>k. successes_of k s \<le> 1 \<and> (successes_of k s = 1 \<longrightarrow> closed (status_of k s)))"

section \<open>At most once\<close>

definition row_status :: "op_table \<Rightarrow> op_key \<Rightarrow> string option" where
  "row_status t k = map_option op_status (map_of t k)"

lemma upsert_status: "row_status (upsert_pending now k ty t) j =
    (if j = k \<and> row_status t k = None then Some ''pending'' else row_status t j)"
  by (auto simp: upsert_pending_def row_status_def split: option.split)

lemma commit_cases:
  "commit f old new a = (r, t) \<Longrightarrow>
   (r = a \<and> t = new) \<or> (r = InternalError \<and> (t = old \<or> t = new))"
  by (auto simp: commit_def split: db_fault.splits)

text \<open>
  The transaction leaves other keys alone, never touches a completed or processing row, and
  says \<open>Proceed\<close> only for a row that was neither, which it has set to processing.
\<close>

lemma transaction_status:
  assumes "runIdempotencyTransaction f now key uid ty t = (r, t')"
  shows "(\<forall>j. j \<noteq> (key, uid) \<longrightarrow> row_status t' j = row_status t j) \<and>
    (closed (row_status t (key, uid)) \<longrightarrow> row_status t' (key, uid) = row_status t (key, uid) \<and> r \<noteq> Proceed) \<and>
    (r = Proceed \<longrightarrow> row_status t' (key, uid) = Some ''processing'')"
proof (cases "f = BeginFails \<or> f = InsertFails \<or> f = SelectFails")
  case True
  with assms have "r = Unavailable" "t' = t" by (auto simp: runIdempotencyTransaction_def)
  then show ?thesis by simp
next
  case False
  let ?k = "(key, uid)" and ?t1 = "upsert_pending now (key, uid) ty t"
  obtain row where row: "map_of ?t1 ?k = Some row" by (cases "map_of t (key, uid)") (simp_all add: upsert_pending_def)
  have st1: "row_status ?t1 j = (if j = ?k \<and> row_status t ?k = None then Some ''pending'' else row_status t j)" for j
    by (rule upsert_status)
  have strow: "Some (op_status row) = row_status ?t1 ?k" using row by (simp add: row_status_def)
  show ?thesis
  proof (cases "closed (Some (op_status row))")
    case True
    then have old: "row_status t ?k = Some (op_status row)"
      using strow st1 [of ?k] by (auto simp: closed_def split: if_splits)
    then have eq: "row_status ?t1 j = row_status t j" for j using st1 by simp
    obtain a where a: "commit f t ?t1 a = (r, t')" "a \<noteq> Proceed"
      using assms False row True
      by (auto simp: runIdempotencyTransaction_def closed_def Let_def split: if_splits)
    from commit_cases [OF a(1)] a(2) eq old show ?thesis by auto
  next
    case open_row: False
    then have ncl: "\<not> closed (row_status t ?k)" using strow st1 [of ?k] by (auto split: if_splits)
    let ?t2 = "AList.update ?k (row\<lparr>op_status := ''processing''\<rparr>) ?t1"
    have st2: "row_status ?t2 j = (if j = ?k then Some ''processing'' else row_status ?t1 j)" for j
      by (simp add: row_status_def)
    have run: "runIdempotencyTransaction f now key uid ty t =
        (if f = UpdateFails then (Unavailable, t) else commit f t ?t2 Proceed)"
      using False row open_row by (simp add: runIdempotencyTransaction_def closed_def Let_def)
    from assms run commit_cases [of f t ?t2 Proceed r t'] ncl st1 st2 show ?thesis
      by (auto split: if_splits)
  qed
qed

lemma mark_status:
  "fst k \<noteq> [] \<Longrightarrow> row_status t k \<noteq> None \<Longrightarrow>
   row_status (mark st now (fst k) (snd k) ref t) j = (if j = k then Some st else row_status t j)"
  by (auto simp: mark_def row_status_def)

lemma idem_after_status:
  assumes "fst k \<noteq> []" "row_status t k = processing" "st = (if status = 0 then 200 else status)"
  shows "row_status (idem_after written now k status body t) j =
    (if j = k then Some (if \<not> written then ''processing'' else if 200 \<le> st \<and> st < 300 then ''completed'' else ''failed'')
     else row_status t j)"
proof -
  have "row_status t k \<noteq> None" using assms(2) by (simp add: processing_def)
  from mark_status [OF assms(1) this] assms(2,3) show ?thesis
    by (simp add: idem_after_def markIdempotencyComplete_def markIdempotencyFailed_def Let_def processing_def)
qed

lemma status_of_row: "status_of k s = row_status (op_rows s) k"
  by (simp add: status_of_def row_status_def)

lemma idem_before_spec:
  assumes "idem_before f now h x g uid ty t = (r, t')" "k = (request_key h x g, resolvedUID uid)"
  shows "(\<forall>j. j \<noteq> k \<longrightarrow> row_status t' j = row_status t j) \<and>
    (closed (row_status t k) \<longrightarrow> row_status t' k = row_status t k \<and> (\<forall>j. r \<noteq> RunHandler j)) \<and>
    (\<forall>j. r = RunHandler j \<longrightarrow> j = k \<and> row_status t' k = processing)"
proof (cases "key_too_long (request_key h x g)")
  case True
  with assms(1) have "r = BadRequest" "t' = t" by (simp_all add: idem_before_def Let_def)
  then show ?thesis by simp
next
  case False
  obtain a t1 where run: "runIdempotencyTransaction f now (request_key h x g) (resolvedUID uid) ty t = (a, t1)"
    by (cases "runIdempotencyTransaction f now (request_key h x g) (resolvedUID uid) ty t")
  have "t' = t1" "r = (if a = Proceed then RunHandler k else Answered a)"
    using False assms run by (auto simp: idem_before_def Let_def split: idem_response.splits)
  with transaction_status [OF run] assms(2) show ?thesis
    unfolding processing_def by (metis gate_result.distinct(5) gate_result.inject(2))
qed

lemma request_key_nonempty: "g \<noteq> [] \<Longrightarrow> request_key h x g \<noteq> []"
  by (simp add: request_key_def Let_def)

lemma idem_inv_Arrive:
  assumes inv: "idem_inv s" and c: "map_of (in_flight s) c = None" and g: "g \<noteq> []"
  shows "idem_inv (idem_step s (Arrive c f now h x g uid ty))"
proof -
  let ?k = "(request_key h x g, resolvedUID uid)"
  obtain r t' where b: "idem_before f now h x g uid ty (op_rows s) = (r, t')"
    by (cases "idem_before f now h x g uid ty (op_rows s)")
  note spec = idem_before_spec [OF b refl]
  have keep: "row_status t' j = status_of j s" if "closed (status_of j s)" for j
    using spec that unfolding status_of_row by (cases "j = ?k") metis+
  have A: "\<And>c d k. map_of (in_flight s) c = Some k \<Longrightarrow> map_of (in_flight s) d = Some k \<Longrightarrow> c = d"
    and B: "\<And>c k. map_of (in_flight s) c = Some k \<Longrightarrow> status_of k s = processing \<and> successes_of k s = 0 \<and> fst k \<noteq> []"
    and C: "\<And>k. successes_of k s \<le> 1 \<and> (successes_of k s = 1 \<longrightarrow> closed (status_of k s))"
    using inv unfolding idem_inv_def by blast+
  show ?thesis
  proof (cases "\<exists>j. r = RunHandler j")
    case True
    with spec have r: "r = RunHandler ?k" "row_status t' ?k = processing" and ncl: "\<not> closed (status_of ?k s)"
      unfolding status_of_row by metis+
    have free: "map_of (in_flight s) d \<noteq> Some ?k" for d using B ncl closed_simps(1) by metis
    have zero: "successes_of ?k s = 0" using C [of ?k] ncl by linarith
    let ?s = "s\<lparr>op_rows := t', in_flight := AList.update c ?k (in_flight s)\<rparr>"
    have s': "idem_step s (Arrive c f now h x g uid ty) = ?s" using b r(1) by simp
    have st: "status_of j ?s = row_status t' j" and su: "successes_of j ?s = successes_of j s" for j
      by (simp_all add: status_of_row successes_of_def)
    have fl: "map_of (in_flight ?s) d = Some j \<longleftrightarrow> (if d = c then j = ?k else map_of (in_flight s) d = Some j)" for d j
      by auto
    show ?thesis
      unfolding s' idem_inv_def st su fl
    proof (intro conjI allI impI)
      fix c1 d1 k
      assume "(if c1 = c then k = ?k else map_of (in_flight s) c1 = Some k) \<and>
        (if d1 = c then k = ?k else map_of (in_flight s) d1 = Some k)"
      then show "c1 = d1" using free A by (metis (full_types))
    next
      fix c1 k
      assume in1: "if c1 = c then k = ?k else map_of (in_flight s) c1 = Some k"
      show "row_status t' k = processing" using in1 r(2) B keep closed_simps(1) by (metis (full_types))
      show "successes_of k s = 0" using in1 zero B by (metis (full_types))
      show "fst k \<noteq> []" using in1 B request_key_nonempty [OF g] by (metis (full_types) fst_conv)
    next
      fix k
      show "successes_of k s \<le> 1" using C by blast
      assume "successes_of k s = 1"
      then show "closed (row_status t' k)" using C keep by metis
    qed
  next
    case False
    then have s': "idem_step s (Arrive c f now h x g uid ty) = s\<lparr>op_rows := t'\<rparr>"
      using b by (auto split: gate_result.split)
    have st: "status_of j (s\<lparr>op_rows := t'\<rparr>) = row_status t' j"
      and su: "successes_of j (s\<lparr>op_rows := t'\<rparr>) = successes_of j s" for j
      by (simp_all add: status_of_row successes_of_def)
    show ?thesis
      unfolding s' idem_inv_def st su
    proof (intro conjI allI impI)
      fix c1 d1 k
      assume "map_of (in_flight (s\<lparr>op_rows := t'\<rparr>)) c1 = Some k \<and> map_of (in_flight (s\<lparr>op_rows := t'\<rparr>)) d1 = Some k"
      then show "c1 = d1" using A by simp
    next
      fix c1 k
      assume "map_of (in_flight (s\<lparr>op_rows := t'\<rparr>)) c1 = Some k"
      then have kb: "status_of k s = processing" "successes_of k s = 0" "fst k \<noteq> []" using B by simp_all
      show "row_status t' k = processing" using keep [of k] kb(1) by simp
      show "successes_of k s = 0" "fst k \<noteq> []" by (fact kb)+
    next
      fix k
      show "successes_of k s \<le> 1" using C by blast
      assume "successes_of k s = 1"
      then show "closed (row_status t' k)" using C keep by metis
    qed
  qed
qed

lemma idem_inv_Done:
  assumes inv: "idem_inv s" and k: "map_of (in_flight s) c = Some k"
  shows "idem_inv (idem_step s (HandlerDone c written now status body))"
proof -
  let ?s = "idem_step s (HandlerDone c written now status body)"
  let ?st = "if status = 0 then 200 else status"
  have A: "\<And>c d k. map_of (in_flight s) c = Some k \<Longrightarrow> map_of (in_flight s) d = Some k \<Longrightarrow> c = d"
    and B: "\<And>c k. map_of (in_flight s) c = Some k \<Longrightarrow> status_of k s = processing \<and> successes_of k s = 0 \<and> fst k \<noteq> []"
    and C: "\<And>k. successes_of k s \<le> 1 \<and> (successes_of k s = 1 \<longrightarrow> closed (status_of k s))"
    using inv unfolding idem_inv_def by blast+
  have kin: "status_of k s = processing" "successes_of k s = 0" "fst k \<noteq> []" using B [OF k] by simp_all
  have suc: "successes_of j ?s = (if j = k \<and> 200 \<le> ?st \<and> ?st < 300 then 1 else successes_of j s)" for j
    using kin(2) k by (auto simp: successes_of_def)
  have sta: "status_of j ?s = (if j = k then Some (if \<not> written then ''processing''
      else if 200 \<le> ?st \<and> ?st < 300 then ''completed'' else ''failed'') else status_of j s)" for j
    using idem_after_status [OF kin(3) kin(1) [unfolded status_of_row] refl,
        where written = written and now = now and body = body and j = j and status = status] k
    by (simp add: status_of_row)
  have fl: "map_of (in_flight ?s) d = Some j \<longleftrightarrow> d \<noteq> c \<and> map_of (in_flight s) d = Some j" for d j
    using k by simp
  have gone: "map_of (in_flight s) d = Some j \<Longrightarrow> d \<noteq> c \<Longrightarrow> j \<noteq> k" for d j using A k by blast
  have cl: "closed (status_of k ?s)" if "200 \<le> ?st \<and> ?st < 300" unfolding sta using that by (simp add: closed_def)
  show ?thesis unfolding idem_inv_def
  proof (intro conjI allI impI)
    fix c1 d1 j
    assume "map_of (in_flight ?s) c1 = Some j \<and> map_of (in_flight ?s) d1 = Some j"
    then show "c1 = d1" unfolding fl using A by blast
  next
    fix c1 j
    assume "map_of (in_flight ?s) c1 = Some j"
    then have j: "map_of (in_flight s) c1 = Some j" "j \<noteq> k" unfolding fl using gone by blast+
    show "status_of j ?s = processing" unfolding sta using B [OF j(1)] j(2) by simp
    show "successes_of j ?s = 0" unfolding suc using B [OF j(1)] j(2) by simp
    show "fst j \<noteq> []" using B [OF j(1)] by simp
  next
    fix j
    show "successes_of j ?s \<le> 1" unfolding suc using C [of j] by simp
    assume one: "successes_of j ?s = 1"
    show "closed (status_of j ?s)"
    proof (cases "j = k")
      case True
      with one kin(2) have "200 \<le> ?st \<and> ?st < 300" unfolding suc by (simp split: if_splits)
      with cl True show ?thesis by blast
    next
      case False
      with one C [of j] show ?thesis unfolding suc sta by simp
    qed
  qed
qed

lemma idem_step_inv: "idem_inv s \<Longrightarrow> idem_ok s ev \<Longrightarrow> idem_inv (idem_step s ev)"
proof (cases ev)
  case (Crash c)
  assume "idem_inv s"
  with Crash show ?thesis by (simp add: idem_inv_def status_of_def successes_of_def)
qed (auto simp del: idem_step.simps intro: idem_inv_Arrive idem_inv_Done)

interpretation idem: transition_system "\<lambda>s. s = idem_start" idem_step idem_ok idem_inv
proof unfold_locales
  show "s = idem_start \<Longrightarrow> idem_inv s" for s by (simp add: idem_start_def idem_inv_def successes_of_def)
qed (rule idem_step_inv)

fun idem_runs :: "idem_sys \<Rightarrow> idem_event list \<Rightarrow> bool" where
  "idem_runs s [] = True"
| "idem_runs s (ev # evs) = (idem_ok s ev \<and> idem_runs (idem_step s ev) evs)"

lemma idem_runs_admissible: "idem_runs s evs = idem.admissible s evs"
  by (induction evs arbitrary: s) (simp_all del: idem_step.simps)

lemma idem_history_inv: "idem_runs idem_start evs \<Longrightarrow> idem_inv (foldl idem_step idem_start evs)"
  using idem.run_init_inv [of idem_start evs] by (simp add: idem_runs_admissible idem.run_foldl)

lemma gate_closed:
  assumes "idem_before f now h x g uid ty t = (r, t')" "closed (row_status t (request_key h x g, resolvedUID uid))"
  shows "r \<noteq> RunHandler j"
  using idem_before_spec [OF assms(1) refl] assms(2) by blast

text \<open>
  C6. Whatever requests arrive in whatever order, whichever database calls fail and whichever
  handlers crash: for each key and user at most one execution of the protected handler ends in
  success, at most one is running at any time, and once one has succeeded, a further request
  with that key does not run the handler.
\<close>

theorem handler_succeeds_at_most_once:
  assumes "idem_runs idem_start evs" "s = foldl idem_step idem_start evs"
    and "k = (request_key h x g, resolvedUID uid)"
  shows "successes_of k s \<le> 1 \<and>
    (\<forall>c d. map_of (in_flight s) c = Some k \<and> map_of (in_flight s) d = Some k \<longrightarrow> c = d) \<and>
    (successes_of k s = 1 \<longrightarrow> (\<forall>j. fst (idem_before fault now h x g uid opType (op_rows s)) \<noteq> RunHandler j))"
proof -
  have inv: "idem_inv s" using idem_history_inv [OF assms(1)] assms(2) by simp
  then have C: "successes_of k s \<le> 1" "successes_of k s = 1 \<longrightarrow> closed (status_of k s)"
    and A: "\<forall>c d. map_of (in_flight s) c = Some k \<and> map_of (in_flight s) d = Some k \<longrightarrow> c = d"
    unfolding idem_inv_def by blast+
  have "\<forall>j. fst (idem_before fault now h x g uid opType (op_rows s)) \<noteq> RunHandler j" if "successes_of k s = 1"
    using gate_closed [OF prod.collapse [symmetric]] C(2) that unfolding status_of_row assms(3) by blast
  with A C(1) show ?thesis by blast
qed

definition sample_arrive :: "nat \<Rightarrow> idem_event" where
  "sample_arrive c = Arrive c NoFault 1 '' k1 '' [] ''g'' [] ''pix''"

theorem handler_succeeds_at_most_once_witness:
  "\<exists>s. s = foldl idem_step idem_start [sample_arrive 1, sample_arrive 2, HandlerDone 1 True 2 201 ''ok'', sample_arrive 3] \<and>
     successes_of (''k1'', anonymousUserID) s = 1 \<and>
     (\<forall>j. fst (idem_before NoFault 9 ''k1'' [] ''g'' [] ''pix'' (op_rows s)) \<noteq> RunHandler j)"
proof -
  let ?evs = "[sample_arrive 1, sample_arrive 2, HandlerDone 1 True 2 201 ''ok'', sample_arrive 3]"
  have runs: "idem_runs idem_start ?evs" by code_simp
  have key: "(''k1'', anonymousUserID) = (request_key ''k1'' [] ''g'', resolvedUID [])" by code_simp
  have "successes_of (''k1'', anonymousUserID) (foldl idem_step idem_start ?evs) = 1" by code_simp
  with handler_succeeds_at_most_once [OF runs refl key] show ?thesis by blast
qed

text \<open>A row that is processing while no request works on it stays so for good.\<close>

definition stuck :: "op_key \<Rightarrow> idem_sys \<Rightarrow> bool" where
  "stuck k s \<longleftrightarrow> status_of k s = processing \<and> (\<forall>c. map_of (in_flight s) c \<noteq> Some k)"

lemma stuck_step:
  assumes "idem_inv s" "idem_ok s ev" "stuck k s"
  shows "stuck k (idem_step s ev)"
proof (cases ev)
  case (Arrive c f now h x g uid ty)
  obtain r t' where b: "idem_before f now h x g uid ty (op_rows s) = (r, t')"
    by (cases "idem_before f now h x g uid ty (op_rows s)")
  note spec = idem_before_spec [OF b refl]
  have st: "row_status (op_rows s) k = processing" using assms(3) by (simp add: stuck_def status_of_row)
  then have "row_status t' k = processing" "r \<noteq> RunHandler k"
    using spec closed_simps(1) by (metis (full_types))+
  then show ?thesis using assms(3) Arrive b
    by (auto simp: stuck_def status_of_row split: gate_result.split)
next
  case (HandlerDone c written now status body)
  then obtain j where j: "map_of (in_flight s) c = Some j" using assms(2) by auto
  then have "j \<noteq> k" using assms(3) by (auto simp: stuck_def)
  moreover have "row_status (op_rows s) j = processing" "fst j \<noteq> []"
    using assms(1) j unfolding idem_inv_def status_of_row by blast+
  ultimately show ?thesis
    using assms(3) HandlerDone j idem_after_status [of j "op_rows s" _ status written now body k]
    by (auto simp: stuck_def status_of_row)
next
  case (Crash c)
  with assms(3) show ?thesis by (auto simp: stuck_def status_of_row)
qed

lemma stuck_forever: "idem_inv s \<Longrightarrow> stuck k s \<Longrightarrow> idem_runs s evs \<Longrightarrow> stuck k (foldl idem_step s evs)"
proof (induction evs arbitrary: s)
  case (Cons ev evs)
  then have "idem_inv (idem_step s ev)" "stuck k (idem_step s ev)" using idem_step_inv stuck_step by auto
  with Cons show ?case by (simp del: idem_step.simps)
qed simp

text \<open>
  The outcome of a handler that is not recorded blocks its key for ever: after a crash, or
  when the write of the outcome fails (it uses the context of the request, which ends when the
  client disconnects), the row stays processing, and no later sequence of requests runs the
  handler for that key again; the 24 hours of \<open>expires_at\<close> are never looked at.
\<close>

theorem lost_outcome_blocks_key:
  assumes "idem_runs idem_start evs" "s = foldl idem_step idem_start evs"
    and "map_of (in_flight s) c = Some k" "ev = Crash c \<or> ev = HandlerDone c False now status body"
    and "idem_runs (idem_step s ev) later" "s' = foldl idem_step (idem_step s ev) later"
    and "k = (request_key h x g, resolvedUID uid)"
  shows "status_of k s' = Some ''processing'' \<and>
    (\<forall>j. fst (idem_before fault now' h x g uid opType (op_rows s')) \<noteq> RunHandler j)"
proof -
  have inv: "idem_inv s" using idem_history_inv [OF assms(1)] assms(2) by simp
  have ok: "idem_ok s ev" using assms(3,4) by auto
  have st: "status_of k s = processing" using inv assms(3) unfolding idem_inv_def by blast
  have only: "map_of (in_flight s) d = Some k \<Longrightarrow> d = c" for d using inv assms(3) unfolding idem_inv_def by blast
  have step: "op_rows (idem_step s ev) = op_rows s" "in_flight (idem_step s ev) = AList.delete c (in_flight s)"
    using assms(3,4) by (auto simp: idem_after_def Let_def)
  have "map_of (in_flight (idem_step s ev)) d \<noteq> Some k" for d using only [of d] unfolding step(2) by auto
  then have "stuck k (idem_step s ev)" using st by (simp add: stuck_def status_of_def step(1))
  then have "stuck k s'" using stuck_forever [OF idem_step_inv [OF inv ok]] assms(5,6) by blast
  then have p: "row_status (op_rows s') k = processing" by (simp add: stuck_def status_of_row)
  have "\<forall>j. fst (idem_before fault now' h x g uid opType (op_rows s')) \<noteq> RunHandler j"
    using gate_closed [OF prod.collapse [symmetric]] p closed_simps(1) unfolding assms(7) by presburger
  with p show ?thesis by (simp add: status_of_row processing_def)
qed

theorem lost_outcome_blocks_key_witness:
  "status_of (''k1'', anonymousUserID)
     (foldl idem_step (idem_step (foldl idem_step idem_start [sample_arrive 1]) (Crash 1)) [sample_arrive 2, sample_arrive 3])
   = Some ''processing''"
proof -
  have runs: "idem_runs idem_start [sample_arrive 1]" by code_simp
  have key: "(''k1'', anonymousUserID) = (request_key ''k1'' [] ''g'', resolvedUID [])" by code_simp
  have fl: "map_of (in_flight (foldl idem_step idem_start [sample_arrive 1])) 1 = Some (''k1'', anonymousUserID)"
    by code_simp
  have later: "idem_runs (idem_step (foldl idem_step idem_start [sample_arrive 1]) (Crash 1)) [sample_arrive 2, sample_arrive 3]"
    by code_simp
  from lost_outcome_blocks_key [OF runs refl fl disjI1 [OF refl] later refl key] show ?thesis by blast
qed

end
