(* ===== verification/Liquidity_Pairs.thy ===== *)
theory Liquidity_Pairs
  imports Go_Strings
begin

text \<open>
  The liquidity pairs of \<open>internal/liquidity/pairs.go\<close> and the network spellings of
  \<open>internal/liquidity/router.go\<close>: parsing of the configured list of pairs, completion of a pair
  with decimals, family and token standard, and the policy that answers which pairs are traded.
  The switch over spellings is a table in the order of the source, with the default of the switch
  for what is not in it.
\<close>

section \<open>Networks\<close>

definition network_aliases :: "(string \<times> string) list" where
  "network_aliases =
     [(''BEP20'', ''BSC''), (''BEP-20'', ''BSC''), (''BINANCE'', ''BSC''), (''BINANCE_SMART_CHAIN'', ''BSC''),
      (''BNB'', ''BSC''), (''BSC'', ''BSC''),
      (''POL'', ''POLYGON''), (''MATIC'', ''POLYGON''), (''POLYGON'', ''POLYGON''),
      (''BASE'', ''BASE''), (''BASE_MAINNET'', ''BASE''),
      (''ARB'', ''ARBITRUM''), (''ARBITRUM'', ''ARBITRUM''), (''ARBITRUM_ONE'', ''ARBITRUM''),
      (''ETH'', ''ETHEREUM''), (''ETHEREUM'', ''ETHEREUM''), (''ERC20'', ''ETHEREUM''), (''ERC-20'', ''ETHEREUM''),
      (''BTC'', ''BITCOIN''), (''BITCOIN'', ''BITCOIN''), (''BTC_MAINNET'', ''BITCOIN''), (''MAINNET'', ''BITCOIN''),
      (''SOL'', ''SOLANA''), (''SOLANA'', ''SOLANA''),
      (''APT'', ''APTOS''), (''APTOS'', ''APTOS'')]"

definition NormalizeNetwork :: "string \<Rightarrow> string" where
  "NormalizeNetwork network =
     (case map_of network_aliases (to_upper (trim_space network)) of
        Some canonical \<Rightarrow> canonical
      | None \<Rightarrow> to_upper (trim_space network))"

fun firstNonEmpty :: "string list \<Rightarrow> string" where
  "firstNonEmpty [] = []"
| "firstNonEmpty (v # vs) = (if trim_space v \<noteq> [] then trim_space v else firstNonEmpty vs)"

record NetworkMeta =
  nm_Network :: string
  nm_Family :: string
  nm_ChainID :: string
  nm_NativeAsset :: string
  nm_ExplorerURL :: string
  nm_AddressFormat :: string
  nm_Enabled :: bool
  nm_ReceiveEnabled :: bool
  nm_SendEnabled :: bool
  nm_BuyEnabled :: bool
  nm_DCAEnabled :: bool

definition evmNetwork :: "string \<Rightarrow> string \<Rightarrow> string \<Rightarrow> string \<Rightarrow> NetworkMeta" where
  "evmNetwork network chainID nativeAsset explorerURL =
     \<lparr> nm_Network = network, nm_Family = ''EVM'', nm_ChainID = chainID, nm_NativeAsset = nativeAsset,
       nm_ExplorerURL = explorerURL, nm_AddressFormat = ''EVM_0X'', nm_Enabled = True, nm_ReceiveEnabled = True,
       nm_SendEnabled = True, nm_BuyEnabled = True, nm_DCAEnabled = True \<rparr>"

text \<open>The cases of \<open>NetworkMetadata\<close>: the EVM networks and the three others, all fully enabled.\<close>

definition other_network :: "string \<Rightarrow> string \<Rightarrow> string \<Rightarrow> string \<Rightarrow> NetworkMeta" where
  "other_network network nativeAsset explorerURL addressFormat =
     (evmNetwork network ''mainnet'' nativeAsset explorerURL)\<lparr>nm_Family := network, nm_AddressFormat := addressFormat\<rparr>"

definition network_table :: "(string \<times> NetworkMeta) list" where
  "network_table =
     [(''BSC'', evmNetwork ''BSC'' ''56'' ''BNB'' ''https://bscscan.com''),
      (''POLYGON'', evmNetwork ''POLYGON'' ''137'' ''POL'' ''https://polygonscan.com''),
      (''BASE'', evmNetwork ''BASE'' ''8453'' ''ETH'' ''https://basescan.org''),
      (''ARBITRUM'', evmNetwork ''ARBITRUM'' ''42161'' ''ETH'' ''https://arbiscan.io''),
      (''ETHEREUM'', evmNetwork ''ETHEREUM'' ''1'' ''ETH'' ''https://etherscan.io''),
      (''BITCOIN'', other_network ''BITCOIN'' ''BTC'' ''https://mempool.space'' ''BITCOIN_BECH32''),
      (''SOLANA'', other_network ''SOLANA'' ''SOL'' ''https://solscan.io'' ''SOLANA_BASE58''),
      (''APTOS'', other_network ''APTOS'' ''APT'' ''https://explorer.aptoslabs.com'' ''APTOS_0X32'')]"

definition NetworkMetadata :: "string \<Rightarrow> NetworkMeta option" where
  "NetworkMetadata network = map_of network_table (NormalizeNetwork network)"

definition Family :: "string \<Rightarrow> string \<times> bool" where
  "Family network = (case NetworkMetadata network of None \<Rightarrow> ([], False) | Some meta \<Rightarrow> (nm_Family meta, True))"

definition IsEVMNetwork :: "string \<Rightarrow> bool" where
  "IsEVMNetwork network = (snd (Family network) \<and> fst (Family network) = ''EVM'')"

definition IsNativeAsset :: "string \<Rightarrow> string \<Rightarrow> bool" where
  "IsNativeAsset asset network =
     (case NetworkMetadata network of
        None \<Rightarrow> False
      | Some meta \<Rightarrow> to_upper (trim_space asset) = nm_NativeAsset meta)"

section \<open>Pairs\<close>

record Pair =
  Asset :: string
  Network :: string
  ContractAddress :: string
  Decimals :: int64
  pair_Family :: string
  pair_TokenStandard :: string

definition DefaultDecimals :: "string \<Rightarrow> string \<Rightarrow> int64" where
  "DefaultDecimals asset network =
     (let k = to_upper (trim_space asset) @ '':'' @ NormalizeNetwork network in
      if k = ''BTC:BITCOIN'' then 8
      else if k = ''SOL:SOLANA'' then 9
      else if k = ''APT:APTOS'' then 8
      else if k \<in> {''USDT:POLYGON'', ''USDC:POLYGON'', ''USDT:SOLANA'', ''USDC:SOLANA'', ''USDC:BASE'',
                     ''USDC:ARBITRUM'', ''USDC:ETHEREUM''} then 6
      else 18)"

definition TokenStandard :: "string \<Rightarrow> string \<Rightarrow> string \<Rightarrow> string" where
  "TokenStandard asset0 network0 contractAddress =
     (let asset = to_upper (trim_space asset0); network = NormalizeNetwork network0; family = fst (Family network) in
      if asset = ''BTC'' \<and> network = ''BITCOIN'' then ''BTC''
      else if IsNativeAsset asset network then ''NATIVE''
      else if family = ''EVM'' then ''ERC20''
      else if family = ''SOLANA'' then (if trim_space contractAddress = [] then ''NATIVE'' else ''SPL'')
      else if family = ''APTOS'' then (if trim_space contractAddress = [] then ''NATIVE'' else ''APTOS_FA'')
      else [])"

definition EnrichPair :: "Pair \<Rightarrow> Pair" where
  "EnrichPair pair =
     (let pair = pair\<lparr>Asset := to_upper (trim_space (Asset pair)), Network := NormalizeNetwork (Network pair),
            ContractAddress := trim_space (ContractAddress pair)\<rparr>;
          pair = (if Decimals pair \<le> 0 then pair\<lparr>Decimals := DefaultDecimals (Asset pair) (Network pair)\<rparr> else pair);
          pair = (case NetworkMetadata (Network pair) of
                    None \<Rightarrow> pair | Some meta \<Rightarrow> pair\<lparr>pair_Family := nm_Family meta\<rparr>) in
      pair\<lparr>pair_TokenStandard := TokenStandard (Asset pair) (Network pair) (ContractAddress pair)\<rparr>)"

definition cleanPairPart :: "string \<Rightarrow> string" where
  "cleanPairPart v = trim_both (\<lambda>c. code c = 34 \<or> code c = 39) (trim_space v)"

text \<open>The loop of \<open>atoiDefault\<close> in \<open>int\<close>, 64 bits wide.\<close>

fun atoi_loop :: "int64 \<Rightarrow> string \<Rightarrow> int64 option" where
  "atoi_loop n [] = Some n"
| "atoi_loop n (ch # s) =
     (if \<not> is_digit ch then None else atoi_loop (wrap64 (n * 10 + int (code ch - 48))) s)"

definition atoiDefault :: "string \<Rightarrow> int64 \<Rightarrow> int64" where
  "atoiDefault raw fallback =
     (case atoi_loop 0 (trim_space raw) of
        None \<Rightarrow> fallback
      | Some n \<Rightarrow> if n \<le> 0 then fallback else n)"

definition ParsePair :: "string \<Rightarrow> Pair option" where
  "ParsePair raw =
     (let parts = split_on CHR '':'' (trim_space raw) in
      if length parts < 2 then None
      else
        let asset = to_upper (cleanPairPart (parts ! 0)); network = NormalizeNetwork (cleanPairPart (parts ! 1)) in
        if asset = [] \<or> network = [] then None
        else Some (EnrichPair
          \<lparr> Asset = asset, Network = network,
            ContractAddress = (if length parts \<ge> 3 then cleanPairPart (parts ! 2) else []),
            Decimals = (if length parts \<ge> 4 then atoiDefault (cleanPairPart (parts ! 3)) 0 else 0),
            pair_Family = [], pair_TokenStandard = [] \<rparr>))"

section \<open>The policy\<close>

text \<open>\<open>strings.FieldsFunc\<close>: the maximal runs of characters that are not separators.\<close>

function fields_func :: "(char \<Rightarrow> bool) \<Rightarrow> string \<Rightarrow> string list" where
  "fields_func sep s =
     (let rest = dropWhile sep s in
      if rest = [] then []
      else takeWhile (\<lambda>c. \<not> sep c) rest # fields_func sep (dropWhile (\<lambda>c. \<not> sep c) rest))"
  by pat_completeness auto
termination
proof (relation "measure (\<lambda>(sep, s). length s)", goal_cases)
  case (2 sep s rest)
  then obtain c cs where rest: "rest = c # cs" "\<not> sep c" by (metis hd_dropWhile list.exhaust list.sel(1))
  then have "length (dropWhile (\<lambda>c. \<not> sep c) rest) \<le> length cs" by (simp add: length_dropWhile_le)
  also have "\<dots> < length s" using rest(1) 2(1) length_dropWhile_le [of sep s] by simp
  finally show ?case by simp
qed simp

declare fields_func.simps [simp del]

definition splitPolicyItems :: "string \<Rightarrow> string list" where
  "splitPolicyItems raw = fields_func (\<lambda>r. r \<in> set '',; '' \<or> code r = 10 \<or> code r = 13 \<or> code r = 9) raw"

definition pairKey :: "string \<Rightarrow> string \<Rightarrow> string" where
  "pairKey asset network = to_upper (trim_space asset) @ '':'' @ NormalizeNetwork network"

type_synonym PairPolicy = "(string, Pair) go_map"

definition NewPairPolicy :: "string \<Rightarrow> PairPolicy" where
  "NewPairPolicy raw =
     foldl (\<lambda>policy item. case ParsePair item of
         None \<Rightarrow> policy
       | Some pair \<Rightarrow> AList.update (pairKey (Asset pair) (Network pair)) pair policy)
     [] (splitPolicyItems raw)"

definition Empty :: "PairPolicy \<Rightarrow> bool" where
  "Empty p = (length p = 0)"

definition Resolve :: "PairPolicy \<Rightarrow> string \<Rightarrow> string \<Rightarrow> Pair option" where
  "Resolve p asset network = (if length p = 0 then None else map_of p (pairKey asset network))"

definition Allows :: "PairPolicy \<Rightarrow> string \<Rightarrow> string \<Rightarrow> bool" where
  "Allows p asset network = (Resolve p asset network \<noteq> None)"

definition Pairs :: "PairPolicy \<Rightarrow> Pair list" where
  "Pairs p = map snd p"

section \<open>Canonical spellings\<close>

lemma aliases_fixed: "list_all (\<lambda>(_, v). to_upper (trim_space v) = v \<and> map_of network_aliases v = Some v \<and> CHR '':'' \<notin> set v)
    network_aliases"
  by code_simp

lemma NormalizeNetwork_idem [simp]: "NormalizeNetwork (NormalizeNetwork n) = NormalizeNetwork n"
proof (cases "map_of network_aliases (to_upper (trim_space n))")
  case None
  then show ?thesis by (simp add: NormalizeNetwork_def str_simps)
next
  case (Some v)
  then have "to_upper (trim_space v) = v \<and> map_of network_aliases v = Some v"
    using aliases_fixed map_of_SomeD [OF Some] by (fastforce simp: list_all_iff)
  with Some show ?thesis by (simp add: NormalizeNetwork_def)
qed

interpretation network: normaliser NormalizeNetwork
  by unfold_locales simp

lemma NetworkMetadata_norm [simp]: "NetworkMetadata (NormalizeNetwork n) = NetworkMetadata n"
  by (simp add: NetworkMetadata_def)

lemma Family_norm [simp]: "Family (NormalizeNetwork n) = Family n"
  by (simp add: Family_def)

lemma upper_trim_idem [simp]: "to_upper (trim_space (to_upper (trim_space a))) = to_upper (trim_space a)"
  by (simp add: str_simps)

lemma IsNativeAsset_norm [simp]: "IsNativeAsset (to_upper (trim_space a)) (NormalizeNetwork n) = IsNativeAsset a n"
  by (simp add: IsNativeAsset_def split: option.split)

lemma DefaultDecimals_norm [simp]: "DefaultDecimals (to_upper (trim_space a)) (NormalizeNetwork n) = DefaultDecimals a n"
  by (simp add: DefaultDecimals_def)

lemma TokenStandard_norm [simp]:
  "TokenStandard (to_upper (trim_space a)) (NormalizeNetwork n) (trim_space c) = TokenStandard a n c"
  by (simp add: TokenStandard_def Let_def)

lemma pairKey_norm [simp]: "pairKey (to_upper (trim_space a)) (NormalizeNetwork n) = pairKey a n"
  by (simp add: pairKey_def)

lemma DefaultDecimals_pos: "0 < DefaultDecimals a n"
  by (simp add: DefaultDecimals_def Let_def)

section \<open>Completed pairs\<close>

lemma EnrichPair_fields:
  "Asset (EnrichPair p) = to_upper (trim_space (Asset p))"
  "Network (EnrichPair p) = NormalizeNetwork (Network p)"
  "ContractAddress (EnrichPair p) = trim_space (ContractAddress p)"
  "Decimals (EnrichPair p) = (if Decimals p \<le> 0 then DefaultDecimals (Asset p) (Network p) else Decimals p)"
  "pair_Family (EnrichPair p) = (case NetworkMetadata (Network p) of None \<Rightarrow> pair_Family p | Some meta \<Rightarrow> nm_Family meta)"
  "pair_TokenStandard (EnrichPair p) = TokenStandard (Asset p) (Network p) (ContractAddress p)"
  by (simp_all add: EnrichPair_def Let_def split: option.split)

lemma EnrichPair_idem: "EnrichPair (EnrichPair p) = EnrichPair p"
  using DefaultDecimals_pos [of "Asset p" "Network p"]
  by (intro Pair.equality) (auto simp: EnrichPair_fields split: option.split)

interpretation enrich: normaliser EnrichPair
  by unfold_locales (rule EnrichPair_idem)

text \<open>What a pair of the policy looks like: canonical names, known decimals and standard.\<close>

definition pair_wf :: "Pair \<Rightarrow> bool" where
  "pair_wf p \<longleftrightarrow> EnrichPair p = p \<and> Network p \<noteq> [] \<and> 0 < Decimals p \<and>
     CHR '':'' \<notin> set (Asset p) \<and> CHR '':'' \<notin> set (Network p)"

lemma split_on_no_sep_part: "w \<in> set (split_on d s) \<Longrightarrow> d \<notin> set w"
  by (induction s arbitrary: w) (auto split: if_splits list.splits)

lemma set_trim_both: "set (trim_both p s) \<subseteq> set s"
proof -
  have "set (trim_right p t) \<subseteq> set t" for t using set_dropWhileD by (force simp: trim_right_def)
  moreover have "set (trim_left p t) \<subseteq> set t" for t using set_dropWhileD by (force simp: trim_left_def)
  ultimately show ?thesis by (auto simp: trim_both_def)
qed

lemma set_cleanPairPart: "set (cleanPairPart s) \<subseteq> set s"
  using set_trim_both unfolding cleanPairPart_def trim_space_def by (meson subset_trans)

lemma upper_colon: "CHR '':'' \<in> set (to_upper s) \<longleftrightarrow> CHR '':'' \<in> set s"
proof -
  have "upper_char c = CHR '':'' \<longleftrightarrow> c = CHR '':''" for c
  proof -
    have "(n - 32) mod 256 \<noteq> 58" if "97 \<le> n \<and> n \<le> 122" for n :: nat using that by auto
    from this [of "code c"] have "code (upper_char c) = code CHR '':'' \<longleftrightarrow> code c = code CHR '':''"
      by (auto simp: upper_char_def)
    then show ?thesis by (simp only: code_inj)
  qed
  then show ?thesis unfolding to_upper_def set_map image_iff by metis
qed

lemma NormalizeNetwork_colon: "CHR '':'' \<notin> set n \<Longrightarrow> CHR '':'' \<notin> set (NormalizeNetwork n)"
proof (cases "map_of network_aliases (to_upper (trim_space n))")
  case (Some v)
  then show ?thesis using aliases_fixed map_of_SomeD [OF Some] by (fastforce simp: list_all_iff NormalizeNetwork_def)
next
  case None
  moreover assume "CHR '':'' \<notin> set n"
  moreover have "set (trim_space n) \<subseteq> set n" unfolding trim_space_def by (rule set_trim_both)
  ultimately show ?thesis by (auto simp: NormalizeNetwork_def upper_colon)
qed

lemma atoiDefault_nonneg: "0 \<le> atoiDefault raw 0"
  by (simp add: atoiDefault_def split: option.split)

lemma ParsePair_wf:
  assumes "ParsePair raw = Some p"
  shows "pair_wf p"
proof -
  let ?parts = "split_on CHR '':'' (trim_space raw)"
  obtain q where p: "p = EnrichPair q" and len: "2 \<le> length ?parts"
    and q: "Asset q = to_upper (cleanPairPart (?parts ! 0))" "Network q = NormalizeNetwork (cleanPairPart (?parts ! 1))"
      "Asset q \<noteq> []" "Network q \<noteq> []"
    using assms by (auto simp: ParsePair_def Let_def split: if_splits)
  have part: "CHR '':'' \<notin> set (cleanPairPart (?parts ! k))" if "k < 2" for k
    using split_on_no_sep_part [of "?parts ! k"] set_cleanPairPart that len by (metis nth_mem order_less_le_trans subsetD)
  have "CHR '':'' \<notin> set (Asset q)" using part [of 0] by (simp add: q upper_colon)
  then have a: "CHR '':'' \<notin> set (Asset p)"
    using set_trim_both by (auto simp: p EnrichPair_fields upper_colon trim_space_def)
  have n: "CHR '':'' \<notin> set (Network p)" using part [of 1] by (simp add: p EnrichPair_fields q NormalizeNetwork_colon)
  have d: "0 < Decimals p" using DefaultDecimals_pos by (auto simp: p EnrichPair_fields)
  have "Network p \<noteq> []" using q(4) by (simp add: p EnrichPair_fields q(2))
  with a n d show ?thesis by (simp add: pair_wf_def p EnrichPair_idem)
qed

section \<open>The policy as a list of pairs\<close>

text \<open>The reference: the pairs of the list in order, and the last one that bears the canonical names.\<close>

definition configured_pairs :: "string \<Rightarrow> Pair list" where
  "configured_pairs raw = List.map_filter ParsePair (splitPolicyItems raw)"

definition last_named :: "Pair list \<Rightarrow> string \<Rightarrow> string \<Rightarrow> Pair option" where
  "last_named ps asset network = List.find (\<lambda>p. Asset p = asset \<and> Network p = network) (rev ps)"

lemma configured_wf: "p \<in> set (configured_pairs raw) \<Longrightarrow> pair_wf p"
  by (auto simp: configured_pairs_def map_filter_def intro: ParsePair_wf)

lemma NewPairPolicy_fold:
  "NewPairPolicy raw = foldl (\<lambda>m p. AList.update (pairKey (Asset p) (Network p)) p m) [] (configured_pairs raw)"
proof -
  have "foldl (\<lambda>policy item. case ParsePair item of None \<Rightarrow> policy
        | Some p \<Rightarrow> AList.update (pairKey (Asset p) (Network p)) p policy) m items =
      foldl (\<lambda>m p. AList.update (pairKey (Asset p) (Network p)) p m) m (List.map_filter ParsePair items)" for m items
    by (induction items arbitrary: m) (simp_all add: map_filter_simps split: option.split)
  then show ?thesis by (simp add: NewPairPolicy_def configured_pairs_def)
qed

lemma key_append_inj:
  "CHR '':'' \<notin> set a \<Longrightarrow> CHR '':'' \<notin> set n \<Longrightarrow> a @ '':'' @ n = b @ '':'' @ m \<longleftrightarrow> a = b \<and> n = m"
proof
  assume c: "CHR '':'' \<notin> set a" "CHR '':'' \<notin> set n" and eq: "a @ '':'' @ n = b @ '':'' @ m"
  have "CHR '':'' \<notin> set b"
  proof
    assume "CHR '':'' \<in> set b"
    then obtain b1 b2 where b: "b = b1 @ CHR '':'' # b2" "CHR '':'' \<notin> set b1" by (meson split_list_first)
    have "split_on CHR '':'' (a @ '':'' @ n) = [a, n]" using c by (simp add: split_on_append split_on_no_sep)
    moreover have "split_on CHR '':'' (b @ '':'' @ m) = b1 # split_on CHR '':'' (b2 @ CHR '':'' # m)"
      using b by (simp add: split_on_append)
    ultimately have "split_on CHR '':'' (b2 @ CHR '':'' # m) = [n]" using eq by simp
    then have "length (split_on CHR '':'' (b2 @ CHR '':'' # m)) = 1" by simp
    moreover have "1 < length (split_on CHR '':'' (b2 @ CHR '':'' # m))"
      by (induction b2) (auto split: list.split simp: Suc_lessI)
    ultimately show False by simp
  qed
  then have "split_on CHR '':'' (b @ '':'' @ m) = b # split_on CHR '':'' m" by (simp add: split_on_append)
  moreover have "split_on CHR '':'' (a @ '':'' @ n) = [a, n]" using c by (simp add: split_on_append split_on_no_sep)
  ultimately show "a = b \<and> n = m" using eq by auto
qed simp

lemma pairKey_wf: "pair_wf p \<Longrightarrow> pairKey (Asset p) (Network p) = Asset p @ '':'' @ Network p"
proof -
  assume "pair_wf p"
  then have "Asset p = to_upper (trim_space (Asset p))" "Network p = NormalizeNetwork (Network p)"
    unfolding pair_wf_def by (metis EnrichPair_fields(1), metis EnrichPair_fields(2))
  then show ?thesis by (simp add: pairKey_def)
qed

lemma pairKey_matches:
  assumes "pair_wf p"
  shows "pairKey (Asset p) (Network p) = pairKey asset network \<longleftrightarrow>
    Asset p = to_upper (trim_space asset) \<and> Network p = NormalizeNetwork network"
proof -
  have "CHR '':'' \<notin> set (Asset p)" "CHR '':'' \<notin> set (Network p)" using assms by (simp_all add: pair_wf_def)
  from key_append_inj [OF this] show ?thesis unfolding pairKey_wf [OF assms] by (simp add: pairKey_def)
qed

lemma foldl_update_find:
  "(\<forall>p \<in> set ps. key p = k \<longleftrightarrow> P p) \<Longrightarrow>
     map_of (foldl (\<lambda>m p. AList.update (key p) p m) [] ps) k = List.find P (rev ps)"
  by (induction ps rule: rev_induct) auto

text \<open>
  Looking a pair up by any spelling of its asset and network returns the last pair of the
  configured list that bears their canonical names, and nothing if there is none; that pair has
  canonical names, positive decimals and the family and token standard of its network, and it is
  left unchanged by a second completion.
\<close>

theorem policy_resolves_canonical:
  "Resolve (NewPairPolicy raw) asset network =
     last_named (configured_pairs raw) (to_upper (trim_space asset)) (NormalizeNetwork network) \<and>
   (\<forall>p. Resolve (NewPairPolicy raw) asset network = Some p \<longrightarrow>
     pair_wf p \<and> Asset p = to_upper (trim_space asset) \<and> Network p = NormalizeNetwork network \<and>
     pair_TokenStandard p = TokenStandard asset network (ContractAddress p))"
proof -
  let ?a = "to_upper (trim_space asset)" and ?n = "NormalizeNetwork network"
  let ?ps = "configured_pairs raw"
  have "map_of (NewPairPolicy raw) (pairKey asset network) = last_named ?ps ?a ?n"
    unfolding NewPairPolicy_fold last_named_def
    by (rule foldl_update_find) (blast dest: configured_wf pairKey_matches)
  then have look: "Resolve (NewPairPolicy raw) asset network = last_named ?ps ?a ?n"
    by (auto simp: Resolve_def)
  moreover have "pair_wf p \<and> Asset p = ?a \<and> Network p = ?n \<and>
      pair_TokenStandard p = TokenStandard asset network (ContractAddress p)" if "last_named ?ps ?a ?n = Some p" for p
  proof -
    have p: "p \<in> set ?ps" "Asset p = ?a" "Network p = ?n"
      using that unfolding last_named_def find_Some_iff by (force simp: rev_nth)+
    then have "pair_wf p" by (simp add: configured_wf)
    moreover from this have "pair_TokenStandard p = TokenStandard (Asset p) (Network p) (ContractAddress p)"
      "ContractAddress p = trim_space (ContractAddress p)"
      unfolding pair_wf_def by (metis EnrichPair_fields(6), metis EnrichPair_fields(3))
    ultimately show ?thesis using p TokenStandard_norm by metis
  qed
  ultimately show ?thesis by simp
qed

theorem policy_resolves_canonical_witness:
  "\<exists>p. Resolve (NewPairPolicy ''usdt:bep20, USDC:matic:0xabc:6'') '' Usdc'' ''POL'' = Some p \<and>
     Decimals p = 6 \<and> pair_wf p \<and> pair_TokenStandard p = ''ERC20''"
proof -
  let ?raw = "''usdt:bep20, USDC:matic:0xabc:6''"
  have r: "Resolve (NewPairPolicy ?raw) '' Usdc'' ''POL'' = Some \<lparr> Asset = ''USDC'', Network = ''POLYGON'',
      ContractAddress = ''0xabc'', Decimals = 6, pair_Family = ''EVM'', pair_TokenStandard = ''ERC20'' \<rparr>"
    by code_simp
  with policy_resolves_canonical [of ?raw "'' Usdc''" "''POL''"] show ?thesis by auto
qed

end
