(* ===== verification/Signer_Store.thy ===== *)
theory Signer_Store
  imports Evm_Types
begin

text \<open>
  The signer's in-memory store, \<open>memorySignerStore\<close> of \<open>signer/store.go\<close>: request nonces, claims and
  results of transfers, chain nonces, transactions, and custody incidents. Every method runs
  under the mutex and is one function on the state. The contract of the interface \<open>signerStore\<close>
  on which the custody guard relies is the locale \<open>incident_store\<close>.
\<close>

section \<open>State and operations\<close>

record TransferResponse =
  tr_TxHash :: string
  tr_From :: string
  tr_Network :: string

record CustodyEvent =
  ce_Kind :: string
  ce_Reason :: string
  ce_Mode :: string
  ce_TxHash :: string
  ce_Wallet :: string

record CustodyIncident =
  ci_ID :: int64
  ci_Reason :: string
  ci_Mode :: string
  ci_CreatedAt :: go_time

record SignerTransaction =
  st_IdempotencyKey :: string
  WalletFrom :: string
  WalletTo :: string
  st_Token :: string
  st_Amount :: string
  st_Network :: string
  st_Nonce :: "64 word"
  st_TxHash :: string
  st_Status :: string
  st_Reason :: string
  st_Confirmations :: "64 word"

record memorySignerStore =
  ms_nonces :: "(string, go_time) go_map"
  ms_results :: "(string, TransferResponse) go_map"
  ms_locks :: "(string, unit) go_map"
  ms_chainNonces :: "(string, 64 word) go_map"
  ms_transactions :: "(string, SignerTransaction) go_map"
  ms_activeIncident :: "CustodyIncident option"
  ms_events :: "CustodyEvent list"

definition newMemorySignerStore :: memorySignerStore where
  "newMemorySignerStore = \<lparr> ms_nonces = [], ms_results = [], ms_locks = [], ms_chainNonces = [],
     ms_transactions = [], ms_activeIncident = None, ms_events = [] \<rparr>"

definition AcceptNonce :: "go_time \<Rightarrow> string \<Rightarrow> duration \<Rightarrow> memorySignerStore \<Rightarrow> bool \<times> memorySignerStore" where
  "AcceptNonce now nonce ttl s =
     (let s = s\<lparr>ms_nonces := filter (\<lambda>(_, expires). \<not> expires < now) (ms_nonces s)\<rparr> in
      case map_of (ms_nonces s) nonce of
        Some _ \<Rightarrow> (False, s)
      | None \<Rightarrow> (True, s\<lparr>ms_nonces := AList.update nonce (now + ttl) (ms_nonces s)\<rparr>))"

definition GetResult :: "string \<Rightarrow> memorySignerStore \<Rightarrow> TransferResponse option" where
  "GetResult key s = map_of (ms_results s) key"

text \<open>\<open>ClaimResult\<close>: the stored response, whether there is one, and whether the caller may go on.\<close>

definition ClaimResult ::
  "string \<Rightarrow> memorySignerStore \<Rightarrow> (TransferResponse option \<times> bool) \<times> memorySignerStore" where
  "ClaimResult key s =
     (if key = [] then ((None, True), s)
      else
        case map_of (ms_results s) key of
          Some resp \<Rightarrow> ((Some resp, False), s)
        | None \<Rightarrow>
            (case map_of (ms_locks s) key of
               Some _ \<Rightarrow> ((None, False), s)
             | None \<Rightarrow> ((None, True), s\<lparr>ms_locks := AList.update key () (ms_locks s)\<rparr>)))"

definition SaveResult :: "string \<Rightarrow> TransferResponse \<Rightarrow> memorySignerStore \<Rightarrow> memorySignerStore" where
  "SaveResult key resp s =
     (if key = [] then s
      else s\<lparr>ms_results := AList.update key resp (ms_results s), ms_locks := AList.delete key (ms_locks s)\<rparr>)"

definition ReleaseClaim :: "string \<Rightarrow> memorySignerStore \<Rightarrow> memorySignerStore" where
  "ReleaseClaim key s = (if key = [] then s else s\<lparr>ms_locks := AList.delete key (ms_locks s)\<rparr>)"

definition RecordCustodyEvent :: "CustodyEvent \<Rightarrow> memorySignerStore \<Rightarrow> memorySignerStore" where
  "RecordCustodyEvent event s = s\<lparr>ms_events := ms_events s @ [event]\<rparr>"

definition OpenCustodyIncident :: "go_time \<Rightarrow> string \<Rightarrow> string \<Rightarrow> memorySignerStore \<Rightarrow> memorySignerStore" where
  "OpenCustodyIncident now reason mode s =
     (case ms_activeIncident s of
        None \<Rightarrow> s\<lparr>ms_activeIncident := Some \<lparr> ci_ID = 1, ci_Reason = reason, ci_Mode = mode, ci_CreatedAt = now \<rparr>\<rparr>
      | Some _ \<Rightarrow> s)"

definition ActiveCustodyIncident :: "memorySignerStore \<Rightarrow> CustodyIncident option" where
  "ActiveCustodyIncident s = ms_activeIncident s"

definition ResolveCustodyIncident :: "string \<Rightarrow> memorySignerStore \<Rightarrow> memorySignerStore" where
  "ResolveCustodyIncident note s = s\<lparr>ms_activeIncident := None\<rparr>"

definition ReserveChainNonce ::
  "string \<Rightarrow> string \<Rightarrow> 64 word \<Rightarrow> memorySignerStore \<Rightarrow> 64 word \<times> memorySignerStore" where
  "ReserveChainNonce wallet network chainPending s =
     (let key = wallet @ ''|'' @ network;
          next = (case map_of (ms_chainNonces s) key of
                    None \<Rightarrow> chainPending
                  | Some current \<Rightarrow> if current + 1 > chainPending then current + 1 else chainPending) in
      (next, s\<lparr>ms_chainNonces := AList.update key next (ms_chainNonces s)\<rparr>))"

definition CreateSignerTransaction :: "SignerTransaction \<Rightarrow> memorySignerStore \<Rightarrow> memorySignerStore" where
  "CreateSignerTransaction item s = s\<lparr>ms_transactions := AList.update (st_TxHash item) item (ms_transactions s)\<rparr>"

definition MarkSignerTransactionStatus ::
  "string \<Rightarrow> string \<Rightarrow> string \<Rightarrow> 64 word \<Rightarrow> memorySignerStore \<Rightarrow> memorySignerStore" where
  "MarkSignerTransactionStatus txHash status reason confirmations s =
     (case map_of (ms_transactions s) txHash of
        None \<Rightarrow> s
      | Some item \<Rightarrow> s\<lparr>ms_transactions := AList.update txHash
          (item\<lparr>st_Status := status, st_Reason := reason, st_Confirmations := confirmations\<rparr>) (ms_transactions s)\<rparr>)"

text \<open>The list is in map order, which Go leaves open, and stops at the limit.\<close>

definition ListOpenSignerTransactions :: "int64 \<Rightarrow> memorySignerStore \<Rightarrow> SignerTransaction list" where
  "ListOpenSignerTransactions limit s =
     (let open_ones = filter (\<lambda>item. st_Status item = ''submitted'' \<or> st_Status item = ''signed'')
                        (map snd (ms_transactions s)) in
      if 0 < limit then take (nat limit) open_ones else open_ones)"

section \<open>The contract of the incident store\<close>

record 's custody_store =
  cs_Open :: "go_time \<Rightarrow> string \<Rightarrow> string \<Rightarrow> 's \<Rightarrow> 's"
  cs_Active :: "'s \<Rightarrow> string + CustodyIncident option"
  cs_Resolve :: "string \<Rightarrow> 's \<Rightarrow> string + 's"
  cs_Record :: "CustodyEvent \<Rightarrow> 's \<Rightarrow> 's"

text \<open>
  What the guard expects of a store that answers: an incident is opened with the current time,
  an open one is kept with its time, resolving closes it, and recording an event leaves it alone.
  Methods that can fail return the error on the left.
\<close>

locale incident_store =
  fixes ops :: "'s custody_store"
  assumes active_total: "\<exists>i. cs_Active ops s = Inr i"
    and open_new: "cs_Active ops s = Inr None \<Longrightarrow>
      \<exists>i. cs_Active ops (cs_Open ops now r m s) = Inr (Some i) \<and> ci_CreatedAt i = now"
    and open_kept: "cs_Active ops s = Inr (Some i) \<Longrightarrow> cs_Active ops (cs_Open ops now r m s) = Inr (Some i)"
    and resolve_none: "cs_Resolve ops note s = Inr s' \<Longrightarrow> cs_Active ops s' = Inr None"
    and record_frame: "cs_Active ops (cs_Record ops e s) = cs_Active ops s"
begin

lemma open_active: "\<exists>i. cs_Active ops (cs_Open ops now r m s) = Inr (Some i)"
  using active_total [of s] open_new [of s now r m] open_kept [of s _ now r m]
  by (metis not_Some_eq)

end

definition memory_custody :: "memorySignerStore custody_store" where
  "memory_custody = \<lparr> cs_Open = OpenCustodyIncident, cs_Active = (\<lambda>s. Inr (ActiveCustodyIncident s)),
     cs_Resolve = (\<lambda>note s. Inr (ResolveCustodyIncident note s)), cs_Record = RecordCustodyEvent \<rparr>"

interpretation mem: incident_store memory_custody
  by unfold_locales
    (auto simp: memory_custody_def OpenCustodyIncident_def ActiveCustodyIncident_def ResolveCustodyIncident_def
      RecordCustodyEvent_def split: option.split)

section \<open>Chain nonces and claims\<close>

datatype store_event =
    EvAccept go_time string duration
  | EvClaim string
  | EvSave string TransferResponse
  | EvRelease string
  | EvReserve string string "64 word"
  | EvOpen go_time string string
  | EvResolve string
  | EvCreate SignerTransaction
  | EvMark string string string "64 word"

text \<open>The state with the log of reservations and of granted claims.\<close>

record store_sys =
  sto :: memorySignerStore
  reserved :: "(string \<times> 64 word) list"
  claims :: "string list"

fun store_step :: "store_sys \<Rightarrow> store_event \<Rightarrow> store_sys" where
  "store_step s (EvAccept now n ttl) = s\<lparr>sto := snd (AcceptNonce now n ttl (sto s))\<rparr>"
| "store_step s (EvClaim key) =
     (case ClaimResult key (sto s) of
        ((_, True), st) \<Rightarrow> s\<lparr>sto := st, claims := claims s @ [key]\<rparr>
      | ((_, False), st) \<Rightarrow> s\<lparr>sto := st\<rparr>)"
| "store_step s (EvSave key resp) = s\<lparr>sto := SaveResult key resp (sto s), claims := remove1 key (claims s)\<rparr>"
| "store_step s (EvRelease key) = s\<lparr>sto := ReleaseClaim key (sto s), claims := remove1 key (claims s)\<rparr>"
| "store_step s (EvReserve w n p) =
     (case ReserveChainNonce w n p (sto s) of
        (nonce, st) \<Rightarrow> s\<lparr>sto := st, reserved := reserved s @ [(w @ ''|'' @ n, nonce)]\<rparr>)"
| "store_step s (EvOpen now r m) = s\<lparr>sto := OpenCustodyIncident now r m (sto s)\<rparr>"
| "store_step s (EvResolve note) = s\<lparr>sto := ResolveCustodyIncident note (sto s)\<rparr>"
| "store_step s (EvCreate tx) = s\<lparr>sto := CreateSignerTransaction tx (sto s)\<rparr>"
| "store_step s (EvMark h st r c) = s\<lparr>sto := MarkSignerTransactionStatus h st r c (sto s)\<rparr>"

definition store_start :: store_sys where
  "store_start = \<lparr> sto = newMemorySignerStore, reserved = [], claims = [] \<rparr>"

text \<open>The nonces reserved for one key, oldest first, and the bound under which they do not wrap.\<close>

definition nonces_of :: "string \<Rightarrow> store_sys \<Rightarrow> 64 word list" where
  "nonces_of key s = map snd (filter (\<lambda>(k, _). k = key) (reserved s))"

definition no_wrap :: "store_sys \<Rightarrow> store_event \<Rightarrow> bool" where
  "no_wrap s ev = (\<forall>c \<in> snd ` set (ms_chainNonces (sto s)). c + 1 \<noteq> 0)"

definition nonce_inv :: "store_sys \<Rightarrow> bool" where
  "nonce_inv s \<longleftrightarrow> (\<forall>key. sorted_wrt (<) (nonces_of key s) \<and>
     map_of (ms_chainNonces (sto s)) key = (if nonces_of key s = [] then None else Some (last (nonces_of key s)))) \<and>
     (\<forall>key. key \<noteq> [] \<longrightarrow> 
       count_list (claims s) key = (if map_of (ms_locks (sto s)) key = None then 0 else 1))"

lemma word_succ_less: "(c :: 64 word) + 1 \<noteq> 0 \<Longrightarrow> c < c + 1"
  using unatSuc [of c] by (simp add: word_less_nat_alt add.commute)

lemma nonces_frame: "reserved s' = reserved s \<Longrightarrow> nonces_of key s' = nonces_of key s"
  by (simp add: nonces_of_def)

lemma count_remove1: "count_list (remove1 k xs) j = count_list xs j - (if j = k then 1 else 0)"
proof (induction xs)
  case (Cons x xs)
  then show ?case by (cases "x = k"; cases "x = j") (auto simp: count_list_0_iff)
qed simp

lemma sorted_wrt_snoc_last:
  "sorted_wrt (<) (xs :: 64 word list) \<Longrightarrow> xs \<noteq> [] \<Longrightarrow> last xs < y \<Longrightarrow> sorted_wrt (<) (xs @ [y])"
proof (induction xs)
  case (Cons x xs)
  show ?case
  proof (cases "xs = []")
    case True
    with Cons.prems show ?thesis by simp
  next
    case False
    with Cons have "sorted_wrt (<) (xs @ [y])" by simp
    moreover have "x < last xs" using Cons.prems(1) False by simp
    with Cons.prems(3) False have "x < y" by simp
    ultimately show ?thesis using Cons.prems(1) by auto
  qed
qed simp

lemma reserve_inv:
  assumes inv: "nonce_inv s" and nw: "no_wrap s (EvReserve w n p)"
  shows "nonce_inv (store_step s (EvReserve w n p))"
proof -
  let ?k = "w @ ''|'' @ n" and ?ns = "nonces_of (w @ ''|'' @ n) s"
  obtain nonce st where r: "ReserveChainNonce w n p (sto s) = (nonce, st)" by (cases "ReserveChainNonce w n p (sto s)")
  have st: "ms_chainNonces st = AList.update ?k nonce (ms_chainNonces (sto s))" "ms_locks st = ms_locks (sto s)"
    and nonce: "nonce = (case map_of (ms_chainNonces (sto s)) ?k of None \<Rightarrow> p
      | Some c \<Rightarrow> if c + 1 > p then c + 1 else p)"
    using r by (auto simp: ReserveChainNonce_def Let_def)
  have s': "store_step s (EvReserve w n p) = s\<lparr>sto := st, reserved := reserved s @ [(?k, nonce)]\<rparr>" using r by simp
  have new: "nonces_of key (store_step s (EvReserve w n p)) = nonces_of key s @ (if key = ?k then [nonce] else [])" for key
    unfolding s' by (simp add: nonces_of_def)
  have srt: "sorted_wrt (<) ?ns" and look: "map_of (ms_chainNonces (sto s)) ?k = (if ?ns = [] then None else Some (last ?ns))"
    using inv unfolding nonce_inv_def by blast+
  have "sorted_wrt (<) (?ns @ [nonce])"
  proof (cases "?ns = []")
    case False
    then have cur: "map_of (ms_chainNonces (sto s)) ?k = Some (last ?ns)" using look by simp
    then have "last ?ns + 1 \<noteq> 0" using nw map_of_SomeD [OF cur] by (force simp: no_wrap_def)
    then have "last ?ns < last ?ns + 1" by (rule word_succ_less)
    with nonce cur have "last ?ns < nonce" by (auto split: if_splits intro: less_le_trans)
    with srt False show ?thesis by (rule sorted_wrt_snoc_last)
  qed simp
  with inv show ?thesis
    unfolding nonce_inv_def new unfolding s' by (simp add: st)
qed

lemma claim_inv:
  assumes "nonce_inv s"
  shows "nonce_inv (store_step s (EvClaim key))"
proof (cases "key \<noteq> [] \<and> map_of (ms_results (sto s)) key = None \<and> map_of (ms_locks (sto s)) key = None")
  case True
  then have s': "store_step s (EvClaim key) = s\<lparr>sto := (sto s)\<lparr>ms_locks := AList.update key () (ms_locks (sto s))\<rparr>,
      claims := claims s @ [key]\<rparr>"
    by (simp add: ClaimResult_def)
  show ?thesis using assms True unfolding s' by (auto simp: nonce_inv_def nonces_of_def)
next
  case False
  then have "sto (store_step s (EvClaim key)) = sto s" "reserved (store_step s (EvClaim key)) = reserved s"
    "key \<noteq> [] \<longrightarrow> claims (store_step s (EvClaim key)) = claims s" "claims (store_step s (EvClaim [])) = claims s @ [[]]"
    by (auto simp: ClaimResult_def split: option.split)
  with assms show ?thesis by (cases "key = []") (auto simp: nonce_inv_def nonces_of_def)
qed

lemma store_step_inv: "nonce_inv s \<Longrightarrow> no_wrap s ev \<Longrightarrow> nonce_inv (store_step s ev)"
proof (cases ev)
  case (EvReserve w n p)
  assume "nonce_inv s" "no_wrap s ev"
  with EvReserve show ?thesis by (simp only: reserve_inv)
next
  case (EvClaim key)
  assume "nonce_inv s"
  with EvClaim show ?thesis by (simp only: claim_inv)
next
  case (EvMark h st r c)
  assume "nonce_inv s"
  with EvMark show ?thesis
    by (simp add: nonce_inv_def nonces_of_def MarkSignerTransactionStatus_def split: option.split)
next
  case (EvSave key resp)
  assume "nonce_inv s"
  with EvSave show ?thesis by (auto simp: nonce_inv_def nonces_of_def SaveResult_def count_remove1)
next
  case (EvRelease key)
  assume "nonce_inv s"
  with EvRelease show ?thesis by (auto simp: nonce_inv_def nonces_of_def ReleaseClaim_def count_remove1)
qed (simp_all add: nonce_inv_def nonces_of_def AcceptNonce_def OpenCustodyIncident_def ResolveCustodyIncident_def
    CreateSignerTransaction_def Let_def split: option.split)

interpretation store: transition_system "\<lambda>s. s = store_start" store_step no_wrap nonce_inv
proof unfold_locales
  show "s = store_start \<Longrightarrow> nonce_inv s" for s
    by (simp add: store_start_def nonce_inv_def nonces_of_def newMemorySignerStore_def)
qed (rule store_step_inv)

fun store_runs :: "store_sys \<Rightarrow> store_event list \<Rightarrow> bool" where
  "store_runs s [] = True"
| "store_runs s (ev # evs) = (no_wrap s ev \<and> store_runs (store_step s ev) evs)"

lemma store_runs_admissible: "store_runs s evs = store.admissible s evs"
  by (induction evs arbitrary: s) (simp_all del: store_step.simps)

text \<open>
  C21. In any sequence of calls on the store, as long as no counter is at the end of its 64 bits:
  the chain nonces reserved for one wallet and network strictly increase, so none is handed out
  twice, and between its release or result no key is claimed by two callers.
\<close>

theorem chain_nonces_increase:
  assumes "store_runs store_start evs" "s = foldl store_step store_start evs"
  shows "sorted_wrt (<) (nonces_of (wallet @ ''|'' @ network) s) \<and>
    distinct (nonces_of (wallet @ ''|'' @ network) s) \<and>
    (key \<noteq> [] \<longrightarrow> count_list (claims s) key \<le> 1)"
proof -
  have "nonce_inv s" using store.run_init_inv [of store_start evs] assms
    by (simp add: store_runs_admissible store.run_foldl)
  then have "sorted_wrt (<) (nonces_of (wallet @ ''|'' @ network) s)"
    and c: "key \<noteq> [] \<longrightarrow> count_list (claims s) key \<le> 1"
    unfolding nonce_inv_def by auto
  moreover from this(1) have "distinct (nonces_of (wallet @ ''|'' @ network) s)"
    by (simp add: strict_sorted_iff)
  ultimately show ?thesis by blast
qed

theorem chain_nonces_increase_witness:
  "distinct (nonces_of (''w'' @ ''|'' @ ''BSC'') (foldl store_step store_start
     [EvReserve ''w'' ''BSC'' 7, EvClaim ''k'', EvReserve ''w'' ''BSC'' 7, EvReserve ''w'' ''BSC'' 12]))"
proof -
  have "store_runs store_start [EvReserve ''w'' ''BSC'' 7, EvClaim ''k'', EvReserve ''w'' ''BSC'' 7, EvReserve ''w'' ''BSC'' 12]"
    by code_simp
  from chain_nonces_increase [OF this refl, of "''w''" "''BSC''"] show ?thesis by blast
qed

end
