(* ===== verification/Custody_Guard.thy ===== *)
theory Custody_Guard
  imports Signer_Store Tx_Contracts
begin

text \<open>
  The EIP-7702 custody guard of \<open>signer/custody_guard.go\<close>: it watches blocks for set-code
  transactions that delegate a protected wallet and locks the signer. The guard is a record with
  the fields of \<open>CustodyGuard\<close>; the store behind it is a parameter with the contract
  \<open>incident_store\<close>. Third-party code is in the arguments: go-ethereum in the record \<open>eth_lib\<close>,
  an RPC node as a function from its URL, with \<open>None\<close> for a dial or call that fails. Each method
  is one function, run to its end before the next.
\<close>

section \<open>Data\<close>

text \<open>The functions of go-ethereum that the guard calls besides those of \<open>evm_lib\<close>.\<close>

record eth_lib = evm_lib +
  HashHex :: "hash32 \<Rightarrow> string"
  HexutilEncode :: "bytes \<Rightarrow> string"
  HexutilDecode :: "string \<Rightarrow> bytes option"
  BytesToAddress :: "bytes \<Rightarrow> address"
  KeyAddress :: "string \<Rightarrow> string + address"

text \<open>A transaction as the guard reads it: \<open>Authority()\<close> recovers the signer or fails.\<close>

record set_code_auth =
  au_Authority :: "address option"
  au_Address :: address

record eth_tx =
  tx_Type :: "8 word"
  tx_Data :: bytes
  tx_Auths :: "set_code_auth list"
  tx_Hash :: hash32

definition SetCodeTxType :: "8 word" where
  "SetCodeTxType = 4"

type_synonym code_at = "string \<Rightarrow> address \<Rightarrow> bytes option"
type_synonym block_by_tag = "string \<Rightarrow> string \<Rightarrow> eth_tx option list option"

record SignerConfig =
  CustodyGuardEnabled :: bool
  CustodyMode :: string
  CustodyUnlockCooldown :: int64
  CustodyGuardPollMs :: int64
  CustodyProtectedRaw :: string
  CustodyTrustedRaw :: string
  CustodySelectorsRaw :: string
  EVMPrivateKey :: string
  RPCURLs :: "string list"

record 's CustodyGuard =
  g_cfg :: SignerConfig
  g_store :: "'s option"
  g_protected :: "(address, bool) go_map"
  g_trusted :: "(address, hash32) go_map"
  g_allowedSelector :: "(bytes, bool) go_map"
  g_locked :: bool
  g_reason :: string

section \<open>Parsing and construction\<close>

definition normalizeCustodyMode :: "string \<Rightarrow> string" where
  "normalizeCustodyMode m =
     (let v = to_lower (trim_space m) in
      if v = ''shadow'' \<or> v = ''paper'' \<or> v = ''live'' then v else ''paper'')"

definition parseAddressSet :: "'z eth_lib_scheme \<Rightarrow> string \<Rightarrow> (address, bool) go_map" where
  "parseAddressSet lib raw =
     foldl (\<lambda>out item.
       let item = trim_space item in
       if IsHexAddress lib item then AList.update (HexToAddress lib item) True out else out)
     [] (split_on CHR '','' raw)"

text \<open>\<open>copy\<close> into an array of four bytes: missing bytes stay zero.\<close>

definition calldataSelector :: "bytes \<Rightarrow> bytes" where
  "calldataSelector data = take 4 (data @ replicate 4 (byte_of 0))"

definition parseSelectorSet :: "'z eth_lib_scheme \<Rightarrow> string \<Rightarrow> (bytes, bool) go_map" where
  "parseSelectorSet lib raw =
     foldl (\<lambda>out item.
       let item = trim_prefix (trim_space item) ''0x'' in
       if length item \<noteq> 8 then out
       else case HexutilDecode lib (''0x'' @ item) of
              None \<Rightarrow> out
            | Some bs \<Rightarrow> if length bs \<noteq> 4 then out else AList.update (calldataSelector bs) True out)
     [] (split_on CHR '','' raw)"

definition NewCustodyGuard :: "'z eth_lib_scheme \<Rightarrow> SignerConfig \<Rightarrow> 's option \<Rightarrow> string + 's CustodyGuard" where
  "NewCustodyGuard lib cfg store =
     (let protected0 = parseAddressSet lib (CustodyProtectedRaw cfg);
          trusted = map (\<lambda>(a, _). (a, 0)) (parseAddressSet lib (CustodyTrustedRaw cfg));
          selectors = parseSelectorSet lib (CustodySelectorsRaw cfg) in
      bind_result
        (if EVMPrivateKey cfg \<noteq> [] then
           bind_result (KeyAddress lib (trim_prefix (EVMPrivateKey cfg) ''0x''))
             (\<lambda>a. Inr (AList.update a True protected0))
         else Inr protected0)
        (\<lambda>protected.
           if protected = [] then Inl ''custody guard sem wallet protegida''
           else Inr \<lparr> g_cfg = cfg, g_store = store, g_protected = protected, g_trusted = trusted,
                  g_allowedSelector = selectors, g_locked = False, g_reason = [] \<rparr>))"

definition Enabled :: "'s CustodyGuard option \<Rightarrow> bool" where
  "Enabled g = (case g of None \<Rightarrow> False | Some g \<Rightarrow> CustodyGuardEnabled (g_cfg g))"

definition Locked :: "'s CustodyGuard option \<Rightarrow> bool \<times> string" where
  "Locked g = (case g of None \<Rightarrow> (False, []) | Some g \<Rightarrow> (g_locked g, g_reason g))"

section \<open>Locking and unlocking\<close>

definition mode_of :: "'s CustodyGuard \<Rightarrow> string" where
  "mode_of g = normalizeCustodyMode (CustodyMode (g_cfg g))"

definition recordEvent ::
  "'s custody_store \<Rightarrow> string \<Rightarrow> string \<Rightarrow> string \<Rightarrow> string \<Rightarrow> 's CustodyGuard \<Rightarrow> 's CustodyGuard" where
  "recordEvent ops kind reason txHash wallet g =
     (case g_store g of
        None \<Rightarrow> g
      | Some st \<Rightarrow> g\<lparr>g_store := Some (cs_Record ops
          \<lparr> ce_Kind = kind, ce_Reason = reason, ce_Mode = mode_of g, ce_TxHash = txHash, ce_Wallet = wallet \<rparr> st)\<rparr>)"

definition Lock :: "'s custody_store \<Rightarrow> go_time \<Rightarrow> string \<Rightarrow> 's CustodyGuard \<Rightarrow> 's CustodyGuard" where
  "Lock ops now reason g =
     (let mode = mode_of g;
          g = recordEvent ops ''signer_locked'' reason [] [] g in
      if mode = ''shadow'' then g
      else
        let g = g\<lparr>g_locked := True, g_reason := reason\<rparr> in
        case g_store g of
          None \<Rightarrow> g
        | Some st \<Rightarrow> g\<lparr>g_store := Some (cs_Open ops now reason mode st)\<rparr>)"

definition finish_unlock :: "'s custody_store \<Rightarrow> string \<Rightarrow> 's CustodyGuard \<Rightarrow> 's CustodyGuard" where
  "finish_unlock ops note g =
     recordEvent ops ''signer_unlocked'' note [] [] (g\<lparr>g_locked := False, g_reason := []\<rparr>)"

definition Unlock ::
  "'s custody_store \<Rightarrow> go_time \<Rightarrow> string \<Rightarrow> 's CustodyGuard option \<Rightarrow> (string + unit) \<times> 's CustodyGuard option" where
  "Unlock ops now note recv =
     (case recv of
        None \<Rightarrow> (Inr (), None)
      | Some g \<Rightarrow>
          (case g_store g of
             None \<Rightarrow> (Inr (), Some (finish_unlock ops note g))
           | Some st \<Rightarrow>
               (case cs_Active ops st of
                  Inl err \<Rightarrow> (Inl err, Some g)
                | Inr None \<Rightarrow> (Inr (), Some (finish_unlock ops note g))
                | Inr (Some incident) \<Rightarrow>
                    (let cooldown = i64_mul (CustodyUnlockCooldown (g_cfg g)) second in
                     if 0 < cooldown \<and> time_sub now (ci_CreatedAt incident) < cooldown
                     then (Inl ''cooldown de custodia ainda ativo'', Some g)
                     else case cs_Resolve ops note st of
                            Inl err \<Rightarrow> (Inl err, Some g)
                          | Inr st' \<Rightarrow> (Inr (), Some (finish_unlock ops note (g\<lparr>g_store := Some st'\<rparr>)))))))"

section \<open>Inspection of transactions\<close>

fun verify_code :: "'z eth_lib_scheme \<Rightarrow> code_at \<Rightarrow> address \<Rightarrow> hash32 \<Rightarrow> string list \<Rightarrow> string + unit" where
  "verify_code lib code_at delegate expected [] =
     Inl (''sem RPC para verificar delegate '' @ AddressHex lib delegate)"
| "verify_code lib code_at delegate expected (url # urls) =
     (case code_at url delegate of
        None \<Rightarrow> verify_code lib code_at delegate expected urls
      | Some bytecode \<Rightarrow>
          if Keccak256Hash lib bytecode \<noteq> expected then Inl (AddressHex lib delegate) else Inr ())"

definition verifyDelegateHash ::
  "'z eth_lib_scheme \<Rightarrow> code_at \<Rightarrow> address \<Rightarrow> hash32 \<Rightarrow> 's CustodyGuard \<Rightarrow> string + unit" where
  "verifyDelegateHash lib code_at delegate expected g =
     verify_code lib code_at delegate expected (RPCURLs (g_cfg g))"

fun inspect_auths :: "'z eth_lib_scheme \<Rightarrow> code_at \<Rightarrow> 's custody_store \<Rightarrow> go_time \<Rightarrow> string \<Rightarrow> eth_tx \<Rightarrow>
    set_code_auth list \<Rightarrow> 's CustodyGuard \<Rightarrow> 's CustodyGuard" where
  "inspect_auths lib code_at ops now source tx [] g = g"
| "inspect_auths lib code_at ops now source tx (auth # auths) g =
     (let continue = inspect_auths lib code_at ops now source tx auths g;
          txHex = HashHex lib (tx_Hash tx) in
      case au_Authority auth of
        None \<Rightarrow> continue
      | Some authority \<Rightarrow>
          if \<not> map_bool (g_protected g) authority then continue
          else if 0 < length (g_allowedSelector g) \<and>
            map_of (g_allowedSelector g) (calldataSelector (tx_Data tx)) = None then
            Lock ops now (''EIP-7702 selector nao permitido source='' @ source @ '' tx='' @ txHex)
              (recordEvent ops ''unknown_selector'' ''EIP-7702 selector nao permitido'' txHex
                (AddressHex lib authority) g)
          else
            (case map_of (g_trusted g) (au_Address auth) of
               None \<Rightarrow>
                 Lock ops now (''EIP-7702 delegate desconhecido source='' @ source @ '' wallet='' @
                   AddressHex lib authority @ '' delegate='' @ AddressHex lib (au_Address auth) @ '' tx='' @ txHex)
                   (recordEvent ops ''unknown_delegate'' ''EIP-7702 delegate desconhecido'' txHex
                     (AddressHex lib authority) g)
             | Some expected \<Rightarrow>
                 if expected \<noteq> 0 then
                   (case verifyDelegateHash lib code_at (au_Address auth) expected g of
                      Inl err \<Rightarrow> Lock ops now (''EIP-7702 delegate hash alterado: '' @ err) g
                    | Inr _ \<Rightarrow> continue)
                 else continue))"

definition inspectTransaction :: "'z eth_lib_scheme \<Rightarrow> code_at \<Rightarrow> 's custody_store \<Rightarrow> go_time \<Rightarrow> string \<Rightarrow>
    eth_tx option \<Rightarrow> 's CustodyGuard \<Rightarrow> 's CustodyGuard" where
  "inspectTransaction lib code_at ops now source otx g =
     (case otx of
        None \<Rightarrow> g
      | Some tx \<Rightarrow>
          if tx_Type tx \<noteq> SetCodeTxType then g
          else inspect_auths lib code_at ops now source tx (tx_Auths tx) g)"

section \<open>Scanning\<close>

fun inspect_block :: "'z eth_lib_scheme \<Rightarrow> code_at \<Rightarrow> 's custody_store \<Rightarrow> go_time \<Rightarrow> string \<Rightarrow>
    eth_tx option list \<Rightarrow> 's CustodyGuard \<Rightarrow> 's CustodyGuard" where
  "inspect_block lib code_at ops now tag [] g = g"
| "inspect_block lib code_at ops now tag (tx # txs) g =
     (let g = inspectTransaction lib code_at ops now tag tx g in
      if g_locked g then g else inspect_block lib code_at ops now tag txs g)"

fun scan_urls :: "'z eth_lib_scheme \<Rightarrow> code_at \<Rightarrow> block_by_tag \<Rightarrow> 's custody_store \<Rightarrow> go_time \<Rightarrow> string \<Rightarrow>
    string list \<Rightarrow> 's CustodyGuard \<Rightarrow> (string + unit) \<times> 's CustodyGuard" where
  "scan_urls lib code_at blocks ops now tag [] g = (Inl ''nenhum RPC respondeu eth_getBlockByNumber'', g)"
| "scan_urls lib code_at blocks ops now tag (url # urls) g =
     (case blocks url tag of
        None \<Rightarrow> scan_urls lib code_at blocks ops now tag urls g
      | Some txs \<Rightarrow> (Inr (), inspect_block lib code_at ops now tag txs g))"

definition scanBlockTag :: "'z eth_lib_scheme \<Rightarrow> code_at \<Rightarrow> block_by_tag \<Rightarrow> 's custody_store \<Rightarrow> go_time \<Rightarrow>
    string \<Rightarrow> 's CustodyGuard \<Rightarrow> (string + unit) \<times> 's CustodyGuard" where
  "scanBlockTag lib code_at blocks ops now tag g =
     scan_urls lib code_at blocks ops now tag (RPCURLs (g_cfg g)) g"

definition scanOnce :: "'z eth_lib_scheme \<Rightarrow> code_at \<Rightarrow> block_by_tag \<Rightarrow> 's custody_store \<Rightarrow> go_time \<Rightarrow>
    's CustodyGuard \<Rightarrow> 's CustodyGuard" where
  "scanOnce lib code_at blocks ops now g =
     (if g_locked g then g
      else
        let g = snd (scanBlockTag lib code_at blocks ops now ''pending'' g) in
        if g_locked g then g
        else snd (scanBlockTag lib code_at blocks ops now ''latest'' g))"

section \<open>Start\<close>

fun code_at_any :: "code_at \<Rightarrow> address \<Rightarrow> string list \<Rightarrow> string + bytes" where
  "code_at_any code_at a [] = Inl ''sem RPC para ler bytecode''"
| "code_at_any code_at a (url # urls) =
     (case code_at url a of Some bytecode \<Rightarrow> Inr bytecode | None \<Rightarrow> code_at_any code_at a urls)"

definition codeAtAnyRPC :: "code_at \<Rightarrow> address \<Rightarrow> 's CustodyGuard \<Rightarrow> string + bytes" where
  "codeAtAnyRPC code_at a g = code_at_any code_at a (RPCURLs (g_cfg g))"

text \<open>
  The range over \<open>trusted\<close> only overwrites the entry it visits, so it is a loop over the keys;
  an error leaves the entries already loaded.
\<close>

fun load_hashes :: "'z eth_lib_scheme \<Rightarrow> code_at \<Rightarrow> address list \<Rightarrow> 's CustodyGuard \<Rightarrow> (string + unit) \<times> 's CustodyGuard" where
  "load_hashes lib code_at [] g = (Inr (), g)"
| "load_hashes lib code_at (delegate # ds) g =
     (case codeAtAnyRPC code_at delegate g of
        Inl err \<Rightarrow> (Inl err, g)
      | Inr bytecode \<Rightarrow>
          if bytecode = [] then (Inl (''trusted delegate sem bytecode: '' @ AddressHex lib delegate), g)
          else load_hashes lib code_at ds
                 (g\<lparr>g_trusted := AList.update delegate (Keccak256Hash lib bytecode) (g_trusted g)\<rparr>))"

definition loadTrustedDelegateHashes ::
  "'z eth_lib_scheme \<Rightarrow> code_at \<Rightarrow> 's CustodyGuard \<Rightarrow> (string + unit) \<times> 's CustodyGuard" where
  "loadTrustedDelegateHashes lib code_at g = load_hashes lib code_at (map fst (g_trusted g)) g"

text \<open>\<open>Start\<close> up to its loop; the result is the poll interval with which \<open>scanOnce\<close> is repeated.\<close>

definition millisecond :: duration where
  "millisecond = 1000000"

definition Start :: "'z eth_lib_scheme \<Rightarrow> code_at \<Rightarrow> 's custody_store \<Rightarrow> go_time \<Rightarrow> 's CustodyGuard \<Rightarrow>
    duration option \<times> 's CustodyGuard" where
  "Start lib code_at ops now g =
     (if \<not> Enabled (Some g) then (None, g)
      else
        let g = (case g_store g of
                   None \<Rightarrow> g
                 | Some st \<Rightarrow>
                     (case cs_Active ops st of
                        Inr (Some incident) \<Rightarrow>
                          g\<lparr>g_locked := True, g_reason := ''incidente persistente: '' @ ci_Reason incident\<rparr>
                      | _ \<Rightarrow> g));
            poll = i64_mul (CustodyGuardPollMs (g_cfg g)) millisecond;
            poll = (if poll < 500 * millisecond then 500 * millisecond else poll) in
        case loadTrustedDelegateHashes lib code_at g of
          (Inl err, g) \<Rightarrow> (None, Lock ops now (''falha ao carregar hashes dos delegates confiaveis: '' @ err) g)
        | (Inr _, g) \<Rightarrow> (Some poll, g))"

definition ExtractEIP7702Delegate :: "'z eth_lib_scheme \<Rightarrow> bytes \<Rightarrow> address option" where
  "ExtractEIP7702Delegate lib bytecode =
     (if length bytecode < 23 \<or> \<not> equal_fold (HexutilEncode lib (take 3 bytecode)) ''0xef0100'' then None
      else Some (BytesToAddress lib (take 20 (drop 3 bytecode))))"

section \<open>What the guard locks on\<close>

lemma recordEvent_frame [simp]:
  "g_locked (recordEvent ops k r t w g) = g_locked g"
  "g_cfg (recordEvent ops k r t w g) = g_cfg g"
  "g_protected (recordEvent ops k r t w g) = g_protected g"
  "g_trusted (recordEvent ops k r t w g) = g_trusted g"
  "g_allowedSelector (recordEvent ops k r t w g) = g_allowedSelector g"
  by (simp_all add: recordEvent_def split: option.split)

lemma Lock_frame [simp]:
  "g_cfg (Lock ops now r g) = g_cfg g"
  "g_protected (Lock ops now r g) = g_protected g"
  "g_trusted (Lock ops now r g) = g_trusted g"
  "g_allowedSelector (Lock ops now r g) = g_allowedSelector g"
  by (simp_all add: Lock_def Let_def split: option.split)

lemma mode_of_recordEvent [simp]: "mode_of (recordEvent ops k r t w g) = mode_of g"
  by (simp add: mode_of_def)

lemma mode_of_Lock [simp]: "mode_of (Lock ops now r g) = mode_of g"
  by (simp add: mode_of_def)

lemma Lock_locked [simp]: "g_locked (Lock ops now r g) \<longleftrightarrow> g_locked g \<or> mode_of g \<noteq> ''shadow''"
  by (simp add: Lock_def Let_def split: option.split)

text \<open>The specification: an authorisation that hands a protected wallet to code not agreed on.\<close>

definition auth_violates :: "'z eth_lib_scheme \<Rightarrow> code_at \<Rightarrow> 's CustodyGuard \<Rightarrow> eth_tx \<Rightarrow> set_code_auth \<Rightarrow> bool" where
  "auth_violates lib code_at g tx auth \<longleftrightarrow>
     (\<exists>wallet. au_Authority auth = Some wallet \<and> map_bool (g_protected g) wallet \<and>
        (g_allowedSelector g \<noteq> [] \<and> map_of (g_allowedSelector g) (calldataSelector (tx_Data tx)) = None \<or>
         map_of (g_trusted g) (au_Address auth) = None \<or>
         (\<exists>expected. map_of (g_trusted g) (au_Address auth) = Some expected \<and> expected \<noteq> 0 \<and>
            verifyDelegateHash lib code_at (au_Address auth) expected g \<noteq> Inr ())))"

definition tx_violates :: "'z eth_lib_scheme \<Rightarrow> code_at \<Rightarrow> 's CustodyGuard \<Rightarrow> eth_tx option \<Rightarrow> bool" where
  "tx_violates lib code_at g otx \<longleftrightarrow>
     (\<exists>tx. otx = Some tx \<and> tx_Type tx = SetCodeTxType \<and> (\<exists>auth \<in> set (tx_Auths tx). auth_violates lib code_at g tx auth))"

lemma inspect_auths_ok:
  "\<forall>auth \<in> set auths. \<not> auth_violates lib code_at g tx auth \<Longrightarrow>
     inspect_auths lib code_at ops now source tx auths g = g"
proof (induction auths)
  case (Cons auth auths)
  then have IH: "inspect_auths lib code_at ops now source tx auths g = g"
    and no: "\<not> auth_violates lib code_at g tx auth" by simp_all
  show ?case
    using no unfolding auth_violates_def
    by (auto simp: IH Let_def split: option.split sum.split)
qed simp

lemma unit_result_error: "r \<noteq> Inr () \<longleftrightarrow> (\<exists>err. r = Inl err)"
  by (cases r) auto

lemma inspect_auths_bad:
  "\<exists>auth \<in> set auths. auth_violates lib code_at g tx auth \<Longrightarrow>
     g_locked (inspect_auths lib code_at ops now source tx auths g) \<longleftrightarrow> g_locked g \<or> mode_of g \<noteq> ''shadow''"
proof (induction auths)
  case (Cons auth auths)
  show ?case
  proof (cases "auth_violates lib code_at g tx auth")
    case True
    then obtain wallet where wallet: "au_Authority auth = Some wallet" "map_bool (g_protected g) wallet"
      and bad: "g_allowedSelector g \<noteq> [] \<and> map_of (g_allowedSelector g) (calldataSelector (tx_Data tx)) = None \<or>
         map_of (g_trusted g) (au_Address auth) = None \<or>
         (\<exists>expected. map_of (g_trusted g) (au_Address auth) = Some expected \<and> expected \<noteq> 0 \<and>
            verifyDelegateHash lib code_at (au_Address auth) expected g \<noteq> Inr ())"
      unfolding auth_violates_def by blast
    let ?sel = "g_allowedSelector g \<noteq> [] \<and> map_of (g_allowedSelector g) (calldataSelector (tx_Data tx)) = None"
    consider (sel) "g_allowedSelector g \<noteq> []" "map_of (g_allowedSelector g) (calldataSelector (tx_Data tx)) = None"
      | (unknown) "\<not> ?sel" "map_of (g_trusted g) (au_Address auth) = None"
      | (changed) expected err where "\<not> ?sel" "map_of (g_trusted g) (au_Address auth) = Some expected" "expected \<noteq> 0"
          "verifyDelegateHash lib code_at (au_Address auth) expected g = Inl err"
    proof (cases ?sel)
      case False
      with bad unit_result_error show ?thesis by (metis that(2,3))
    qed (use that(1) in blast)
    then show ?thesis
    proof cases
      case sel
      then show ?thesis using wallet by (simp add: Let_def)
    next
      case unknown
      then show ?thesis using wallet by (simp add: Let_def)
    next
      case changed
      then show ?thesis using wallet by (simp add: Let_def)
    qed
  next
    case False
    with Cons have IH: "g_locked (inspect_auths lib code_at ops now source tx auths g) \<longleftrightarrow>
        g_locked g \<or> mode_of g \<noteq> ''shadow''" by auto
    moreover have "inspect_auths lib code_at ops now source tx (auth # auths) g =
        inspect_auths lib code_at ops now source tx auths g"
      using False unfolding auth_violates_def by (auto simp: Let_def split: option.split sum.split)
    ultimately show ?thesis by simp
  qed
qed simp

lemma inspectTransaction_ok:
  "\<not> tx_violates lib code_at g otx \<Longrightarrow> inspectTransaction lib code_at ops now source otx g = g"
  by (auto simp: inspectTransaction_def tx_violates_def inspect_auths_ok split: option.split)

lemma inspectTransaction_locked:
  "g_locked (inspectTransaction lib code_at ops now source otx g) \<longleftrightarrow>
     g_locked g \<or> mode_of g \<noteq> ''shadow'' \<and> tx_violates lib code_at g otx"
proof (cases "tx_violates lib code_at g otx")
  case True
  then obtain tx where tx: "otx = Some tx" "tx_Type tx = SetCodeTxType"
    "\<exists>auth \<in> set (tx_Auths tx). auth_violates lib code_at g tx auth"
    unfolding tx_violates_def by blast
  from inspect_auths_bad [OF this(3), of ops now source] tx(1,2) True show ?thesis
    by (auto simp: inspectTransaction_def)
qed (simp add: inspectTransaction_ok)

lemma inspect_auths_mode [simp]:
  "mode_of (inspect_auths lib code_at ops now source tx auths g) = mode_of g"
  by (induction auths) (simp_all add: Let_def split: option.split sum.split)

lemma inspectTransaction_mode [simp]:
  "mode_of (inspectTransaction lib code_at ops now source otx g) = mode_of g"
  by (simp add: inspectTransaction_def split: option.split)

lemma inspect_block_locked:
  "g_locked (inspect_block lib code_at ops now tag txs g) \<longleftrightarrow>
     g_locked g \<or> mode_of g \<noteq> ''shadow'' \<and> (\<exists>tx \<in> set txs. tx_violates lib code_at g tx)"
proof (induction txs arbitrary: g)
  case (Cons tx txs)
  let ?g = "inspectTransaction lib code_at ops now tag tx g"
  have locked: "g_locked ?g \<longleftrightarrow> g_locked g \<or> mode_of g \<noteq> ''shadow'' \<and> tx_violates lib code_at g tx"
    by (rule inspectTransaction_locked)
  show ?case
  proof (cases "g_locked ?g")
    case True
    with locked show ?thesis by auto
  next
    case False
    then have "g_locked (inspect_block lib code_at ops now tag (tx # txs) g) = g_locked (inspect_block lib code_at ops now tag txs ?g)"
      by (simp add: Let_def)
    also have "\<dots> \<longleftrightarrow> mode_of g \<noteq> ''shadow'' \<and> (\<exists>t \<in> set txs. tx_violates lib code_at ?g t)"
      using Cons.IH [of ?g] False by simp
    finally show ?thesis
      using locked False inspectTransaction_ok [of lib code_at g tx ops now tag] by (cases "mode_of g = ''shadow''") auto
  qed
qed simp

text \<open>The block that a scan of a tag sees: that of the first node that answers.\<close>

definition seen_block :: "block_by_tag \<Rightarrow> string list \<Rightarrow> string \<Rightarrow> eth_tx option list" where
  "seen_block blocks urls tag =
     (case List.find (\<lambda>url. blocks url tag \<noteq> None) urls of None \<Rightarrow> [] | Some url \<Rightarrow> the (blocks url tag))"

lemma scan_urls_seen:
  "snd (scan_urls lib code_at blocks ops now tag urls g) =
     inspect_block lib code_at ops now tag (seen_block blocks urls tag) g"
  by (induction urls) (auto simp: seen_block_def split: option.split)

lemma inspect_block_ok:
  "\<forall>tx \<in> set txs. \<not> tx_violates lib code_at g tx \<Longrightarrow> inspect_block lib code_at ops now tag txs g = g"
  by (induction txs) (auto simp: Let_def inspectTransaction_ok)

lemma inspect_block_mode [simp]: "mode_of (inspect_block lib code_at ops now tag txs g) = mode_of g"
  by (induction txs arbitrary: g) (simp_all add: Let_def)

lemma scanBlockTag_locked:
  "g_locked (snd (scanBlockTag lib code_at blocks ops now tag g)) \<longleftrightarrow>
     g_locked g \<or> mode_of g \<noteq> ''shadow'' \<and>
       (\<exists>tx \<in> set (seen_block blocks (RPCURLs (g_cfg g)) tag). tx_violates lib code_at g tx)"
  by (simp add: scanBlockTag_def scan_urls_seen inspect_block_locked)

text \<open>
  C16. A scan locks the signer exactly when it was locked or, in a mode other than shadow, the
  pending or the latest block that the first answering node reports holds a set-code transaction
  which delegates a protected wallet with a selector that is not allowed, to a delegate that is
  not trusted, or to a trusted one whose code hash is not the recorded one or cannot be read.
\<close>

theorem scan_locks_exactly:
  "g_locked (scanOnce lib code_at blocks ops now g) \<longleftrightarrow>
     g_locked g \<or> mode_of g \<noteq> ''shadow'' \<and>
       (\<exists>tag \<in> {''pending'', ''latest''}. \<exists>tx \<in> set (seen_block blocks (RPCURLs (g_cfg g)) tag). tx_violates lib code_at g tx)"
proof (cases "g_locked g")
  case False
  let ?p = "seen_block blocks (RPCURLs (g_cfg g)) ''pending''"
  let ?g = "snd (scanBlockTag lib code_at blocks ops now ''pending'' g)"
  note pending = scanBlockTag_locked [of lib code_at blocks ops now "''pending''" g]
  note latest = scanBlockTag_locked [of lib code_at blocks ops now "''latest''" ?g]
  show ?thesis
  proof (cases "g_locked ?g")
    case True
    with False pending show ?thesis by (simp add: scanOnce_def Let_def)
  next
    case unlocked: False
    then have "scanOnce lib code_at blocks ops now g = snd (scanBlockTag lib code_at blocks ops now ''latest'' ?g)"
      using False by (simp add: scanOnce_def Let_def)
    moreover have "mode_of ?g = mode_of g" by (simp add: scanBlockTag_def scan_urls_seen)
    moreover have "?g = g" if "\<not> (\<exists>tx \<in> set ?p. tx_violates lib code_at g tx)"
      using that by (simp add: scanBlockTag_def scan_urls_seen inspect_block_ok)
    ultimately show ?thesis using False unlocked pending latest by auto
  qed
qed (simp add: scanOnce_def)

section \<open>How long a lockdown lasts\<close>

text \<open>
  What can happen to a guard between a lockdown and the end of its cooldown: further locks, attempts
  to unlock, scans, and restarts of the process, which build the guard anew over the same store.
\<close>

datatype guard_event =
    GLock go_time string
  | GUnlock go_time string
  | GScan go_time code_at block_by_tag
  | GRestart go_time code_at

fun event_time :: "guard_event \<Rightarrow> go_time" where
  "event_time (GLock now _) = now"
| "event_time (GUnlock now _) = now"
| "event_time (GScan now _ _) = now"
| "event_time (GRestart now _) = now"

fun guard_step :: "'z eth_lib_scheme \<Rightarrow> 's custody_store \<Rightarrow> 's CustodyGuard \<Rightarrow> guard_event \<Rightarrow> 's CustodyGuard" where
  "guard_step lib ops g (GLock now reason) = Lock ops now reason g"
| "guard_step lib ops g (GUnlock now note) = the (snd (Unlock ops now note (Some g)))"
| "guard_step lib ops g (GScan now code_at blocks) = scanOnce lib code_at blocks ops now g"
| "guard_step lib ops g (GRestart now code_at) =
     (case NewCustodyGuard lib (g_cfg g) (g_store g) of
        Inl _ \<Rightarrow> g
      | Inr fresh \<Rightarrow> snd (Start lib code_at ops now fresh))"

text \<open>The cooldown in nanoseconds, and the state of a guard in lockdown since an incident at or after \<open>t0\<close>.\<close>

definition cooldown_of :: "SignerConfig \<Rightarrow> duration" where
  "cooldown_of cfg = i64_mul (CustodyUnlockCooldown cfg) second"

definition in_lockdown :: "'s custody_store \<Rightarrow> SignerConfig \<Rightarrow> go_time \<Rightarrow> 's CustodyGuard \<Rightarrow> bool" where
  "in_lockdown ops cfg t0 g \<longleftrightarrow> g_locked g \<and> g_cfg g = cfg \<and>
     (\<exists>st i. g_store g = Some st \<and> cs_Active ops st = Inr (Some i) \<and> t0 \<le> ci_CreatedAt i)"

lemma load_hashes_frame:
  "load_hashes lib code_at ds g = (r, g') \<Longrightarrow> g_cfg g' = g_cfg g \<and> g_store g' = g_store g \<and> g_locked g' = g_locked g"
  by (induction ds arbitrary: g) (auto split: sum.splits if_splits)

context incident_store
begin

lemma lockdown_record: "in_lockdown ops cfg t0 (recordEvent ops k r t w g) \<longleftrightarrow> in_lockdown ops cfg t0 g"
  by (auto simp: in_lockdown_def recordEvent_def record_frame split: option.split)

lemma lockdown_Lock: "in_lockdown ops cfg t0 g \<Longrightarrow> in_lockdown ops cfg t0 (Lock ops now r g)"
proof -
  assume g: "in_lockdown ops cfg t0 g"
  let ?g = "recordEvent ops ''signer_locked'' r [] [] g"
  have "in_lockdown ops cfg t0 ?g" using g lockdown_record by blast
  then obtain st i where st: "g_locked ?g" "g_cfg ?g = cfg" "g_store ?g = Some st" "cs_Active ops st = Inr (Some i)"
    "t0 \<le> ci_CreatedAt i" unfolding in_lockdown_def by blast
  show ?thesis
  proof (cases "mode_of g = ''shadow''")
    case True
    with \<open>in_lockdown ops cfg t0 ?g\<close> show ?thesis by (simp add: Lock_def)
  next
    case False
    then have "Lock ops now r g = ?g\<lparr>g_locked := True, g_reason := r, g_store := Some (cs_Open ops now r (mode_of g) st)\<rparr>"
      using st by (simp add: Lock_def Let_def)
    then show ?thesis using st open_kept [OF st(4)] by (simp add: in_lockdown_def)
  qed
qed

lemma lockdown_begins:
  assumes "mode_of g \<noteq> ''shadow''" "g_store g = Some st" "cs_Active ops st = Inr None"
  shows "in_lockdown ops (g_cfg g) now (Lock ops now r g)"
proof -
  let ?g = "recordEvent ops ''signer_locked'' r [] [] g"
  obtain st' where st': "g_store ?g = Some st'" "cs_Active ops st' = Inr None"
    using assms record_frame by (auto simp: recordEvent_def)
  from open_new [OF st'(2), of now r "mode_of g"] st'(1) assms(1) show ?thesis
    by (auto simp: in_lockdown_def Lock_def Let_def)
qed

lemma lockdown_Unlock:
  assumes "in_lockdown ops cfg t0 g" "now < t0 + cooldown_of cfg" "0 < cooldown_of cfg"
  shows "Unlock ops now note (Some g) = (Inl ''cooldown de custodia ainda ativo'', Some g)"
proof -
  obtain st i where st: "g_store g = Some st" "cs_Active ops st = Inr (Some i)" "t0 \<le> ci_CreatedAt i" "g_cfg g = cfg"
    using assms(1) unfolding in_lockdown_def by blast
  have "now - ci_CreatedAt i < cooldown_of cfg" using assms(2) st(3) by simp
  then have "time_sub now (ci_CreatedAt i) < cooldown_of cfg"
    using assms(3) by (auto simp: time_sub_def min_int64_def)
  then show ?thesis using st assms(3) by (simp add: Unlock_def Let_def cooldown_of_def)
qed

lemma lockdown_restart:
  assumes "in_lockdown ops cfg t0 g" "CustodyGuardEnabled cfg"
  shows "in_lockdown ops cfg t0 (guard_step lib ops g (GRestart now code_at))"
proof (cases "NewCustodyGuard lib (g_cfg g) (g_store g)")
  case (Inr fresh)
  obtain st i where st: "g_store g = Some st" "cs_Active ops st = Inr (Some i)" "t0 \<le> ci_CreatedAt i" "g_cfg g = cfg"
    using assms(1) unfolding in_lockdown_def by blast
  have fresh: "g_cfg fresh = cfg" "g_store fresh = Some st"
    using Inr st by (auto simp: NewCustodyGuard_def Let_def bind_result_Inr split: if_splits)
  define g1 where "g1 = fresh\<lparr>g_locked := True, g_reason := ''incidente persistente: '' @ ci_Reason i\<rparr>"
  obtain r g2 where load: "loadTrustedDelegateHashes lib code_at g1 = (r, g2)" by (cases "loadTrustedDelegateHashes lib code_at g1")
  have "in_lockdown ops cfg t0 g2"
    using load_hashes_frame [OF load [unfolded loadTrustedDelegateHashes_def]] st fresh
    by (auto simp: in_lockdown_def g1_def)
  moreover have "guard_step lib ops g (GRestart now code_at) = snd (Start lib code_at ops now fresh)"
    using Inr by simp
  moreover have "snd (Start lib code_at ops now fresh) = (case r of Inr _ \<Rightarrow> g2
      | Inl err \<Rightarrow> Lock ops now (''falha ao carregar hashes dos delegates confiaveis: '' @ err) g2)"
    using load [unfolded g1_def] assms(2) fresh st by (cases r) (simp_all add: Start_def Enabled_def Let_def)
  ultimately show ?thesis using lockdown_Lock by (cases r) simp_all
qed (use assms in simp)

lemma lockdown_step:
  assumes "in_lockdown ops cfg t0 g" "event_time ev < t0 + cooldown_of cfg" "0 < cooldown_of cfg" "CustodyGuardEnabled cfg"
  shows "in_lockdown ops cfg t0 (guard_step lib ops g ev)"
proof (cases ev)
  case (GScan now code_at blocks)
  with assms(1) show ?thesis by (simp add: scanOnce_def in_lockdown_def)
next
  case (GUnlock now msg)
  with assms show ?thesis by (simp add: lockdown_Unlock)
next
  case (GRestart now code_at)
  with assms show ?thesis by (simp only: lockdown_restart)
qed (use assms lockdown_Lock in simp_all)

lemma lockdown_run:
  assumes "in_lockdown ops cfg t0 g" "\<forall>ev \<in> set evs. event_time ev < t0 + cooldown_of cfg"
    "0 < cooldown_of cfg" "CustodyGuardEnabled cfg"
  shows "in_lockdown ops cfg t0 (foldl (guard_step lib ops) g evs)"
  using assms by (induction evs arbitrary: g) (simp_all add: lockdown_step del: guard_step.simps)

end


definition sample_lib :: eth_lib where
  "sample_lib = \<lparr> IsHexAddress = (\<lambda>s. length s = 3), HexToAddress = (\<lambda>s. of_nat (digits_val (drop 2 s))),
     AddressHex = (\<lambda>_. ''0x''), HexToHash = (\<lambda>_. 0), Keccak256Hash = (\<lambda>bs. of_nat (length bs)),
     PackOperation = (\<lambda>_ _ _ _ _ _. None), HashHex = (\<lambda>_. ''0x''), HexutilEncode = (\<lambda>bs. ''0x'' @ hex_encode bs),
     HexutilDecode = (\<lambda>s. hex_decode (drop 2 s)), BytesToAddress = (\<lambda>_. 0), KeyAddress = (\<lambda>_. Inl ''key'') \<rparr>"

definition sample_guard :: "memorySignerStore CustodyGuard" where
  "sample_guard = \<lparr> g_cfg = \<lparr> CustodyGuardEnabled = True, CustodyMode = ''live'', CustodyUnlockCooldown = 60,
       CustodyGuardPollMs = 1000, CustodyProtectedRaw = ''0x1'', CustodyTrustedRaw = ''0x2'',
       CustodySelectorsRaw = [], EVMPrivateKey = [], RPCURLs = [''rpc''] \<rparr>,
     g_store = Some newMemorySignerStore, g_protected = [(1, True)], g_trusted = [(2, 1)],
     g_allowedSelector = [], g_locked = False, g_reason = [] \<rparr>"


end
