(* ===== verification/Signer_Policy.thy ===== *)
theory Signer_Policy
  imports Custody_Guard Float_Ops Base58
begin

text \<open>
  What the signer checks before it signs: \<open>signer/policy.go\<close> and the validation functions of
  \<open>signer/main.go\<close>. Amounts of transfers are read twice, as a floating-point number for the limits
  and as an integer of base units for the transaction (\<open>parseUnits\<close>). The format of the numbers is
  an argument (\<open>float_ops\<close>), so are go-ethereum (\<open>signer_lib\<close>) and the parser of time stamps.
\<close>

section \<open>Requests and configuration\<close>

record TransferRequest =
  tq_To :: string
  tq_Amount :: string
  tq_TokenContract :: string
  tq_Network :: string
  tq_IdempotencyKey :: string
  tq_DerivationIndex :: "int64 option"

record ContractCallRequest =
  cq_To :: string
  cq_Data :: string
  cq_Network :: string
  cq_IdempotencyKey :: string
  cq_Amount :: string
  cq_TokenContract :: string
  cq_DerivationIndex :: "int64 option"

text \<open>Of a settlement request, the fields that the signer reads.\<close>

record SettlementExecuteRequest =
  sq_OperationID :: string
  sq_SettlementIntentID :: string
  sq_OrderID :: string
  sq_Network :: string
  sq_ChainID :: "64 word"
  sq_Vault :: string
  sq_Token :: string
  sq_Recipient :: string
  sq_AmountRaw :: string
  sq_PolicyVersion :: string
  sq_ExpiresAt :: string
  sq_IdempotencyKey :: string

definition settlementPolicyVersion :: string where
  "settlementPolicyVersion = ''settlement-policy-v1.0.0''"

record 'f signer_config = SignerConfig +
  AllowSimulation :: bool
  DefaultNetwork :: string
  AllowedNetworks :: "(string, bool) go_map"
  AllowedTokenContracts :: "(string, bool) go_map"
  AllowedContractCalls :: "(string, bool) go_map"
  MaxTransferAmount :: 'f
  cfg_TokenDecimals :: int64
  BSCUSDTContract :: string
  BSCTreasuryContract :: string
  BSCChainID :: int64
  TreasuryMaxDailyOut :: 'f
  TreasuryLockThreshold :: 'f
  NonceTTLSeconds :: int64

record evm_tx =
  et_Nonce :: "64 word"
  et_To :: address
  et_Value :: int
  et_GasLimit :: "64 word"
  et_GasPrice :: int
  et_Data :: bytes

text \<open>
  go-ethereum and the time parser: signing under a key gives the hash of the signed transaction;
  \<open>PackPayout\<close> is \<open>args.Pack\<close> for \<open>(bytes32, address, address, uint256)\<close>.
\<close>

record signer_lib = eth_lib +
  SignTx :: "string \<Rightarrow> int \<Rightarrow> evm_tx \<Rightarrow> string + hash32"
  PackPayout :: "hash32 \<Rightarrow> address \<Rightarrow> address \<Rightarrow> int \<Rightarrow> bytes option"
  Keccak256 :: "bytes \<Rightarrow> bytes"
  ParseRFC3339 :: "string \<Rightarrow> go_time option"
  ParseRFC3339Nano :: "string \<Rightarrow> go_time option"

datatype policy_error =
    NetworkNotAllowed string | NetworkNotSupported string | AmountInvalid | AmountAboveLimit
  | TokenNotAllowed | TokenInvalid | RecipientInvalid | ContractInvalid | TargetNotAllowed | DataInvalid
  | SelectorNotAllowed | ChainIDRequired | ChainIDDiffers | OperationIDRequired | OperationIDInvalid | IntentRequired
  | OrderRequired | VaultInvalid | TreasuryNotConfigured | VaultNotAuthorized | TokenNotConfigured | TokenDiffers
  | AmountRawInvalid | PolicyVersionInvalid | ExpiresAtInvalid | AuthorizationExpired | OperationIDMismatch
  | ChainIDInvalid | PackError | DailyLockdown | DailyLimit | DerivationNotEnabled | DecimalsInvalid

section \<open>Amounts\<close>

definition parseUnits :: "string \<Rightarrow> int64 \<Rightarrow> policy_error + int" where
  "parseUnits v decimals =
     (if decimals < 0 \<or> decimals > 30 then Inl DecimalsInvalid
      else
        let parts = split_on CHR ''.'' (trim_space v) in
        if length parts > 2 \<or> parts ! 0 = [] then Inl AmountInvalid
        else case parse_big (parts ! 0) of
               None \<Rightarrow> Inl AmountInvalid
             | Some whole \<Rightarrow>
                 let whole = whole * 10 ^ nat decimals in
                 if length parts = 1 then Inr whole
                 else
                   let fraction = parts ! 1;
                       fraction = (if length fraction > nat decimals then take (nat decimals) fraction else fraction);
                       fraction = fraction @ replicate (nat decimals - length fraction) CHR ''0'' in
                   if fraction = [] then Inr whole
                   else case parse_big fraction of
                          None \<Rightarrow> Inl AmountInvalid
                        | Some frac \<Rightarrow> Inr (whole + frac))"

definition parseFloatAmount :: "'f float_ops \<Rightarrow> string \<Rightarrow> policy_error + 'f" where
  "parseFloatAmount F v =
     (let trimmed = trim_space v in
      if trimmed = [] then Inl AmountInvalid
      else case f_parse F trimmed of
             None \<Rightarrow> Inl AmountInvalid
           | Some out \<Rightarrow> if f_le F out (f_zero F) then Inl AmountInvalid else Inr out)"

section \<open>Networks and tokens\<close>

definition requestedNetwork :: "('f, 'z) signer_config_scheme \<Rightarrow> string \<Rightarrow> string" where
  "requestedNetwork cfg req_network =
     (let network = to_upper (trim_space req_network);
          network = (if network = [] then DefaultNetwork cfg else network) in
      if network = ''BINANCE'' \<or> network = ''BEP20'' then ''BSC''
      else if network = ''ETHEREUM'' then ''EVM''
      else network)"

definition normalizedTokenContract :: "('f, 'z) signer_config_scheme \<Rightarrow> TransferRequest \<Rightarrow> string \<Rightarrow> string" where
  "normalizedTokenContract cfg req network =
     (let token = trim_space (tq_TokenContract req) in
      if (network = ''BSC'' \<or> network = ''EVM'') \<and> token = [] then BSCUSDTContract cfg else token)"

text \<open>The shared checks of an amount against its limit and of a token against the list.\<close>

definition amount_in_limit :: "'f float_ops \<Rightarrow> ('f, 'z) signer_config_scheme \<Rightarrow> string \<Rightarrow> policy_error + unit" where
  "amount_in_limit F cfg v =
     (case f_parse F (trim_space v) of
        None \<Rightarrow> Inl AmountInvalid
      | Some amount \<Rightarrow>
          if f_le F amount (f_zero F) then Inl AmountInvalid
          else if f_lt F (f_zero F) (MaxTransferAmount cfg) \<and> f_lt F (MaxTransferAmount cfg) amount
          then Inl AmountAboveLimit
          else Inr ())"

definition token_refused :: "('f, 'z) signer_config_scheme \<Rightarrow> string \<Rightarrow> bool" where
  "token_refused cfg token \<longleftrightarrow>
     AllowedTokenContracts cfg \<noteq> [] \<and> token \<noteq> [] \<and> \<not> map_bool (AllowedTokenContracts cfg) (to_upper token)"

definition validateTransferPolicy ::
  "'f float_ops \<Rightarrow> 'l eth_lib_scheme \<Rightarrow> ('f, 'z) signer_config_scheme \<Rightarrow> TransferRequest \<Rightarrow> string \<Rightarrow> policy_error + unit" where
  "validateTransferPolicy F lib cfg req network =
     bind_result (guard (\<not> map_bool (AllowedNetworks cfg) network) (NetworkNotAllowed network)) (\<lambda>_.
     bind_result (amount_in_limit F cfg (tq_Amount req)) (\<lambda>_.
     let token = normalizedTokenContract cfg req network in
     bind_result (guard (token_refused cfg token) TokenNotAllowed) (\<lambda>_.
     if network = ''BSC'' \<or> network = ''EVM'' then
       bind_result (guard (\<not> IsHexAddress lib (tq_To req)) RecipientInvalid) (\<lambda>_.
       guard (token \<noteq> [] \<and> \<not> IsHexAddress lib token) TokenInvalid)
     else Inl (NetworkNotSupported network))))"

definition multicall3Aggregate3Selector :: string where
  "multicall3Aggregate3Selector = ''82ad56cb''"

definition validateContractCallPolicy ::
  "'f float_ops \<Rightarrow> 'l eth_lib_scheme \<Rightarrow> ('f, 'z) signer_config_scheme \<Rightarrow> ContractCallRequest \<Rightarrow> string \<Rightarrow> policy_error + unit" where
  "validateContractCallPolicy F lib cfg req network =
     (let data = trim_prefix (trim_space (cq_Data req)) ''0x''; token = trim_space (cq_TokenContract req) in
      bind_result (guard (\<not> map_bool (AllowedNetworks cfg) network) (NetworkNotAllowed network)) (\<lambda>_.
      bind_result (guard (\<not> IsHexAddress lib (cq_To req)) ContractInvalid) (\<lambda>_.
      bind_result (guard (AllowedContractCalls cfg \<noteq> [] \<and>
          \<not> map_bool (AllowedContractCalls cfg) (to_upper (trim_space (cq_To req)))) TargetNotAllowed) (\<lambda>_.
      bind_result (guard (length data < 8) DataInvalid) (\<lambda>_.
      bind_result (guard (to_lower (take 8 data) \<noteq> multicall3Aggregate3Selector) SelectorNotAllowed) (\<lambda>_.
      bind_result (if trim_space (cq_Amount req) \<noteq> [] then amount_in_limit F cfg (cq_Amount req) else Inr ()) (\<lambda>_.
      bind_result (guard (token_refused cfg token) TokenNotAllowed) (\<lambda>_.
      bind_result (guard (token \<noteq> [] \<and> \<not> IsHexAddress lib token) TokenInvalid) (\<lambda>_.
      if network = ''BSC'' \<or> network = ''EVM'' then Inr () else Inl (NetworkNotSupported network))))))))))"

section \<open>Settlements\<close>

definition settlementOperationID :: "'l evm_lib_scheme \<Rightarrow> int64 \<Rightarrow> string \<Rightarrow> string \<Rightarrow> string \<Rightarrow> string \<Rightarrow> int \<Rightarrow> policy_error + hash32" where
  "settlementOperationID lib chainID vaultAddress settlementIntentID tokenAddress recipientAddress amountRaw =
     (if chainID \<le> 0 then Inl ChainIDInvalid
      else if \<not> IsHexAddress lib vaultAddress then Inl VaultInvalid
      else if \<not> IsHexAddress lib tokenAddress then Inl TokenInvalid
      else if \<not> IsHexAddress lib recipientAddress then Inl RecipientInvalid
      else if amountRaw \<le> 0 then Inl AmountRawInvalid
      else case PackOperation lib chainID (HexToAddress lib vaultAddress) (Keccak256Hash lib settlementIntentID)
                  (HexToAddress lib tokenAddress) (HexToAddress lib recipientAddress) amountRaw of
             None \<Rightarrow> Inl PackError
           | Some encoded \<Rightarrow> Inr (Keccak256Hash lib encoded))"

definition settlement_network :: "('f, 'z) signer_config_scheme \<Rightarrow> SettlementExecuteRequest \<Rightarrow> string" where
  "settlement_network cfg req =
     (let network = to_upper (trim_space (sq_Network req));
          network = (if network = [] then DefaultNetwork cfg else network) in
      if network = ''BINANCE'' \<or> network = ''BEP20'' then ''BSC'' else network)"

definition validateSettlementExecuteRequest ::
  "'l signer_lib_scheme \<Rightarrow> ('f, 'z) signer_config_scheme \<Rightarrow> go_time \<Rightarrow> SettlementExecuteRequest \<Rightarrow> policy_error + (string \<times> int)" where
  "validateSettlementExecuteRequest lib cfg now req =
     (let network = settlement_network cfg req;
          opHex = trim_prefix (trim_space (sq_OperationID req)) ''0x'' in
      bind_result (guard (\<not> map_bool (AllowedNetworks cfg) network) (NetworkNotAllowed network)) (\<lambda>_.
      bind_result (guard (network \<noteq> ''BSC'' \<and> network \<noteq> ''EVM'') (NetworkNotSupported network)) (\<lambda>_.
      bind_result (guard (sq_ChainID req = 0) ChainIDRequired) (\<lambda>_.
      bind_result (guard (network = ''BSC'' \<and> BSCChainID cfg > 0 \<and> sq_ChainID req \<noteq> word_of_int (BSCChainID cfg)) ChainIDDiffers) (\<lambda>_.
      bind_result (guard (trim_space (sq_OperationID req) = []) OperationIDRequired) (\<lambda>_.
      bind_result (guard (length opHex \<noteq> 64) OperationIDInvalid) (\<lambda>_.
      bind_result (guard (hex_decode opHex = None) OperationIDInvalid) (\<lambda>_.
      bind_result (guard (trim_space (sq_SettlementIntentID req) = []) IntentRequired) (\<lambda>_.
      bind_result (guard (trim_space (sq_OrderID req) = []) OrderRequired) (\<lambda>_.
      bind_result (guard (\<not> IsHexAddress lib (sq_Vault req)) VaultInvalid) (\<lambda>_.
      bind_result (guard (trim_space (BSCTreasuryContract cfg) = []) TreasuryNotConfigured) (\<lambda>_.
      bind_result (guard (\<not> equal_fold (sq_Vault req) (BSCTreasuryContract cfg)) VaultNotAuthorized) (\<lambda>_.
      bind_result (guard (\<not> IsHexAddress lib (sq_Token req)) TokenInvalid) (\<lambda>_.
      bind_result (guard (trim_space (BSCUSDTContract cfg) = []) TokenNotConfigured) (\<lambda>_.
      bind_result (guard (\<not> equal_fold (sq_Token req) (BSCUSDTContract cfg)) TokenDiffers) (\<lambda>_.
      bind_result (guard (AllowedTokenContracts cfg \<noteq> [] \<and>
          \<not> map_bool (AllowedTokenContracts cfg) (to_upper (trim_space (sq_Token req)))) TokenNotAllowed) (\<lambda>_.
      bind_result (guard (\<not> IsHexAddress lib (sq_Recipient req)) RecipientInvalid) (\<lambda>_.
      bind_result (case parse_big (trim_space (sq_AmountRaw req)) of
          None \<Rightarrow> Inl AmountRawInvalid | Some a \<Rightarrow> if a \<le> 0 then Inl AmountRawInvalid else Inr a) (\<lambda>amount.
      bind_result (guard (trim_space (sq_PolicyVersion req) \<noteq> settlementPolicyVersion) PolicyVersionInvalid) (\<lambda>_.
      bind_result (case ParseRFC3339 lib (sq_ExpiresAt req) of
          Some t \<Rightarrow> Inr t
        | None \<Rightarrow> (case ParseRFC3339Nano lib (sq_ExpiresAt req) of Some t \<Rightarrow> Inr t | None \<Rightarrow> Inl ExpiresAtInvalid)) (\<lambda>expiresAt.
      bind_result (guard (\<not> now < expiresAt) AuthorizationExpired) (\<lambda>_.
      bind_result (settlementOperationID lib (wrap64 (uint (sq_ChainID req))) (sq_Vault req) (sq_SettlementIntentID req)
          (sq_Token req) (sq_Recipient req) amount) (\<lambda>expected.
      bind_result (guard (HexToHash lib (sq_OperationID req) \<noteq> expected) OperationIDMismatch) (\<lambda>_.
      Inr (network, amount)))))))))))))))))))))))))"

section \<open>Transaction data\<close>

text \<open>
  \<open>copy(data[4+12:36], to.Bytes())\<close> and \<open>copy(data[68-len(amountBytes):], amountBytes)\<close>: the bytes
  of the amount end at the end of the data.
\<close>

definition address_bytes :: "address \<Rightarrow> bytes" where
  "address_bytes a = (let bs = big_bytes (unat a) in replicate (20 - length bs) (byte_of 0) @ bs)"

definition erc20TransferData :: "address \<Rightarrow> int \<Rightarrow> bytes" where
  "erc20TransferData to amount =
     (let data = map byte_of [0xa9, 0x05, 0x9c, 0xbb] @ replicate 12 (byte_of 0) @ address_bytes to @ replicate 32 (byte_of 0);
          amountBytes = big_bytes (nat \<bar>amount\<bar>) in
      take (68 - length amountBytes) data @ amountBytes)"

definition vaultPayoutData :: "'l signer_lib_scheme \<Rightarrow> hash32 \<Rightarrow> address \<Rightarrow> address \<Rightarrow> int \<Rightarrow> string + bytes" where
  "vaultPayoutData lib operationID token recipient amount =
     (case PackPayout lib operationID token recipient amount of
        None \<Rightarrow> Inl ''abi''
      | Some encoded \<Rightarrow> Inr (take 4 (Keccak256 lib ''payout(bytes32,address,address,uint256)'') @ encoded))"

definition decodeHexData :: "string \<Rightarrow> string + bytes" where
  "decodeHexData v =
     (let trimmed = trim_prefix (trim_space v) ''0x'' in
      if trimmed = [] \<or> length trimmed mod 2 \<noteq> 0 then Inl ''data hex invalido''
      else case hex_decode trimmed of None \<Rightarrow> Inl ''data hex invalido'' | Some data \<Rightarrow> Inr data)"

fun firstNonEmptySigner :: "string list \<Rightarrow> string" where
  "firstNonEmptySigner [] = []"
| "firstNonEmptySigner (v # vs) = (if trim_space v \<noteq> [] then v else firstNonEmptySigner vs)"

section \<open>Settlement requests\<close>

text \<open>The specification of an admissible settlement, as one condition without an order of checks.\<close>

definition settlement_admissible ::
  "'l signer_lib_scheme \<Rightarrow> ('f, 'z) signer_config_scheme \<Rightarrow> go_time \<Rightarrow> SettlementExecuteRequest \<Rightarrow> string \<Rightarrow> int \<Rightarrow> bool" where
  "settlement_admissible lib cfg now req network amount \<longleftrightarrow>
     network = settlement_network cfg req \<and> map_bool (AllowedNetworks cfg) network \<and> network \<in> {''BSC'', ''EVM''} \<and>
     sq_ChainID req \<noteq> 0 \<and> (network = ''BSC'' \<and> BSCChainID cfg > 0 \<longrightarrow> sq_ChainID req = word_of_int (BSCChainID cfg)) \<and>
     trim_space (sq_OrderID req) \<noteq> [] \<and> trim_space (sq_SettlementIntentID req) \<noteq> [] \<and>
     length (trim_prefix (trim_space (sq_OperationID req)) ''0x'') = 64 \<and>
     hex_decode (trim_prefix (trim_space (sq_OperationID req)) ''0x'') \<noteq> None \<and>
     equal_fold (sq_Vault req) (BSCTreasuryContract cfg) \<and> trim_space (BSCTreasuryContract cfg) \<noteq> [] \<and>
     equal_fold (sq_Token req) (BSCUSDTContract cfg) \<and> trim_space (BSCUSDTContract cfg) \<noteq> [] \<and>
     (AllowedTokenContracts cfg \<noteq> [] \<longrightarrow> map_bool (AllowedTokenContracts cfg) (to_upper (trim_space (sq_Token req)))) \<and>
     parse_big (trim_space (sq_AmountRaw req)) = Some amount \<and> 0 < amount \<and>
     trim_space (sq_PolicyVersion req) = settlementPolicyVersion \<and>
     (\<exists>t. (ParseRFC3339 lib (sq_ExpiresAt req) = Some t \<or>
           ParseRFC3339 lib (sq_ExpiresAt req) = None \<and> ParseRFC3339Nano lib (sq_ExpiresAt req) = Some t) \<and> now < t) \<and>
     settlementOperationID lib (wrap64 (uint (sq_ChainID req))) (sq_Vault req) (sq_SettlementIntentID req)
       (sq_Token req) (sq_Recipient req) amount = Inr (HexToHash lib (sq_OperationID req))"

lemma settlementOperationID_Inr:
  "settlementOperationID lib c v i t r a = Inr h \<longleftrightarrow>
     0 < c \<and> IsHexAddress lib v \<and> IsHexAddress lib t \<and> IsHexAddress lib r \<and> 0 < a \<and>
     (\<exists>e. PackOperation lib c (HexToAddress lib v) (Keccak256Hash lib i) (HexToAddress lib t) (HexToAddress lib r) a = Some e \<and>
        h = Keccak256Hash lib e)"
  by (auto simp: settlementOperationID_def split: option.splits if_splits)

lemma trim_prefix_empty: "length (trim_prefix [] p) = 64 \<longleftrightarrow> False"
  by (simp add: trim_prefix_def)

lemma expiry_Inr:
  "(case ParseRFC3339 lib x of Some t \<Rightarrow> Inr t
    | None \<Rightarrow> (case ParseRFC3339Nano lib x of Some t \<Rightarrow> Inr t | None \<Rightarrow> Inl ExpiresAtInvalid)) = Inr t \<longleftrightarrow>
   ParseRFC3339 lib x = Some t \<or> ParseRFC3339 lib x = None \<and> ParseRFC3339Nano lib x = Some t"
  by (auto split: option.splits)

lemma amount_Inr:
  "(case parse_big x of None \<Rightarrow> Inl AmountRawInvalid | Some a \<Rightarrow> if a \<le> 0 then Inl AmountRawInvalid else Inr a) = Inr a \<longleftrightarrow>
   parse_big x = Some a \<and> 0 < a"
  by (auto split: option.splits)

lemma validate_settlement_iff:
  "validateSettlementExecuteRequest lib cfg now req = Inr (network, amount) \<longleftrightarrow>
     settlement_admissible lib cfg now req network amount"
proof
  assume "validateSettlementExecuteRequest lib cfg now req = Inr (network, amount)"
  then show "settlement_admissible lib cfg now req network amount"
    unfolding validateSettlementExecuteRequest_def settlement_admissible_def Let_def bind_result_Inr guard_Inr expiry_Inr amount_Inr
    by auto
next
  assume "settlement_admissible lib cfg now req network amount"
  moreover from this have "IsHexAddress lib (sq_Vault req)" "IsHexAddress lib (sq_Token req)" "IsHexAddress lib (sq_Recipient req)"
    "trim_space (sq_OperationID req) \<noteq> []"
    unfolding settlement_admissible_def settlementOperationID_Inr using trim_prefix_empty by force+
  ultimately show "validateSettlementExecuteRequest lib cfg now req = Inr (network, amount)"
    unfolding validateSettlementExecuteRequest_def settlement_admissible_def Let_def bind_result_Inr guard_Inr expiry_Inr amount_Inr
    by auto
qed

text \<open>
  C4. The signer accepts a settlement request exactly when it satisfies the specification: an
  allowed network and chain, the configured vault and token, a positive amount, the current policy
  version, an authorisation that has not expired, and the operation identifier that is the hash
  of chain, vault, intent, token, recipient and amount.
\<close>

theorem settlement_request_accepted_iff:
  "validateSettlementExecuteRequest lib cfg now req = Inr (network, amount) \<longleftrightarrow>
     settlement_admissible lib cfg now req network amount"
  by (rule validate_settlement_iff)

section \<open>Amounts in base units\<close>

lemma split_dot: "CHR ''.'' \<notin> set w \<Longrightarrow> CHR ''.'' \<notin> set f \<Longrightarrow> split_on CHR ''.'' (w @ ''.'' @ f) = [w, f]"
  by (simp add: split_on_append split_on_no_sep)

lemma digits_plain: "list_all is_digit s \<Longrightarrow> CHR ''.'' \<notin> set s"
  by (auto simp: list_all_iff dest: digit_not_sign)

lemma amount_trimmed:
  assumes "w \<noteq> []" "list_all is_digit w" "f = [] \<or> \<not> is_space (last f)"
  shows "trim_space (w @ ''.'' @ f) = w @ ''.'' @ f"
proof (rule trim_space_trimmed)
  have "\<not> is_space (hd w)" using assms by (cases w) (auto dest: digit_not_sign)
  then show "trimmed (w @ ''.'' @ f)" using assms by (auto simp: trimmed_def is_space_def)
qed

text \<open>The general form: digits, a point, a fraction whose first digits are those that count.\<close>

lemma parseUnits_point:
  assumes "w \<noteq> []" "list_all is_digit w" "CHR ''.'' \<notin> set f" "f = [] \<or> \<not> is_space (last f)"
    and "0 \<le> d" "d \<le> 30"
    and frac: "list_all is_digit (take (nat d) f)"
  shows "parseUnits (w @ ''.'' @ f) d =
    Inr (int (digits_val (w @ take (nat d) f @ replicate (nat d - length f) CHR ''0'')))"
proof -
  define z where "z = take (nat d) f @ replicate (nat d - length f) CHR ''0''"
  have len: "length z = nat d" by (simp add: z_def)
  have zd: "list_all is_digit z" using frac by (auto simp: z_def list_all_iff)
  have fr: "(if length f > nat d then take (nat d) f else f) @
      replicate (nat d - length (if length f > nat d then take (nat d) f else f)) CHR ''0'' = z"
    by (simp add: z_def)
  have sp: "split_on CHR ''.'' (trim_space (w @ ''.'' @ f)) = [w, f]"
    using amount_trimmed [OF assms(1,2,4)] split_dot [OF digits_plain [OF assms(2)] assms(3)] by simp
  have parts: "[w, f] ! 0 = w" "[w, f] ! 1 = f" "length [w, f] = 2" by simp_all
  have "parseUnits (w @ ''.'' @ f) d =
      (if z = [] then Inr (int (digits_val w) * 10 ^ nat d) else Inr (int (digits_val w) * 10 ^ nat d + int (digits_val z)))"
    unfolding parseUnits_def Let_def sp parts fr
    using assms(1,2,5,6) zd parse_big_digits [of w] parse_big_digits [of z] by auto
  also have "\<dots> = Inr (int (digits_val w * 10 ^ length z + digits_val z))" by (simp add: len)
  finally show ?thesis by (simp add: digits_val_append z_def)
qed

lemma parseUnits_plain:
  assumes "w \<noteq> []" "list_all is_digit w" "list_all is_digit f" "0 \<le> d" "d \<le> 30"
  shows "parseUnits (w @ ''.'' @ f) d = Inr (int (digits_val (w @ f) * 10 ^ nat d div 10 ^ length f))"
proof -
  have "f = [] \<or> \<not> is_space (last f)"
    using assms(3) digit_not_sign [of "last f"] by (cases "f = []") (simp_all add: list_all_iff)
  moreover have "list_all is_digit (take (nat d) f)" using assms(3) by (auto simp: list_all_iff dest: in_set_takeD)
  ultimately have "parseUnits (w @ ''.'' @ f) d =
      Inr (int (digits_val (w @ take (nat d) f @ replicate (nat d - length f) CHR ''0'')))"
    by (rule parseUnits_point [OF assms(1,2) digits_plain [OF assms(3)] _ assms(4,5)])
  then show ?thesis unfolding scaled_truncation [OF assms(3)] .
qed

text \<open>
  For a plain decimal amount the signer's number of base units is the amount times 10 to the
  token's decimals, rounded down, and where that is positive it is the number that the gateway's
  \<open>decimalToRaw\<close> computes for the same string.
\<close>

theorem parseUnits_agrees_with_gateway:
  assumes "w \<noteq> []" "list_all is_digit w" "list_all is_digit f" "d \<le> 30"
  shows "parseUnits (w @ ''.'' @ f) (int d) = Inr (int (digits_val (w @ f) * 10 ^ d div 10 ^ length f)) \<and>
    (\<forall>raw. decimalToRaw (w @ ''.'' @ f) d = Inr raw \<longrightarrow> parseUnits (w @ ''.'' @ f) (int d) = Inr raw)"
proof -
  have "parseUnits (w @ ''.'' @ f) (int d) = Inr (int (digits_val (w @ f) * 10 ^ d div 10 ^ length f))"
    using parseUnits_plain [OF assms(1-3), of "int d"] assms(4) by simp
  then show ?thesis using decimalToRaw_digits [OF assms(2,1,3)] by (auto simp: Let_def split: if_splits)
qed

theorem parseUnits_agrees_with_gateway_witness:
  "parseUnits (''12'' @ ''.'' @ ''3456789'') (int 6) = Inr 12345678"
proof -
  have "digits_val (''12'' @ ''3456789'') * 10 ^ 6 div 10 ^ length ''3456789'' = 12345678"
    by (simp add: digits_val_def)
  then show ?thesis using parseUnits_agrees_with_gateway [of "''12''" "''3456789''" 6] by (simp add: is_digit_def)
qed

text \<open>
  The limit is checked on another reading of the amount: a string with as many fraction digits
  as the token has decimals, followed by an exponent, passes the limit whenever the number with
  its exponent does, and is then sent without the exponent.
\<close>

theorem exponent_escapes_limit:
  assumes "w \<noteq> []" "list_all is_digit w" "list_all is_digit f" "length f = d" "d \<le> 30"
    and "e \<noteq> []" "CHR ''.'' \<notin> set e" "\<not> is_space (last e)"
    and "f_parse F (w @ ''.'' @ f @ e) = Some x" "\<not> f_le F x (f_zero F)" "\<not> f_lt F (MaxTransferAmount cfg) x"
  shows "amount_in_limit F cfg (w @ ''.'' @ f @ e) = Inr () \<and>
    parseUnits (w @ ''.'' @ f @ e) (int d) = Inr (int (digits_val (w @ f)))"
proof -
  have last: "f @ e = [] \<or> \<not> is_space (last (f @ e))" using assms(6,8) by simp
  have "amount_in_limit F cfg (w @ ''.'' @ f @ e) = Inr ()"
    using amount_trimmed [OF assms(1,2) last] assms(9-11) by (simp add: amount_in_limit_def)
  moreover have "parseUnits (w @ ''.'' @ f @ e) (int d) = Inr (int (digits_val (w @ f)))"
    using parseUnits_point [OF assms(1,2) _ last, of "int d"] assms(3-5,7) digits_plain [OF assms(3)] by simp
  ultimately show ?thesis ..
qed

definition sample_config :: "int option signer_config" where
  "sample_config = \<lparr> CustodyGuardEnabled = True, CustodyMode = ''live'', CustodyUnlockCooldown = 60,
       CustodyGuardPollMs = 1000, CustodyProtectedRaw = ''0x1'', CustodyTrustedRaw = [],
       CustodySelectorsRaw = [], EVMPrivateKey = ''k'', RPCURLs = [''https://a'', ''https://b''],
     AllowSimulation = False, DefaultNetwork = ''BSC'', AllowedNetworks = [(''BSC'', True)], AllowedTokenContracts = [],
     AllowedContractCalls = [], MaxTransferAmount = Some 10000, cfg_TokenDecimals = 6, BSCUSDTContract = ''0x7'',
     BSCTreasuryContract = ''0x9'', BSCChainID = 56, TreasuryMaxDailyOut = Some 50000, TreasuryLockThreshold = Some 90000,
     NonceTTLSeconds = 300 \<rparr>"

text \<open>Nine million units pass a limit of ten thousand: the number read for the limit is 9000000 times 10 to the -6.\<close>

theorem exponent_escapes_limit_witness:
  "amount_in_limit (coarse_float (\<lambda>s. if s = ''9000000.000000e-6'' then Some (Some 9) else None)) sample_config
     (''9000000'' @ ''.'' @ ''000000'' @ ''e-6'') = Inr () \<and>
   parseUnits (''9000000'' @ ''.'' @ ''000000'' @ ''e-6'') (int 6) = Inr 9000000000000"
proof -
  let ?F = "coarse_float (\<lambda>s. if s = ''9000000.000000e-6'' then Some (Some 9) else None)"
  have p: "f_parse ?F (''9000000'' @ ''.'' @ ''000000'' @ ''e-6'') = Some (Some 9)" by (simp add: coarse_float_def)
  have n: "\<not> f_le ?F (Some 9) (f_zero ?F)" "\<not> f_lt ?F (MaxTransferAmount sample_config) (Some 9)"
    by (simp_all add: coarse_float_def nan_rel_def sample_config_def)
  have v: "int (digits_val (''9000000'' @ ''000000'')) = 9000000000000" by (simp add: digits_val_def)
  show ?thesis
    using exponent_escapes_limit [of "''9000000''" "''000000''" 6 "''e-6''" ?F "Some 9" sample_config, OF _ _ _ _ _ _ _ _ p n] v
    by (simp add: is_digit_def is_space_def)
qed

section \<open>Transfer data\<close>

lemma length_to_digits: "2 \<le> b \<Longrightarrow> n < b ^ k \<Longrightarrow> length (to_digits b n) \<le> k"
proof (induction k arbitrary: n)
  case 0
  then show ?case by (simp add: to_digits.simps)
next
  case (Suc k)
  then have "n div b < b ^ k" by (simp add: less_mult_imp_div_less mult.commute)
  with Suc show ?case by (cases "n = 0") (simp_all add: to_digits.simps [of b n])
qed

lemma length_big_bytes: "n < 256 ^ k \<Longrightarrow> length (big_bytes n) \<le> k"
  by (simp add: big_bytes_def length_to_digits)

lemma big_set_bytes_bytes: "big_set_bytes (replicate k (byte_of 0) @ big_bytes n) = n"
  by (simp add: set_bytes_zeros big_bytes_def big_set_bytes_digits)

lemma length_address_bytes [simp]: "length (address_bytes a) = 20"
proof -
  have "unat a < 256 ^ 20" using unsigned_less [of a] by simp
  then have "length (big_bytes (unat a)) \<le> 20" by (rule length_big_bytes)
  then show ?thesis by (simp add: address_bytes_def Let_def)
qed

text \<open>
  The data of a token transfer of less than 2 to the 256 base units is 68 bytes long, starts
  with the selector of \<open>transfer\<close>, and its two words are the recipient and the amount; a larger
  amount would be written over the recipient.
\<close>

theorem erc20TransferData_fields:
  assumes "0 \<le> amount" "amount < 2 ^ 256"
  shows "length (erc20TransferData to amount) = 68 \<and>
    take 4 (erc20TransferData to amount) = map byte_of [0xa9, 0x05, 0x9c, 0xbb] \<and>
    big_set_bytes (take 32 (drop 4 (erc20TransferData to amount))) = unat to \<and>
    int (big_set_bytes (drop 36 (erc20TransferData to amount))) = amount"
proof -
  let ?bs = "big_bytes (nat \<bar>amount\<bar>)"
  have "nat \<bar>amount\<bar> < nat (2 ^ 256)" using assms by (intro nat_mono_iff [THEN iffD2]) simp_all
  then have "nat \<bar>amount\<bar> < 256 ^ 32" by (simp add: nat_power_eq)
  then have len: "length ?bs \<le> 32" by (rule length_big_bytes)
  let ?sel = "map byte_of [0xa9, 0x05, 0x9c, 0xbb]"
  have data: "erc20TransferData to amount =
      ?sel @ (replicate 12 (byte_of 0) @ address_bytes to) @ (replicate (32 - length ?bs) (byte_of 0) @ ?bs)"
    using len by (simp add: erc20TransferData_def Let_def take_Cons' min_def)
  have "replicate 12 (byte_of 0) @ address_bytes to =
      replicate (12 + (20 - length (big_bytes (unat to)))) (byte_of 0) @ big_bytes (unat to)"
    by (simp add: address_bytes_def Let_def replicate_add)
  then have "big_set_bytes (replicate 12 (byte_of 0) @ address_bytes to) = unat to" by (simp only: big_set_bytes_bytes)
  moreover have "drop 36 (erc20TransferData to amount) = replicate (32 - length ?bs) (byte_of 0) @ ?bs" unfolding data by simp
  moreover have "take 32 (drop 4 (erc20TransferData to amount)) = replicate 12 (byte_of 0) @ address_bytes to" unfolding data by simp
  moreover have "take 4 (erc20TransferData to amount) = ?sel" unfolding data by simp
  moreover have "length (erc20TransferData to amount) = 68" unfolding data using len by simp
  ultimately show ?thesis using assms big_set_bytes_bytes [of _ "nat \<bar>amount\<bar>"] by simp
qed

theorem erc20TransferData_fields_witness:
  "length (erc20TransferData 5 1000) = 68 \<and> int (big_set_bytes (drop 36 (erc20TransferData 5 1000))) = 1000"
  using erc20TransferData_fields [of 1000 5] by simp

end
