(* ===== verification/Rpc_Fleet.thy ===== *)
theory Rpc_Fleet
  imports Float_Ops Go_Strings "HOL-Library.Word" "HOL-Library.Multiset"
begin

text \<open>
  The signer's fleet of RPC endpoints, \<open>signer/rpc_fleet.go\<close>: scoring, cooldowns, decay of failure
  counters, reservation of bursts and the choice of the endpoints to send to. Counters are 32-bit
  words; the scores are floating-point numbers of any format (\<open>float_ops\<close>). An endpoint is found
  by its id, so a candidate is an id with its score.
\<close>

section \<open>State\<close>

datatype rpcFailureKind =
  rpcFailureRemote | rpcFailureTimeout | rpcFailureRateLimited | rpcFailureCapacityExhausted | rpcFailureTransport

record rpcReservation =
  rv_at :: go_time
  rv_units :: "32 word"

record rpcEndpointState =
  failures :: "32 word"
  timeoutFailures :: "32 word"
  rateLimitFailures :: "32 word"
  disabled :: bool
  disabledReason :: string
  cooldownUntil :: go_time
  avgLatency :: duration
  lastFailureDecay :: go_time
  recentReservations :: "rpcReservation list"
  lastSelectedAt :: go_time

record rpcEndpoint =
  ep_id :: nat
  ep_name :: string
  ep_url :: string
  ep_state :: rpcEndpointState

record rpcFleet =
  endpoints :: "rpcEndpoint list"
  rotation :: "64 word"

record rpcHandle =
  h_id :: nat
  h_name :: string
  h_url :: string

definition ms :: duration where
  "ms = 1000000"

definition rpcBurstWindow :: duration where
  "rpcBurstWindow = 1200 * ms"

definition rpcFailureDecay :: duration where
  "rpcFailureDecay = 20 * second"

definition rpcBurstCapacity :: "32 word" where
  "rpcBurstCapacity = 18"

definition rpcSendBurstCost :: "32 word" where
  "rpcSendBurstCost = 7"

definition newEndpointState :: "go_time \<Rightarrow> rpcEndpointState" where
  "newEndpointState now = \<lparr> failures = 0, timeoutFailures = 0, rateLimitFailures = 0, disabled = False,
     disabledReason = [], cooldownUntil = 0, avgLatency = 0, lastFailureDecay = now,
     recentReservations = [], lastSelectedAt = 0 \<rparr>"

text \<open>One character past the digit zero; ids stay below 80, where this is one ASCII byte.\<close>

definition itoaSmall :: "nat \<Rightarrow> string" where
  "itoaSmall v = [byte_of (48 + v)]"

definition rpcEndpointName :: "nat \<Rightarrow> string \<Rightarrow> string" where
  "rpcEndpointName i url =
     (let lower = to_lower url in
      if str_contains lower ''alchemy'' then ''alchemy-bsc-'' @ itoaSmall i
      else if str_contains lower ''ankr'' then ''ankr-bsc-'' @ itoaSmall i
      else if str_contains lower ''binance'' then ''binance-bsc-'' @ itoaSmall i
      else ''bsc-rpc-'' @ itoaSmall i)"

definition newRPCFleet :: "go_time \<Rightarrow> string list \<Rightarrow> rpcFleet" where
  "newRPCFleet now urls =
     (let eps = foldl (\<lambda>eps raw.
            let url = trim_space raw in
            if url = [] \<or> url \<in> set (map ep_url eps) then eps
            else eps @ [\<lparr> ep_id = length eps, ep_name = rpcEndpointName (length eps) url, ep_url = url,
                          ep_state = newEndpointState now \<rparr>]) [] urls;
          eps = (if eps = [] then [\<lparr> ep_id = 0, ep_name = ''bsc-default-0'',
                   ep_url = ''https://bsc-dataseed.binance.org/'', ep_state = newEndpointState now \<rparr>] else eps) in
      \<lparr> endpoints = eps, rotation = 0 \<rparr>)"

section \<open>Counters and cooldowns\<close>

definition subtractUint32 :: "32 word \<Rightarrow> 32 word \<Rightarrow> 32 word" where
  "subtractUint32 v amount = (if amount > v then 0 else v - amount)"

definition minUint32 :: "32 word \<Rightarrow> 32 word \<Rightarrow> 32 word" where
  "minUint32 v m = (if v > m then m else v)"

definition prune :: "go_time \<Rightarrow> rpcEndpointState \<Rightarrow> rpcEndpointState" where
  "prune now st = st\<lparr>recentReservations :=
     filter (\<lambda>item. time_sub now (rv_at item) \<le> rpcBurstWindow) (recentReservations st)\<rparr>"

definition decay :: "go_time \<Rightarrow> rpcEndpointState \<Rightarrow> rpcEndpointState" where
  "decay now st =
     (if time_is_zero (lastFailureDecay st) then st\<lparr>lastFailureDecay := now\<rparr>
      else
        let steps = (word_of_int (i64_quot (time_sub now (lastFailureDecay st)) rpcFailureDecay) :: 32 word) in
        if steps = 0 then st
        else st\<lparr>lastFailureDecay := lastFailureDecay st + i64_mul (uint steps) rpcFailureDecay,
                failures := subtractUint32 (failures st) (steps * 2),
                timeoutFailures := subtractUint32 (timeoutFailures st) (steps * 2),
                rateLimitFailures := subtractUint32 (rateLimitFailures st) (steps * 4)\<rparr>)"

definition burstLoad :: "go_time \<Rightarrow> rpcEndpointState \<Rightarrow> 32 word" where
  "burstLoad now st =
     foldl (\<lambda>total item. if time_sub now (rv_at item) \<le> rpcBurstWindow then total + rv_units item else total)
       0 (recentReservations st)"

definition available :: "go_time \<Rightarrow> rpcEndpointState \<Rightarrow> bool" where
  "available now st \<longleftrightarrow> \<not> (disabled st \<or> (\<not> time_is_zero (cooldownUntil st) \<and> cooldownUntil st > now))"

text \<open>The number that \<open>score\<close> computes for an endpoint that is available.\<close>

definition score_value :: "'f float_ops \<Rightarrow> go_time \<Rightarrow> rpcEndpointState \<Rightarrow> 'f" where
  "score_value F now st =
     (let burst = burstLoad now st;
          burstRatio = f_div F (f_of_int F (uint burst)) (f_of_int F (uint rpcBurstCapacity));
          latencyMs = (if avgLatency st > 0 then f_of_int F (i64_quot (avgLatency st) ms) else f_of_int F 120);
          elapsed = time_sub now (lastSelectedAt st);
          recencyPenalty =
            (if \<not> time_is_zero (lastSelectedAt st) \<and> elapsed < 180 * ms
             then f_mul F (f_of_int F (i64_quot (i64_sub (180 * ms) elapsed) ms)) (f_lit F 24 10) else f_of_int F 0);
          burstPenalty =
            (if f_le F (f_of_int F 1) burstRatio
             then f_add F (f_of_int F 25000) (f_mul F (f_sub F burstRatio (f_of_int F 1)) (f_of_int F 8000))
             else f_mul F (f_mul F burstRatio burstRatio) (f_of_int F 2200)) in
      f_add F (f_add F (f_add F (f_add F latencyMs
        (f_mul F (f_of_int F (uint (failures st))) (f_of_int F 180)))
        (f_mul F (f_of_int F (uint (rateLimitFailures st))) (f_of_int F 900)))
        burstPenalty) recencyPenalty)"

definition score :: "'f float_ops \<Rightarrow> go_time \<Rightarrow> rpcEndpointState \<Rightarrow> 'f option \<times> rpcEndpointState" where
  "score F now st =
     (let st = decay now (prune now st) in
      (if available now st then Some (score_value F now st) else None, st))"

definition reserve :: "go_time \<Rightarrow> rpcEndpointState \<Rightarrow> rpcEndpointState" where
  "reserve now st =
     (let st = prune now st;
          st = st\<lparr>recentReservations := recentReservations st @ [\<lparr> rv_at = now, rv_units = rpcSendBurstCost \<rparr>],
                  lastSelectedAt := now\<rparr> in
      if burstLoad now st \<ge> rpcBurstCapacity * 2 then st\<lparr>cooldownUntil := now + 900 * ms\<rparr> else st)"

section \<open>Choosing endpoints\<close>

definition map_endpoint :: "nat \<Rightarrow> (rpcEndpointState \<Rightarrow> rpcEndpointState) \<Rightarrow> rpcFleet \<Rightarrow> rpcFleet" where
  "map_endpoint i f fleet = fleet\<lparr>endpoints :=
     map (\<lambda>ep. if ep_id ep = i then ep\<lparr>ep_state := f (ep_state ep)\<rparr> else ep) (endpoints fleet)\<rparr>"

definition endpoint :: "nat \<Rightarrow> rpcFleet \<Rightarrow> rpcEndpoint option" where
  "endpoint i fleet = List.find (\<lambda>ep. ep_id ep = i) (endpoints fleet)"

text \<open>One pass of scoring over the endpoints: the candidates and the endpoints as scoring leaves them.\<close>

fun score_all :: "'f float_ops \<Rightarrow> go_time \<Rightarrow> rpcEndpoint list \<Rightarrow> (nat \<times> 'f) list \<times> rpcEndpoint list" where
  "score_all F now [] = ([], [])"
| "score_all F now (ep # eps) =
     (case score F now (ep_state ep) of
        (r, st) \<Rightarrow>
          (case score_all F now eps of
             (cs, eps') \<Rightarrow> ((case r of None \<Rightarrow> cs | Some s \<Rightarrow> (ep_id ep, s) # cs), ep\<lparr>ep_state := st\<rparr> # eps')))"

definition clear_cooldown :: "rpcEndpoint \<Rightarrow> rpcEndpoint" where
  "clear_cooldown ep = ep\<lparr>ep_state := (ep_state ep)\<lparr>cooldownUntil := 0\<rparr>\<rparr>"

text \<open>The candidates; when there is none, cooldowns are lifted and the endpoints are scored again.\<close>

definition scored :: "'f float_ops \<Rightarrow> go_time \<Rightarrow> rpcFleet \<Rightarrow> (nat \<times> 'f) list \<times> rpcEndpoint list" where
  "scored F now fleet =
     (let first = score_all F now (endpoints fleet) in
      if fst first = [] then score_all F now (map clear_cooldown (snd first)) else first)"

text \<open>The exchange sort of the source: for every \<open>i < j\<close> in turn, swap when the later score is smaller.\<close>

definition swap_if :: "'f float_ops \<Rightarrow> (nat \<times> 'f) list \<Rightarrow> nat \<times> nat \<Rightarrow> (nat \<times> 'f) list" where
  "swap_if F xs ij =
     (case ij of (i, j) \<Rightarrow> if f_lt F (snd (xs ! j)) (snd (xs ! i)) then xs[i := xs ! j, j := xs ! i] else xs)"

definition exchange_sort :: "'f float_ops \<Rightarrow> (nat \<times> 'f) list \<Rightarrow> (nat \<times> 'f) list" where
  "exchange_sort F xs =
     foldl (swap_if F) xs (concat (map (\<lambda>i. map (\<lambda>j. (i, j)) [i + 1..<length xs]) [0..<length xs]))"

text \<open>
  The rotation of the two best: \<open>append(candidates[shift:topN], candidates[:shift]...)\<close>, which
  keeps \<open>topN\<close> candidates. The counter is read as a signed integer before the remainder is taken.
\<close>

definition rotate_top :: "64 word \<Rightarrow> (nat \<times> 'f) list \<Rightarrow> (nat \<times> 'f) list \<times> 64 word" where
  "rotate_top counter cs =
     (let topN = min (length cs) 2 in
      if topN > 1 then
        (let shift = nat (i64_rem (wrap64 (uint counter)) (int topN)) in
         (drop shift (take topN cs) @ take shift cs, counter + 1))
      else (cs, counter))"

definition handle_of :: "rpcFleet \<Rightarrow> nat \<Rightarrow> rpcHandle list" where
  "handle_of fleet i =
     (case endpoint i fleet of None \<Rightarrow> []
      | Some ep \<Rightarrow> [\<lparr> h_id = ep_id ep, h_name = ep_name ep, h_url = ep_url ep \<rparr>])"

definition sendCandidates ::
  "'f float_ops \<Rightarrow> go_time \<Rightarrow> int64 \<Rightarrow> rpcFleet \<Rightarrow> rpcHandle list \<times> rpcFleet" where
  "sendCandidates F now limit fleet =
     (let candidates = scored F now fleet;
          rotated = rotate_top (rotation fleet) (exchange_sort F (fst candidates));
          fleet = fleet\<lparr>endpoints := snd candidates, rotation := snd rotated\<rparr>;
          limit = (if limit \<le> 0 \<or> limit > int (length (fst rotated)) then int (length (fst rotated)) else limit);
          chosen = map fst (take (nat limit) (fst rotated)) in
      (concat (map (handle_of fleet) chosen), foldl (\<lambda>fl i. map_endpoint i (reserve now) fl) fleet chosen))"

section \<open>Outcomes\<close>

definition recordSuccess :: "'f float_ops \<Rightarrow> go_time \<Rightarrow> nat \<Rightarrow> duration \<Rightarrow> rpcFleet \<Rightarrow> rpcFleet" where
  "recordSuccess F now i latency fleet = map_endpoint i (\<lambda>st.
     let st = decay now (prune now st);
         st = st\<lparr>avgLatency := (if avgLatency st > 0
                  then f_trunc F (f_add F (f_mul F (f_of_int F (avgLatency st)) (f_lit F 72 100))
                                          (f_mul F (f_of_int F latency) (f_lit F 28 100)))
                  else latency)\<rparr>;
         st = st\<lparr>failures := (if failures st > 0 then failures st - 1 else failures st),
                 timeoutFailures := (if timeoutFailures st > 0 then timeoutFailures st - 1 else timeoutFailures st),
                 rateLimitFailures := (if rateLimitFailures st > 0 then rateLimitFailures st - 1 else rateLimitFailures st)\<rparr> in
     if \<not> time_is_zero (cooldownUntil st) \<and> cooldownUntil st < now then st\<lparr>cooldownUntil := 0\<rparr> else st) fleet"

text \<open>The counters of a failure and the cooldown it asks for, before the cap.\<close>

definition fail_state :: "rpcFailureKind \<Rightarrow> rpcEndpointState \<Rightarrow> rpcEndpointState" where
  "fail_state kind st =
     (let st = st\<lparr>failures := failures st + 1\<rparr> in
      case kind of
        rpcFailureRateLimited \<Rightarrow> st\<lparr>rateLimitFailures := rateLimitFailures st + 1\<rparr>
      | rpcFailureCapacityExhausted \<Rightarrow> st\<lparr>rateLimitFailures := rateLimitFailures st + 10, disabled := True,
          disabledReason := ''provider capacity exhausted''\<rparr>
      | rpcFailureTimeout \<Rightarrow> st\<lparr>timeoutFailures := timeoutFailures st + 1\<rparr>
      | _ \<Rightarrow> st)"

definition fail_cooldown :: "rpcFailureKind \<Rightarrow> rpcEndpointState \<Rightarrow> duration" where
  "fail_cooldown kind st =
     (case kind of
        rpcFailureRateLimited \<Rightarrow> 2 * 2 ^ unat (minUint32 (rateLimitFailures st) 4) * second
      | rpcFailureCapacityExhausted \<Rightarrow> 24 * hour
      | rpcFailureTimeout \<Rightarrow> 400 * 2 ^ unat (minUint32 (timeoutFailures st) 5) * ms
      | rpcFailureTransport \<Rightarrow> 700 * ms
      | rpcFailureRemote \<Rightarrow> 500 * ms)"

definition fail_endpoint :: "go_time \<Rightarrow> rpcFailureKind \<Rightarrow> rpcEndpointState \<Rightarrow> rpcEndpointState" where
  "fail_endpoint now kind st =
     (let st = fail_state kind (decay now (prune now st));
          cooldown = fail_cooldown kind st;
          cooldown = (if cooldown > 45 * second then 45 * second else cooldown);
          until = now + cooldown in
      if cooldownUntil st < until then st\<lparr>cooldownUntil := until\<rparr> else st)"

definition recordFailure :: "go_time \<Rightarrow> nat \<Rightarrow> rpcFailureKind \<Rightarrow> rpcFleet \<Rightarrow> rpcFleet" where
  "recordFailure now i kind fleet = map_endpoint i (fail_endpoint now kind) fleet"

definition contains_any :: "string \<Rightarrow> string list \<Rightarrow> bool" where
  "contains_any s subs = list_ex (str_contains s) subs"

definition classifyRPCFailure :: "string \<Rightarrow> rpcFailureKind" where
  "classifyRPCFailure err =
     (let lower = to_lower err in
      if contains_any lower [''402'', ''payment required'', ''out of cu'', ''out of compute'',
           ''monthly capacity limit exceeded'', ''capacity limit exceeded'', ''quota exceeded'', ''billing'']
        then rpcFailureCapacityExhausted
      else if contains_any lower [''429'', ''rate limit'', ''too many requests'', ''throughput limit'']
        then rpcFailureRateLimited
      else if contains_any lower [''timeout'', ''timed out'', ''deadline exceeded''] then rpcFailureTimeout
      else if contains_any lower [''connection'', ''socket'', ''dns'', ''econnreset'', ''broken pipe'', ''eof'']
        then rpcFailureTransport
      else rpcFailureRemote)"

section \<open>The endpoints that are chosen\<close>

definition fleet_ok :: "rpcFleet \<Rightarrow> bool" where
  "fleet_ok fleet \<longleftrightarrow> map ep_id (endpoints fleet) = [0..<length (endpoints fleet)]"

lemma prune_decay_frame [simp]:
  "disabled (decay now st) = disabled st" "cooldownUntil (decay now st) = cooldownUntil st"
  "disabled (prune now st) = disabled st" "cooldownUntil (prune now st) = cooldownUntil st"
  by (simp_all add: decay_def prune_def Let_def)

lemma available_frame [simp]: "available now (decay now (prune now st)) = available now st"
  by (simp add: available_def)

lemma score_all_ids:
  "map fst (fst (score_all F now eps)) = map ep_id (filter (\<lambda>ep. available now (ep_state ep)) eps)"
  by (induction eps) (auto simp: score_def Let_def split: prod.split)

lemma score_all_eps:
  "snd (score_all F now eps) = map (\<lambda>ep. ep\<lparr>ep_state := decay now (prune now (ep_state ep))\<rparr>) eps"
  by (induction eps) (auto simp: score_def Let_def split: prod.split)

lemma score_all_empty: "fst (score_all F now eps) = [] \<longleftrightarrow> filter (\<lambda>ep. available now (ep_state ep)) eps = []"
  by (metis score_all_ids map_is_Nil_conv)

lemma swap_if_mset: "i < length xs \<Longrightarrow> j < length xs \<Longrightarrow> mset (swap_if F xs (i, j)) = mset xs"
  using mset_swap [of j xs i] by (simp add: swap_if_def)

lemma foldl_swap_mset:
  "\<forall>(i, j) \<in> set ijs. i < length xs \<and> j < length xs \<Longrightarrow> mset (foldl (swap_if F) xs ijs) = mset xs"
proof (induction ijs arbitrary: xs)
  case (Cons ij ijs)
  obtain i j where ij: "ij = (i, j)" by (cases ij)
  have m: "mset (swap_if F xs ij) = mset xs" using Cons.prems ij by (simp add: swap_if_mset)
  then have "length (swap_if F xs ij) = length xs" by (metis size_mset)
  with Cons m show ?case by simp
qed simp

lemma exchange_sort_mset: "mset (exchange_sort F xs) = mset xs"
  unfolding exchange_sort_def by (rule foldl_swap_mset) auto

lemma length_exchange_sort [simp]: "length (exchange_sort F xs) = length xs"
  by (metis exchange_sort_mset size_mset)

lemma rotate_shift_small: "nat (i64_rem (wrap64 z) 2) < 2"
proof -
  have "- 1 \<le> wrap64 z smod 2 \<and> wrap64 z smod 2 \<le> 1" using smod_int_range [of 2 "wrap64 z"] by simp
  moreover from this have "in_int64 (wrap64 z smod 2)" by (intro in_int64I) simp_all
  ultimately show ?thesis by (auto simp: i64_rem_def)
qed

lemma rotate_top_mset: "mset (fst (rotate_top c cs)) = mset (take 2 cs)"
proof (cases "length cs \<ge> 2")
  case True
  then obtain a b rest where cs: "cs = a # b # rest" by (metis Suc_le_length_iff numeral_2_eq_2)
  have top: "min (length cs) 2 = 2" using True by simp
  define k where "k = nat (i64_rem (wrap64 (uint c)) 2)"
  have "k < 2" using rotate_shift_small unfolding k_def .
  moreover have "fst (rotate_top c cs) = drop k (take 2 cs) @ take k cs"
    unfolding rotate_top_def top Let_def k_def by simp
  ultimately show ?thesis by (cases "k = 0") (auto simp: cs less_2_cases_iff)
next
  case False
  then have "min (length cs) 2 \<le> 1" "take 2 cs = cs" by auto
  then show ?thesis by (simp add: rotate_top_def Let_def)
qed

text \<open>The endpoints a call may go to: those available, or, if none is, those not disabled.\<close>

definition usable_ids :: "go_time \<Rightarrow> rpcFleet \<Rightarrow> nat list" where
  "usable_ids now fleet =
     (let free = filter (\<lambda>ep. available now (ep_state ep)) (endpoints fleet) in
      map ep_id (if free = [] then filter (\<lambda>ep. \<not> disabled (ep_state ep)) (endpoints fleet) else free))"

lemma available_cleared: "available now ((decay now (prune now st))\<lparr>cooldownUntil := 0\<rparr>) \<longleftrightarrow> \<not> disabled st"
  by (simp add: available_def time_is_zero_def)

lemma scored_ids: "map fst (fst (scored F now fleet)) = usable_ids now fleet"
proof (cases "filter (\<lambda>ep. available now (ep_state ep)) (endpoints fleet) = []")
  case True
  then show ?thesis
    by (simp add: scored_def usable_ids_def Let_def score_all_empty score_all_ids score_all_eps clear_cooldown_def
        filter_map o_def available_cleared)
next
  case False
  then show ?thesis by (simp add: scored_def usable_ids_def Let_def score_all_empty score_all_ids)
qed

lemma scored_eps_frame:
  "map ep_id (snd (scored F now fleet)) = map ep_id (endpoints fleet)"
  "map ep_url (snd (scored F now fleet)) = map ep_url (endpoints fleet)"
  "map (disabled o ep_state) (snd (scored F now fleet)) = map (disabled o ep_state) (endpoints fleet)"
  by (simp_all add: scored_def Let_def score_all_eps clear_cooldown_def o_def)

lemma map_endpoint_frame:
  "map ep_id (endpoints (map_endpoint i f fleet)) = map ep_id (endpoints fleet)"
  "map ep_url (endpoints (map_endpoint i f fleet)) = map ep_url (endpoints fleet)"
  "length (endpoints (map_endpoint i f fleet)) = length (endpoints fleet)"
  by (simp_all add: map_endpoint_def)

lemma foldl_map_endpoint_frame:
  "map ep_id (endpoints (foldl (\<lambda>fl i. map_endpoint i f fl) fleet is)) = map ep_id (endpoints fleet)"
  "length (endpoints (foldl (\<lambda>fl i. map_endpoint i f fl) fleet is)) = length (endpoints fleet)"
  by (induction "is" arbitrary: fleet) (simp_all add: map_endpoint_frame)

lemma endpoint_ok:
  assumes "fleet_ok fleet" "i < length (endpoints fleet)"
  shows "endpoint i fleet = Some (endpoints fleet ! i)"
proof -
  have "ep_id (endpoints fleet ! k) = k" if "k < length (endpoints fleet)" for k
    using assms(1) that unfolding fleet_ok_def by (metis add_0 nth_map nth_upt)
  then show ?thesis unfolding endpoint_def find_Some_iff using assms(2) by (intro exI [of _ i]) auto
qed

lemma handles_of:
  assumes "fleet_ok fleet" "\<forall>i \<in> set is. i < length (endpoints fleet)"
  shows "map h_id (concat (map (handle_of fleet) is)) = is"
    "\<forall>h \<in> set (concat (map (handle_of fleet) is)). h_url h = ep_url (endpoints fleet ! h_id h)"
proof -
  have id: "ep_id (endpoints fleet ! k) = k" if "k < length (endpoints fleet)" for k
    using assms(1) that unfolding fleet_ok_def by (metis add_0 nth_map nth_upt)
  have "handle_of fleet i = [\<lparr> h_id = i, h_name = ep_name (endpoints fleet ! i), h_url = ep_url (endpoints fleet ! i) \<rparr>]"
    if "i < length (endpoints fleet)" for i
    using endpoint_ok [OF assms(1) that] id [OF that] by (simp add: handle_of_def)
  then show "map h_id (concat (map (handle_of fleet) is)) = is"
    "\<forall>h \<in> set (concat (map (handle_of fleet) is)). h_url h = ep_url (endpoints fleet ! h_id h)"
    using assms(2) by (induction "is") auto
qed

definition chosen_ids :: "'f float_ops \<Rightarrow> go_time \<Rightarrow> rpcFleet \<Rightarrow> nat list" where
  "chosen_ids F now fleet = map fst (fst (rotate_top (rotation fleet) (exchange_sort F (fst (scored F now fleet)))))"

lemma chosen_ids_mset:
  "mset (chosen_ids F now fleet) = mset (map fst (take 2 (exchange_sort F (fst (scored F now fleet)))))"
  by (simp add: chosen_ids_def rotate_top_mset)

lemma usable_ids_distinct: "fleet_ok fleet \<Longrightarrow> distinct (usable_ids now fleet)"
proof -
  assume "fleet_ok fleet"
  then have "distinct (map ep_id (endpoints fleet))" unfolding fleet_ok_def by (metis distinct_upt)
  then show ?thesis by (simp add: usable_ids_def Let_def distinct_map_filter)
qed

lemma chosen_ids_props:
  assumes "fleet_ok fleet"
  shows "distinct (chosen_ids F now fleet)" "set (chosen_ids F now fleet) \<subseteq> set (usable_ids now fleet)"
    "length (chosen_ids F now fleet) = min 2 (length (usable_ids now fleet))"
proof -
  let ?s = "exchange_sort F (fst (scored F now fleet))"
  have ids: "mset (map fst ?s) = mset (usable_ids now fleet)"
    using exchange_sort_mset [of F "fst (scored F now fleet)"] scored_ids [of F now fleet] by (metis mset_map)
  then have "distinct (map fst ?s)" using usable_ids_distinct [OF assms] by (metis mset_eq_imp_distinct_iff)
  then have "distinct (map fst (take 2 ?s))" by (metis distinct_take take_map)
  then show "distinct (chosen_ids F now fleet)" using chosen_ids_mset by (metis mset_eq_imp_distinct_iff)
  have "set (chosen_ids F now fleet) = fst ` set (take 2 ?s)"
    using mset_eq_setD [OF chosen_ids_mset [of F now fleet]] by simp
  also have "\<dots> \<subseteq> set (map fst ?s)" using set_take_subset [of 2 ?s] by auto
  finally show "set (chosen_ids F now fleet) \<subseteq> set (usable_ids now fleet)" using mset_eq_setD [OF ids] by simp
  have "length (chosen_ids F now fleet) = length (take 2 ?s)"
    using mset_eq_length [OF chosen_ids_mset [of F now fleet]] by simp
  also have "\<dots> = min 2 (length (usable_ids now fleet))"
    using mset_eq_length [OF ids] by (simp add: min.commute)
  finally show "length (chosen_ids F now fleet) = min 2 (length (usable_ids now fleet))" .
qed

lemma usable_ids_bound: "fleet_ok fleet \<Longrightarrow> i \<in> set (usable_ids now fleet) \<Longrightarrow> i < length (endpoints fleet)"
proof -
  assume ok: "fleet_ok fleet" and i: "i \<in> set (usable_ids now fleet)"
  have "set (usable_ids now fleet) \<subseteq> set (map ep_id (endpoints fleet))"
    by (auto simp: usable_ids_def Let_def split: if_splits)
  with ok i show ?thesis unfolding fleet_ok_def by (metis atLeastLessThan_iff set_upt subsetD)
qed

lemma usable_ids_enabled:
  assumes "fleet_ok fleet" "i \<in> set (usable_ids now fleet)"
  shows "\<not> disabled (ep_state (endpoints fleet ! i))"
proof -
  obtain ep where ep: "ep \<in> set (endpoints fleet)" "ep_id ep = i" "\<not> disabled (ep_state ep)"
    using assms(2) by (auto simp: usable_ids_def Let_def available_def split: if_splits)
  then obtain k where k: "k < length (endpoints fleet)" "endpoints fleet ! k = ep" by (meson in_set_conv_nth)
  then have "ep_id ep = k" using assms(1) unfolding fleet_ok_def by (metis add_0 nth_map nth_upt)
  with ep k show ?thesis by simp
qed

lemma sendCandidates_spec:
  assumes "fleet_ok fleet" "limit \<le> 0 \<or> 2 \<le> limit" "sendCandidates F now limit fleet = (handles, fleet')"
  shows "distinct (map h_id handles) \<and> set (map h_id handles) \<subseteq> set (usable_ids now fleet) \<and>
    length handles = min 2 (length (usable_ids now fleet)) \<and>
    (\<forall>h \<in> set handles. h_url h = ep_url (endpoints fleet ! h_id h) \<and> \<not> disabled (ep_state (endpoints fleet ! h_id h))) \<and>
    fleet_ok fleet'"
proof -
  let ?c = "chosen_ids F now fleet" and ?s = "scored F now fleet"
  let ?fl = "fleet\<lparr>endpoints := snd ?s, rotation := snd (rotate_top (rotation fleet) (exchange_sort F (fst ?s)))\<rparr>"
  note props = chosen_ids_props [OF assms(1), of F now]
  let ?r = "fst (rotate_top (rotation fleet) (exchange_sort F (fst ?s)))"
  define lim where "lim = (if limit \<le> 0 \<or> limit > int (length ?r) then int (length ?r) else limit)"
  have "length ?r = length ?c" by (simp add: chosen_ids_def)
  then have take_all: "take (nat lim) ?r = ?r" using assms(2) props(3) by (auto simp: lim_def)
  have handles: "handles = concat (map (handle_of ?fl) ?c)"
    and fleet': "fleet' = foldl (\<lambda>fl i. map_endpoint i (reserve now) fl) ?fl ?c"
    using assms(3) unfolding sendCandidates_def Let_def lim_def [symmetric] take_all
    by (simp_all add: chosen_ids_def)
  have len: "length (endpoints ?fl) = length (endpoints fleet)"
    using arg_cong [OF scored_eps_frame(1) [of F now fleet], of length] by simp
  then have ok: "fleet_ok ?fl" using assms(1) scored_eps_frame(1) [of F now fleet] by (simp add: fleet_ok_def)
  have bound: "\<forall>i \<in> set ?c. i < length (endpoints ?fl)"
    using props(2) usable_ids_bound [OF assms(1)] len by auto
  have ids: "map h_id handles = ?c" using handles_of(1) [OF ok bound] handles by simp
  have url: "h_url h = ep_url (endpoints fleet ! h_id h)" if "h \<in> set handles" for h
  proof -
    have "h_id h < length (endpoints fleet)" using that ids bound len by (metis image_eqI list.set_map)
    moreover have "h_url h = ep_url (endpoints ?fl ! h_id h)" using handles_of(2) [OF ok bound, folded handles] that by blast
    moreover have "map ep_url (endpoints ?fl) ! h_id h = map ep_url (endpoints fleet) ! h_id h"
      using scored_eps_frame(2) [of F now fleet] by simp
    ultimately show ?thesis using len by simp
  qed
  have en: "\<not> disabled (ep_state (endpoints fleet ! h_id h))" if "h \<in> set handles" for h
    using usable_ids_enabled [OF assms(1)] props(2) that ids by (metis image_eqI list.set_map subsetD)
  have "fleet_ok fleet'" using ok unfolding fleet' fleet_ok_def by (simp add: foldl_map_endpoint_frame)
  moreover have "length handles = length ?c" using ids length_map [of h_id handles] by simp
  ultimately show ?thesis using props ids url en by simp
qed

text \<open>
  The endpoints chosen for a transaction are distinct and enabled; they are the available ones
  or, only if every enabled endpoint is cooling down, any enabled ones; whenever an enabled
  endpoint exists one is chosen, and never more than two, whatever limit the caller asks for.
\<close>

theorem sendCandidates_choice:
  assumes "fleet_ok fleet" "limit \<le> 0 \<or> 2 \<le> limit" "sendCandidates F now limit fleet = (handles, fleet')"
  shows "distinct (map h_id handles) \<and> set (map h_id handles) \<subseteq> set (usable_ids now fleet) \<and>
    length handles = min 2 (length (usable_ids now fleet)) \<and>
    (\<forall>h \<in> set handles. h_url h = ep_url (endpoints fleet ! h_id h) \<and> \<not> disabled (ep_state (endpoints fleet ! h_id h))) \<and>
    fleet_ok fleet'"
  using assms by (rule sendCandidates_spec)

definition sample_fleet :: rpcFleet where
  "sample_fleet = recordFailure 5 0 rpcFailureTimeout (newRPCFleet 1 [''https://a'', ''https://b'', ''https://c''])"

theorem sendCandidates_choice_witness:
  "usable_ids 6 sample_fleet = [1, 2] \<and>
   (case sendCandidates (coarse_float (\<lambda>_. None)) 6 3 sample_fleet of (handles, _) \<Rightarrow>
      length handles = 2 \<and> distinct (map h_id handles))"
proof -
  have ok: "fleet_ok sample_fleet" by code_simp
  have u: "usable_ids 6 sample_fleet = [1, 2]" by code_simp
  show ?thesis using sendCandidates_choice [OF ok, of 3 "coarse_float (\<lambda>_. None)" 6] u
    by (auto split: prod.split)
qed

section \<open>Disabled endpoints and cooldowns\<close>

datatype fleet_event =
    FSend go_time int64
  | FSuccess go_time nat duration
  | FFailure go_time nat string

fun fleet_step :: "'f float_ops \<Rightarrow> rpcFleet \<Rightarrow> fleet_event \<Rightarrow> rpcFleet" where
  "fleet_step F fleet (FSend now limit) = snd (sendCandidates F now limit fleet)"
| "fleet_step F fleet (FSuccess now i latency) = recordSuccess F now i latency fleet"
| "fleet_step F fleet (FFailure now i err) = recordFailure now i (classifyRPCFailure err) fleet"

definition disabled_ids :: "rpcFleet \<Rightarrow> nat set" where
  "disabled_ids fleet = ep_id ` {ep \<in> set (endpoints fleet). disabled (ep_state ep)}"

lemma disabled_ids_map: "disabled_ids fleet = fst ` {p \<in> set (map (\<lambda>ep. (ep_id ep, disabled (ep_state ep))) (endpoints fleet)). snd p}"
  by (force simp: disabled_ids_def)

lemma map_endpoint_disabled:
  "(\<And>st. disabled st \<Longrightarrow> disabled (f st)) \<Longrightarrow> disabled_ids fleet \<subseteq> disabled_ids (map_endpoint i f fleet)"
proof
  fix k
  assume f: "\<And>st. disabled st \<Longrightarrow> disabled (f st)" and "k \<in> disabled_ids fleet"
  then obtain ep where ep: "ep \<in> set (endpoints fleet)" "disabled (ep_state ep)" "ep_id ep = k"
    by (auto simp: disabled_ids_def)
  let ?ep = "if ep_id ep = i then ep\<lparr>ep_state := f (ep_state ep)\<rparr> else ep"
  have "?ep \<in> set (endpoints (map_endpoint i f fleet))" using ep(1) by (simp add: map_endpoint_def)
  moreover have "disabled (ep_state ?ep)" "ep_id ?ep = k" using ep f by auto
  ultimately show "k \<in> disabled_ids (map_endpoint i f fleet)" unfolding disabled_ids_def by blast
qed

lemma fail_state_disabled: "disabled st \<Longrightarrow> disabled (fail_state kind st)"
  by (simp add: fail_state_def Let_def split: rpcFailureKind.split)

lemma foldl_map_endpoint_disabled:
  "(\<And>st. disabled st \<Longrightarrow> disabled (f st)) \<Longrightarrow> disabled_ids fleet \<subseteq> disabled_ids (foldl (\<lambda>fl i. map_endpoint i f fl) fleet is)"
proof (induction "is" arbitrary: fleet)
  case (Cons i "is")
  then show ?case using map_endpoint_disabled [of f fleet i] by fastforce
qed simp

lemma reserve_disabled: "disabled (reserve now st) = disabled st"
  by (simp add: reserve_def Let_def)

lemma scored_disabled_ids: "disabled_ids (fleet\<lparr>endpoints := snd (scored F now fleet), rotation := r\<rparr>) = disabled_ids fleet"
proof -
  have "map (\<lambda>ep. (ep_id ep, disabled (ep_state ep))) (snd (scored F now fleet)) =
      map (\<lambda>ep. (ep_id ep, disabled (ep_state ep))) (endpoints fleet)"
    by (simp add: scored_def Let_def score_all_eps clear_cooldown_def o_def)
  then show ?thesis by (simp add: disabled_ids_map)
qed

lemma fleet_step_disabled: "disabled_ids fleet \<subseteq> disabled_ids (fleet_step F fleet ev)"
proof (cases ev)
  case (FSend now limit)
  then show ?thesis
    using foldl_map_endpoint_disabled [of "reserve now"] scored_disabled_ids
    by (simp add: sendCandidates_def Let_def reserve_disabled) blast
next
  case (FSuccess now i latency)
  then show ?thesis by (simp add: recordSuccess_def Let_def map_endpoint_disabled)
next
  case (FFailure now i err)
  then show ?thesis by (simp add: recordFailure_def fail_endpoint_def Let_def map_endpoint_disabled fail_state_disabled)
qed

lemma fleet_step_ok: "fleet_ok fleet \<Longrightarrow> fleet_ok (fleet_step F fleet ev)"
proof (cases ev)
  case (FSend now limit)
  assume "fleet_ok fleet"
  moreover have "length (snd (scored F now fleet)) = length (endpoints fleet)"
    using arg_cong [OF scored_eps_frame(1) [of F now fleet], of length] by simp
  ultimately show ?thesis using FSend scored_eps_frame(1) [of F now fleet]
    by (simp add: sendCandidates_def Let_def fleet_ok_def foldl_map_endpoint_frame)
qed (simp_all add: recordSuccess_def recordFailure_def fleet_ok_def map_endpoint_frame)

lemma fleet_run_disabled: "disabled_ids fl \<subseteq> disabled_ids (foldl (fleet_step F) fl evs)"
proof (induction evs arbitrary: fl)
  case (Cons ev evs)
  then show ?case using fleet_step_disabled [of fl F ev] by (simp del: fleet_step.simps) blast
qed simp

lemma fleet_run_ok: "fleet_ok fl \<Longrightarrow> fleet_ok (foldl (fleet_step F) fl evs)"
  by (induction evs arbitrary: fl) (simp_all add: fleet_step_ok del: fleet_step.simps)

lemma disabled_not_usable:
  assumes "fleet_ok fleet" "i \<in> disabled_ids fleet"
  shows "i \<notin> set (usable_ids now fleet)"
proof
  assume "i \<in> set (usable_ids now fleet)"
  moreover obtain ep where "ep \<in> set (endpoints fleet)" "ep_id ep = i" "disabled (ep_state ep)"
    using assms(2) by (auto simp: disabled_ids_def)
  moreover from this obtain k where "k < length (endpoints fleet)" "endpoints fleet ! k = ep" by (meson in_set_conv_nth)
  moreover from this have "ep_id (endpoints fleet ! k) = k" using assms(1) unfolding fleet_ok_def by (metis add_0 nth_map nth_upt)
  ultimately show False using usable_ids_enabled [OF assms(1), of i now] by auto
qed

lemma map_endpoint_disables:
  assumes "fleet_ok fleet" "i < length (endpoints fleet)" "\<And>st. disabled (f st)"
  shows "i \<in> disabled_ids (map_endpoint i f fleet)"
proof -
  let ?ep = "endpoints fleet ! i"
  have "ep_id ?ep = i" "?ep \<in> set (endpoints fleet)"
    using assms(1,2) unfolding fleet_ok_def by (metis add_0 nth_map nth_upt, simp)
  then have "?ep\<lparr>ep_state := f (ep_state ?ep)\<rparr> \<in> set (endpoints (map_endpoint i f fleet))"
    by (auto simp: map_endpoint_def image_iff intro!: bexI [of _ ?ep])
  moreover have "disabled (ep_state (?ep\<lparr>ep_state := f (ep_state ?ep)\<rparr>))" using assms(3) by simp
  moreover have "ep_id (?ep\<lparr>ep_state := f (ep_state ?ep)\<rparr>) = i" using \<open>ep_id ?ep = i\<close> by simp
  ultimately show ?thesis unfolding disabled_ids_def by (metis (mono_tags, lifting) image_eqI mem_Collect_eq)
qed

lemma capacity_disables:
  "fleet_ok fleet \<Longrightarrow> i < length (endpoints fleet) \<Longrightarrow> i \<in> disabled_ids (recordFailure now i rpcFailureCapacityExhausted fleet)"
  unfolding recordFailure_def by (rule map_endpoint_disables) (simp_all add: fail_endpoint_def Let_def fail_state_def)

text \<open>
  An endpoint that failed with an error read as exhausted capacity is never chosen again,
  whatever sends, successes, failures and passing of time follow.
\<close>

theorem exhausted_endpoint_never_chosen:
  assumes "fleet_ok fleet" "i < length (endpoints fleet)" "classifyRPCFailure err = rpcFailureCapacityExhausted"
    and "limit \<le> 0 \<or> 2 \<le> limit"
    and "fleet' = foldl (fleet_step F) (fleet_step F fleet (FFailure t i err)) evs"
  shows "i \<notin> set (map h_id (fst (sendCandidates F now limit fleet')))"
proof -
  have "fleet_ok fleet'" unfolding assms(5) by (intro fleet_run_ok fleet_step_ok assms(1))
  moreover have "i \<in> disabled_ids fleet'"
    using capacity_disables [OF assms(1,2), of t] fleet_run_disabled assms(3) unfolding assms(5)
    by (metis fleet_step.simps(3) subsetD)
  ultimately have "i \<notin> set (usable_ids now fleet')" by (rule disabled_not_usable)
  then show ?thesis
    using sendCandidates_spec [OF \<open>fleet_ok fleet'\<close> assms(4), of F now] by (cases "sendCandidates F now limit fleet'") auto
qed

text \<open>The message of a reverted balance check, in which the digits 402 occur by chance, is read as such an error.\<close>

theorem exhausted_endpoint_never_chosen_witness:
  "classifyRPCFailure ''insufficient funds: balance 14025'' = rpcFailureCapacityExhausted \<and>
   0 \<notin> set (map h_id (fst (sendCandidates (coarse_float (\<lambda>_. None)) 90 2
     (foldl (fleet_step (coarse_float (\<lambda>_. None)))
       (fleet_step (coarse_float (\<lambda>_. None)) sample_fleet (FFailure 7 0 ''insufficient funds: balance 14025''))
       [FSend 8 2, FSuccess 9 1 4]))))"
proof -
  have ok: "fleet_ok sample_fleet" "0 < length (endpoints sample_fleet)" by code_simp+
  have c: "classifyRPCFailure ''insufficient funds: balance 14025'' = rpcFailureCapacityExhausted" by code_simp
  from exhausted_endpoint_never_chosen [OF ok c, of 2, OF _ refl] c show ?thesis
    by (simp del: fleet_step.simps foldl_Cons)
qed

lemma fail_cooldown_min: "400 * ms \<le> fail_cooldown kind st"
proof -
  have pow: "1 \<le> (2 :: int) ^ n" for n by simp
  show ?thesis
  proof (cases kind)
    case rpcFailureTimeout
    then show ?thesis using pow [of "unat (minUint32 (timeoutFailures st) 5)"] by (simp add: fail_cooldown_def ms_def)
  next
    case rpcFailureRateLimited
    define x :: int where "x = 2 ^ unat (minUint32 (rateLimitFailures st) 4)"
    have "1 \<le> x" unfolding x_def by (rule pow)
    then show ?thesis using rpcFailureRateLimited by (simp add: fail_cooldown_def x_def [symmetric] ms_def second_def)
  qed (simp_all add: fail_cooldown_def ms_def duration_defs)
qed

text \<open>
  A failure never shortens a cooldown; the cooldown it leaves lasts at least 400 milliseconds
  and ends at most 45 seconds after the failure, or where an earlier one already ended.
\<close>

theorem failure_cooldown_bounds:
  "cooldownUntil st \<le> cooldownUntil (fail_endpoint now kind st) \<and>
   now + 400 * ms \<le> cooldownUntil (fail_endpoint now kind st) \<and>
   cooldownUntil (fail_endpoint now kind st) \<le> max (cooldownUntil st) (now + 45 * second)"
proof -
  define st' where "st' = fail_state kind (decay now (prune now st))"
  have "cooldownUntil st' = cooldownUntil st"
    by (simp add: st'_def fail_state_def Let_def split: rpcFailureKind.split)
  moreover have "400 * ms \<le> 45 * second" by (simp add: ms_def second_def)
  ultimately show ?thesis
    using fail_cooldown_min [of kind st'] by (simp add: fail_endpoint_def st'_def [symmetric] Let_def)
qed

end
