(* ===== verification/Signer_Service.thy ===== *)
theory Signer_Service
  imports Signer_Policy Rpc_Fleet
begin

text \<open>
  The signer service of \<open>signer/main.go\<close>: the protected HTTP handlers and the execution of
  transfers, settlements and contract calls over the in-memory store, the custody guard and the
  fleet of RPC endpoints. What a node does is an argument: the answers of its methods, and for
  \<open>SendTransaction\<close> whether the transaction was taken and whether the caller learned of it. The
  log \<open>sv_sent\<close> of transactions that a node took is a ghost. The store and the guard are shared by
  all handlers: a call of the guard works on the store of the service.
\<close>

section \<open>Nodes and state\<close>

datatype send_outcome =
    Accepted
  | Refused string
  | ReplyLost string

record rpc_client =
  rc_ChainID :: "string + int"
  rc_PendingNonceAt :: "string + 64 word"
  rc_SuggestGasPrice :: "string + int"
  rc_EstimateGas :: "address \<Rightarrow> int \<Rightarrow> bytes \<Rightarrow> string + 64 word"
  rc_SendTransaction :: "evm_tx \<Rightarrow> send_outcome"

record signer_sys =
  sv_store :: memorySignerStore
  sv_guard :: "memorySignerStore CustodyGuard option"
  sv_fleet :: "rpcFleet option"
  sv_sent :: "(int \<times> evm_tx) list"

type_synonym 'a exec = "signer_sys \<Rightarrow> (string + 'a) \<times> signer_sys"

text \<open>The clock and the network as one request sees them.\<close>

record rpc_world =
  w_now :: go_time
  w_latency :: duration
  w_dial :: "string \<Rightarrow> string + rpc_client"

definition custody_event :: "('f, 'z) signer_config_scheme \<Rightarrow> string \<Rightarrow> string \<Rightarrow> string \<Rightarrow> string \<Rightarrow> CustodyEvent" where
  "custody_event cfg kind reason txHash wallet =
     \<lparr> ce_Kind = kind, ce_Reason = reason, ce_Mode = CustodyMode cfg, ce_TxHash = txHash, ce_Wallet = wallet \<rparr>"

definition on_store :: "(memorySignerStore \<Rightarrow> memorySignerStore) \<Rightarrow> signer_sys \<Rightarrow> signer_sys" where
  "on_store f s = s\<lparr>sv_store := f (sv_store s)\<rparr>"

section \<open>Submitting a transaction\<close>

text \<open>
  The part that the three \<open>...WithClient\<close> functions share, from \<open>PendingNonceAt\<close> on: reserve a
  nonce, build the transaction, sign it, send it and record the outcome. \<open>mk\<close> builds the
  transaction from nonce and gas price; \<open>item\<close> is the record of the transaction without nonce,
  hash and status.
\<close>

definition submit_tx ::
  "'l signer_lib_scheme \<Rightarrow> ('f, 'z) signer_config_scheme \<Rightarrow> string \<Rightarrow> int \<Rightarrow> rpc_client \<Rightarrow> string \<Rightarrow>
     (64 word \<Rightarrow> int \<Rightarrow> string + evm_tx) \<Rightarrow> SignerTransaction \<Rightarrow> TransferResponse exec" where
  "submit_tx lib cfg network chainID client from mk item s =
     (case rc_PendingNonceAt client of
        Inl e \<Rightarrow> (Inl (''falha ao obter nonce: '' @ e), s)
      | Inr chainPending \<Rightarrow>
          (case ReserveChainNonce from network chainPending (sv_store s) of
             (nonce, st) \<Rightarrow>
               (let s = s\<lparr>sv_store := RecordCustodyEvent (custody_event cfg ''nonce_reserved'' [] [] from) st\<rparr> in
                case rc_SuggestGasPrice client of
                  Inl e \<Rightarrow> (Inl (''falha ao obter gas price: '' @ e), s)
                | Inr gasPrice \<Rightarrow>
                    (case mk nonce gasPrice of
                       Inl e \<Rightarrow> (Inl e, s)
                     | Inr tx \<Rightarrow>
                         (case SignTx lib (trim_prefix (EVMPrivateKey cfg) ''0x'') chainID tx of
                            Inl e \<Rightarrow> (Inl (''falha ao assinar tx: '' @ e), s)
                          | Inr h \<Rightarrow>
                              (let item = item\<lparr>st_Nonce := nonce, st_TxHash := HashHex lib h\<rparr>;
                                   failed = (\<lambda>e s. (Inl (''falha ao transmitir tx: '' @ e),
                                     on_store (CreateSignerTransaction (item\<lparr>st_Status := ''failed'', st_Reason := e\<rparr>)) s)) in
                               case rc_SendTransaction client tx of
                                 Refused e \<Rightarrow> failed e s
                               | ReplyLost e \<Rightarrow> failed e (s\<lparr>sv_sent := sv_sent s @ [(chainID, tx)]\<rparr>)
                               | Accepted \<Rightarrow>
                                   (Inr \<lparr> tr_TxHash = HashHex lib h, tr_From = from, tr_Network = network \<rparr>,
                                    on_store (RecordCustodyEvent (custody_event cfg ''tx_submitted'' [] (HashHex lib h) from))
                                      (on_store (CreateSignerTransaction (item\<lparr>st_Status := ''submitted''\<rparr>))
                                        (s\<lparr>sv_sent := sv_sent s @ [(chainID, tx)]\<rparr>)))))))))"

definition gas_or :: "64 word \<Rightarrow> string + 64 word \<Rightarrow> 64 word" where
  "gas_or fallback answer = (case answer of Inl _ \<Rightarrow> fallback | Inr g \<Rightarrow> if g = 0 then fallback else g)"

definition units_text :: "policy_error \<Rightarrow> string" where
  "units_text e = (if e = DecimalsInvalid then ''decimais invalidos'' else ''amount invalido'')"

text \<open>The transaction of a transfer: of a token, or of the native currency when there is no token.\<close>

definition transfer_tx ::
  "'l signer_lib_scheme \<Rightarrow> ('f, 'z) signer_config_scheme \<Rightarrow> TransferRequest \<Rightarrow> string \<Rightarrow> rpc_client \<Rightarrow> 64 word \<Rightarrow> int \<Rightarrow> string + evm_tx" where
  "transfer_tx lib cfg req network client nonce gasPrice =
     (let to = HexToAddress lib (tq_To req);
          tokenContract = normalizedTokenContract cfg req network;
          token = HexToAddress lib tokenContract in
      if trim_space tokenContract \<noteq> [] \<and> token \<noteq> 0 then
        (case parseUnits (tq_Amount req) (cfg_TokenDecimals cfg) of
           Inl e \<Rightarrow> Inl (units_text e)
         | Inr amount \<Rightarrow>
             (let data = erc20TransferData to amount in
              Inr \<lparr> et_Nonce = nonce, et_To = token, et_Value = 0,
                    et_GasLimit = gas_or 120000 (rc_EstimateGas client token 0 data),
                    et_GasPrice = gasPrice, et_Data = data \<rparr>))
      else
        (case parseUnits (tq_Amount req) 18 of
           Inl e \<Rightarrow> Inl (units_text e)
         | Inr amount \<Rightarrow>
             Inr \<lparr> et_Nonce = nonce, et_To = to, et_Value = amount,
                   et_GasLimit = gas_or 21000 (rc_EstimateGas client to amount []),
                   et_GasPrice = gasPrice, et_Data = [] \<rparr>))"

definition new_item :: "string \<Rightarrow> string \<Rightarrow> string \<Rightarrow> string \<Rightarrow> string \<Rightarrow> string \<Rightarrow> SignerTransaction" where
  "new_item key from to token amount network =
     \<lparr> st_IdempotencyKey = key, WalletFrom = from, WalletTo = to, st_Token = token, st_Amount = amount,
       st_Network = network, st_Nonce = 0, st_TxHash = [], st_Status = [], st_Reason = [], st_Confirmations = 0 \<rparr>"

definition executeEVMTransferWithClient ::
  "'l signer_lib_scheme \<Rightarrow> ('f, 'z) signer_config_scheme \<Rightarrow> TransferRequest \<Rightarrow> string \<Rightarrow> string \<Rightarrow> rpc_client \<Rightarrow> TransferResponse exec" where
  "executeEVMTransferWithClient lib cfg req network from client s =
     (case rc_ChainID client of
        Inl e \<Rightarrow> (Inl (''falha ao obter chain id: '' @ e), s)
      | Inr chainID \<Rightarrow>
          if network = ''BSC'' \<and> chainID \<noteq> 56 then (Inl (''chain id inesperado para BSC: '' @ int_str chainID), s)
          else submit_tx lib cfg network chainID client from (transfer_tx lib cfg req network client)
                 (new_item (tq_IdempotencyKey req) from (tq_To req) (normalizedTokenContract cfg req network) (tq_Amount req) network) s)"

definition contract_tx ::
  "'l signer_lib_scheme \<Rightarrow> ContractCallRequest \<Rightarrow> rpc_client \<Rightarrow> 64 word \<Rightarrow> int \<Rightarrow> string + evm_tx" where
  "contract_tx lib req client nonce gasPrice =
     (case decodeHexData (cq_Data req) of
        Inl e \<Rightarrow> Inl e
      | Inr data \<Rightarrow>
          (let to = HexToAddress lib (cq_To req) in
           Inr \<lparr> et_Nonce = nonce, et_To = to, et_Value = 0,
                 et_GasLimit = gas_or 350000 (rc_EstimateGas client to 0 data), et_GasPrice = gasPrice, et_Data = data \<rparr>))"

definition executeEVMContractCallWithClient ::
  "'l signer_lib_scheme \<Rightarrow> ('f, 'z) signer_config_scheme \<Rightarrow> ContractCallRequest \<Rightarrow> string \<Rightarrow> string \<Rightarrow> rpc_client \<Rightarrow> TransferResponse exec" where
  "executeEVMContractCallWithClient lib cfg req network from client s =
     (case rc_ChainID client of
        Inl e \<Rightarrow> (Inl (''falha ao obter chain id: '' @ e), s)
      | Inr chainID \<Rightarrow>
          if network = ''BSC'' \<and> chainID \<noteq> 56 then (Inl (''chain id inesperado para BSC: '' @ int_str chainID), s)
          else submit_tx lib cfg network chainID client from (contract_tx lib req client)
                 (new_item (cq_IdempotencyKey req) from (cq_To req) (trim_space (cq_TokenContract req))
                   (firstNonEmptySigner [cq_Amount req, ''0'']) network) s)"

definition settlement_tx ::
  "'l signer_lib_scheme \<Rightarrow> SettlementExecuteRequest \<Rightarrow> int \<Rightarrow> rpc_client \<Rightarrow> 64 word \<Rightarrow> int \<Rightarrow> string + evm_tx" where
  "settlement_tx lib req amount client nonce gasPrice =
     (case vaultPayoutData lib (HexToHash lib (sq_OperationID req)) (HexToAddress lib (sq_Token req))
             (HexToAddress lib (sq_Recipient req)) amount of
        Inl e \<Rightarrow> Inl e
      | Inr data \<Rightarrow>
          (let vault = HexToAddress lib (sq_Vault req) in
           Inr \<lparr> et_Nonce = nonce, et_To = vault, et_Value = 0,
                 et_GasLimit = gas_or 350000 (rc_EstimateGas client vault 0 data), et_GasPrice = gasPrice, et_Data = data \<rparr>))"

definition executeEVMSettlementWithClient ::
  "'l signer_lib_scheme \<Rightarrow> ('f, 'z) signer_config_scheme \<Rightarrow> SettlementExecuteRequest \<Rightarrow> string \<Rightarrow> int \<Rightarrow> string \<Rightarrow> rpc_client \<Rightarrow> TransferResponse exec" where
  "executeEVMSettlementWithClient lib cfg req network amount from client s =
     (case rc_ChainID client of
        Inl e \<Rightarrow> (Inl (''falha ao obter chain id: '' @ e), s)
      | Inr chainID \<Rightarrow>
          if chainID \<noteq> uint (sq_ChainID req) then (Inl (''chain id inesperado para settlement: '' @ int_str chainID), s)
          else submit_tx lib cfg network chainID client from (settlement_tx lib req amount client)
                 (new_item (sq_IdempotencyKey req) from (sq_Vault req) (sq_Token req) (sq_AmountRaw req) network) s)"

section \<open>Trying the endpoints\<close>

text \<open>The loop over the candidates of the fleet; the fleet learns of every outcome.\<close>

definition on_fleet :: "(rpcFleet \<Rightarrow> rpcFleet) \<Rightarrow> signer_sys \<Rightarrow> signer_sys" where
  "on_fleet f s = s\<lparr>sv_fleet := map_option f (sv_fleet s)\<rparr>"

fun send_loop :: "'f float_ops \<Rightarrow> rpc_world \<Rightarrow> (rpc_client \<Rightarrow> TransferResponse exec) \<Rightarrow> rpcHandle list \<Rightarrow> string option \<Rightarrow> TransferResponse exec" where
  "send_loop F w attempt [] lastErr s =
     (Inl (case lastErr of None \<Rightarrow> ''nenhum RPC BSC disponivel'' | Some e \<Rightarrow> e), s)"
| "send_loop F w attempt (h # hs) lastErr s =
     (case w_dial w (h_url h) of
        Inl e \<Rightarrow> send_loop F w attempt hs (Some (h_name h @ '' indisponivel: '' @ e))
                   (on_fleet (recordFailure (w_now w) (h_id h) (classifyRPCFailure e)) s)
      | Inr client \<Rightarrow>
          (case attempt client s of
             (Inl e, s) \<Rightarrow> send_loop F w attempt hs (Some (h_name h @ '' falhou: '' @ e))
                              (on_fleet (recordFailure (w_now w) (h_id h) (classifyRPCFailure e)) s)
           | (Inr resp, s) \<Rightarrow> (Inr resp, on_fleet (recordSuccess F (w_now w) (h_id h) (w_latency w)) s)))"

text \<open>
  What the three \<open>executeEVM...\<close> functions share: the key, the simulation, and the loop over the
  candidates of the configured fleet or of a fresh one that is dropped afterwards.
\<close>

definition execute_evm ::
  "'f float_ops \<Rightarrow> 'l signer_lib_scheme \<Rightarrow> ('f, 'z) signer_config_scheme \<Rightarrow> rpc_world \<Rightarrow> string \<Rightarrow> string \<Rightarrow>
     (string \<Rightarrow> rpc_client \<Rightarrow> TransferResponse exec) \<Rightarrow> TransferResponse exec" where
  "execute_evm F lib cfg w network simulated attempt s =
     (case KeyAddress lib (trim_prefix (EVMPrivateKey cfg) ''0x'') of
        Inl e \<Rightarrow> (Inl (''EVM_PRIVATE_KEY invalida: '' @ e), s)
      | Inr addr \<Rightarrow>
          (let from = AddressHex lib addr in
           if AllowSimulation cfg then
             (Inr \<lparr> tr_TxHash = HashHex lib (Keccak256Hash lib simulated), tr_From = from, tr_Network = network \<rparr>, s)
           else
             (let fleet = (case sv_fleet s of Some fl \<Rightarrow> fl | None \<Rightarrow> newRPCFleet (w_now w) (RPCURLs cfg)) in
              case sendCandidates F (w_now w) (int (length (RPCURLs cfg))) fleet of
                (handles, fleet) \<Rightarrow>
                  (case send_loop F w (attempt from) handles None (s\<lparr>sv_fleet := Some fleet\<rparr>) of
                     (r, s') \<Rightarrow> (r, if sv_fleet s = None then s'\<lparr>sv_fleet := None\<rparr> else s')))))"

definition executeEVMTransfer :: "'f float_ops \<Rightarrow> 'l signer_lib_scheme \<Rightarrow> ('f, 'z) signer_config_scheme \<Rightarrow> rpc_world \<Rightarrow> TransferRequest \<Rightarrow> string \<Rightarrow> TransferResponse exec" where
  "executeEVMTransfer F lib cfg w req network =
     execute_evm F lib cfg w network (tq_IdempotencyKey req @ tq_To req @ tq_Amount req)
       (executeEVMTransferWithClient lib cfg req network)"

definition executeEVMContractCall :: "'f float_ops \<Rightarrow> 'l signer_lib_scheme \<Rightarrow> ('f, 'z) signer_config_scheme \<Rightarrow> rpc_world \<Rightarrow> ContractCallRequest \<Rightarrow> string \<Rightarrow> TransferResponse exec" where
  "executeEVMContractCall F lib cfg w req network =
     execute_evm F lib cfg w network (cq_IdempotencyKey req @ cq_To req @ cq_Data req)
       (executeEVMContractCallWithClient lib cfg req network)"

definition executeEVMSettlement :: "'f float_ops \<Rightarrow> 'l signer_lib_scheme \<Rightarrow> ('f, 'z) signer_config_scheme \<Rightarrow> rpc_world \<Rightarrow> SettlementExecuteRequest \<Rightarrow> string \<Rightarrow> int \<Rightarrow> TransferResponse exec" where
  "executeEVMSettlement F lib cfg w req network amount =
     execute_evm F lib cfg w network (sq_IdempotencyKey req @ sq_OperationID req @ sq_Vault req)
       (executeEVMSettlementWithClient lib cfg req network amount)"

section \<open>Treasury limits and execution\<close>

datatype exec_error = PolicyError policy_error | ExecError string

definition DailySubmittedOutflow :: "'f float_ops \<Rightarrow> string \<Rightarrow> string \<Rightarrow> memorySignerStore \<Rightarrow> 'f" where
  "DailySubmittedOutflow F token network st =
     foldl (\<lambda>total (_, item).
       if st_Token item \<noteq> token \<or> st_Network item \<noteq> network \<or> (st_Status item \<noteq> ''submitted'' \<and> st_Status item \<noteq> ''confirmed'')
       then total
       else case f_parse F (st_Amount item) of None \<Rightarrow> total | Some v \<Rightarrow> f_add F total v)
     (f_zero F) (ms_transactions st)"

text \<open>The two limits on the outflow of the day with the new amount; a refusal is recorded.\<close>

definition daily_limits ::
  "'f float_ops \<Rightarrow> ('f, 'z) signer_config_scheme \<Rightarrow> string \<Rightarrow> string \<Rightarrow> 'f \<Rightarrow> memorySignerStore \<Rightarrow> (policy_error + unit) \<times> memorySignerStore" where
  "daily_limits F cfg token network amount st =
     (let next = f_add F (DailySubmittedOutflow F token network st) amount in
      if f_lt F (f_zero F) (TreasuryLockThreshold cfg) \<and> f_lt F (TreasuryLockThreshold cfg) next then
        (Inl DailyLockdown, RecordCustodyEvent
          (custody_event cfg ''treasury_lockdown_threshold'' ''limite de lockdown diario excedido'' [] []) st)
      else if f_lt F (f_zero F) (TreasuryMaxDailyOut cfg) \<and> f_lt F (TreasuryMaxDailyOut cfg) next then
        (Inl DailyLimit, RecordCustodyEvent (custody_event cfg ''treasury_daily_limit'' ''limite diario excedido'' [] []) st)
      else (Inr (), st))"

definition validateTreasuryPolicy ::
  "'f float_ops \<Rightarrow> ('f, 'z) signer_config_scheme \<Rightarrow> TransferRequest \<Rightarrow> string \<Rightarrow> memorySignerStore \<Rightarrow> (policy_error + unit) \<times> memorySignerStore" where
  "validateTreasuryPolicy F cfg req network st =
     (let token = normalizedTokenContract cfg req network in
      case parseFloatAmount F (tq_Amount req) of
        Inl e \<Rightarrow> (Inl e, st)
      | Inr amount \<Rightarrow> daily_limits F cfg token network amount st)"

definition validateContractCallTreasuryPolicy ::
  "'f float_ops \<Rightarrow> ('f, 'z) signer_config_scheme \<Rightarrow> ContractCallRequest \<Rightarrow> string \<Rightarrow> memorySignerStore \<Rightarrow> (policy_error + unit) \<times> memorySignerStore" where
  "validateContractCallTreasuryPolicy F cfg req network st =
     (if trim_space (cq_Amount req) = [] then (Inr (), st)
      else case parseFloatAmount F (cq_Amount req) of
             Inl e \<Rightarrow> (Inl e, st)
           | Inr amount \<Rightarrow> daily_limits F cfg (trim_space (cq_TokenContract req)) network amount st)"

definition lift_exec :: "(string + 'a) \<times> signer_sys \<Rightarrow> (exec_error + 'a) \<times> signer_sys" where
  "lift_exec r = (case r of (Inl e, s) \<Rightarrow> (Inl (ExecError e), s) | (Inr x, s) \<Rightarrow> (Inr x, s))"

type_synonym 'r executor = "rpc_world \<Rightarrow> 'r \<Rightarrow> signer_sys \<Rightarrow> (exec_error + TransferResponse) \<times> signer_sys"

definition executeTransfer :: "'f float_ops \<Rightarrow> 'l signer_lib_scheme \<Rightarrow> ('f, 'z) signer_config_scheme \<Rightarrow> TransferRequest executor" where
  "executeTransfer F lib cfg w req s =
     (let network = requestedNetwork cfg (tq_Network req) in
      case validateTransferPolicy F lib cfg req network of
        Inl e \<Rightarrow> (Inl (PolicyError e), s)
      | Inr _ \<Rightarrow>
          (case validateTreasuryPolicy F cfg req network (sv_store s) of
             (Inl e, st) \<Rightarrow> (Inl (PolicyError e), s\<lparr>sv_store := st\<rparr>)
           | (Inr _, st) \<Rightarrow>
               (let s = s\<lparr>sv_store := st\<rparr> in
                if tq_DerivationIndex req \<noteq> None then (Inl (PolicyError DerivationNotEnabled), s)
                else if network = ''BSC'' \<or> network = ''EVM'' then lift_exec (executeEVMTransfer F lib cfg w req network s)
                else (Inl (PolicyError (NetworkNotSupported network)), s))))"

definition executeContractCall :: "'f float_ops \<Rightarrow> 'l signer_lib_scheme \<Rightarrow> ('f, 'z) signer_config_scheme \<Rightarrow> ContractCallRequest executor" where
  "executeContractCall F lib cfg w req s =
     (let network = requestedNetwork cfg (cq_Network req) in
      case validateContractCallPolicy F lib cfg req network of
        Inl e \<Rightarrow> (Inl (PolicyError e), s)
      | Inr _ \<Rightarrow>
          (case validateContractCallTreasuryPolicy F cfg req network (sv_store s) of
             (Inl e, st) \<Rightarrow> (Inl (PolicyError e), s\<lparr>sv_store := st\<rparr>)
           | (Inr _, st) \<Rightarrow>
               (let s = s\<lparr>sv_store := st\<rparr> in
                if cq_DerivationIndex req \<noteq> None then (Inl (PolicyError DerivationNotEnabled), s)
                else if network = ''BSC'' \<or> network = ''EVM'' then lift_exec (executeEVMContractCall F lib cfg w req network s)
                else (Inl (PolicyError (NetworkNotSupported network)), s))))"

definition executeSettlement :: "'f float_ops \<Rightarrow> 'l signer_lib_scheme \<Rightarrow> ('f, 'z) signer_config_scheme \<Rightarrow> SettlementExecuteRequest executor" where
  "executeSettlement F lib cfg w req s =
     (case validateSettlementExecuteRequest lib cfg (w_now w) req of
        Inl e \<Rightarrow> (Inl (PolicyError e), s)
      | Inr (network, amount) \<Rightarrow>
          if network = ''BSC'' \<or> network = ''EVM'' then lift_exec (executeEVMSettlement F lib cfg w req network amount s)
          else (Inl (PolicyError (NetworkNotSupported network)), s))"

section \<open>HTTP handlers\<close>

text \<open>
  A request after the security middleware: its method, the nonce of its context if there is one, and
  its body: \<open>None\<close> if it cannot be read, \<open>Some None\<close> if it is not JSON.
\<close>

record 'r http_request =
  hq_Method :: string
  hq_Nonce :: "string option"
  hq_Body :: "'r option option"

datatype http_response =
    HttpError nat
  | HttpJSON TransferResponse
  | HttpFailed exec_error
  | HttpUnlocked

definition GetNonceTTL :: "('f, 'z) signer_config_scheme \<Rightarrow> duration" where
  "GetNonceTTL cfg = (if NonceTTLSeconds cfg \<le> 0 then 5 * minute else i64_mul (NonceTTLSeconds cfg) second)"

text \<open>
  The three money-moving handlers have one body: \<open>execute\<close> and the idempotency key differ. Status
  codes: 405 method, 423 lockdown, 500 no context, 400 body, 401 nonce, 409 in progress, 502 failure.
\<close>

definition money_handler ::
  "('f, 'z) signer_config_scheme \<Rightarrow> 'r executor \<Rightarrow> ('r \<Rightarrow> string) \<Rightarrow> rpc_world \<Rightarrow> 'r http_request \<Rightarrow> signer_sys \<Rightarrow> http_response \<times> signer_sys" where
  "money_handler cfg execute key w hq s =
     (if hq_Method hq \<noteq> ''POST'' then (HttpError 405, s)
      else if fst (Locked (sv_guard s)) then (HttpError 423, s)
      else case hq_Nonce hq of
        None \<Rightarrow> (HttpError 500, s)
      | Some nonce \<Rightarrow>
          (case hq_Body hq of
             None \<Rightarrow> (HttpError 400, s)
           | Some parsed \<Rightarrow>
               (case AcceptNonce (w_now w) nonce (GetNonceTTL cfg) (sv_store s) of
                  (False, st) \<Rightarrow> (HttpError 401, s\<lparr>sv_store := st\<rparr>)
                | (True, st) \<Rightarrow>
                    (case parsed of
                       None \<Rightarrow> (HttpError 400, s\<lparr>sv_store := st\<rparr>)
                     | Some req \<Rightarrow>
                         (case ClaimResult (key req) st of
                            ((Some previous, _), st) \<Rightarrow> (HttpJSON previous, s\<lparr>sv_store := st\<rparr>)
                          | ((None, False), st) \<Rightarrow> (HttpError 409, s\<lparr>sv_store := st\<rparr>)
                          | ((None, True), st) \<Rightarrow>
                              (case execute w req (s\<lparr>sv_store := st\<rparr>) of
                                 (Inl e, s) \<Rightarrow> (HttpFailed e, on_store (ReleaseClaim (key req)) s)
                               | (Inr resp, s) \<Rightarrow> (HttpJSON resp, on_store (SaveResult (key req) resp) s)))))))"

definition hd_transfer where
  "hd_transfer F lib cfg = money_handler cfg (executeTransfer F lib cfg) tq_IdempotencyKey"

definition hd_contract_call where
  "hd_contract_call F lib cfg = money_handler cfg (executeContractCall F lib cfg) cq_IdempotencyKey"

text \<open>A settlement without an idempotency key is given its operation identifier as key.\<close>

definition settlement_key :: "SettlementExecuteRequest \<Rightarrow> string" where
  "settlement_key req = (if trim_space (sq_IdempotencyKey req) = [] then trim_space (sq_OperationID req) else sq_IdempotencyKey req)"

definition settlements_execute where
  "settlements_execute F lib cfg =
     money_handler cfg (\<lambda>w req. executeSettlement F lib cfg w (req\<lparr>sq_IdempotencyKey := settlement_key req\<rparr>)) settlement_key"

text \<open>A call of the guard on the store of the service.\<close>

definition with_guard :: "(memorySignerStore CustodyGuard \<Rightarrow> memorySignerStore CustodyGuard) \<Rightarrow> signer_sys \<Rightarrow> signer_sys" where
  "with_guard f s =
     (case sv_guard s of
        None \<Rightarrow> s
      | Some g \<Rightarrow>
          (let g' = f (g\<lparr>g_store := Some (sv_store s)\<rparr>) in
           s\<lparr>sv_guard := Some g', sv_store := (case g_store g' of Some st \<Rightarrow> st | None \<Rightarrow> sv_store s)\<rparr>))"

definition custody_unlock :: "('f, 'z) signer_config_scheme \<Rightarrow> go_time \<Rightarrow> string http_request \<Rightarrow> signer_sys \<Rightarrow> http_response \<times> signer_sys" where
  "custody_unlock cfg now hq s =
     (if hq_Method hq \<noteq> ''POST'' then (HttpError 405, s)
      else case hq_Nonce hq of
        None \<Rightarrow> (HttpError 500, s)
      | Some nonce \<Rightarrow>
          (case hq_Body hq of
             None \<Rightarrow> (HttpError 400, s)
           | Some parsed \<Rightarrow>
               (case AcceptNonce now nonce (GetNonceTTL cfg) (sv_store s) of
                  (False, st) \<Rightarrow> (HttpError 401, s\<lparr>sv_store := st\<rparr>)
                | (True, st) \<Rightarrow>
                    (let s = s\<lparr>sv_store := st\<rparr>;
                         msg = (case parsed of None \<Rightarrow> [] | Some n \<Rightarrow> n);
                         recv = map_option (\<lambda>g. g\<lparr>g_store := Some st\<rparr>) (sv_guard s) in
                     (case fst (Unlock memory_custody now msg recv) of Inl _ \<Rightarrow> HttpError 423 | Inr _ \<Rightarrow> HttpUnlocked,
                      with_guard (\<lambda>g. the (snd (Unlock memory_custody now msg (Some g)))) s)))))"

section \<open>The monitor of open transactions\<close>

text \<open>\<open>receipts\<close> is the answer of a node: \<open>None\<close> no receipt, otherwise whether the transaction failed.\<close>

definition check_item :: "('f, 'z) signer_config_scheme \<Rightarrow> (string \<Rightarrow> bool option) \<Rightarrow> SignerTransaction \<Rightarrow> memorySignerStore \<Rightarrow> memorySignerStore" where
  "check_item cfg receipts item st =
     (case receipts (st_TxHash item) of
        None \<Rightarrow> st
      | Some reverted \<Rightarrow>
          (let status = (if reverted then ''reverted'' else ''confirmed'');
               reason = (if reverted then ''receipt status failed'' else []) in
           RecordCustodyEvent (custody_event cfg (''tx_'' @ status) [] (st_TxHash item) (WalletFrom item))
             (MarkSignerTransactionStatus (st_TxHash item) status reason 1 st)))"

definition checkSignerTransactions ::
  "('f, 'z) signer_config_scheme \<Rightarrow> (string \<Rightarrow> (string \<Rightarrow> bool option) option) \<Rightarrow> memorySignerStore \<Rightarrow> memorySignerStore" where
  "checkSignerTransactions cfg nodes st =
     (let items = ListOpenSignerTransactions 50 st in
      if items = [] then st
      else case List.find (\<lambda>url. nodes url \<noteq> None) (RPCURLs cfg) of
             None \<Rightarrow> st
           | Some url \<Rightarrow> foldl (\<lambda>st item. check_item cfg (the (nodes url)) item st) st items)"

section \<open>What an execution leaves alone\<close>

text \<open>Everything but the outgoing transactions, the nonces, the events and the fleet stays.\<close>

definition exec_frame :: "signer_sys \<Rightarrow> signer_sys \<Rightarrow> bool" where
  "exec_frame s s' \<longleftrightarrow> ms_results (sv_store s') = ms_results (sv_store s) \<and> ms_locks (sv_store s') = ms_locks (sv_store s) \<and>
     ms_activeIncident (sv_store s') = ms_activeIncident (sv_store s) \<and> sv_guard s' = sv_guard s"

definition sends_only :: "(int \<times> evm_tx \<Rightarrow> bool) \<Rightarrow> signer_sys \<Rightarrow> signer_sys \<Rightarrow> bool" where
  "sends_only P s s' \<longleftrightarrow> exec_frame s s' \<and> (\<exists>txs. sv_sent s' = sv_sent s @ txs \<and> (\<forall>x \<in> set txs. P x))"

lemma sends_only_refl: "sends_only P s s"
  by (simp add: sends_only_def exec_frame_def)

lemma sends_only_trans: "sends_only P s s' \<Longrightarrow> sends_only P s' s'' \<Longrightarrow> sends_only P s s''"
  by (auto simp: sends_only_def exec_frame_def)

lemma sends_only_mono: "sends_only P s s' \<Longrightarrow> (\<And>x. P x \<Longrightarrow> Q x) \<Longrightarrow> sends_only Q s s'"
  by (auto simp: sends_only_def)

lemma sends_only_fleet: "sends_only P s (on_fleet f s)" "sends_only P s (s\<lparr>sv_fleet := fl\<rparr>)"
  by (simp_all add: sends_only_def exec_frame_def on_fleet_def)

lemma store_ops_frame [simp]:
  "ms_results (RecordCustodyEvent e st) = ms_results st" "ms_locks (RecordCustodyEvent e st) = ms_locks st"
  "ms_activeIncident (RecordCustodyEvent e st) = ms_activeIncident st"
  "ms_results (CreateSignerTransaction i st) = ms_results st" "ms_locks (CreateSignerTransaction i st) = ms_locks st"
  "ms_activeIncident (CreateSignerTransaction i st) = ms_activeIncident st"
  by (simp_all add: RecordCustodyEvent_def CreateSignerTransaction_def)

lemma reserve_frame:
  "ReserveChainNonce w n p st = (nonce, st') \<Longrightarrow>
     ms_results st' = ms_results st \<and> ms_locks st' = ms_locks st \<and> ms_activeIncident st' = ms_activeIncident st"
  by (auto simp: ReserveChainNonce_def Let_def)

lemma submit_tx_sends:
  assumes "submit_tx lib cfg network chainID client from mk item s = (r, s')"
  shows "sends_only (\<lambda>(c, tx). c = chainID \<and> (\<exists>nonce gp. mk nonce gp = Inr tx)) s s'"
proof (cases "rc_PendingNonceAt client")
  case (Inl e)
  with assms show ?thesis by (simp add: submit_tx_def sends_only_refl)
next
  case (Inr pending)
  obtain nonce st where res: "ReserveChainNonce from network pending (sv_store s) = (nonce, st)"
    by (cases "ReserveChainNonce from network pending (sv_store s)")
  note frame = reserve_frame [OF res]
  show ?thesis
    using assms Inr res frame unfolding submit_tx_def
    by (auto simp: Let_def sends_only_def exec_frame_def on_store_def split: sum.splits send_outcome.splits) blast+
qed

lemma send_loop_sends:
  assumes "\<And>client s r s'. attempt client s = (r, s') \<Longrightarrow> sends_only P s s'"
    and "send_loop F w attempt hs lastErr s = (r, s')"
  shows "sends_only P s s'"
  using assms(2)
proof (induction hs arbitrary: lastErr s)
  case Nil
  then show ?case by (simp add: sends_only_refl)
next
  case (Cons h hs)
  show ?case
  proof (cases "w_dial w (h_url h)")
    case (Inl e)
    with Cons show ?thesis using sends_only_fleet(1) sends_only_trans by fastforce
  next
    case (Inr client)
    obtain r1 s1 where att: "attempt client s = (r1, s1)" by (cases "attempt client s")
    then have one: "sends_only P s s1" by (rule assms(1))
    show ?thesis
    proof (cases r1)
      case (Inl e)
      then have "sends_only P (on_fleet (recordFailure (w_now w) (h_id h) (classifyRPCFailure e)) s1) s'"
        using Cons Inr att by simp
      then show ?thesis using one sends_only_fleet(1) sends_only_trans by blast
    next
      case (Inr resp)
      then have "s' = on_fleet (recordSuccess F (w_now w) (h_id h) (w_latency w)) s1"
        using Cons.prems att \<open>w_dial w (h_url h) = Inr client\<close> by simp
      then show ?thesis using one sends_only_fleet(1) sends_only_trans by blast
    qed
  qed
qed

lemma execute_evm_sends:
  assumes "\<And>from client s r s'. attempt from client s = (r, s') \<Longrightarrow> sends_only P s s'"
    and "execute_evm F lib cfg w network simulated attempt s = (r, s')"
  shows "sends_only P s s'"
proof (cases "KeyAddress lib (trim_prefix (EVMPrivateKey cfg) ''0x'')")
  case (Inl e)
  with assms(2) show ?thesis by (simp add: execute_evm_def sends_only_refl)
next
  case (Inr addr)
  show ?thesis
  proof (cases "AllowSimulation cfg")
    case True
    with assms(2) Inr show ?thesis by (simp add: execute_evm_def Let_def sends_only_refl)
  next
    case False
    let ?fl = "case sv_fleet s of Some fl \<Rightarrow> fl | None \<Rightarrow> newRPCFleet (w_now w) (RPCURLs cfg)"
    obtain handles fleet where cand: "sendCandidates F (w_now w) (int (length (RPCURLs cfg))) ?fl = (handles, fleet)"
      by (cases "sendCandidates F (w_now w) (int (length (RPCURLs cfg))) ?fl")
    obtain r1 s1 where loop: "send_loop F w (attempt (AddressHex lib addr)) handles None (s\<lparr>sv_fleet := Some fleet\<rparr>) = (r1, s1)"
      by (cases "send_loop F w (attempt (AddressHex lib addr)) handles None (s\<lparr>sv_fleet := Some fleet\<rparr>)")
    have "s' = (if sv_fleet s = None then s1\<lparr>sv_fleet := None\<rparr> else s1)"
      using assms(2) Inr False cand loop by (simp add: execute_evm_def Let_def)
    moreover have "sends_only P (s\<lparr>sv_fleet := Some fleet\<rparr>) s1" by (rule send_loop_sends [OF assms(1) loop])
    ultimately show ?thesis using sends_only_fleet(2) sends_only_trans by metis
  qed
qed

lemma transfer_attempt_sends:
  "executeEVMTransferWithClient lib cfg req network from client s = (r, s') \<Longrightarrow> sends_only (\<lambda>_. True) s s'"
  unfolding executeEVMTransferWithClient_def
  by (auto simp: sends_only_refl split: sum.splits if_splits intro: sends_only_mono [OF submit_tx_sends])

lemma contract_attempt_sends:
  "executeEVMContractCallWithClient lib cfg req network from client s = (r, s') \<Longrightarrow> sends_only (\<lambda>_. True) s s'"
  unfolding executeEVMContractCallWithClient_def
  by (auto simp: sends_only_refl split: sum.splits if_splits intro: sends_only_mono [OF submit_tx_sends])

text \<open>What may be sent for a settlement: the payout of the vault, with the values of the request.\<close>

definition payout_of :: "'l signer_lib_scheme \<Rightarrow> SettlementExecuteRequest \<Rightarrow> int \<Rightarrow> int \<times> evm_tx \<Rightarrow> bool" where
  "payout_of lib req amount x \<longleftrightarrow>
     (case x of (chainID, tx) \<Rightarrow>
        chainID = uint (sq_ChainID req) \<and> et_To tx = HexToAddress lib (sq_Vault req) \<and> et_Value tx = 0 \<and>
        vaultPayoutData lib (HexToHash lib (sq_OperationID req)) (HexToAddress lib (sq_Token req))
          (HexToAddress lib (sq_Recipient req)) amount = Inr (et_Data tx))"

lemma settlement_attempt_sends:
  assumes "executeEVMSettlementWithClient lib cfg req network amount from client s = (r, s')"
  shows "sends_only (payout_of lib req amount) s s'"
proof -
  have "payout_of lib req amount (uint (sq_ChainID req), tx)"
    if "settlement_tx lib req amount client nonce gp = Inr tx" for nonce gp tx
    using that by (auto simp: settlement_tx_def payout_of_def Let_def split: sum.splits)
  then show ?thesis
    using assms unfolding executeEVMSettlementWithClient_def
    by (auto simp: sends_only_refl split: sum.splits if_splits intro!: sends_only_mono [OF submit_tx_sends])
qed

lemma executeSettlement_sends:
  assumes "executeSettlement F lib cfg w req s = (r, s')"
  shows "s' = s \<or>
    (\<exists>network amount. settlement_admissible lib cfg (w_now w) req network amount \<and>
       sends_only (payout_of lib req amount) s s')"
proof (cases "validateSettlementExecuteRequest lib cfg (w_now w) req")
  case (Inl e)
  with assms show ?thesis by (simp add: executeSettlement_def)
next
  case (Inr na)
  obtain network amount where na: "na = (network, amount)" by (cases na)
  then have adm: "settlement_admissible lib cfg (w_now w) req network amount"
    using Inr by (simp only: validate_settlement_iff)
  then have "network = ''BSC'' \<or> network = ''EVM''" unfolding settlement_admissible_def by blast
  moreover obtain r1 s1 where run: "executeEVMSettlement F lib cfg w req network amount s = (r1, s1)"
    by (cases "executeEVMSettlement F lib cfg w req network amount s")
  ultimately have "s' = s1" using assms Inr na by (auto simp: executeSettlement_def lift_exec_def split: sum.splits)
  moreover have "sends_only (payout_of lib req amount) s s1"
    using settlement_attempt_sends run [unfolded executeEVMSettlement_def] by (rule execute_evm_sends)
  ultimately show ?thesis using adm by blast
qed

text \<open>
  C1. Whatever the nodes answer, a settlement request sends nothing unless it is admissible, and all
  it sends are payouts of the authorised vault on the requested chain for exactly the operation,
  token, recipient and amount of the request, which its operation identifier binds.
\<close>

theorem settlement_sends_only_its_payout:
  "let s' = snd (executeSettlement F lib cfg w req s) in
   sv_sent s' = sv_sent s \<or>
     (\<exists>network amount txs. settlement_admissible lib cfg (w_now w) req network amount \<and>
        sv_sent s' = sv_sent s @ txs \<and> list_all (payout_of lib req amount) txs)"
proof -
  obtain r s' where run: "executeSettlement F lib cfg w req s = (r, s')" by (cases "executeSettlement F lib cfg w req s")
  show ?thesis using executeSettlement_sends [OF run] run by (auto simp: sends_only_def list_all_iff)
qed

end
