(* ===== verification/Signer_Run.thy ===== *)
theory Signer_Run
  imports Signer_Service "HOL-Library.Sublist"
begin

text \<open>
  Runs of the signer service: its handlers serve requests concurrently, the guard scans blocks and
  the monitor follows open transactions. A money-moving handler is cut in two at the point where
  it holds the claim of its key: between the two halves anything else may happen. Each half, and each
  other handler, is one step. The theorems are about every sequence of such steps.
\<close>

section \<open>The two halves of a handler\<close>

datatype any_request =
    RTransfer TransferRequest
  | RContractCall ContractCallRequest
  | RSettlement SettlementExecuteRequest

fun any_key :: "any_request \<Rightarrow> string" where
  "any_key (RTransfer req) = tq_IdempotencyKey req"
| "any_key (RContractCall req) = cq_IdempotencyKey req"
| "any_key (RSettlement req) = settlement_key req"

fun any_execute :: "'f float_ops \<Rightarrow> 'l signer_lib_scheme \<Rightarrow> ('f, 'z) signer_config_scheme \<Rightarrow> any_request executor" where
  "any_execute F lib cfg w (RTransfer req) = executeTransfer F lib cfg w req"
| "any_execute F lib cfg w (RContractCall req) = executeContractCall F lib cfg w req"
| "any_execute F lib cfg w (RSettlement req) = executeSettlement F lib cfg w (req\<lparr>sq_IdempotencyKey := settlement_key req\<rparr>)"

text \<open>The first half answers, or returns the request whose key it has claimed.\<close>

definition money_begin ::
  "('f, 'z) signer_config_scheme \<Rightarrow> ('r \<Rightarrow> string) \<Rightarrow> go_time \<Rightarrow> 'r http_request \<Rightarrow> signer_sys \<Rightarrow> (http_response + 'r) \<times> signer_sys" where
  "money_begin cfg key now hq s =
     (if hq_Method hq \<noteq> ''POST'' then (Inl (HttpError 405), s)
      else if fst (Locked (sv_guard s)) then (Inl (HttpError 423), s)
      else case hq_Nonce hq of
        None \<Rightarrow> (Inl (HttpError 500), s)
      | Some nonce \<Rightarrow>
          (case hq_Body hq of
             None \<Rightarrow> (Inl (HttpError 400), s)
           | Some parsed \<Rightarrow>
               (case AcceptNonce now nonce (GetNonceTTL cfg) (sv_store s) of
                  (False, st) \<Rightarrow> (Inl (HttpError 401), s\<lparr>sv_store := st\<rparr>)
                | (True, st) \<Rightarrow>
                    (case parsed of
                       None \<Rightarrow> (Inl (HttpError 400), s\<lparr>sv_store := st\<rparr>)
                     | Some req \<Rightarrow>
                         (case ClaimResult (key req) st of
                            ((Some previous, _), st) \<Rightarrow> (Inl (HttpJSON previous), s\<lparr>sv_store := st\<rparr>)
                          | ((None, False), st) \<Rightarrow> (Inl (HttpError 409), s\<lparr>sv_store := st\<rparr>)
                          | ((None, True), st) \<Rightarrow> (Inr req, s\<lparr>sv_store := st\<rparr>))))))"

definition money_finish :: "'r executor \<Rightarrow> ('r \<Rightarrow> string) \<Rightarrow> rpc_world \<Rightarrow> 'r \<Rightarrow> signer_sys \<Rightarrow> http_response \<times> signer_sys" where
  "money_finish execute key w req s =
     (case execute w req s of
        (Inl e, s) \<Rightarrow> (HttpFailed e, on_store (ReleaseClaim (key req)) s)
      | (Inr resp, s) \<Rightarrow> (HttpJSON resp, on_store (SaveResult (key req) resp) s))"

lemma money_handler_halves:
  "money_handler cfg execute key w hq s =
     (case money_begin cfg key (w_now w) hq s of
        (Inl answer, s) \<Rightarrow> (answer, s)
      | (Inr req, s) \<Rightarrow> money_finish execute key w req s)"
  unfolding money_handler_def money_begin_def money_finish_def
  by (auto split: option.splits prod.splits bool.splits)

section \<open>Steps\<close>

record svc =
  sc_sys :: signer_sys
  sc_inflight :: "any_request list"
  sc_paid :: "string list"

datatype svc_event =
    SBegin go_time "any_request http_request"
  | SFinish rpc_world nat
  | SUnlock go_time "string http_request"
  | SScan go_time code_at block_by_tag
  | SMonitor "string \<Rightarrow> (string \<Rightarrow> bool option) option"

definition drop_nth :: "nat \<Rightarrow> 'a list \<Rightarrow> 'a list" where
  "drop_nth n xs = take n xs @ drop (Suc n) xs"

text \<open>\<open>sc_paid\<close> logs the keys of the requests that were executed with success.\<close>

fun svc_step :: "'f float_ops \<Rightarrow> 'l signer_lib_scheme \<Rightarrow> ('f, 'z) signer_config_scheme \<Rightarrow> svc \<Rightarrow> svc_event \<Rightarrow> svc" where
  "svc_step F lib cfg c (SBegin now hq) =
     (case money_begin cfg any_key now hq (sc_sys c) of
        (Inl _, s) \<Rightarrow> c\<lparr>sc_sys := s\<rparr>
      | (Inr req, s) \<Rightarrow> c\<lparr>sc_sys := s, sc_inflight := sc_inflight c @ [req]\<rparr>)"
| "svc_step F lib cfg c (SFinish w n) =
     (if n < length (sc_inflight c) then
        (case money_finish (any_execute F lib cfg) any_key w (sc_inflight c ! n) (sc_sys c) of
           (answer, s) \<Rightarrow> c\<lparr>sc_sys := s, sc_inflight := drop_nth n (sc_inflight c),
             sc_paid := sc_paid c @ (case answer of HttpJSON _ \<Rightarrow> [any_key (sc_inflight c ! n)] | _ \<Rightarrow> [])\<rparr>)
      else c)"
| "svc_step F lib cfg c (SUnlock now hq) = c\<lparr>sc_sys := snd (custody_unlock cfg now hq (sc_sys c))\<rparr>"
| "svc_step F lib cfg c (SScan now code_at blocks) =
     c\<lparr>sc_sys := with_guard (scanOnce lib code_at blocks memory_custody now) (sc_sys c)\<rparr>"
| "svc_step F lib cfg c (SMonitor nodes) = c\<lparr>sc_sys := on_store (checkSignerTransactions cfg nodes) (sc_sys c)\<rparr>"

section \<open>Frames\<close>

text \<open>What the steps leave alone: results and claims, and the open incident.\<close>

abbreviation same_claims :: "memorySignerStore \<Rightarrow> memorySignerStore \<Rightarrow> bool" where
  "same_claims st st' \<equiv> ms_results st' = ms_results st \<and> ms_locks st' = ms_locks st"

lemma AcceptNonce_frame:
  "AcceptNonce now n ttl st = (b, st') \<Longrightarrow> same_claims st st' \<and> ms_activeIncident st' = ms_activeIncident st"
  by (auto simp: AcceptNonce_def Let_def split: option.splits)

lemma check_item_frame:
  "same_claims st (check_item cfg receipts item st) \<and> ms_activeIncident (check_item cfg receipts item st) = ms_activeIncident st"
  by (simp add: check_item_def MarkSignerTransactionStatus_def Let_def split: option.split)

lemma check_items_frame:
  "same_claims st (foldl (\<lambda>st item. check_item cfg receipts item st) st items) \<and>
   ms_activeIncident (foldl (\<lambda>st item. check_item cfg receipts item st) st items) = ms_activeIncident st"
  by (induction items arbitrary: st) (use check_item_frame in simp_all)

lemma monitor_frame:
  "same_claims st (checkSignerTransactions cfg nodes st) \<and>
   ms_activeIncident (checkSignerTransactions cfg nodes st) = ms_activeIncident st"
  unfolding checkSignerTransactions_def Let_def using check_items_frame by (auto split: option.split)

lemma daily_limits_frame:
  "daily_limits F cfg token network a st = (r, st') \<Longrightarrow> same_claims st st' \<and> ms_activeIncident st' = ms_activeIncident st"
  by (auto simp: daily_limits_def Let_def split: if_splits)

lemma lift_exec_state: "lift_exec r = (x, s) \<Longrightarrow> \<exists>r'. r = (r', s)"
  by (cases r) (auto simp: lift_exec_def split: sum.splits)

lemma executeTransfer_frame:
  assumes "executeTransfer F lib cfg w req s = (r, s')"
  shows "sends_only (\<lambda>_. True) s s'"
proof -
  let ?n = "requestedNetwork cfg (tq_Network req)"
  obtain r1 st where v: "validateTreasuryPolicy F cfg req ?n (sv_store s) = (r1, st)"
    by (cases "validateTreasuryPolicy F cfg req ?n (sv_store s)")
  then have "same_claims (sv_store s) st \<and> ms_activeIncident st = ms_activeIncident (sv_store s)"
    by (auto simp: validateTreasuryPolicy_def Let_def dest: daily_limits_frame split: sum.splits)
  then have one: "sends_only (\<lambda>_. True) s (s\<lparr>sv_store := st\<rparr>)" by (simp add: sends_only_def exec_frame_def)
  have evm: "sends_only (\<lambda>_. True) t t'" if "executeEVMTransfer F lib cfg w req ?n t = (x, t')" for x t t'
    using transfer_attempt_sends that [unfolded executeEVMTransfer_def] by (rule execute_evm_sends)
  show ?thesis
    using assms v one evm sends_only_trans [OF one] sends_only_refl
    by (auto simp: executeTransfer_def Let_def split: sum.splits if_splits dest!: lift_exec_state)
qed

lemma executeContractCall_frame:
  assumes "executeContractCall F lib cfg w req s = (r, s')"
  shows "sends_only (\<lambda>_. True) s s'"
proof -
  let ?n = "requestedNetwork cfg (cq_Network req)"
  obtain r1 st where v: "validateContractCallTreasuryPolicy F cfg req ?n (sv_store s) = (r1, st)"
    by (cases "validateContractCallTreasuryPolicy F cfg req ?n (sv_store s)")
  then have "same_claims (sv_store s) st \<and> ms_activeIncident st = ms_activeIncident (sv_store s)"
    by (auto simp: validateContractCallTreasuryPolicy_def dest: daily_limits_frame split: sum.splits if_splits)
  then have one: "sends_only (\<lambda>_. True) s (s\<lparr>sv_store := st\<rparr>)" by (simp add: sends_only_def exec_frame_def)
  have evm: "sends_only (\<lambda>_. True) t t'" if "executeEVMContractCall F lib cfg w req ?n t = (x, t')" for x t t'
    using contract_attempt_sends that [unfolded executeEVMContractCall_def] by (rule execute_evm_sends)
  show ?thesis
    using assms v one evm sends_only_trans [OF one] sends_only_refl
    by (auto simp: executeContractCall_def Let_def split: sum.splits if_splits dest!: lift_exec_state)
qed

lemma any_execute_frame: "any_execute F lib cfg w req s = (r, s') \<Longrightarrow> exec_frame s s'"
proof (cases req)
  case (RSettlement q)
  assume "any_execute F lib cfg w req s = (r, s')"
  with RSettlement have "executeSettlement F lib cfg w (q\<lparr>sq_IdempotencyKey := settlement_key q\<rparr>) s = (r, s')" by simp
  from executeSettlement_sends [OF this] show ?thesis by (auto simp: sends_only_def exec_frame_def)
qed (auto dest!: executeTransfer_frame executeContractCall_frame simp: sends_only_def)

text \<open>A call of the guard leaves results and claims of its store alone.\<close>

definition keeps_claims :: "memorySignerStore CustodyGuard \<Rightarrow> memorySignerStore CustodyGuard \<Rightarrow> bool" where
  "keeps_claims g g' \<longleftrightarrow> (\<forall>st. g_store g = Some st \<longrightarrow> (\<exists>st'. g_store g' = Some st' \<and> same_claims st st'))"

lemma keeps_refl: "keeps_claims g g"
  by (simp add: keeps_claims_def)

lemma keeps_trans: "keeps_claims g g' \<Longrightarrow> keeps_claims g' g'' \<Longrightarrow> keeps_claims g g''"
  unfolding keeps_claims_def by (metis (no_types))

lemma keeps_record: "keeps_claims g (recordEvent memory_custody k r t w g)"
  by (simp add: keeps_claims_def recordEvent_def memory_custody_def split: option.split)

lemma keeps_flags: "keeps_claims g (g\<lparr>g_locked := b, g_reason := r\<rparr>)"
  by (simp add: keeps_claims_def)

lemma keeps_Lock: "keeps_claims g (Lock memory_custody now r g)"
proof -
  have "keeps_claims g' (case g_store g' of None \<Rightarrow> g' | Some st \<Rightarrow> g'\<lparr>g_store := Some (cs_Open memory_custody now r m st)\<rparr>)" for g' m
    by (simp add: keeps_claims_def memory_custody_def OpenCustodyIncident_def split: option.split)
  from this [of "(recordEvent memory_custody ''signer_locked'' r [] [] g)\<lparr>g_locked := True, g_reason := r\<rparr>" "mode_of g"]
  have "keeps_claims (recordEvent memory_custody ''signer_locked'' r [] [] g) (Lock memory_custody now r g)"
    by (auto simp: Lock_def Let_def keeps_refl intro: keeps_trans [OF keeps_flags])
  then show ?thesis by (rule keeps_trans [OF keeps_record])
qed

lemma keeps_inspect_auths: "keeps_claims g (inspect_auths lib code_at memory_custody now src tx auths g)"
  by (induction auths)
    (auto simp: Let_def keeps_refl intro: keeps_Lock keeps_trans [OF keeps_record keeps_Lock] split: option.split sum.split)

lemma keeps_inspect_block: "keeps_claims g (inspect_block lib code_at memory_custody now tag txs g)"
proof (induction txs arbitrary: g)
  case (Cons tx txs)
  have "keeps_claims g (inspectTransaction lib code_at memory_custody now tag tx g)"
    by (simp add: inspectTransaction_def keeps_refl keeps_inspect_auths split: option.split)
  then show ?case using Cons keeps_trans by (auto simp: Let_def)
qed (simp add: keeps_refl)

lemma keeps_scan_urls: "keeps_claims g (snd (scan_urls lib code_at blocks memory_custody now tag urls g))"
  by (induction urls) (auto simp: keeps_refl keeps_inspect_block split: option.split)

lemma keeps_scanOnce: "keeps_claims g (scanOnce lib code_at blocks memory_custody now g)"
  unfolding scanOnce_def scanBlockTag_def Let_def
  by (auto simp: keeps_refl keeps_scan_urls intro: keeps_trans [OF keeps_scan_urls keeps_scan_urls])

lemma keeps_Unlock: "keeps_claims g (the (snd (Unlock memory_custody now n (Some g))))"
proof -
  have fin: "keeps_claims g' (finish_unlock memory_custody n g')" for g'
    unfolding finish_unlock_def by (rule keeps_trans [OF keeps_flags keeps_record])
  have "keeps_claims g (g\<lparr>g_store := Some (ResolveCustodyIncident n st)\<rparr>)" if "g_store g = Some st" for st
    using that by (simp add: keeps_claims_def ResolveCustodyIncident_def)
  then show ?thesis
    using fin keeps_trans [OF _ fin]
    by (auto simp: Unlock_def memory_custody_def Let_def keeps_refl split: option.split)
qed

lemma with_guard_claims:
  assumes "\<And>g. keeps_claims g (f g)"
  shows "same_claims (sv_store s) (sv_store (with_guard f s)) \<and> sv_sent (with_guard f s) = sv_sent s"
proof (cases "sv_guard s")
  case (Some g)
  from assms [of "g\<lparr>g_store := Some (sv_store s)\<rparr>"] Some show ?thesis
    by (auto simp: keeps_claims_def with_guard_def Let_def split: option.split)
qed (simp add: with_guard_def)

lemma custody_unlock_claims:
  "same_claims (sv_store s) (sv_store (snd (custody_unlock cfg now hq s))) \<and> sv_sent (snd (custody_unlock cfg now hq s)) = sv_sent s"
proof -
  have "same_claims st (sv_store (with_guard (\<lambda>g. the (snd (Unlock memory_custody now m (Some g)))) (s\<lparr>sv_store := st\<rparr>))) \<and>
     sv_sent (with_guard (\<lambda>g. the (snd (Unlock memory_custody now m (Some g)))) (s\<lparr>sv_store := st\<rparr>)) = sv_sent s" for m st
    using with_guard_claims [OF keeps_Unlock, where s = "s\<lparr>sv_store := st\<rparr>"] by simp
  then show ?thesis
    unfolding custody_unlock_def Let_def
    by (auto split: option.split prod.split bool.split dest: AcceptNonce_frame)
qed

section \<open>One payment per key\<close>

text \<open>
  For every key: a claim is held by exactly the request in flight with that key, a key with a
  result holds no claim, and it was paid once.
\<close>

abbreviation sc_locks :: "svc \<Rightarrow> (string, unit) go_map" where
  "sc_locks c \<equiv> ms_locks (sv_store (sc_sys c))"

abbreviation sc_results :: "svc \<Rightarrow> (string, TransferResponse) go_map" where
  "sc_results c \<equiv> ms_results (sv_store (sc_sys c))"

definition claim_ok :: "string \<Rightarrow> svc \<Rightarrow> bool" where
  "claim_ok key c \<longleftrightarrow>
     count_list (map any_key (sc_inflight c)) key = (if map_of (sc_locks c) key = None then 0 else 1) \<and>
     count_list (sc_paid c) key = (if map_of (sc_results c) key = None then 0 else 1) \<and>
     (map_of (sc_results c) key = None \<or> map_of (sc_locks c) key = None)"

definition claim_inv :: "svc \<Rightarrow> bool" where
  "claim_inv c \<longleftrightarrow> (\<forall>key. key \<noteq> [] \<longrightarrow> claim_ok key c)"

lemma claim_inv_frame:
  "claim_inv c \<Longrightarrow> sc_inflight c' = sc_inflight c \<Longrightarrow> sc_paid c' = sc_paid c \<Longrightarrow>
     same_claims (sv_store (sc_sys c)) (sv_store (sc_sys c')) \<Longrightarrow> claim_inv c'"
  by (simp add: claim_inv_def claim_ok_def)

lemma count_drop_nth:
  "n < length xs \<Longrightarrow> count_list (map f (drop_nth n xs)) k + (if f (xs ! n) = k then 1 else 0) = count_list (map f xs) k"
proof -
  assume n: "n < length xs"
  have "count_list (map f (take n xs @ xs ! n # drop (Suc n) xs)) k =
      count_list (map f (drop_nth n xs)) k + (if f (xs ! n) = k then 1 else 0)"
    by (simp add: drop_nth_def)
  then show ?thesis using id_take_nth_drop [OF n] by simp
qed

text \<open>The outcomes of the first half that matter here: no claim is taken, or the claim of the request.\<close>

lemma money_begin_cases:
  assumes "money_begin cfg key now hq s = (r, s')"
  obtains (answered) answer where "r = Inl answer" "same_claims (sv_store s) (sv_store s')"
  | (unkeyed) req where "r = Inr req" "key req = []" "same_claims (sv_store s) (sv_store s')"
  | (claimed) req where "r = Inr req" "key req \<noteq> []" "map_of (ms_results (sv_store s)) (key req) = None"
      "map_of (ms_locks (sv_store s)) (key req) = None" "ms_results (sv_store s') = ms_results (sv_store s)"
      "ms_locks (sv_store s') = AList.update (key req) () (ms_locks (sv_store s))"
proof -
  have "(\<exists>answer. r = Inl answer \<and> same_claims (sv_store s) (sv_store s')) \<or>
    (\<exists>req. r = Inr req \<and> key req = [] \<and> same_claims (sv_store s) (sv_store s')) \<or>
    (\<exists>req. r = Inr req \<and> key req \<noteq> [] \<and> map_of (ms_results (sv_store s)) (key req) = None \<and>
      map_of (ms_locks (sv_store s)) (key req) = None \<and> ms_results (sv_store s') = ms_results (sv_store s) \<and>
      ms_locks (sv_store s') = AList.update (key req) () (ms_locks (sv_store s)))"
    using assms unfolding money_begin_def ClaimResult_def
    by (auto split: if_splits option.splits prod.splits bool.splits dest!: AcceptNonce_frame)
  then show thesis using answered unkeyed claimed by blast
qed

lemma begin_inv:
  assumes inv: "claim_inv c"
  shows "claim_inv (svc_step F lib cfg c (SBegin now hq))"
proof -
  obtain r s where m: "money_begin cfg any_key now hq (sc_sys c) = (r, s)" by (cases "money_begin cfg any_key now hq (sc_sys c)")
  from m show ?thesis
    by (cases rule: money_begin_cases) (use inv m in \<open>auto simp: claim_inv_def claim_ok_def\<close>)
qed

lemma finish_inv:
  assumes inv: "claim_inv c"
  shows "claim_inv (svc_step F lib cfg c (SFinish w n))"
proof (cases "n < length (sc_inflight c)")
  case True
  let ?q = "sc_inflight c ! n"
  let ?k = "any_key ?q"
  obtain r s where ex: "any_execute F lib cfg w ?q (sc_sys c) = (r, s)" by (cases "any_execute F lib cfg w ?q (sc_sys c)")
  have fr: "same_claims (sv_store (sc_sys c)) (sv_store s)"
    using any_execute_frame [OF ex] by (simp add: exec_frame_def)
  have cnt: "count_list (map any_key (drop_nth n (sc_inflight c))) k + (if ?k = k then 1 else 0) =
      count_list (map any_key (sc_inflight c)) k" for k
    by (rule count_drop_nth [OF True])
  show ?thesis
  proof (cases r)
    case (Inl e)
    define c' where "c' = svc_step F lib cfg c (SFinish w n)"
    have c': "sc_inflight c' = drop_nth n (sc_inflight c)" "sc_paid c' = sc_paid c" "sc_results c' = sc_results c"
      "sc_locks c' = (if ?k = [] then sc_locks c else AList.delete ?k (sc_locks c))"
      using True ex Inl fr by (auto simp: c'_def money_finish_def on_store_def ReleaseClaim_def)
    have "claim_ok key c'" if "key \<noteq> []" for key
    proof -
      have "claim_ok key c" using inv that by (simp add: claim_inv_def)
      then show ?thesis using that cnt [of key] c' by (cases "key = ?k") (auto simp: claim_ok_def split: if_splits)
    qed
    then show ?thesis by (simp add: claim_inv_def c'_def del: svc_step.simps)
  next
    case (Inr resp)
    define c' where "c' = svc_step F lib cfg c (SFinish w n)"
    have c': "sc_inflight c' = drop_nth n (sc_inflight c)" "sc_paid c' = sc_paid c @ [?k]"
      "sc_results c' = (if ?k = [] then sc_results c else AList.update ?k resp (sc_results c))"
      "sc_locks c' = (if ?k = [] then sc_locks c else AList.delete ?k (sc_locks c))"
      using True ex Inr fr by (auto simp: c'_def money_finish_def on_store_def SaveResult_def)
    have "claim_ok key c'" if "key \<noteq> []" for key
    proof -
      have "claim_ok key c" using inv that by (simp add: claim_inv_def)
      then show ?thesis using that cnt [of key] c' by (cases "key = ?k") (auto simp: claim_ok_def split: if_splits)
    qed
    then show ?thesis by (simp add: claim_inv_def c'_def del: svc_step.simps)
  qed
qed (use inv in simp)

lemma svc_step_inv: "claim_inv c \<Longrightarrow> claim_inv (svc_step F lib cfg c ev)"
proof (cases ev)
  case (SBegin now hq)
  assume "claim_inv c"
  with SBegin show ?thesis by (simp only: begin_inv)
next
  case (SFinish w n)
  assume "claim_inv c"
  with SFinish show ?thesis by (simp only: finish_inv)
next
  case (SUnlock now hq)
  assume "claim_inv c"
  with SUnlock show ?thesis by (elim claim_inv_frame) (simp_all add: custody_unlock_claims)
next
  case (SScan now code_at blocks)
  assume "claim_inv c"
  with SScan show ?thesis by (elim claim_inv_frame) (simp_all add: with_guard_claims keeps_scanOnce)
next
  case (SMonitor nodes)
  assume "claim_inv c"
  with SMonitor show ?thesis by (elim claim_inv_frame) (simp_all add: on_store_def monitor_frame)
qed

lemma svc_run_inv: "claim_inv c \<Longrightarrow> claim_inv (foldl (svc_step F lib cfg) c evs)"
  by (induction evs arbitrary: c) (simp_all add: svc_step_inv del: svc_step.simps)

definition svc_start :: "memorySignerStore CustodyGuard option \<Rightarrow> rpcFleet option \<Rightarrow> svc" where
  "svc_start cg fleet =
     \<lparr> sc_sys = \<lparr> sv_store = newMemorySignerStore, sv_guard = cg, sv_fleet = fleet, sv_sent = [] \<rparr>,
       sc_inflight = [], sc_paid = [] \<rparr>"

text \<open>
  C2. However requests interleave with each other, with unlocks, scans and the monitor: of the
  requests with one idempotency key, whatever endpoint they came to, at most one is executed with
  success, at most one is in flight at any time, and none is once one has succeeded.
\<close>

theorem one_payment_per_key:
  assumes "key \<noteq> []" and "c = foldl (svc_step F lib cfg) (svc_start cg fleet) evs"
  shows "count_list (sc_paid c) key + count_list (map any_key (sc_inflight c)) key \<le> 1 \<and>
    (key \<in> set (sc_paid c) \<longleftrightarrow> GetResult key (sv_store (sc_sys c)) \<noteq> None)"
proof -
  have "claim_inv c" unfolding assms(2)
    by (rule svc_run_inv) (simp add: claim_inv_def claim_ok_def svc_start_def newMemorySignerStore_def)
  then have "claim_ok key c" using assms(1) by (simp add: claim_inv_def)
  then show ?thesis by (auto simp: claim_ok_def GetResult_def count_list_0_iff split: if_splits)
qed

section \<open>Lockdown stops payments\<close>

fun svc_time :: "svc_event \<Rightarrow> go_time option" where
  "svc_time (SBegin now _) = Some now"
| "svc_time (SUnlock now _) = Some now"
| "svc_time (SScan now _ _) = Some now"
| "svc_time _ = None"

definition svc_lockdown :: "SignerConfig \<Rightarrow> go_time \<Rightarrow> signer_sys \<Rightarrow> bool" where
  "svc_lockdown cfg t0 s \<longleftrightarrow>
     (\<exists>g. sv_guard s = Some g \<and> in_lockdown memory_custody cfg t0 (g\<lparr>g_store := Some (sv_store s)\<rparr>))"

lemma svc_lockdown_frame:
  "svc_lockdown cfg t0 s \<Longrightarrow> sv_guard s' = sv_guard s \<Longrightarrow>
     ms_activeIncident (sv_store s') = ms_activeIncident (sv_store s) \<Longrightarrow> svc_lockdown cfg t0 s'"
  by (auto simp: svc_lockdown_def in_lockdown_def memory_custody_def ActiveCustodyIncident_def)

lemma lockdown_begin:
  assumes "svc_lockdown gcfg t0 s"
  shows "money_begin cfg key now hq s = (Inl (HttpError (if hq_Method hq \<noteq> ''POST'' then 405 else 423)), s)"
proof -
  have "fst (Locked (sv_guard s))" using assms by (auto simp: svc_lockdown_def in_lockdown_def Locked_def)
  then show ?thesis by (simp add: money_begin_def)
qed

lemma lockdown_with_guard:
  assumes "svc_lockdown gcfg t0 s" "\<And>g. in_lockdown memory_custody gcfg t0 g \<Longrightarrow> f g = g"
  shows "svc_lockdown gcfg t0 (with_guard f s)"
  using assms by (auto simp: svc_lockdown_def with_guard_def Let_def)

lemma lockdown_unlock:
  assumes "svc_lockdown gcfg t0 s" "now < t0 + cooldown_of gcfg" "0 < cooldown_of gcfg"
  shows "svc_lockdown gcfg t0 (snd (custody_unlock cfg now hq s))"
proof -
  have acc: "svc_lockdown gcfg t0 (s\<lparr>sv_store := st\<rparr>)" if "AcceptNonce now n ttl (sv_store s) = (b, st)" for n ttl b st
    using AcceptNonce_frame [OF that] by (auto intro: svc_lockdown_frame [OF assms(1)])
  have "the (snd (Unlock memory_custody now m (Some g))) = g" if "in_lockdown memory_custody gcfg t0 g" for m g
    using mem.lockdown_Unlock [OF that assms(2,3)] by simp
  from lockdown_with_guard [OF acc this] acc assms(1) show ?thesis
    unfolding custody_unlock_def Let_def by (auto split: option.split prod.split bool.split)
qed

lemma lockdown_finish:
  assumes "svc_lockdown gcfg t0 s" "money_finish (any_execute F lib cfg) any_key w req s = (answer, s')"
  shows "svc_lockdown gcfg t0 s'"
proof -
  obtain r s1 where ex: "any_execute F lib cfg w req s = (r, s1)" by (cases "any_execute F lib cfg w req s")
  have "svc_lockdown gcfg t0 s1"
    using any_execute_frame [OF ex] by (intro svc_lockdown_frame [OF assms(1)]) (simp_all add: exec_frame_def)
  moreover have "sv_guard s' = sv_guard s1" "ms_activeIncident (sv_store s') = ms_activeIncident (sv_store s1)"
    using assms(2) ex by (auto simp: money_finish_def on_store_def SaveResult_def ReleaseClaim_def split: sum.splits)
  ultimately show ?thesis by (rule svc_lockdown_frame)
qed

definition before :: "go_time \<Rightarrow> svc_event \<Rightarrow> bool" where
  "before t ev = (case svc_time ev of None \<Rightarrow> True | Some now \<Rightarrow> now < t)"

lemma subseq_drop_nth: "subseq (drop_nth n xs) xs"
proof -
  have "suffix (drop (Suc n) xs) (drop n xs)" by (simp add: drop_Suc drop_tl suffix_tl)
  then have "subseq (take n xs @ drop (Suc n) xs) (take n xs @ drop n xs)"
    by (intro list_emb_append_mono) (simp_all add: suffix_imp_subseq)
  then show ?thesis by (simp add: drop_nth_def)
qed

lemma lockdown_svc_step:
  assumes "svc_lockdown gcfg t0 (sc_sys c)" "before (t0 + cooldown_of gcfg) ev" "0 < cooldown_of gcfg"
  shows "svc_lockdown gcfg t0 (sc_sys (svc_step F lib cfg c ev)) \<and>
    subseq (sc_inflight (svc_step F lib cfg c ev)) (sc_inflight c) \<and>
    (sc_inflight c = [] \<longrightarrow> sv_sent (sc_sys (svc_step F lib cfg c ev)) = sv_sent (sc_sys c))"
proof (cases ev)
  case (SBegin now hq)
  with assms(1) show ?thesis by (simp add: lockdown_begin)
next
  case (SFinish w n)
  obtain answer s' where f: "money_finish (any_execute F lib cfg) any_key w (sc_inflight c ! n) (sc_sys c) = (answer, s')"
    by (cases "money_finish (any_execute F lib cfg) any_key w (sc_inflight c ! n) (sc_sys c)")
  with SFinish assms(1) lockdown_finish [OF assms(1) f] show ?thesis by (simp add: subseq_drop_nth)
next
  case (SUnlock now hq)
  with assms show ?thesis by (simp add: lockdown_unlock custody_unlock_claims before_def)
next
  case (SScan now code_at blocks)
  have "svc_lockdown gcfg t0 (with_guard (scanOnce lib code_at blocks memory_custody now) (sc_sys c))"
    by (rule lockdown_with_guard [OF assms(1)]) (simp add: in_lockdown_def scanOnce_def)
  with SScan show ?thesis by (simp add: with_guard_claims keeps_scanOnce)
next
  case (SMonitor nodes)
  with assms(1) show ?thesis by (auto simp: on_store_def monitor_frame intro: svc_lockdown_frame)
qed

lemma lockdown_svc_run:
  assumes "svc_lockdown gcfg t0 (sc_sys c)" "list_all (before (t0 + cooldown_of gcfg)) evs" "0 < cooldown_of gcfg"
  shows "svc_lockdown gcfg t0 (sc_sys (foldl (svc_step F lib cfg) c evs)) \<and>
    subseq (sc_inflight (foldl (svc_step F lib cfg) c evs)) (sc_inflight c) \<and>
    (sc_inflight c = [] \<longrightarrow> sv_sent (sc_sys (foldl (svc_step F lib cfg) c evs)) = sv_sent (sc_sys c))"
  using assms
proof (induction evs arbitrary: c)
  case (Cons ev evs)
  let ?c = "svc_step F lib cfg c ev"
  have one: "svc_lockdown gcfg t0 (sc_sys ?c)" "subseq (sc_inflight ?c) (sc_inflight c)"
    "sc_inflight c = [] \<Longrightarrow> sv_sent (sc_sys ?c) = sv_sent (sc_sys c)"
    using lockdown_svc_step [of gcfg t0 c ev F lib cfg] Cons.prems by (simp_all del: svc_step.simps)
  with Cons.IH [of ?c] Cons.prems show ?case
    by (auto simp del: svc_step.simps dest: subseq_order.trans)
qed simp


section \<open>Concrete runs\<close>

definition toy_lib :: signer_lib where
  "toy_lib = \<lparr> IsHexAddress = (\<lambda>s. length s = 3), HexToAddress = (\<lambda>s. of_nat (digits_val (drop 2 s))),
     AddressHex = (\<lambda>_. ''0xA''), HexToHash = (\<lambda>_. 0), Keccak256Hash = (\<lambda>bs. of_nat (length bs)),
     PackOperation = (\<lambda>_ _ _ _ _ _. None), HashHex = (\<lambda>h. ''0x'' @ nat_str (unat h)), HexutilEncode = (\<lambda>bs. ''0x'' @ hex_encode bs),
     HexutilDecode = (\<lambda>s. hex_decode (drop 2 s)), BytesToAddress = (\<lambda>_. 0), KeyAddress = (\<lambda>_. Inr 5),
     SignTx = (\<lambda>_ _ tx. Inr (ucast (et_Nonce tx))), PackPayout = (\<lambda>_ _ _ _. None), Keccak256 = (\<lambda>bs. bs),
     ParseRFC3339 = (\<lambda>_. None), ParseRFC3339Nano = (\<lambda>_. None) \<rparr>"

definition toy_node :: "send_outcome \<Rightarrow> rpc_client" where
  "toy_node outcome = \<lparr> rc_ChainID = Inr 56, rc_PendingNonceAt = Inr 7, rc_SuggestGasPrice = Inr 3,
     rc_EstimateGas = (\<lambda>_ _ _. Inr 60000), rc_SendTransaction = (\<lambda>_. outcome) \<rparr>"

definition toy_world :: "(string \<Rightarrow> send_outcome) \<Rightarrow> rpc_world" where
  "toy_world outcome = \<lparr> w_now = 1000, w_latency = 5, w_dial = (\<lambda>url. Inr (toy_node (outcome url))) \<rparr>"

definition toy_transfer :: TransferRequest where
  "toy_transfer = \<lparr> tq_To = ''0x3'', tq_Amount = ''12'', tq_TokenContract = [], tq_Network = ''BSC'',
     tq_IdempotencyKey = ''k'', tq_DerivationIndex = None \<rparr>"

definition toy_post :: "string \<Rightarrow> any_request http_request" where
  "toy_post nonce = \<lparr> hq_Method = ''POST'', hq_Nonce = Some nonce, hq_Body = Some (Some (RTransfer toy_transfer)) \<rparr>"

definition toy_float :: "int option float_ops" where
  "toy_float = coarse_float (\<lambda>s. if s = ''12'' then Some (Some 12) else if s = ''NaN'' then Some None else None)"

theorem one_payment_per_key_witness:
  "count_list (sc_paid (foldl (svc_step toy_float toy_lib sample_config) (svc_start None None)
     [SBegin 10 (toy_post ''n1''), SBegin 11 (toy_post ''n2''), SFinish (toy_world (\<lambda>_. Accepted)) 0,
      SBegin 12 (toy_post ''n3'')])) ''k'' \<le> 1"
  by (rule add_leD1 [OF one_payment_per_key [OF _ refl, THEN conjunct1]]) simp

definition locked_service :: svc where
  "locked_service = svc_start (Some (sample_guard\<lparr>g_locked := True\<rparr>)) None\<lparr>sc_sys :=
     (sc_sys (svc_start (Some (sample_guard\<lparr>g_locked := True\<rparr>)) None))\<lparr>sv_store :=
       OpenCustodyIncident 5 ''r'' ''live'' newMemorySignerStore\<rparr>\<rparr>"


section \<open>What the limits and the retries do not cover\<close>

text \<open>
  The outflow of the day is NaN once one amount of it is: addition keeps it.
\<close>

lemma outflow_nan:
  fixes F :: "'f float_ops"
  assumes "\<And>x. f_add F nan x = nan" "\<And>x. f_add F x nan = nan"
    and "item \<in> set (map snd (ms_transactions st))" "st_Token item = token" "st_Network item = network"
    and "st_Status item = ''submitted''" "f_parse F (st_Amount item) = Some nan"
  shows "DailySubmittedOutflow F token network st = nan"
proof -
  let ?f = "\<lambda>total (_, item). if st_Token item \<noteq> token \<or> st_Network item \<noteq> network \<or>
      (st_Status item \<noteq> ''submitted'' \<and> st_Status item \<noteq> ''confirmed'')
    then total else case f_parse F (st_Amount item) of None \<Rightarrow> total | Some v \<Rightarrow> f_add F total v"
  have keep: "foldl ?f nan xs = nan" for xs :: "(string, SignerTransaction) go_map"
    by (induction xs) (auto simp: assms(1) split: option.split)
  have "foldl ?f a xs = nan" if "item \<in> set (map snd xs)" for a and xs :: "(string, SignerTransaction) go_map"
    using that
  proof (induction xs arbitrary: a)
    case (Cons x xs)
    show ?case
    proof (cases "snd x = item")
      case True
      then have "?f a x = nan" using assms(2,4-7) by (cases x) simp
      then show ?thesis using keep by simp
    next
      case False
      with Cons show ?thesis by simp
    qed
  qed simp
  then show ?thesis unfolding DailySubmittedOutflow_def using assms(3) by blast
qed



text \<open>What a transfer sends depends on the nonce only in the nonce of the transaction.\<close>

lemma transfer_tx_nonce:
  assumes "transfer_tx lib cfg req network c1 n1 g1 = Inr tx1"
  shows "et_Nonce tx1 = n1 \<and> (\<exists>tx2. transfer_tx lib cfg req network c2 n2 g2 = Inr tx2 \<and> et_Nonce tx2 = n2 \<and>
    et_To tx2 = et_To tx1 \<and> et_Value tx2 = et_Value tx1 \<and> et_Data tx2 = et_Data tx1)"
  using assms by (auto simp: transfer_tx_def Let_def split: sum.splits if_splits)

text \<open>A submission that reaches the network, whether or not the caller learns of it.\<close>

lemma submit_tx_reaches:
  assumes "rc_PendingNonceAt client = Inr p" "rc_SuggestGasPrice client = Inr gp"
    and "mk (fst (ReserveChainNonce wallet network p (sv_store s))) gp = Inr tx"
    and "SignTx lib (trim_prefix (EVMPrivateKey cfg) ''0x'') chainID tx = Inr h"
    and "rc_SendTransaction client tx = outcome" "outcome = Accepted \<or> outcome = ReplyLost e"
  shows "\<exists>r s'. submit_tx lib cfg network chainID client wallet mk item s = (r, s') \<and>
    (outcome = Accepted \<longleftrightarrow> (\<exists>resp. r = Inr resp)) \<and> sv_sent s' = sv_sent s @ [(chainID, tx)] \<and>
    map_of (ms_chainNonces (sv_store s')) (wallet @ ''|'' @ network) = Some (fst (ReserveChainNonce wallet network p (sv_store s)))"
proof -
  obtain nonce st where res: "ReserveChainNonce wallet network p (sv_store s) = (nonce, st)"
    by (cases "ReserveChainNonce wallet network p (sv_store s)")
  then have "map_of (ms_chainNonces st) (wallet @ ''|'' @ network) = Some nonce"
    by (auto simp: ReserveChainNonce_def Let_def)
  with assms res show ?thesis
    by (auto simp: submit_tx_def Let_def on_store_def CreateSignerTransaction_def RecordCustodyEvent_def)
qed

lemma sent_on_fleet: "sv_sent (on_fleet f s) = sv_sent s"
  by (simp add: on_fleet_def)

lemma reserve_later:
  "map_of (ms_chainNonces st) (wallet @ ''|'' @ network) = Some n \<Longrightarrow> n + 1 \<noteq> 0 \<Longrightarrow>
     n < fst (ReserveChainNonce wallet network p st)"
  using word_succ_less [of n] by (auto simp: ReserveChainNonce_def Let_def)

text \<open>
  C26. When a node takes the transaction of a transfer and its answer is lost, the loop goes on to the
  next endpoint, where the transfer is built again under a new nonce: one request has then sent
  two transactions with the same destination, value and data, both of which can be mined.
\<close>

theorem lost_reply_sends_twice:
  assumes "w_dial w (h_url h1) = Inr c1" "w_dial w (h_url h2) = Inr c2"
    and "rc_ChainID c1 = Inr 56" "rc_PendingNonceAt c1 = Inr p1" "rc_SuggestGasPrice c1 = Inr g1"
    and "rc_ChainID c2 = Inr 56" "rc_PendingNonceAt c2 = Inr p2" "rc_SuggestGasPrice c2 = Inr g2"
    and "\<forall>n g. \<exists>tx. transfer_tx lib cfg req network c1 n g = Inr tx"
    and "\<forall>tx. \<exists>h. SignTx lib (trim_prefix (EVMPrivateKey cfg) ''0x'') 56 tx = Inr h"
    and "\<forall>tx. rc_SendTransaction c1 tx = ReplyLost e" "\<forall>tx. rc_SendTransaction c2 tx = Accepted"
    and "fst (ReserveChainNonce wallet network p1 (sv_store s)) + 1 \<noteq> 0"
  shows "\<exists>tx1 tx2. sv_sent (snd (send_loop F w (executeEVMTransferWithClient lib cfg req network wallet) [h1, h2] None s)) =
      sv_sent s @ [(56, tx1), (56, tx2)] \<and>
    et_Nonce tx1 < et_Nonce tx2 \<and> et_To tx1 = et_To tx2 \<and> et_Value tx1 = et_Value tx2 \<and> et_Data tx1 = et_Data tx2"
proof -
  let ?item = "new_item (tq_IdempotencyKey req) wallet (tq_To req) (normalizedTokenContract cfg req network) (tq_Amount req) network"
  let ?n1 = "fst (ReserveChainNonce wallet network p1 (sv_store s))"
  obtain tx1 where tx1: "transfer_tx lib cfg req network c1 ?n1 g1 = Inr tx1" using assms(9) by blast
  obtain k1 where k1: "SignTx lib (trim_prefix (EVMPrivateKey cfg) ''0x'') 56 tx1 = Inr k1" using assms(10) by blast
  obtain r1 s1 where run1: "submit_tx lib cfg network 56 c1 wallet (transfer_tx lib cfg req network c1) ?item s = (r1, s1)"
    "\<nexists>resp. r1 = Inr resp" "sv_sent s1 = sv_sent s @ [(56, tx1)]"
    "map_of (ms_chainNonces (sv_store s1)) (wallet @ ''|'' @ network) = Some ?n1"
    using submit_tx_reaches [where mk = "transfer_tx lib cfg req network c1" and s = s, OF assms(4,5) tx1 k1, of "ReplyLost e" e ?item] assms(11) by auto
  then obtain e1 where e1: "r1 = Inl e1" by (cases r1) auto
  define s2 where "s2 = on_fleet (recordFailure (w_now w) (h_id h1) (classifyRPCFailure e1)) s1"
  have s2: "sv_store s2 = sv_store s1" "sv_sent s2 = sv_sent s1" by (simp_all add: s2_def on_fleet_def)
  let ?n2 = "fst (ReserveChainNonce wallet network p2 (sv_store s2))"
  have less: "?n1 < ?n2" using reserve_later [OF run1(4) assms(13)] s2 by simp
  obtain tx2 where tx2: "transfer_tx lib cfg req network c2 ?n2 g2 = Inr tx2" "et_Nonce tx1 = ?n1" "et_Nonce tx2 = ?n2"
    "et_To tx2 = et_To tx1" "et_Value tx2 = et_Value tx1" "et_Data tx2 = et_Data tx1"
    using transfer_tx_nonce [OF tx1, of c2 ?n2 g2] by blast
  obtain k2 where k2: "SignTx lib (trim_prefix (EVMPrivateKey cfg) ''0x'') 56 tx2 = Inr k2" using assms(10) by blast
  obtain r2 s3 where run2: "submit_tx lib cfg network 56 c2 wallet (transfer_tx lib cfg req network c2) ?item s2 = (r2, s3)"
    "\<exists>resp. r2 = Inr resp" "sv_sent s3 = sv_sent s2 @ [(56, tx2)]"
    using submit_tx_reaches [where mk = "transfer_tx lib cfg req network c2" and s = s2, OF assms(7,8) tx2(1) k2, of Accepted e ?item] assms(12) by auto
  then have "sv_sent (snd (send_loop F w (executeEVMTransferWithClient lib cfg req network wallet) [h1, h2] None s)) =
      sv_sent s @ [(56, tx1), (56, tx2)]"
    using run1 e1 s2 assms(1-3,6) by (auto simp: executeEVMTransferWithClient_def s2_def [symmetric] sent_on_fleet)
  then show ?thesis using less tx2 by auto
qed

theorem lost_reply_sends_twice_witness:
  "length (sv_sent (snd (send_loop toy_float (toy_world (\<lambda>url. if url = ''a'' then ReplyLost ''timeout'' else Accepted))
     (executeEVMTransferWithClient toy_lib sample_config toy_transfer ''BSC'' ''0xA'')
     [\<lparr> h_id = 0, h_name = ''a'', h_url = ''a'' \<rparr>, \<lparr> h_id = 1, h_name = ''b'', h_url = ''b'' \<rparr>] None
     (sc_sys (svc_start None None))))) = 2"
proof -
  let ?w = "toy_world (\<lambda>url. if url = ''a'' then ReplyLost ''timeout'' else Accepted)"
  let ?h1 = "\<lparr> h_id = 0, h_name = ''a'', h_url = ''a'' \<rparr>" and ?h2 = "\<lparr> h_id = 1, h_name = ''b'', h_url = ''b'' \<rparr>"
  let ?s = "sc_sys (svc_start None None)"
  have units: "parseUnits ''12'' 6 = Inr 12000000" "parseUnits ''12'' 18 = Inr 12000000000000000000" by code_simp+
  have "\<exists>tx. transfer_tx toy_lib sample_config toy_transfer ''BSC'' (toy_node o1) n g = Inr tx" for o1 n g
    using units by (simp add: transfer_tx_def Let_def toy_transfer_def sample_config_def)
  then have tx: "\<forall>n g. \<exists>tx. transfer_tx toy_lib sample_config toy_transfer ''BSC'' (toy_node (ReplyLost ''timeout'')) n g = Inr tx"
    by blast
  have n: "fst (ReserveChainNonce ''0xA'' ''BSC'' 7 (sv_store ?s)) + 1 \<noteq> 0"
    by (simp add: ReserveChainNonce_def svc_start_def newMemorySignerStore_def)
  have p: "rc_PendingNonceAt (toy_node x) = Inr 7" "rc_SuggestGasPrice (toy_node x) = Inr 3" "rc_ChainID (toy_node x) = Inr 56"
    "rc_SendTransaction (toy_node x) t = x" for x t
    by (simp_all add: toy_node_def)
  have d: "w_dial ?w (h_url ?h1) = Inr (toy_node (ReplyLost ''timeout''))" "w_dial ?w (h_url ?h2) = Inr (toy_node Accepted)"
    by (simp_all add: toy_world_def)
  have sg: "\<forall>tx. \<exists>h. SignTx toy_lib (trim_prefix (EVMPrivateKey sample_config) ''0x'') 56 tx = Inr h" by (simp add: toy_lib_def)
  have "\<exists>tx1 tx2. sv_sent (snd (send_loop toy_float ?w (executeEVMTransferWithClient toy_lib sample_config toy_transfer ''BSC'' ''0xA'')
      [?h1, ?h2] None ?s)) = sv_sent ?s @ [(56, tx1), (56, tx2)]"
    using lost_reply_sends_twice [OF d p(3,1,2) p(3,1,2) tx sg _ _ n, of "''timeout''" toy_float] p(4) by blast
  then obtain tx1 tx2 where "sv_sent (snd (send_loop toy_float ?w
      (executeEVMTransferWithClient toy_lib sample_config toy_transfer ''BSC'' ''0xA'') [?h1, ?h2] None ?s)) = sv_sent ?s @ [(56, tx1), (56, tx2)]"
    by blast
  then show ?thesis by (simp only: svc_start_def) simp
qed

end
