(* ===== verification/Request_Security.thy ===== *)
theory Request_Security
  imports Rate_Limit Nonce_Store Tx_Contracts
begin

text \<open>
  Authentication of requests: \<open>internal/security/hmac.go\<close>, \<open>request.go\<close> and \<open>middleware.go\<close>. A request
  carries a time stamp, a nonce and a MAC; the validator checks them in this order, consumes the
  nonce and asks the rate limiter. SHA-256 and HMAC are arguments. The clock is read at several
  places, and the readings are an argument. Headers are keyed by their canonical names, as
  \<open>Header.Get\<close> looks them up. The nonce store is any that keeps the contract \<open>nonce_store\<close>.
\<close>

section \<open>Signatures\<close>

record mac_lib =
  mac_sha256 :: "bytes \<Rightarrow> bytes"
  mac_hmac :: "bytes \<Rightarrow> bytes \<Rightarrow> bytes"

record HMACValidator =
  activeSecret :: string
  oldSecret :: string
  maxSkew :: int64

datatype sec_error =
    CredentialsMissing | TimestampInvalid | RequestExpired int64 | SignatureInvalid
  | BodyTooLarge | BodyUnreadable string | NonceRefused nonce_error | RateLimited string

definition NewHMACValidator :: "string \<Rightarrow> int64 \<Rightarrow> HMACValidator" where
  "NewHMACValidator secret skew = \<lparr> activeSecret = secret, oldSecret = [], maxSkew = skew \<rparr>"

definition SetOldSecret :: "string \<Rightarrow> HMACValidator \<Rightarrow> HMACValidator" where
  "SetOldSecret old h = h\<lparr>oldSecret := old\<rparr>"

definition RotateSecret :: "string \<Rightarrow> HMACValidator \<Rightarrow> HMACValidator" where
  "RotateSecret new h = h\<lparr>oldSecret := activeSecret h, activeSecret := new\<rparr>"

text \<open>The second in which a time lies, and the distance of two seconds as the code computes it.\<close>

definition unix_time :: "go_time \<Rightarrow> int64" where
  "unix_time t = t div second"

definition skew_of :: "int64 \<Rightarrow> int64 \<Rightarrow> int64" where
  "skew_of now ts = (let diff = i64_sub now ts in if diff < 0 then i64_neg diff else diff)"

definition validateTimestampInputs :: "HMACValidator \<Rightarrow> go_time \<Rightarrow> string \<Rightarrow> string \<Rightarrow> string \<Rightarrow> sec_error + unit" where
  "validateTimestampInputs h now tsStr nonce hmacHeader =
     (if activeSecret h = [] \<or> hmacHeader = [] \<or> tsStr = [] \<or> nonce = [] then Inl CredentialsMissing
      else case parse_int64 tsStr of
             None \<Rightarrow> Inl TimestampInvalid
           | Some ts \<Rightarrow>
               (let diff = skew_of (unix_time now) ts in
                if diff > maxSkew h then Inl (RequestExpired diff) else Inr ()))"

definition signature_text :: "string \<Rightarrow> string \<Rightarrow> string \<Rightarrow> string" where
  "signature_text tsStr nonce rest = tsStr @ ''.'' @ nonce @ ''.'' @ rest"

definition body_hash_hex :: "mac_lib \<Rightarrow> bytes \<Rightarrow> string" where
  "body_hash_hex lib body = hex_encode (mac_sha256 lib body)"

definition mac_of :: "mac_lib \<Rightarrow> string \<Rightarrow> string \<Rightarrow> string" where
  "mac_of lib secret txt = hex_encode (mac_hmac lib secret txt)"

definition validateWithSecret :: "mac_lib \<Rightarrow> string \<Rightarrow> string \<Rightarrow> string \<Rightarrow> string \<Rightarrow> string \<Rightarrow> bool" where
  "validateWithSecret lib secret tsStr nonce bodyHashHex hmacHeader \<longleftrightarrow>
     hmacHeader = mac_of lib secret (signature_text tsStr nonce bodyHashHex)"

definition validateRawWithSecret :: "mac_lib \<Rightarrow> string \<Rightarrow> string \<Rightarrow> string \<Rightarrow> bytes \<Rightarrow> string \<Rightarrow> bool" where
  "validateRawWithSecret lib secret tsStr nonce body hmacHeader \<longleftrightarrow>
     hmacHeader = mac_of lib secret (signature_text tsStr nonce body)"

definition ValidateHMAC :: "mac_lib \<Rightarrow> HMACValidator \<Rightarrow> go_time \<Rightarrow> string \<Rightarrow> string \<Rightarrow> string \<Rightarrow> bytes \<Rightarrow> sec_error + unit" where
  "ValidateHMAC lib h now tsStr nonce hmacHeader body =
     bind_result (validateTimestampInputs h now tsStr nonce hmacHeader) (\<lambda>_.
       let bodyHashHex = body_hash_hex lib body in
       if validateWithSecret lib (activeSecret h) tsStr nonce bodyHashHex hmacHeader then Inr ()
       else if oldSecret h \<noteq> [] \<and> validateWithSecret lib (oldSecret h) tsStr nonce bodyHashHex hmacHeader then Inr ()
       else Inl SignatureInvalid)"

definition ValidateRawBodyHMAC :: "mac_lib \<Rightarrow> HMACValidator \<Rightarrow> go_time \<Rightarrow> string \<Rightarrow> string \<Rightarrow> string \<Rightarrow> bytes \<Rightarrow> sec_error + unit" where
  "ValidateRawBodyHMAC lib h now tsStr nonce hmacHeader body =
     bind_result (validateTimestampInputs h now tsStr nonce hmacHeader) (\<lambda>_.
       if validateRawWithSecret lib (activeSecret h) tsStr nonce body hmacHeader then Inr ()
       else if oldSecret h \<noteq> [] \<and> validateRawWithSecret lib (oldSecret h) tsStr nonce body hmacHeader then Inr ()
       else Inl SignatureInvalid)"

definition GenerateHMAC :: "mac_lib \<Rightarrow> string \<Rightarrow> string \<Rightarrow> string \<Rightarrow> bytes \<Rightarrow> string" where
  "GenerateHMAC lib secret tsStr nonce body = mac_of lib secret (signature_text tsStr nonce (body_hash_hex lib body))"

definition CanonicalRequest :: "mac_lib \<Rightarrow> string \<Rightarrow> string \<Rightarrow> bytes \<Rightarrow> string" where
  "CanonicalRequest lib method path body = method @ '' '' @ path @ '' '' @ body_hash_hex lib body"

definition GenerateRawBodyHMAC :: "mac_lib \<Rightarrow> string \<Rightarrow> string \<Rightarrow> string \<Rightarrow> bytes \<Rightarrow> string" where
  "GenerateRawBodyHMAC lib secret tsStr nonce body = mac_of lib secret (signature_text tsStr nonce body)"

text \<open>\<open>SignRawBodyHeaders\<close> with its random nonce as an argument.\<close>

definition SignRawBodyHeaders :: "mac_lib \<Rightarrow> go_time \<Rightarrow> string \<Rightarrow> string \<Rightarrow> bytes \<Rightarrow> http_header \<Rightarrow> http_header" where
  "SignRawBodyHeaders lib now nonce secret body hdr =
     (let ts = int_str (unix_time now) in
      AList.update ''X-Signer-Hmac'' (GenerateRawBodyHMAC lib secret ts nonce body)
        (AList.update ''X-Nonce'' nonce (AList.update ''X-Ts'' ts hdr)))"

section \<open>Requests\<close>

text \<open>
  A request as the validator reads it: the bytes of its body and an error that the reader may
  report after them. The declared length is -1 when it is not known.
\<close>

record http_req =
  rq_Path :: string
  rq_Method :: string
  rq_Header :: http_header
  rq_RemoteAddr :: string
  rq_ContentLength :: int64
  rq_Body :: bytes
  rq_BodyErr :: "string option"

record RequestContext =
  rc_RequestID :: string
  rc_Timestamp :: int64
  rc_Nonce :: string
  rc_APIKey :: string
  rc_ClientIP :: string
  rc_UserAgent :: string
  rc_Path :: string
  rc_Method :: string
  rc_BodyHash :: string
  rc_Validated :: bool
  rc_StartTime :: go_time

record ('s, 'f) RequestValidator =
  rv_hmac :: HMACValidator
  rv_nonceManager :: "'s NonceManager"
  rv_nonces :: 's
  rv_rateLimiter :: "'f RateLimiter"
  rv_maxBodySize :: int64

record ('s, 'f) RequestValidatorConfig =
  vc_HMACSecret :: string
  vc_HMACMaxSkew :: int64
  vc_NonceStore :: "'s NonceStore"
  vc_NonceTTL :: duration
  vc_RateLimit :: int64
  vc_RateWindow :: duration
  vc_RateLimiterType :: string
  vc_MaxBodySize :: int64
  vc_OldSecret :: string

text \<open>The readings of the clock during one validation, and the random part of the request identifier.\<close>

record rv_clock =
  ck_start :: go_time
  ck_hmac :: go_time
  ck_check :: go_time
  ck_store :: go_time
  ck_created :: go_time
  ck_rate :: go_time
  ck_id :: string

definition NewRequestValidator :: "'f float_ops \<Rightarrow> 's \<Rightarrow> ('s, 'f) RequestValidatorConfig \<Rightarrow> ('s, 'f) RequestValidator" where
  "NewRequestValidator F nonces config =
     (let h = NewHMACValidator (vc_HMACSecret config) (vc_HMACMaxSkew config);
          h = (if vc_OldSecret config \<noteq> [] then SetOldSecret (vc_OldSecret config) h else h) in
      \<lparr> rv_hmac = h, rv_nonceManager = NewNonceManager (vc_NonceStore config) (vc_NonceTTL config), rv_nonces = nonces,
        rv_rateLimiter = NewRateLimiter F (vc_RateLimiterType config) (vc_RateLimit config) (vc_RateWindow config),
        rv_maxBodySize = vc_MaxBodySize config \<rparr>)"

definition getClientIP :: "http_req \<Rightarrow> string" where
  "getClientIP r =
     (if header_Get (rq_Header r) ''X-Forwarded-For'' \<noteq> [] then header_Get (rq_Header r) ''X-Forwarded-For''
      else if header_Get (rq_Header r) ''X-Real-Ip'' \<noteq> [] then header_Get (rq_Header r) ''X-Real-Ip''
      else rq_RemoteAddr r)"

text \<open>\<open>io.ReadAll\<close> over \<open>io.LimitReader\<close>: nothing when the limit is not positive.\<close>

definition read_limited :: "int64 \<Rightarrow> bytes \<Rightarrow> string option \<Rightarrow> string + bytes" where
  "read_limited n body err =
     (if n \<le> 0 then Inr []
      else if n \<le> int (length body) then Inr (take (nat n) body)
      else case err of None \<Rightarrow> Inr body | Some e \<Rightarrow> Inl e)"

text \<open>Time stamp, nonce and signature of a request, and whether they are the older headers.\<close>

definition credentials :: "http_header \<Rightarrow> string \<times> string \<times> string \<times> bool" where
  "credentials hdr =
     (let tsStr = header_Get hdr ''X-Request-Timestamp''; nonce = header_Get hdr ''X-Request-Nonce'';
          hmacHeader = header_Get hdr ''X-Request-Signature'' in
      if tsStr = [] \<and> nonce = [] \<and> hmacHeader = []
      then (header_Get hdr ''X-Ts'', header_Get hdr ''X-Nonce'', header_Get hdr ''X-Signer-Hmac'', header_Get hdr ''X-Signer-Hmac'' \<noteq> [])
      else (tsStr, nonce, hmacHeader, False))"

definition check_signature :: "mac_lib \<Rightarrow> HMACValidator \<Rightarrow> go_time \<Rightarrow> string \<times> string \<times> string \<times> bool \<Rightarrow> bytes \<Rightarrow> sec_error + unit" where
  "check_signature lib h now creds body =
     (case creds of (tsStr, nonce, hmacHeader, legacy) \<Rightarrow>
        if hmacHeader = [] then Inr ()
        else if legacy then ValidateRawBodyHMAC lib h now tsStr nonce hmacHeader body
        else ValidateHMAC lib h now tsStr nonce hmacHeader body)"

definition check_nonce :: "rv_clock \<Rightarrow> string \<Rightarrow> ('s, 'f) RequestValidator \<Rightarrow> (sec_error + unit) \<times> ('s, 'f) RequestValidator" where
  "check_nonce ck nonce rv =
     (if nonce = [] then (Inr (), rv)
      else case ValidateNonce (rv_nonceManager rv) (ck_check ck) (ck_store ck) nonce (rv_nonces rv) of
             (Some e, st) \<Rightarrow> (Inl (NonceRefused e), rv\<lparr>rv_nonces := st\<rparr>)
           | (None, st) \<Rightarrow> (Inr (), rv\<lparr>rv_nonces := st\<rparr>))"

definition rate_key :: "http_req \<Rightarrow> string" where
  "rate_key r = (if header_Get (rq_Header r) ''X-Api-Key'' \<noteq> [] then header_Get (rq_Header r) ''X-Api-Key'' else getClientIP r)"

text \<open>The value that \<open>ParseInt\<close> returns beside its error, which is ignored here: the nearest bound.\<close>

definition clamped_int :: "string \<Rightarrow> int64" where
  "clamped_int s = (case parse_big s of None \<Rightarrow> 0 | Some z \<Rightarrow> max min_int64 (min z max_int64))"

text \<open>The validation: an error, or the context and the body that the handler will read.\<close>

definition ValidateRequest ::
  "'f float_ops \<Rightarrow> mac_lib \<Rightarrow> rv_clock \<Rightarrow> http_req \<Rightarrow> ('s, 'f) RequestValidator \<Rightarrow>
     (sec_error + RequestContext \<times> bytes) \<times> ('s, 'f) RequestValidator" where
  "ValidateRequest F lib ck r rv =
     (if rv_maxBodySize rv > 0 \<and> rq_ContentLength r > rv_maxBodySize rv then (Inl BodyTooLarge, rv)
      else case read_limited (rv_maxBodySize rv) (rq_Body r) (rq_BodyErr r) of
        Inl e \<Rightarrow> (Inl (BodyUnreadable e), rv)
      | Inr body \<Rightarrow>
          (case credentials (rq_Header r) of (tsStr, nonce, hmacHeader, legacy) \<Rightarrow>
             (case check_signature lib (rv_hmac rv) (ck_hmac ck) (tsStr, nonce, hmacHeader, legacy) body of
                Inl e \<Rightarrow> (Inl e, rv)
              | Inr _ \<Rightarrow>
                  (case check_nonce ck nonce rv of
                     (Inl e, rv) \<Rightarrow> (Inl e, rv)
                   | (Inr _, rv) \<Rightarrow>
                       (case rl_Allow F (ck_created ck) (ck_rate ck) (rate_key r) (rv_rateLimiter rv) of
                          (False, rl) \<Rightarrow> (Inl (RateLimited (rate_key r)), rv\<lparr>rv_rateLimiter := rl\<rparr>)
                        | (True, rl) \<Rightarrow>
                            (Inr (\<lparr> rc_RequestID = ''req-'' @ int_str (ck_start ck) @ ''-'' @ ck_id ck,
                                    rc_Timestamp = clamped_int tsStr,
                                    rc_Nonce = nonce, rc_APIKey = header_Get (rq_Header r) ''X-Api-Key'', rc_ClientIP = getClientIP r,
                                    rc_UserAgent = header_Get (rq_Header r) ''User-Agent'', rc_Path = rq_Path r, rc_Method = rq_Method r,
                                    rc_BodyHash = body_hash_hex lib body, rc_Validated = (hmacHeader \<noteq> []), rc_StartTime = ck_start ck \<rparr>, body),
                             rv\<lparr>rv_rateLimiter := rl\<rparr>))))))"

section \<open>The middleware\<close>

record SecurityOptions =
  so_Enabled :: bool
  so_RequireHMAC :: bool
  so_RequireNonce :: bool
  so_RequireAPIKey :: bool
  so_AllowedMethods :: "string list"
  so_ExcludePaths :: "string list"

text \<open>What the middleware does: answer with a status, or call the handler with a context and a body.\<close>

datatype gate = Stop nat | Pass "RequestContext option" bytes

definition isExcluded :: "SecurityOptions \<Rightarrow> string \<Rightarrow> bool" where
  "isExcluded opts path = list_ex (\<lambda>p. p = path) (so_ExcludePaths opts)"

definition isMethodAllowed :: "SecurityOptions \<Rightarrow> string \<Rightarrow> bool" where
  "isMethodAllowed opts method \<longleftrightarrow> so_AllowedMethods opts = [] \<or> list_ex (\<lambda>m. m = method) (so_AllowedMethods opts)"

definition Middleware_Handler ::
  "'f float_ops \<Rightarrow> mac_lib \<Rightarrow> SecurityOptions \<Rightarrow> rv_clock \<Rightarrow> http_req \<Rightarrow> ('s, 'f) RequestValidator \<Rightarrow> gate \<times> ('s, 'f) RequestValidator" where
  "Middleware_Handler F lib opts ck r rv =
     (if isExcluded opts (rq_Path r) then (Pass None (rq_Body r), rv)
      else if \<not> isMethodAllowed opts (rq_Method r) then (Stop 405, rv)
      else if \<not> so_Enabled opts then (Pass None (rq_Body r), rv)
      else case ValidateRequest F lib ck r rv of
        (Inl _, rv) \<Rightarrow> (Stop 401, rv)
      | (Inr (ctx, body), rv) \<Rightarrow>
          if so_RequireHMAC opts \<and> \<not> rc_Validated ctx then (Stop 401, rv)
          else if so_RequireNonce opts \<and> rc_Nonce ctx = [] then (Stop 401, rv)
          else if so_RequireAPIKey opts \<and> rc_APIKey ctx = [] then (Stop 401, rv)
          else (Pass (Some ctx) body, rv))"

text \<open>The middleware of \<open>request.go\<close>, without options.\<close>

definition SecurityMiddleware ::
  "'f float_ops \<Rightarrow> mac_lib \<Rightarrow> rv_clock \<Rightarrow> http_req \<Rightarrow> ('s, 'f) RequestValidator \<Rightarrow> gate \<times> ('s, 'f) RequestValidator" where
  "SecurityMiddleware F lib ck r rv =
     (case ValidateRequest F lib ck r rv of
        (Inl _, rv) \<Rightarrow> (Stop 401, rv)
      | (Inr (ctx, body), rv) \<Rightarrow> (Pass (Some ctx) body, rv))"

fun passes :: "gate \<Rightarrow> bool" where
  "passes (Pass _ _) = True"
| "passes (Stop _) = False"

section \<open>What a signature binds\<close>

lemma parse_big_no_dot: "parse_big s = Some z \<Longrightarrow> CHR ''.'' \<notin> set s"
proof -
  assume p: "parse_big s = Some z"
  let ?b = "if s \<noteq> [] \<and> (hd s = CHR ''-'' \<or> hd s = CHR ''+'') then tl s else s"
  have "list_all is_digit ?b" using p by (auto simp: parse_big_def Let_def split: if_splits)
  moreover have "\<not> is_digit CHR ''.''" by (simp add: is_digit_def)
  ultimately have "CHR ''.'' \<notin> set ?b" unfolding list_all_iff by blast
  then show ?thesis by (cases s) (auto split: if_splits)
qed

lemma no_dot_split: "a @ ''.'' @ x = b @ ''.'' @ y \<Longrightarrow> CHR ''.'' \<notin> set a \<Longrightarrow> CHR ''.'' \<notin> set b \<Longrightarrow> a = b \<and> x = y"
proof -
  assume e: "a @ ''.'' @ x = b @ ''.'' @ y" and nd: "CHR ''.'' \<notin> set a" "CHR ''.'' \<notin> set b"
  have "split_n2 CHR ''.'' (a @ ''.'' @ x) = split_n2 CHR ''.'' (b @ ''.'' @ y)" by (rule arg_cong [OF e])
  then show ?thesis by (simp add: split_n2_sep nd)
qed

text \<open>A suffix of fixed length, here the hexadecimal digest, can be taken off again.\<close>

lemma signature_text_inj:
  assumes "signature_text ts n h = signature_text ts' n' h'"
    and "CHR ''.'' \<notin> set ts" "CHR ''.'' \<notin> set ts'" "length h = length h'"
  shows "ts = ts' \<and> n = n' \<and> h = h'"
proof -
  have "ts = ts' \<and> n @ ''.'' @ h = n' @ ''.'' @ h'"
    using assms(1) [unfolded signature_text_def] assms(2,3) by (rule no_dot_split)
  with assms(4) show ?thesis by simp
qed

lemma length_hex_encode: "length (hex_encode s) = 2 * length s"
  by (induction s) (simp_all add: hex_encode_def)

lemma hex_encode_inj: "hex_encode a = hex_encode b \<longleftrightarrow> a = b"
  by (metis hex_decode_encode option.inject)

lemma generated_accepted:
  assumes "activeSecret h = secret" "secret \<noteq> []" "nonce \<noteq> []" "parse_int64 ts = Some z" "skew_of (unix_time now) z \<le> maxSkew h"
    and "mac_hmac lib secret (signature_text ts nonce (body_hash_hex lib body)) \<noteq> []"
  shows "ValidateHMAC lib h now ts nonce (GenerateHMAC lib secret ts nonce body) body = Inr ()"
proof -
  have "ts \<noteq> []" using assms(4) by (auto simp: parse_int64_def parse_big_def)
  moreover have "GenerateHMAC lib secret ts nonce body \<noteq> []"
    using assms(6) hex_encode_inj [of _ "[]"] by (simp add: GenerateHMAC_def mac_of_def hex_encode_def)
  ultimately show ?thesis using assms
    by (simp add: ValidateHMAC_def validateTimestampInputs_def validateWithSecret_def GenerateHMAC_def)
qed

text \<open>
  Unless the MAC collides on the two texts or the digest on the two bodies, one accepted
  signature fits one time stamp, nonce and body only: a signed request cannot be altered in any of
  them.
\<close>

theorem signature_binds_request:
  assumes "ValidateHMAC lib h now ts nonce sig body = Inr ()" "ValidateHMAC lib h now' ts' nonce' sig body' = Inr ()"
    and "oldSecret h = []" "mac_hmac lib (activeSecret h) (signature_text ts nonce (body_hash_hex lib body)) =
        mac_hmac lib (activeSecret h) (signature_text ts' nonce' (body_hash_hex lib body')) \<longrightarrow>
      signature_text ts nonce (body_hash_hex lib body) = signature_text ts' nonce' (body_hash_hex lib body')"
    and "\<forall>b. length (mac_sha256 lib b) = 32" "mac_sha256 lib body = mac_sha256 lib body' \<longrightarrow> body = body'"
  shows "ts' = ts \<and> nonce' = nonce \<and> body' = body"
proof -
  have acc: "CHR ''.'' \<notin> set t \<and> s = GenerateHMAC lib (activeSecret h) t n b"
    if "ValidateHMAC lib h w t n s b = Inr ()" for w t n s b
    using that assms(3) parse_big_no_dot unfolding ValidateHMAC_def validateTimestampInputs_def parse_int64_def
    by (auto simp: bind_result_Inr GenerateHMAC_def validateWithSecret_def Let_def split: if_splits option.splits)
  have "signature_text ts nonce (body_hash_hex lib body) = signature_text ts' nonce' (body_hash_hex lib body')"
    using acc [OF assms(1)] acc [OF assms(2)] assms(4) by (simp add: GenerateHMAC_def mac_of_def hex_encode_inj)
  moreover have "length (body_hash_hex lib body) = length (body_hash_hex lib body')"
    using assms(5) by (simp add: body_hash_hex_def length_hex_encode)
  ultimately have "ts = ts' \<and> nonce = nonce' \<and> body_hash_hex lib body = body_hash_hex lib body'"
    using acc [OF assms(1)] acc [OF assms(2)] signature_text_inj by blast
  then show ?thesis using assms(6) by (simp add: body_hash_hex_def hex_encode_inj)
qed

text \<open>
  The older headers sign the body itself, and the nonce may contain the separator: from a signed
  request whose body has a full stop, a second one that is accepted too is made by moving the part
  before it from the body to the nonce. Its nonce is fresh.
\<close>

theorem raw_signature_moves_bytes:
  assumes "ValidateRawBodyHMAC lib h now ts nonce sig (pre @ ''.'' @ rest) = Inr ()"
  shows "ValidateRawBodyHMAC lib h now ts (nonce @ ''.'' @ pre) sig rest = Inr () \<and> nonce @ ''.'' @ pre \<noteq> nonce"
  using assms unfolding ValidateRawBodyHMAC_def validateTimestampInputs_def validateRawWithSecret_def signature_text_def
  by (auto simp: bind_result_Inr Let_def split: option.splits if_splits)

section \<open>Time stamps\<close>

lemma wrap64_high: "2 ^ 63 \<le> z \<Longrightarrow> z < 2 ^ 64 + 2 ^ 63 \<Longrightarrow> wrap64 z = z - 2 ^ 64"
proof -
  assume "2 ^ 63 \<le> z" "z < 2 ^ 64 + 2 ^ 63"
  then have "in_int64 (z - 2 ^ 64)" by (intro in_int64I) simp_all
  moreover have "wrap64 z = wrap64 (z - 2 ^ 64)" 
    using minus_mod_self2 [of "z + 2 ^ 63" "2 ^ 64"] by (simp add: wrap64_def)
  ultimately show ?thesis by simp
qed

lemma skew_window:
  assumes "0 \<le> now" "now < 2 ^ 62" "0 \<le> skew" "skew < 2 ^ 62" "in_int64 ts"
  shows "skew_of now ts \<le> skew \<longleftrightarrow> \<bar>now - ts\<bar> \<le> skew \<or> ts = now - 2 ^ 63"
proof (cases "now - ts < 2 ^ 63")
  case True
  with assms have "in_int64 (now - ts)" "in_int64 (ts - now)" by (auto intro!: in_int64I simp: in_int64_def max_int64_def min_int64_def)
  then show ?thesis using True by (auto simp: skew_of_def i64_sub_def i64_neg_def Let_def)
next
  case False
  have "now - ts \<le> now + 2 ^ 63" using assms(5) by (simp add: in_int64_def min_int64_def)
  then have w: "i64_sub now ts = now - ts - 2 ^ 64" using False assms(2) unfolding i64_sub_def by (intro wrap64_high) simp_all
  show ?thesis
  proof (cases "now - ts = 2 ^ 63")
    case True
    then have "i64_sub now ts = - (2 ^ 63)" using w by simp
    then have "skew_of now ts = - (2 ^ 63)" by (simp add: skew_of_def i64_neg_def wrap64_def)
    with True assms show ?thesis by auto
  next
    case no: False
    have "in_int64 (2 ^ 64 - (now - ts))" using no False \<open>now - ts \<le> now + 2 ^ 63\<close> assms(2) by (intro in_int64I) simp_all
    then have "skew_of now ts = 2 ^ 64 - (now - ts)"
      using w no False assms(2) \<open>now - ts \<le> now + 2 ^ 63\<close> by (simp add: skew_of_def i64_neg_def Let_def)
    with no False assms \<open>now - ts \<le> now + 2 ^ 63\<close> show ?thesis by auto
  qed
qed

text \<open>
  The check of the time stamp, in 64-bit arithmetic: it lets through the seconds that are at most
  \<open>skew\<close> away, and one more, \<open>2 ^ 63\<close> seconds before now, whose distance wraps to a negative number.
\<close>

theorem timestamp_window_exact:
  assumes "0 \<le> now" "now < 2 ^ 62" "0 \<le> skew" "skew < 2 ^ 62" "in_int64 ts"
  shows "skew_of now ts \<le> skew \<longleftrightarrow> \<bar>now - ts\<bar> \<le> skew \<or> ts = now - 2 ^ 63"
  using assms by (rule skew_window)

theorem timestamp_window_exact_witness:
  "skew_of 1700000000 (1700000000 - 2 ^ 63) \<le> 300 \<and> \<not> skew_of 1700000000 1699999699 \<le> 300"
  using timestamp_window_exact [of 1700000000 300 "1700000000 - 2 ^ 63"] timestamp_window_exact [of 1700000000 300 1699999699]
  by (simp add: in_int64_def min_int64_def max_int64_def)

lemma skew_pair:
  assumes "skew_of u1 ts \<le> skew" "skew_of u2 ts \<le> skew" "in_int64 ts"
    and "0 \<le> u1" "u1 < 2 ^ 62" "0 \<le> u2" "u2 < 2 ^ 62" "0 \<le> skew" "skew < 2 ^ 62"
  shows "u2 - u1 \<le> 2 * skew"
  using skew_window [of u1 skew ts] skew_window [of u2 skew ts] assms by auto

section \<open>Replays\<close>

text \<open>What can happen to the validator of the signer between two requests: other requests, a clean-up of
  the in-memory nonce store, and a deletion that an earlier look-up has left pending.\<close>

datatype gate_event =
    GateRequest rv_clock http_req
  | GateCleanup go_time
  | GateDelete string

definition run_delete :: "string \<Rightarrow> InMemoryNonceStore \<Rightarrow> InMemoryNonceStore" where
  "run_delete nonce st =
     (if nonce \<in> set (im_deletes st)
      then (snd (im_Delete nonce st))\<lparr>im_deletes := remove1 nonce (im_deletes st)\<rparr> else st)"

fun gate_step ::
  "'f float_ops \<Rightarrow> mac_lib \<Rightarrow> SecurityOptions \<Rightarrow> (InMemoryNonceStore, 'f) RequestValidator \<Rightarrow> gate_event \<Rightarrow> (InMemoryNonceStore, 'f) RequestValidator" where
  "gate_step F lib opts rv (GateRequest ck r) = snd (Middleware_Handler F lib opts ck r rv)"
| "gate_step F lib opts rv (GateCleanup now) = rv\<lparr>rv_nonces := snd (im_Cleanup now (rv_nonces rv))\<rparr>"
| "gate_step F lib opts rv (GateDelete nonce) = rv\<lparr>rv_nonces := run_delete nonce (rv_nonces rv)\<rparr>"

fun gate_time :: "gate_event \<Rightarrow> go_time" where
  "gate_time (GateRequest ck r) = ck_check ck"
| "gate_time (GateCleanup now) = now"
| "gate_time (GateDelete nonce) = 0"

definition kept :: "string \<Rightarrow> go_time \<Rightarrow> InMemoryNonceStore \<Rightarrow> bool" where
  "kept n e st \<longleftrightarrow> map_ok (im_store st) \<and> map_of (im_store st) n = Some e \<and> n \<notin> set (im_deletes st)"

declare map_of_eq_Some_iff [simp del]

lemma kept_validate: "kept n e st \<Longrightarrow> t1 \<le> e \<Longrightarrow> kept n e (snd (ValidateNonce (NewNonceManager im_ops ttl) t1 t2 m st))"
  by (cases "m = n") (auto simp: kept_def ValidateNonce_def nonce_ops split: option.splits if_splits)

lemma kept_accepted:
  "ValidateNonce (NewNonceManager im_ops ttl) t1 t2 n st = (None, st') \<Longrightarrow> map_ok (im_store st) \<Longrightarrow> im_deletes st = [] \<Longrightarrow>
     kept n (t2 + ttl) st'"
  by (auto simp: kept_def ValidateNonce_def nonce_ops split: option.splits if_splits)

lemma kept_refused: "kept n e st \<Longrightarrow> t1 \<le> e \<Longrightarrow> fst (ValidateNonce (NewNonceManager im_ops ttl) t1 t2 n st) \<noteq> None"
  unfolding kept_def using im.held_is_rejected by blast

lemma kept_cleanup: "kept n e st \<Longrightarrow> now \<le> e \<Longrightarrow> kept n e (snd (im_Cleanup now st))"
  by (auto simp: kept_def im_Cleanup_def map_of_filter_ok map_ok_filter)

lemma kept_delete: "kept n e st \<Longrightarrow> kept n e (run_delete m st)"
  by (auto simp: kept_def run_delete_def im_Delete_def dest: notin_set_remove1)

text \<open>What a validation does to the nonce store: nothing, or one call of \<open>ValidateNonce\<close>.\<close>

lemma ValidateRequest_nonces:
  "rv_nonceManager (snd (ValidateRequest F lib ck r rv)) = rv_nonceManager rv \<and>
   rv_hmac (snd (ValidateRequest F lib ck r rv)) = rv_hmac rv \<and>
   (rv_nonces (snd (ValidateRequest F lib ck r rv)) = rv_nonces rv \<or>
    (\<exists>n. rv_nonces (snd (ValidateRequest F lib ck r rv)) =
       snd (ValidateNonce (rv_nonceManager rv) (ck_check ck) (ck_store ck) n (rv_nonces rv))))"
  unfolding ValidateRequest_def check_nonce_def
  by (auto simp: Let_def split: sum.splits prod.splits bool.splits if_splits option.splits) (metis snd_conv)+

lemma Middleware_state:
  "snd (Middleware_Handler F lib opts ck r rv) = rv \<or> snd (Middleware_Handler F lib opts ck r rv) = snd (ValidateRequest F lib ck r rv)"
  unfolding Middleware_Handler_def by (auto split: prod.splits sum.splits)

lemma gate_step_kept:
  assumes "kept n e (rv_nonces rv)" "rv_nonceManager rv = NewNonceManager im_ops ttl" "gate_time ev \<le> e"
  shows "kept n e (rv_nonces (gate_step F lib opts rv ev)) \<and> rv_nonceManager (gate_step F lib opts rv ev) = NewNonceManager im_ops ttl"
proof (cases ev)
  case (GateRequest ck r)
  have "kept n e (rv_nonces (snd (ValidateRequest F lib ck r rv))) \<and>
      rv_nonceManager (snd (ValidateRequest F lib ck r rv)) = NewNonceManager im_ops ttl"
    using ValidateRequest_nonces [of F lib ck r rv] assms GateRequest kept_validate by fastforce
  with GateRequest Middleware_state [of F lib opts ck r rv] assms show ?thesis by auto
qed (use assms in \<open>simp_all add: kept_cleanup kept_delete\<close>)

lemma gate_step_hmac: "rv_hmac (gate_step F lib opts rv ev) = rv_hmac rv"
proof (cases ev)
  case (GateRequest ck r)
  then show ?thesis using Middleware_state [of F lib opts ck r rv] ValidateRequest_nonces [of F lib ck r rv] by auto
qed simp_all

lemma gate_run_hmac: "rv_hmac (foldl (gate_step F lib opts) rv evs) = rv_hmac rv"
  by (induction evs arbitrary: rv) (simp_all add: gate_step_hmac del: gate_step.simps)

lemma gate_run_kept:
  "kept n e (rv_nonces rv) \<Longrightarrow> rv_nonceManager rv = NewNonceManager im_ops ttl \<Longrightarrow> list_all (\<lambda>ev. gate_time ev \<le> e) evs \<Longrightarrow>
     kept n e (rv_nonces (foldl (gate_step F lib opts) rv evs)) \<and>
     rv_nonceManager (foldl (gate_step F lib opts) rv evs) = NewNonceManager im_ops ttl"
proof (induction evs arbitrary: rv)
  case (Cons ev evs)
  then have "kept n e (rv_nonces (gate_step F lib opts rv ev))" "rv_nonceManager (gate_step F lib opts rv ev) = NewNonceManager im_ops ttl"
    using gate_step_kept [of n e rv ttl ev F lib opts] by (simp_all del: gate_step.simps)
  with Cons show ?case by (simp del: gate_step.simps)
qed simp

text \<open>A request that a middleware with required signatures lets through.\<close>

definition strict :: "SecurityOptions \<Rightarrow> bool" where
  "strict opts \<longleftrightarrow> so_Enabled opts \<and> so_RequireHMAC opts"

definition well_signed :: "mac_lib \<Rightarrow> HMACValidator \<Rightarrow> go_time \<Rightarrow> string \<times> string \<times> string \<times> bool \<Rightarrow> bytes \<Rightarrow> bool" where
  "well_signed lib h now creds body \<longleftrightarrow> fst (snd (snd creds)) \<noteq> [] \<and> check_signature lib h now creds body = Inr ()"

lemma signed_credentials:
  assumes "well_signed lib h now (ts, nonce, sig, legacy) body"
  shows "nonce \<noteq> [] \<and> (\<exists>z. parse_int64 ts = Some z \<and> skew_of (unix_time now) z \<le> maxSkew h) \<and>
    (\<exists>secret rest. (secret = activeSecret h \<or> secret = oldSecret h) \<and> secret \<noteq> [] \<and>
       rest = (if legacy then body else body_hash_hex lib body) \<and> sig = mac_of lib secret (signature_text ts nonce rest))"
  using assms unfolding well_signed_def check_signature_def ValidateHMAC_def ValidateRawBodyHMAC_def validateTimestampInputs_def
    validateWithSecret_def validateRawWithSecret_def
  by (auto simp: bind_result_Inr Let_def split: if_splits option.splits)

lemma middleware_passes:
  assumes "Middleware_Handler F lib opts ck r rv = (Pass ctx body, rv')" "strict opts" "\<not> isExcluded opts (rq_Path r)"
    and "credentials (rq_Header r) = creds"
  shows "well_signed lib (rv_hmac rv) (ck_hmac ck) creds body \<and>
    ValidateNonce (rv_nonceManager rv) (ck_check ck) (ck_store ck) (fst (snd creds)) (rv_nonces rv) = (None, rv_nonces rv') \<and>
    rv_nonceManager rv' = rv_nonceManager rv \<and> rv_hmac rv' = rv_hmac rv \<and>
    fst (rl_Allow F (ck_created ck) (ck_rate ck) (rate_key r) (rv_rateLimiter rv)) \<and>
    (\<exists>c. ctx = Some c \<and> rc_Validated c \<and> rc_Nonce c = fst (snd creds)) \<and>
    read_limited (rv_maxBodySize rv) (rq_Body r) (rq_BodyErr r) = Inr body"
proof -
  obtain ts nonce sig legacy where c: "creds = (ts, nonce, sig, legacy)" by (cases creds) auto
  obtain res rv1 where v: "ValidateRequest F lib ck r rv = (res, rv1)" by (cases "ValidateRequest F lib ck r rv")
  obtain c1 where res: "res = Inr (c1, body)" "ctx = Some c1" "rv1 = rv'" "rc_Validated c1"
    using assms(1-3) v by (auto simp: Middleware_Handler_def strict_def split: sum.splits if_splits prod.splits)
  have vr: "ValidateRequest F lib ck r rv = (Inr (c1, body), rv')" using v res by simp
  have body: "read_limited (rv_maxBodySize rv) (rq_Body r) (rq_BodyErr r) = Inr body"
    and sig: "check_signature lib (rv_hmac rv) (ck_hmac ck) creds body = Inr ()" and validated: "sig \<noteq> []" and nn: "rc_Nonce c1 = nonce"
    and nr: "\<exists>rv2. check_nonce ck nonce rv = (Inr (), rv2) \<and> rv_nonces rv' = rv_nonces rv2 \<and> rv_nonceManager rv' = rv_nonceManager rv2 \<and>
      rv_hmac rv' = rv_hmac rv2 \<and> fst (rl_Allow F (ck_created ck) (ck_rate ck) (rate_key r) (rv_rateLimiter rv2))"
    using vr res(4) assms(4) c unfolding ValidateRequest_def
    by (auto split: sum.splits if_splits prod.splits bool.splits)
  have sd: "well_signed lib (rv_hmac rv) (ck_hmac ck) creds body" using sig validated c by (simp add: well_signed_def)
  with signed_credentials c have "nonce \<noteq> []" by blast
  with nr have "ValidateNonce (rv_nonceManager rv) (ck_check ck) (ck_store ck) nonce (rv_nonces rv) = (None, rv_nonces rv')"
    "rv_nonceManager rv' = rv_nonceManager rv" "rv_hmac rv' = rv_hmac rv"
    "fst (rl_Allow F (ck_created ck) (ck_rate ck) (rate_key r) (rv_rateLimiter rv))"
    by (auto simp: check_nonce_def split: prod.splits option.splits)
  then show ?thesis using sd body res(2,4) nn c by simp
qed


section \<open>Concrete requests\<close>

definition toy_mac :: mac_lib where
  "toy_mac = \<lparr> mac_sha256 = (\<lambda>b. take 32 (b @ replicate 32 CHR ''0'')), mac_hmac = (\<lambda>k m. m) \<rparr>"

definition toy_clock :: "go_time \<Rightarrow> rv_clock" where
  "toy_clock t = \<lparr> ck_start = t, ck_hmac = t, ck_check = t, ck_store = t, ck_created = t, ck_rate = t, ck_id = ''id'' \<rparr>"

text \<open>The request of a caller whose clock is five minutes ahead of second 700.\<close>

definition toy_signed :: http_req where
  "toy_signed = \<lparr> rq_Path = ''/p'', rq_Method = ''POST'',
     rq_Header = [(''X-Ts'', ''1000''), (''X-Nonce'', ''n''), (''X-Signer-Hmac'', hex_encode ''1000.n.b'')],
     rq_RemoteAddr = ''ip'', rq_ContentLength = 1, rq_Body = ''b'', rq_BodyErr = None \<rparr>"

definition toy_options :: SecurityOptions where
  "toy_options = \<lparr> so_Enabled = True, so_RequireHMAC = True, so_RequireNonce = True, so_RequireAPIKey = False,
     so_AllowedMethods = [''POST'', ''GET''], so_ExcludePaths = [''/healthz'', ''/readyz''] \<rparr>"

definition toy_validator :: "duration \<Rightarrow> (InMemoryNonceStore, int option) RequestValidator" where
  "toy_validator ttl = NewRequestValidator (coarse_float (\<lambda>_. None)) NewInMemoryNonceStore
     \<lparr> vc_HMACSecret = ''s'', vc_HMACMaxSkew = 300, vc_NonceStore = im_ops, vc_NonceTTL = ttl, vc_RateLimit = 100,
       vc_RateWindow = minute, vc_RateLimiterType = ''sliding_window'', vc_MaxBodySize = 1048576, vc_OldSecret = [] \<rparr>"

abbreviation toy_handle :: "go_time \<Rightarrow> http_req \<Rightarrow> (InMemoryNonceStore, int option) RequestValidator \<Rightarrow> gate \<times> (InMemoryNonceStore, int option) RequestValidator" where
  "toy_handle t r rv \<equiv> Middleware_Handler (coarse_float (\<lambda>_. None)) toy_mac toy_options (toy_clock t) r rv"

text \<open>What it takes to be let through.\<close>

definition admitted :: "'f float_ops \<Rightarrow> mac_lib \<Rightarrow> SecurityOptions \<Rightarrow> rv_clock \<Rightarrow> http_req \<Rightarrow> ('s, 'f) RequestValidator \<Rightarrow> bytes \<Rightarrow> bool" where
  "admitted F lib opts ck r rv body \<longleftrightarrow> isMethodAllowed opts (rq_Method r) \<and>
     (0 < rv_maxBodySize rv \<longrightarrow> rq_ContentLength r \<le> rv_maxBodySize rv) \<and>
     read_limited (rv_maxBodySize rv) (rq_Body r) (rq_BodyErr r) = Inr body \<and>
     well_signed lib (rv_hmac rv) (ck_hmac ck) (credentials (rq_Header r)) body \<and>
     fst (ValidateNonce (rv_nonceManager rv) (ck_check ck) (ck_store ck) (fst (snd (credentials (rq_Header r)))) (rv_nonces rv)) = None \<and>
     fst (rl_Allow F (ck_created ck) (ck_rate ck) (rate_key r) (rv_rateLimiter rv)) \<and>
     (so_RequireAPIKey opts \<longrightarrow> header_Get (rq_Header r) ''X-Api-Key'' \<noteq> [])"

lemma admitted_passes:
  assumes "strict opts" "\<not> isExcluded opts (rq_Path r)" "admitted F lib opts ck r rv body"
  shows "\<exists>c. Middleware_Handler F lib opts ck r rv = (Pass (Some c) body, rv
    \<lparr>rv_nonces := snd (ValidateNonce (rv_nonceManager rv) (ck_check ck) (ck_store ck) (fst (snd (credentials (rq_Header r)))) (rv_nonces rv)),
     rv_rateLimiter := snd (rl_Allow F (ck_created ck) (ck_rate ck) (rate_key r) (rv_rateLimiter rv))\<rparr>)"
proof -
  obtain ts nonce sig legacy where c: "credentials (rq_Header r) = (ts, nonce, sig, legacy)" by (cases "credentials (rq_Header r)") auto
  have sd: "well_signed lib (rv_hmac rv) (ck_hmac ck) (ts, nonce, sig, legacy) body" using assms(3) c by (simp add: admitted_def)
  then have sig: "sig \<noteq> []" "check_signature lib (rv_hmac rv) (ck_hmac ck) (ts, nonce, sig, legacy) body = Inr ()"
    by (simp_all add: well_signed_def)
  have nonce: "nonce \<noteq> []" using signed_credentials [OF sd] by blast
  obtain st where st: "ValidateNonce (rv_nonceManager rv) (ck_check ck) (ck_store ck) nonce (rv_nonces rv) = (None, st)"
    using assms(3) c by (cases "ValidateNonce (rv_nonceManager rv) (ck_check ck) (ck_store ck) nonce (rv_nonces rv)") (simp add: admitted_def)
  obtain rl where rl: "rl_Allow F (ck_created ck) (ck_rate ck) (rate_key r) (rv_rateLimiter rv) = (True, rl)"
    using assms(3) by (cases "rl_Allow F (ck_created ck) (ck_rate ck) (rate_key r) (rv_rateLimiter rv)") (simp add: admitted_def)
  have "check_nonce ck nonce rv = (Inr (), rv\<lparr>rv_nonces := st\<rparr>)" using nonce st by (simp add: check_nonce_def)
  with assms c sig rl st nonce show ?thesis
    by (auto simp: Middleware_Handler_def ValidateRequest_def strict_def admitted_def)
qed

lemma passed_admitted:
  assumes "strict opts" "\<not> isExcluded opts (rq_Path r)" "Middleware_Handler F lib opts ck r rv = (Pass ctx body, rv')"
  shows "admitted F lib opts ck r rv body"
proof -
  have "isMethodAllowed opts (rq_Method r)" using assms by (auto simp: Middleware_Handler_def split: if_splits)
  moreover have "0 < rv_maxBodySize rv \<longrightarrow> rq_ContentLength r \<le> rv_maxBodySize rv"
    using assms by (auto simp: Middleware_Handler_def strict_def ValidateRequest_def split: if_splits)
  moreover have "so_RequireAPIKey opts \<longrightarrow> header_Get (rq_Header r) ''X-Api-Key'' \<noteq> []"
    using assms by (auto simp: Middleware_Handler_def strict_def ValidateRequest_def split: if_splits sum.splits prod.splits bool.splits)
  ultimately show ?thesis using middleware_passes [OF assms(3,1,2) refl] by (simp add: admitted_def)
qed


lemma toy_credentials: "credentials (rq_Header toy_signed) = (''1000'', ''n'', hex_encode ''1000.n.b'', True)"
  by code_simp

lemma toy_admitted:
  assumes "check_signature toy_mac (rv_hmac rv) t (credentials (rq_Header toy_signed)) ''b'' = Inr ()"
    and "fst (ValidateNonce (rv_nonceManager rv) t t ''n'' (rv_nonces rv)) = None" "rv_maxBodySize rv = 1048576"
    and "fst (rl_Allow (coarse_float (\<lambda>_. None)) t t ''ip'' (rv_rateLimiter rv))"
  shows "admitted (coarse_float (\<lambda>_. None)) toy_mac toy_options (toy_clock t) toy_signed rv ''b''"
proof -
  have "rate_key toy_signed = ''ip''" "isMethodAllowed toy_options (rq_Method toy_signed)" by code_simp+
  moreover have "hex_encode ''1000.n.b'' \<noteq> []" by code_simp
  ultimately show ?thesis
    using assms unfolding admitted_def toy_credentials
    by (simp add: toy_clock_def well_signed_def read_limited_def) (simp add: toy_signed_def toy_options_def)
qed

definition toy_replayed :: "duration \<Rightarrow> (InMemoryNonceStore, int option) RequestValidator" where
  "toy_replayed ttl = gate_step (coarse_float (\<lambda>_. None)) toy_mac toy_options
     (snd (toy_handle (700 * second) toy_signed (toy_validator ttl))) (GateCleanup (1001 * second))"

lemma toy_first: "admitted (coarse_float (\<lambda>_. None)) toy_mac toy_options (toy_clock (700 * second)) toy_signed (toy_validator (300 * second)) ''b''"
  by (rule toy_admitted; code_simp)

lemma toy_strict: "strict toy_options" "\<not> isExcluded toy_options (rq_Path toy_signed)"
  by code_simp+

lemma toy_second: "admitted (coarse_float (\<lambda>_. None)) toy_mac toy_options (toy_clock (1001 * second)) toy_signed (toy_replayed (300 * second)) ''b''"
proof -
  let ?rv = "toy_validator (300 * second)"
  have st: "snd (toy_handle (700 * second) toy_signed ?rv) = ?rv
    \<lparr>rv_nonces := snd (ValidateNonce (rv_nonceManager ?rv) (700 * second) (700 * second) ''n'' (rv_nonces ?rv)),
     rv_rateLimiter := snd (rl_Allow (coarse_float (\<lambda>_. None)) (700 * second) (700 * second) (rate_key toy_signed) (rv_rateLimiter ?rv))\<rparr>"
    using admitted_passes [OF toy_strict toy_first] by (auto simp: toy_credentials toy_clock_def)
  show ?thesis unfolding toy_replayed_def gate_step.simps st by (rule toy_admitted; code_simp)
qed

text \<open>
  With the defaults of the signer, 300 seconds of skew and 300 seconds of life for a nonce, the
  life of a nonce does not cover the skew: a request whose time stamp lies 300 seconds ahead is let
  through at once and, unchanged, once more 301 seconds later.
\<close>

theorem default_ttl_allows_replay:
  "passes (fst (toy_handle (700 * second) toy_signed (toy_validator (300 * second)))) \<and>
   passes (fst (toy_handle (1001 * second) toy_signed (toy_replayed (300 * second))))"
  using admitted_passes [OF toy_strict toy_first] admitted_passes [OF toy_strict toy_second] by auto



theorem raw_signature_moves_bytes_witness:
  "ValidateRawBodyHMAC toy_mac (NewHMACValidator ''s'' 300) 0 ''0'' (''n'' @ ''.'' @ ''a'') (hex_encode ''0.n.a.b'') ''b'' = Inr ()"
proof -
  have "ValidateRawBodyHMAC toy_mac (NewHMACValidator ''s'' 300) 0 ''0'' ''n'' (hex_encode ''0.n.a.b'') (''a'' @ ''.'' @ ''b'') = Inr ()"
    by code_simp
  from raw_signature_moves_bytes [OF this] show ?thesis ..
qed

theorem signature_binds_request_witness:
  "ValidateHMAC toy_mac (NewHMACValidator ''s'' 300) 0 ''0'' ''n'' (GenerateHMAC toy_mac ''s'' ''0'' ''n'' ''b'') ''b'' = Inr () \<and>
   ValidateHMAC toy_mac (NewHMACValidator ''s'' 300) 5 ''0'' ''n'' (GenerateHMAC toy_mac ''s'' ''0'' ''n'' ''b'') ''c'' \<noteq> Inr ()"
proof -
  have p: "parse_int64 ''0'' = Some 0" "skew_of (unix_time 0) 0 \<le> 300" by code_simp+
  have v: "ValidateHMAC toy_mac (NewHMACValidator ''s'' 300) 0 ''0'' ''n'' (GenerateHMAC toy_mac ''s'' ''0'' ''n'' ''b'') ''b'' = Inr ()"
    by (rule generated_accepted [OF _ _ _ p(1)]) (use p(2) in \<open>simp_all add: NewHMACValidator_def toy_mac_def signature_text_def\<close>)
  have "\<forall>b. length (mac_sha256 toy_mac b) = 32" by (simp add: toy_mac_def min_def)
  moreover have "mac_sha256 toy_mac ''b'' \<noteq> mac_sha256 toy_mac ''c''" by (simp add: toy_mac_def)
  ultimately show ?thesis using v signature_binds_request [OF v, of 5 "''0''" "''n''" "''c''"]
    by (auto simp: NewHMACValidator_def toy_mac_def)
qed

end
