(* ===== verification/Signer_Gate.thy ===== *)
theory Signer_Gate
  imports Signer_Run Request_Security
begin

text \<open>
  The signer behind its security middleware: \<open>setupSecurity\<close> and the routes of \<open>signer/main.go\<close>, with the
  helpers of \<open>signer/config.go\<close>. A request is validated by the middleware of \<open>Request_Security\<close>, and
  what passes reaches a handler of \<open>Signer_Service\<close>. JSON decoding is an argument.
\<close>

section \<open>Configuration\<close>

record SecurityConfig =
  sec_HMACSecret :: string
  sec_HMACMaxSkewSec :: int64
  sec_HMACOldSecret :: string
  sec_NonceTTLSeconds :: int64
  sec_NonceStoreType :: string
  sec_RateLimitPerMin :: int64
  sec_RateLimiterType :: string
  sec_MaxBodySizeMB :: int64
  sec_RequireHMAC :: bool
  sec_RequireNonce :: bool
  sec_RequireAPIKey :: bool

definition GetRateWindow :: duration where
  "GetRateWindow = minute"

definition GetRateLimit :: "SecurityConfig \<Rightarrow> int64" where
  "GetRateLimit sec = (if sec_RateLimitPerMin sec \<le> 0 then 100 else sec_RateLimitPerMin sec)"

definition GetMaxBodySize :: "SecurityConfig \<Rightarrow> int64" where
  "GetMaxBodySize sec =
     (if sec_MaxBodySizeMB sec \<le> 0 then 1024 * 1024 else i64_mul (i64_mul (sec_MaxBodySizeMB sec) 1024) 1024)"

definition GetRateLimiterType :: "SecurityConfig \<Rightarrow> string" where
  "GetRateLimiterType sec =
     (let t = to_lower (sec_RateLimiterType sec) in
      if t = ''sliding_window'' \<or> t = ''sliding'' then ''sliding_window'' else ''token_bucket'')"

definition sec_NonceTTL :: "SecurityConfig \<Rightarrow> duration" where
  "sec_NonceTTL sec = (if sec_NonceTTLSeconds sec \<le> 0 then 5 * minute else i64_mul (sec_NonceTTLSeconds sec) second)"

definition signer_options :: "SecurityConfig \<Rightarrow> SecurityOptions" where
  "signer_options sec = \<lparr> so_Enabled = True, so_RequireHMAC = sec_RequireHMAC sec, so_RequireNonce = sec_RequireNonce sec,
     so_RequireAPIKey = sec_RequireAPIKey sec, so_AllowedMethods = [''POST'', ''GET''], so_ExcludePaths = [''/healthz'', ''/readyz''] \<rparr>"

text \<open>
  The nonce store is chosen by the configuration; \<open>redis\<close> is what dialling the Redis server gives.
\<close>

definition setupSecurity ::
  "'f float_ops \<Rightarrow> 's NonceStore \<times> 's \<Rightarrow> (string \<Rightarrow> string + 's NonceStore \<times> 's) \<Rightarrow> string \<Rightarrow> SecurityConfig \<Rightarrow>
     string + ('s, 'f) RequestValidator \<times> SecurityOptions" where
  "setupSecurity F memory redis redisURL sec =
     bind_result
       (if sec_NonceStoreType sec = ''redis'' then
          (if trim_space redisURL = [] then Inl ''REDIS_URL obrigatorio quando NONCE_STORE_TYPE=redis''
           else case redis redisURL of Inl e \<Rightarrow> Inl (''redis nonce store indisponivel: '' @ e) | Inr st \<Rightarrow> Inr st)
        else Inr memory)
       (\<lambda>(ops, st). Inr
          (NewRequestValidator F st
             \<lparr> vc_HMACSecret = sec_HMACSecret sec, vc_HMACMaxSkew = sec_HMACMaxSkewSec sec, vc_NonceStore = ops,
               vc_NonceTTL = sec_NonceTTL sec, vc_RateLimit = GetRateLimit sec, vc_RateWindow = GetRateWindow,
               vc_RateLimiterType = GetRateLimiterType sec, vc_MaxBodySize = GetMaxBodySize sec, vc_OldSecret = sec_HMACOldSecret sec \<rparr>,
           signer_options sec))"

section \<open>Routes\<close>

text \<open>Decoding of the bodies; for an unlock the note, which stays empty when decoding fails.\<close>

record signer_json =
  js_transfer :: "bytes \<Rightarrow> TransferRequest option"
  js_contract :: "bytes \<Rightarrow> ContractCallRequest option"
  js_settlement :: "bytes \<Rightarrow> SettlementExecuteRequest option"
  js_note :: "bytes \<Rightarrow> string option"

datatype signer_answer = Handled http_response | Health nat

definition ready_ok :: "('f, 'z) signer_config_scheme \<Rightarrow> signer_sys \<Rightarrow> bool" where
  "ready_ok cfg s \<longleftrightarrow> \<not> fst (Locked (sv_guard s)) \<and>
     \<not> ((DefaultNetwork cfg = ''BSC'' \<or> DefaultNetwork cfg = ''EVM'') \<and> (RPCURLs cfg = [] \<or> BSCUSDTContract cfg = []))"

text \<open>
  A handler reads at most \<open>1 << 20\<close> bytes of the body it is given, and takes its nonce from the context.
\<close>

definition to_handler :: "(bytes \<Rightarrow> 'r option) \<Rightarrow> http_req \<Rightarrow> RequestContext option \<Rightarrow> bytes \<Rightarrow> 'r http_request" where
  "to_handler decode r ctx body =
     \<lparr> hq_Method = rq_Method r, hq_Nonce = map_option rc_Nonce ctx, hq_Body = Some (decode (take (2 ^ 20) body)) \<rparr>"

definition route ::
  "'f float_ops \<Rightarrow> 'l signer_lib_scheme \<Rightarrow> ('f, 'z) signer_config_scheme \<Rightarrow> signer_json \<Rightarrow> rpc_world \<Rightarrow> http_req \<Rightarrow>
     RequestContext option \<Rightarrow> bytes \<Rightarrow> signer_sys \<Rightarrow> http_response \<times> signer_sys" where
  "route F lib cfg js w r ctx body s =
     (if rq_Path r = ''/hd/transfer'' then hd_transfer F lib cfg w (to_handler (js_transfer js) r ctx body) s
      else if rq_Path r = ''/settlements/execute'' then settlements_execute F lib cfg w (to_handler (js_settlement js) r ctx body) s
      else if rq_Path r = ''/hd/contract-call'' then hd_contract_call F lib cfg w (to_handler (js_contract js) r ctx body) s
      else custody_unlock cfg (w_now w) (to_handler (js_note js) r ctx body) s)"

definition protected_paths :: "string list" where
  "protected_paths = [''/hd/transfer'', ''/settlements/execute'', ''/hd/contract-call'', ''/custody/unlock'']"

definition serve ::
  "'f float_ops \<Rightarrow> mac_lib \<Rightarrow> 'l signer_lib_scheme \<Rightarrow> ('f, 'z) signer_config_scheme \<Rightarrow> signer_json \<Rightarrow> SecurityOptions \<Rightarrow> rv_clock \<Rightarrow> rpc_world \<Rightarrow>
     http_req \<Rightarrow> ('s, 'f) RequestValidator \<times> signer_sys \<Rightarrow> signer_answer \<times> ('s, 'f) RequestValidator \<times> signer_sys" where
  "serve F mac lib cfg js opts ck w r st =
     (case st of (rv, s) \<Rightarrow>
        if rq_Path r = ''/healthz'' then (Health 200, rv, s)
        else if rq_Path r = ''/readyz'' then (Health (if ready_ok cfg s then 200 else 503), rv, s)
        else if rq_Path r \<notin> set protected_paths then (Health 404, rv, s)
        else case Middleware_Handler F mac opts ck r rv of
          (Stop status, rv) \<Rightarrow> (Handled (HttpError status), rv, s)
        | (Pass ctx body, rv) \<Rightarrow>
            (case route F lib cfg js w r ctx body s of (answer, s) \<Rightarrow> (Handled answer, rv, s)))"

section \<open>Only signed requests count\<close>

lemma protected_not_excluded: "rq_Path r \<in> set protected_paths \<Longrightarrow> \<not> isExcluded (signer_options sec) (rq_Path r)"
  by (auto simp: protected_paths_def isExcluded_def signer_options_def)


definition toy_security :: SecurityConfig where
  "toy_security = \<lparr> sec_HMACSecret = ''s'', sec_HMACMaxSkewSec = 300, sec_HMACOldSecret = [], sec_NonceTTLSeconds = 300,
     sec_NonceStoreType = ''memory'', sec_RateLimitPerMin = 100, sec_RateLimiterType = ''sliding'', sec_MaxBodySizeMB = 1,
     sec_RequireHMAC = True, sec_RequireNonce = True, sec_RequireAPIKey = False \<rparr>"

definition toy_unsigned :: http_req where
  "toy_unsigned = \<lparr> rq_Path = ''/hd/transfer'', rq_Method = ''POST'', rq_Header = [(''X-Request-Nonce'', ''n'')],
     rq_RemoteAddr = ''ip'', rq_ContentLength = 1, rq_Body = ''b'', rq_BodyErr = None \<rparr>"

definition toy_json :: signer_json where
  "toy_json = \<lparr> js_transfer = (\<lambda>_. Some toy_transfer), js_contract = (\<lambda>_. None), js_settlement = (\<lambda>_. None), js_note = (\<lambda>_. None) \<rparr>"


end
