(* ===== verification/Paymaster_Relay.thy ===== *)
theory Paymaster_Relay
  imports Signer_Policy
begin

text \<open>
  The amounts and the calldata of the gas station: \<open>internal/paymaster/token_relayer.go\<close> and the
  encoders and payloads of \<open>internal/paymaster/batcher.go\<close>. A relay is split into a net leg for its
  destination and a fee leg for the treasury; several relays can be bundled in one call of the
  Multicall3 contract. All arithmetic is on integers; the floating-point copies of the amounts that
  the code only logs are left out.
\<close>

section \<open>The split of an amount\<close>

record TokenRelayer =
  tr_spreadBps :: int64
  tr_hotWallet :: string

record RelayPlan =
  TotalMicro :: int
  NetMicro :: int
  FeeMicro :: int
  SpreadBps :: int64

datatype relay_error =
    EmptyAmount | AmountUnparsable | AmountNotPositive | AmountBad | DecimalsBad
  | BatchTooSmall | SpreadPlan string relay_error | NetAmount string relay_error | NetZero string
  | AuditAmount string relay_error | FeeAmount string relay_error

definition NewTokenRelayer :: "int64 \<Rightarrow> string \<Rightarrow> TokenRelayer" where
  "NewTokenRelayer spreadBps hotWallet =
     \<lparr> tr_spreadBps = (if spreadBps \<le> 0 then 100 else spreadBps), tr_hotWallet = hotWallet \<rparr>"

definition HasFeeDestination :: "TokenRelayer \<Rightarrow> bool" where
  "HasFeeDestination tr \<longleftrightarrow> trim_space (tr_hotWallet tr) \<noteq> []"

definition usdtDecimals :: nat where
  "usdtDecimals = 6"

definition parseUSDTtoMicro :: "string \<Rightarrow> relay_error + int" where
  "parseUSDTtoMicro amount =
     (let amount = trim_space amount in
      if amount = [] then Inl EmptyAmount
      else
        let (intPart, rest) = split_n2 CHR ''.'' amount;
            fracPart = (case rest of None \<Rightarrow> [] | Some f \<Rightarrow> f);
            fracPart = (if length fracPart > usdtDecimals then take usdtDecimals fracPart
                        else fracPart @ replicate (usdtDecimals - length fracPart) CHR ''0'') in
        case parse_big (intPart @ fracPart) of
          None \<Rightarrow> Inl AmountUnparsable
        | Some micro \<Rightarrow> Inr micro)"

definition basisPointDivisor :: int where
  "basisPointDivisor = 10000"

definition Plan :: "TokenRelayer \<Rightarrow> string \<Rightarrow> relay_error + RelayPlan" where
  "Plan tr amountStr =
     (case parseUSDTtoMicro amountStr of
        Inl e \<Rightarrow> Inl e
      | Inr totalMicro \<Rightarrow>
          if totalMicro \<le> 0 then Inl AmountNotPositive
          else
            let feeMicro = totalMicro * tr_spreadBps tr div basisPointDivisor;
                netMicro = totalMicro - feeMicro in
            Inr \<lparr> TotalMicro = totalMicro, NetMicro = netMicro, FeeMicro = feeMicro, SpreadBps = tr_spreadBps tr \<rparr>)"

section \<open>Numbers and text\<close>

text \<open>\<open>DivMod\<close> is Euclidean, and the fraction is printed with \<open>%06d\<close>.\<close>

definition microUSDTToString :: "big_int \<Rightarrow> string" where
  "microUSDTToString micro =
     (case micro of
        None \<Rightarrow> ''0.000000''
      | Some m \<Rightarrow>
          if m = 0 then ''0.000000''
          else int_str (m div 10 ^ 6) @ ''.'' @ pad_zero 6 (nat_str (nat (m mod 10 ^ 6))))"

definition tokenDecimalsForNetwork :: "string \<Rightarrow> int64" where
  "tokenDecimalsForNetwork network = (if to_upper (trim_space network) = ''POLYGON'' then 6 else 18)"

definition decimalToTokenUnits :: "string \<Rightarrow> int64 \<Rightarrow> relay_error + int" where
  "decimalToTokenUnits v decimals =
     (let v = trim_space v in
      if v = [] then Inl EmptyAmount
      else if decimals < 0 \<or> decimals > 30 then Inl DecimalsBad
      else
        let parts = split_on CHR ''.'' v in
        if length parts > 2 \<or> parts ! 0 = [] then Inl AmountBad
        else case parse_big (parts ! 0) of
               None \<Rightarrow> Inl AmountBad
             | Some whole \<Rightarrow>
                 let whole = whole * 10 ^ nat decimals in
                 if length parts = 1 then Inr whole
                 else
                   let fraction = parts ! 1;
                       fraction = (if length fraction > nat decimals then take (nat decimals) fraction else fraction);
                       fraction = fraction @ replicate (nat decimals - length fraction) CHR ''0'' in
                   if fraction = [] then Inr whole
                   else case parse_big fraction of
                          None \<Rightarrow> Inl AmountBad
                        | Some frac \<Rightarrow> Inr (whole + frac))"

definition tokenUnitsToDecimal :: "big_int \<Rightarrow> nat \<Rightarrow> string" where
  "tokenUnitsToDecimal units decimals =
     (case units of
        None \<Rightarrow> ''0''
      | Some u \<Rightarrow>
          let intPart = u div 10 ^ decimals; fracPart = u mod 10 ^ decimals in
          if decimals = 0 then int_str intPart
          else
            let frac = trim_right (\<lambda>c. c = CHR ''0'') (pad_zero decimals (int_str fracPart)) in
            if frac = [] then int_str intPart else int_str intPart @ ''.'' @ frac)"

text \<open>
  \<open>hex.DecodeString\<close> with its error ignored: what was decoded before the first bad digit.
\<close>

fun hex_decoded :: "string \<Rightarrow> bytes" where
  "hex_decoded (a # b # s) =
     (case (hex_val a, hex_val b) of
        (Some x, Some y) \<Rightarrow> byte_of (16 * x + y) # hex_decoded s
      | _ \<Rightarrow> [])"
| "hex_decoded _ = []"

definition isHexAddressString :: "string \<Rightarrow> bool" where
  "isHexAddressString v =
     (let v = trim_space v in length v = 42 \<and> has_prefix v ''0x'' \<and> hex_decode (drop 2 v) \<noteq> None)"

section \<open>Calldata\<close>

definition address_slot :: "string \<Rightarrow> bytes" where
  "address_slot a =
     (let bs = hex_decoded (trim_prefix a ''0x'') in
      if length bs = 20 then replicate 12 (byte_of 0) @ bs else replicate 32 (byte_of 0))"

definition encodeERC20Transfer :: "string \<Rightarrow> bytes \<Rightarrow> bytes" where
  "encodeERC20Transfer to amountWei =
     map byte_of [0xa9, 0x05, 0x9c, 0xbb] @ address_slot to @
     (if length amountWei \<le> 32 then replicate (32 - length amountWei) (byte_of 0) @ amountWei else replicate 32 (byte_of 0))"

record multicall3Call =
  mc_Target :: string
  mc_AllowFailure :: bool
  mc_CallData :: bytes

fun be_bytes :: "nat \<Rightarrow> nat \<Rightarrow> bytes" where
  "be_bytes 0 v = []"
| "be_bytes (Suc n) v = be_bytes n (v div 256) @ [byte_of v]"

definition writeUint256 :: "nat \<Rightarrow> bytes" where
  "writeUint256 v = replicate 24 (byte_of 0) @ be_bytes 8 (v mod 2 ^ 64)"

definition padded :: "nat \<Rightarrow> nat" where
  "padded dataLen = (dataLen + 31) div 32 * 32"

fun bytes_offsets :: "nat \<Rightarrow> multicall3Call list \<Rightarrow> nat list" where
  "bytes_offsets off [] = []"
| "bytes_offsets off (c # cs) = off # bytes_offsets (off + (32 + padded (length (mc_CallData c)))) cs"

definition call_head :: "nat \<Rightarrow> nat \<Rightarrow> multicall3Call \<Rightarrow> bytes" where
  "call_head i bytesOffset c =
     address_slot (mc_Target c) @ replicate 31 (byte_of 0) @ [byte_of (if mc_AllowFailure c then 1 else 0)] @
     writeUint256 (bytesOffset - i * 3 * 32)"

definition call_bytes :: "multicall3Call \<Rightarrow> bytes" where
  "call_bytes c =
     (let dataLen = length (mc_CallData c) in
      writeUint256 dataLen @ mc_CallData c @ replicate ((32 - dataLen mod 32) mod 32) (byte_of 0))"

definition multicall3_bytes :: "multicall3Call list \<Rightarrow> bytes" where
  "multicall3_bytes calls =
     (let headSize = length calls * 3 * 32; offsets = bytes_offsets headSize calls in
      map byte_of [0x82, 0xad, 0x56, 0xcb] @ writeUint256 32 @ writeUint256 (length calls) @
      concat (map (\<lambda>(i, c). call_head i (offsets ! i) c) (enumerate 0 calls)) @
      concat (map call_bytes calls))"

definition encodeMulticall3 :: "multicall3Call list \<Rightarrow> string" where
  "encodeMulticall3 calls = hex_encode (multicall3_bytes calls)"

section \<open>Bundles of relays\<close>

record relayJob =
  rj_relayID :: string
  rj_to :: string
  rj_amount :: string
  rj_token :: string
  rj_network :: string

record RelayBatcher =
  rb_multicall :: string
  rb_relayer :: "TokenRelayer option"

definition multicall3DefaultAddr :: string where
  "multicall3DefaultAddr = ''0xcA11bde05977b3631167028862bE2a173976CA11''"

definition NewRelayBatcher :: "string \<Rightarrow> TokenRelayer option \<Rightarrow> RelayBatcher" where
  "NewRelayBatcher multicallAddr relayer =
     \<lparr> rb_multicall = (if multicallAddr = [] then multicall3DefaultAddr else multicallAddr), rb_relayer = relayer \<rparr>"

record signerTransferPayload =
  tp_DerivationIndex :: int64
  tp_To :: string
  tp_Amount :: string
  tp_TokenContract :: string
  tp_Network :: string
  tp_IdempotencyKey :: string

record signerContractCallPayload =
  cp_DerivationIndex :: int64
  cp_To :: string
  cp_Data :: string
  cp_Network :: string
  cp_IdempotencyKey :: string
  cp_Amount :: string
  cp_TokenContract :: string

definition canMulticall :: "RelayBatcher \<Rightarrow> relayJob list \<Rightarrow> bool" where
  "canMulticall rb batch \<longleftrightarrow>
     \<not> (length batch < 2 \<or> trim_space (rb_multicall rb) = []) \<and>
     (let network = to_upper (trim_space (rj_network (batch ! 0)));
          token = to_lower (trim_space (rj_token (batch ! 0))) in
      \<not> (network = [] \<or> token = [] \<or> \<not> isHexAddressString token \<or> \<not> isHexAddressString (rb_multicall rb)) \<and>
      list_all (\<lambda>job. to_upper (trim_space (rj_network job)) = network \<and> to_lower (trim_space (rj_token job)) = token \<and>
        isHexAddressString (rj_to job) \<and> trim_space (rj_amount job) \<noteq> [] \<and> trim_space (rj_amount job) \<noteq> ''0'') batch)"

text \<open>The net amount and, when a fee goes to the treasury, the fee of a job.\<close>

definition split_amounts :: "TokenRelayer option \<Rightarrow> string \<Rightarrow> relay_error + string \<times> string option" where
  "split_amounts relayer amount =
     (case relayer of
        None \<Rightarrow> Inr (amount, None)
      | Some tr \<Rightarrow>
          if amount = [] \<or> amount = ''0'' then Inr (amount, None)
          else case Plan tr amount of
                 Inl e \<Rightarrow> Inl e
               | Inr plan \<Rightarrow> Inr (microUSDTToString (Some (NetMicro plan)),
                   if HasFeeDestination tr \<and> 0 < FeeMicro plan then Some (microUSDTToString (Some (FeeMicro plan))) else None))"

definition transfer_call :: "string \<Rightarrow> string \<Rightarrow> int \<Rightarrow> multicall3Call" where
  "transfer_call token to units =
     \<lparr> mc_Target = token, mc_AllowFailure = False, mc_CallData = encodeERC20Transfer to (big_bytes (nat \<bar>units\<bar>)) \<rparr>"

definition wrap_error :: "('e \<Rightarrow> 'e) \<Rightarrow> 'e + 'a \<Rightarrow> 'e + 'a" where
  "wrap_error f r = (case r of Inl e \<Rightarrow> Inl (f e) | Inr x \<Rightarrow> Inr x)"

definition job_calls :: "RelayBatcher \<Rightarrow> string \<Rightarrow> int64 \<Rightarrow> relayJob \<Rightarrow> relay_error + multicall3Call list \<times> int" where
  "job_calls rb token decimals job =
     bind_result (wrap_error (SpreadPlan (rj_relayID job)) (split_amounts (rb_relayer rb) (trim_space (rj_amount job)))) (\<lambda>(netAmount, feeAmount).
     bind_result (wrap_error (NetAmount (rj_relayID job)) (decimalToTokenUnits netAmount decimals)) (\<lambda>netUnits.
     bind_result (guard (netUnits \<le> 0) (NetZero (rj_relayID job))) (\<lambda>_.
     bind_result (wrap_error (AuditAmount (rj_relayID job)) (decimalToTokenUnits (rj_amount job) 6)) (\<lambda>auditUnits.
     case feeAmount of
       None \<Rightarrow> Inr ([transfer_call token (rj_to job) netUnits], auditUnits)
     | Some fee \<Rightarrow>
         bind_result (wrap_error (FeeAmount (rj_relayID job)) (decimalToTokenUnits fee decimals)) (\<lambda>feeUnits.
         Inr (transfer_call token (rj_to job) netUnits #
                (if 0 < feeUnits then [transfer_call token (tr_hotWallet (the (rb_relayer rb))) feeUnits] else []), auditUnits))))))"

fun batch_loop ::
  "RelayBatcher \<Rightarrow> string \<Rightarrow> int64 \<Rightarrow> multicall3Call list \<times> int \<Rightarrow> relayJob list \<Rightarrow> relay_error + multicall3Call list \<times> int" where
  "batch_loop rb token decimals acc [] = Inr acc"
| "batch_loop rb token decimals acc (job # jobs) =
     (case job_calls rb token decimals job of
        Inl e \<Rightarrow> Inl e
      | Inr (calls, auditUnits) \<Rightarrow> batch_loop rb token decimals (fst acc @ calls, snd acc + auditUnits) jobs)"

fun join_with :: "string \<Rightarrow> string list \<Rightarrow> string" where
  "join_with sep [] = []"
| "join_with sep [s] = s"
| "join_with sep (s # t # ts) = s @ sep @ join_with sep (t # ts)"

definition buildMulticallPayload :: "RelayBatcher \<Rightarrow> relayJob list \<Rightarrow> relay_error + signerContractCallPayload" where
  "buildMulticallPayload rb batch =
     (if length batch < 2 then Inl BatchTooSmall
      else
        let network = to_upper (trim_space (rj_network (batch ! 0)));
            token = trim_space (rj_token (batch ! 0));
            decimals = tokenDecimalsForNetwork network in
        case batch_loop rb token decimals ([], 0) batch of
          Inl e \<Rightarrow> Inl e
        | Inr (calls, totalAudit) \<Rightarrow>
            Inr \<lparr> cp_DerivationIndex = 0, cp_To = to_lower (trim_space (rb_multicall rb)),
                  cp_Data = ''0x'' @ encodeMulticall3 calls, cp_Network = network,
                  cp_IdempotencyKey = ''multicall_'' @ join_with ''_'' (map rj_relayID batch),
                  cp_Amount = tokenUnitsToDecimal (Some totalAudit) 6, cp_TokenContract = token \<rparr>)"

section \<open>Amounts\<close>

lemma Plan_Inr:
  "Plan tr a = Inr p \<longleftrightarrow> (\<exists>t. parseUSDTtoMicro a = Inr t \<and> 0 < t \<and>
     p = \<lparr> TotalMicro = t, NetMicro = t - t * tr_spreadBps tr div 10000, FeeMicro = t * tr_spreadBps tr div 10000,
           SpreadBps = tr_spreadBps tr \<rparr>)"
  by (auto simp: Plan_def Let_def basisPointDivisor_def split: sum.splits if_splits)

lemma fee_bounds:
  assumes "0 \<le> (s::int)" "s \<le> 10000" "0 \<le> t"
  shows "0 \<le> t * s div 10000 \<and> t * s div 10000 \<le> t"
proof -
  have "t * s \<le> t * 10000" using assms by (intro mult_left_mono) simp_all
  then have "t * s div 10000 \<le> t * 10000 div 10000" by (intro zdiv_mono1) simp_all
  then show ?thesis using assms by (simp add: pos_imp_zdiv_nonneg_iff)
qed

lemma decimalToTokenUnits_signer:
  "decimalToTokenUnits v d = Inr u \<longleftrightarrow> trim_space v \<noteq> [] \<and> parseUnits v d = Inr u"
  by (auto simp: decimalToTokenUnits_def parseUnits_def Let_def split: if_splits option.splits)

lemma micro_text:
  assumes "0 \<le> m"
  obtains w f where "microUSDTToString (Some m) = w @ ''.'' @ f" "w \<noteq> []" "list_all is_digit w" "list_all is_digit f"
    "length f = 6" "int (digits_val (w @ f)) = m"
proof -
  define w where "w = nat_str (nat (m div 10 ^ 6))"
  define f where "f = pad_zero 6 (nat_str (nat (m mod 10 ^ 6)))"
  have "microUSDTToString (Some m) = w @ ''.'' @ f"
  proof (cases "m = 0")
    case True
    have "nat_str 0 = ''0''" by code_simp
    then show ?thesis using True by (simp add: microUSDTToString_def w_def f_def pad_zero_def numeral_eq_Suc)
  next
    case False
    moreover have "\<not> m div 10 ^ 6 < 0" using assms by (simp add: pos_imp_zdiv_neg_iff)
    ultimately show ?thesis by (simp add: microUSDTToString_def w_def f_def int_str_def del: power_numeral)
  qed
  moreover have w: "w \<noteq> []" "list_all is_digit w" and f: "list_all is_digit f" by (simp_all add: w_def f_def)
  moreover have len: "length f = 6" unfolding f_def by (rule length_pad_zero) simp_all
  moreover have "int (digits_val (w @ f)) = m div 10 ^ 6 * 10 ^ 6 + m mod 10 ^ 6"
    unfolding digits_val_append len using assms by (simp add: w_def f_def pos_imp_zdiv_nonneg_iff)
  then have "int (digits_val (w @ f)) = m" by simp
  ultimately show thesis by (rule that)
qed

lemma micro_text_trimmed:
  assumes "w \<noteq> []" "list_all is_digit w" "list_all is_digit f"
  shows "trim_space (w @ ''.'' @ f) = w @ ''.'' @ f"
  using assms(3) digit_not_sign [of "last f"] amount_trimmed [OF assms(1,2), of f]
  by (cases "f = []") (simp_all add: list_all_iff)

lemma units_of_micro:
  assumes "0 \<le> m" "6 \<le> d" "d \<le> 30"
  shows "decimalToTokenUnits (microUSDTToString (Some m)) d = Inr (m * 10 ^ (nat d - 6))"
proof -
  obtain w f where t: "microUSDTToString (Some m) = w @ ''.'' @ f" and w: "w \<noteq> []" "list_all is_digit w" and f: "list_all is_digit f"
    and len: "length f = 6" and v: "int (digits_val (w @ f)) = m" by (rule micro_text [OF assms(1)])
  have "(10::int) ^ nat d = 10 ^ (nat d - 6) * 10 ^ 6"
    unfolding power_add [symmetric] using assms(2) by (simp add: nat_le_eq_zle le_nat_iff)
  then have "int (digits_val (w @ f) * 10 ^ nat d div 10 ^ 6) = m * 10 ^ (nat d - 6)"
    using v by (simp add: zdiv_int mult.assoc [symmetric])
  then have "parseUnits (w @ ''.'' @ f) d = Inr (m * 10 ^ (nat d - 6))"
    unfolding parseUnits_plain [OF w f order_trans [OF zero_le_numeral assms(2)] assms(3)] len by simp
  then show ?thesis unfolding decimalToTokenUnits_signer t using micro_text_trimmed [OF w f] by simp
qed

lemma micro_of_text: "0 \<le> m \<Longrightarrow> parseUSDTtoMicro (microUSDTToString (Some m)) = Inr m"
proof -
  assume "0 \<le> m"
  then obtain w f where t: "microUSDTToString (Some m) = w @ ''.'' @ f" and w: "w \<noteq> []" "list_all is_digit w" and f: "list_all is_digit f"
    and len: "length f = 6" and v: "int (digits_val (w @ f)) = m" by (rule micro_text)
  have "split_n2 CHR ''.'' (w @ ''.'' @ f) = (w, Some f)" using split_n2_sep [OF digits_plain [OF w(2)], of f] by simp
  moreover have "parse_big (w @ f) = Some m" using parse_big_digits [of "w @ f"] w f v by simp
  ultimately show ?thesis unfolding t parseUSDTtoMicro_def micro_text_trimmed [OF w f] by (simp add: usdtDecimals_def len)
qed

text \<open>The two readers of an amount agree on what is positive: the plan and the audited total are the same number.\<close>

lemma parse_big_plus: "s \<noteq> [] \<Longrightarrow> list_all is_digit s \<Longrightarrow> parse_big (CHR ''+'' # s) = Some (int (digits_val s))"
  by (simp add: parse_big_def)

lemma parse_big_signed:
  assumes "ds \<noteq> []" "list_all is_digit ds" "sign \<in> {[], ''-'', ''+''}"
  shows "parse_big (sign @ ds) = Some (if sign = ''-'' then - int (digits_val ds) else int (digits_val ds))"
  using assms(3) parse_big_digits [OF assms(1,2)] parse_big_neg [OF assms(1,2)] parse_big_plus [OF assms(1,2)] by auto

lemma parse_big_Some:
  assumes "parse_big s = Some z"
  obtains sign ds where "s = sign @ ds" "ds \<noteq> []" "list_all is_digit ds" "sign \<in> {[], ''-'', ''+''}"
    "z = (if sign = ''-'' then - int (digits_val ds) else int (digits_val ds))"
proof (cases s)
  case Nil
  with assms show thesis by (simp add: parse_big_def)
next
  case (Cons c cs)
  define sign where "sign = (if c = CHR ''-'' \<or> c = CHR ''+'' then [c] else [])"
  define ds where "ds = (if c = CHR ''-'' \<or> c = CHR ''+'' then cs else s)"
  have d: "ds \<noteq> []" "list_all is_digit ds" using assms Cons by (auto simp: parse_big_def ds_def Let_def split: if_splits)
  have s: "s = sign @ ds" "sign \<in> {[], ''-'', ''+''}" using Cons by (auto simp: sign_def ds_def)
  show thesis using that [OF s(1) d s(2)] parse_big_signed [OF d s(2)] assms s(1) by simp
qed

lemma parse_big_append:
  assumes "parse_big w = Some x" "parse_big (w @ z) = Some t" "0 < t"
  shows "list_all is_digit z \<and> 0 \<le> x \<and> t = x * 10 ^ length z + int (digits_val z)"
proof -
  obtain sign ds where w: "w = sign @ ds" "ds \<noteq> []" "list_all is_digit ds" "sign \<in> {[], ''-'', ''+''}"
    "x = (if sign = ''-'' then - int (digits_val ds) else int (digits_val ds))"
    by (rule parse_big_Some [OF assms(1)])
  have z: "list_all is_digit z" using assms(2) w by (auto simp: parse_big_def Let_def hd_append split: if_splits)
  then have "parse_big (w @ z) = Some (if sign = ''-'' then - int (digits_val (ds @ z)) else int (digits_val (ds @ z)))"
    using w parse_big_signed [of "ds @ z" sign] by simp
  then have "sign \<noteq> ''-''" "t = int (digits_val (ds @ z))" using assms(2,3) by (auto split: if_splits)
  then show ?thesis using w z by (simp add: digits_val_append)
qed

lemma audit_is_plan:
  assumes "parseUSDTtoMicro a = Inr t" "0 < t" "decimalToTokenUnits a 6 = Inr u"
  shows "u = t"
proof -
  define v where "v = trim_space a"
  have v: "v \<noteq> []" using assms(1) by (auto simp: parseUSDTtoMicro_def v_def)
  have parts: "length (split_on CHR ''.'' v) \<le> 2" "split_on CHR ''.'' v ! 0 \<noteq> []"
    using assms(3) by (auto simp: decimalToTokenUnits_def v_def Let_def split: if_splits)
  show ?thesis
  proof (cases "CHR ''.'' \<in> set v")
    case False
    then have sp: "split_on CHR ''.'' v = [v]" "split_n2 CHR ''.'' v = (v, None)"
      by (simp_all add: split_on_no_sep split_n2_no_sep)
    then have "parse_big (v @ replicate 6 CHR ''0'') = Some t"
      using assms(1) v by (auto simp: parseUSDTtoMicro_def v_def usdtDecimals_def split: option.splits)
    moreover obtain x where "parse_big v = Some x" "u = x * 10 ^ 6"
      using assms(3) sp(1) v by (auto simp: decimalToTokenUnits_def v_def Let_def split: option.splits)
    ultimately show ?thesis using parse_big_append [of v x "replicate 6 CHR ''0''" t] assms(2) by simp
  next
    case True
    then obtain w f where wf: "v = w @ CHR ''.'' # f" "CHR ''.'' \<notin> set w" using split_list_first by metis
    have f: "CHR ''.'' \<notin> set f"
    proof
      assume "CHR ''.'' \<in> set f"
      then obtain p q where "f = p @ CHR ''.'' # q" "CHR ''.'' \<notin> set p" using split_list_first by metis
      then have "length (split_on CHR ''.'' v) \<ge> 3"
        using wf split_on_nonempty [of "CHR ''.''" q] by (simp add: split_on_append Suc_le_eq)
      then show False using parts(1) by simp
    qed
    define z where "z = take 6 f @ replicate (6 - length f) CHR ''0''"
    have sp: "split_on CHR ''.'' v = [w, f]" "split_n2 CHR ''.'' v = (w, Some f)"
      using wf f by (simp_all add: split_on_append split_on_no_sep split_n2_sep)
    have z: "(if length f > 6 then take 6 f else f @ replicate (6 - length f) CHR ''0'') = z"
      "(if length f > 6 then take 6 f else f) @ replicate (6 - length (if length f > 6 then take 6 f else f)) CHR ''0'' = z"
      "length z = 6" by (auto simp: z_def)
    have "parse_big (w @ z) = Some t"
      using assms(1) v sp(2) z(1) by (auto simp: parseUSDTtoMicro_def v_def usdtDecimals_def split: option.splits if_splits)
    moreover have "z \<noteq> []" using z(3) by auto
    moreover obtain x y where "parse_big w = Some x" "parse_big z = Some y" "u = x * 10 ^ 6 + y"
      using assms(3) sp(1) v z(2) \<open>z \<noteq> []\<close>
      unfolding decimalToTokenUnits_def v_def [symmetric] Let_def by (auto split: option.splits if_splits)
    ultimately show ?thesis using parse_big_append [of w x z t] parse_big_digits [of z] assms(2) z(3) by simp
  qed
qed

section \<open>What a bundle pays\<close>

text \<open>The recipient word and the amount that a token contract reads from the data of a call.\<close>

definition call_transfer :: "multicall3Call \<Rightarrow> bytes \<times> int" where
  "call_transfer c = (take 32 (drop 4 (mc_CallData c)), int (big_set_bytes (drop 36 (mc_CallData c))))"

definition split_transfers :: "TokenRelayer \<Rightarrow> int64 \<Rightarrow> relayJob \<Rightarrow> int \<Rightarrow> (bytes \<times> int) list" where
  "split_transfers tr d job micro =
     (let fee = micro * tr_spreadBps tr div 10000; k = 10 ^ (nat d - 6) in
      (address_slot (rj_to job), (micro - fee) * k) #
      (if HasFeeDestination tr \<and> 0 < fee then [(address_slot (tr_hotWallet tr), fee * k)] else []))"

lemma length_address_slot [simp]: "length (address_slot a) = 32"
  by (simp add: address_slot_def Let_def)

text \<open>An amount that a word of the EVM can hold.\<close>

definition fits_word :: "int \<Rightarrow> bool" where
  "fits_word u \<longleftrightarrow> 0 \<le> u \<and> u < 2 ^ 256"

lemma fits_word_le: "fits_word b \<Longrightarrow> 0 \<le> a \<Longrightarrow> a \<le> b \<Longrightarrow> fits_word a"
  by (auto simp: fits_word_def)

lemma transfer_call_fields:
  assumes "fits_word u"
  shows "call_transfer (transfer_call token to u) = (address_slot to, u)"
proof -
  have u: "0 \<le> u" "u < 2 ^ 256" using assms by (simp_all add: fits_word_def)
  then have "nat \<bar>u\<bar> < nat (2 ^ 256)" by (intro nat_mono_iff [THEN iffD2]) simp_all
  then have "nat \<bar>u\<bar> < 256 ^ 32" by (simp add: nat_power_eq)
  then have "length (big_bytes (nat \<bar>u\<bar>)) \<le> 32" by (rule length_big_bytes)
  then show ?thesis using u(1) big_set_bytes_bytes [of _ "nat u"]
    by (simp add: call_transfer_def transfer_call_def encodeERC20Transfer_def)
qed

lemma parse_trim: "parseUSDTtoMicro (trim_space a) = parseUSDTtoMicro a"
  by (simp add: parseUSDTtoMicro_def)

lemma wrap_error_Inr [result_iff]: "wrap_error f r = Inr x \<longleftrightarrow> r = Inr x"
  by (cases r) (simp_all add: wrap_error_def)

lemma decimal_zero: "decimalToTokenUnits ''0'' d = Inr u \<Longrightarrow> u = 0"
  using parse_big_digits [of "''0''"] 
  by (auto simp: decimalToTokenUnits_def trim_space_trimmed trimmed_def is_space_def is_digit_def digits_val_def split: if_splits)

text \<open>The amount of a job in micro-USDT, as the bundle audits it.\<close>

definition job_micro :: "relayJob \<Rightarrow> int" where
  "job_micro job = (case decimalToTokenUnits (rj_amount job) 6 of Inl _ \<Rightarrow> 0 | Inr a \<Rightarrow> a)"

lemma job_calls_plan:
  assumes "job_calls rb token d job = Inr (calls, audit)" "rb_relayer rb = Some tr"
    and "0 \<le> tr_spreadBps tr" "tr_spreadBps tr \<le> 10000" "6 \<le> d" "d \<le> 30"
  defines "fee \<equiv> audit * tr_spreadBps tr div 10000" and "k \<equiv> 10 ^ (nat d - 6)"
  shows "job_micro job = audit \<and> 0 < audit \<and> 0 \<le> fee \<and> fee \<le> audit \<and>
    calls = transfer_call token (rj_to job) ((audit - fee) * k) #
      (if HasFeeDestination tr \<and> 0 < fee then [transfer_call token (tr_hotWallet tr) (fee * k)] else [])"
proof -
  obtain net feeAmount netUnits where
    split: "split_amounts (Some tr) (trim_space (rj_amount job)) = Inr (net, feeAmount)"
    and net: "decimalToTokenUnits net d = Inr netUnits" "0 < netUnits"
    and audit: "decimalToTokenUnits (rj_amount job) 6 = Inr audit"
    and calls: "case feeAmount of None \<Rightarrow> calls = [transfer_call token (rj_to job) netUnits]
      | Some f \<Rightarrow> \<exists>fu. decimalToTokenUnits f d = Inr fu \<and> calls = transfer_call token (rj_to job) netUnits #
          (if 0 < fu then [transfer_call token (tr_hotWallet tr) fu] else [])"
    using assms(1,2) unfolding job_calls_def bind_result_Inr wrap_error_Inr guard_Inr
    by (fastforce split: option.splits simp: bind_result_Inr wrap_error_Inr)
  have "trim_space (rj_amount job) \<noteq> ''0''" using split net decimal_zero [of d netUnits] by (auto simp: split_amounts_def)
  moreover have "trim_space (rj_amount job) \<noteq> []" using audit by (auto simp: decimalToTokenUnits_signer)
  ultimately obtain plan where plan: "Plan tr (trim_space (rj_amount job)) = Inr plan"
    "net = microUSDTToString (Some (NetMicro plan))"
    "feeAmount = (if HasFeeDestination tr \<and> 0 < FeeMicro plan then Some (microUSDTToString (Some (FeeMicro plan))) else None)"
    using split by (auto simp: split_amounts_def split: sum.splits)
  obtain t where t: "parseUSDTtoMicro (rj_amount job) = Inr t" "0 < t" "NetMicro plan = t - t * tr_spreadBps tr div 10000"
    "FeeMicro plan = t * tr_spreadBps tr div 10000"
    using plan(1) by (auto simp: Plan_Inr parse_trim)
  have ta: "t = audit" using audit_is_plan [OF t(1,2) audit] by simp
  have b: "0 \<le> fee" "fee \<le> audit" using fee_bounds [OF assms(3,4), of t] t(2) ta by (simp_all add: fee_def)
  have n: "netUnits = (audit - fee) * k"
    using units_of_micro [OF _ assms(5,6), of "audit - fee"] net(1) plan(2) t(3) b ta by (simp add: fee_def k_def)
  have f: "decimalToTokenUnits (microUSDTToString (Some fee)) d = Inr (fee * k)" using units_of_micro [OF b(1) assms(5,6)] k_def by simp
  have pos: "0 < fee * k \<longleftrightarrow> 0 < fee" by (simp add: k_def zero_less_mult_iff)
  have "FeeMicro plan = fee" using t(4) ta by (simp add: fee_def)
  then have "calls = transfer_call token (rj_to job) ((audit - fee) * k) #
      (if HasFeeDestination tr \<and> 0 < fee then [transfer_call token (tr_hotWallet tr) (fee * k)] else [])"
    using calls plan(3) f n pos by (auto split: if_splits)
  then show ?thesis using audit t(2) ta b by (simp add: job_micro_def)
qed

lemma job_calls_split:
  assumes "job_calls rb token d job = Inr (calls, audit)" "rb_relayer rb = Some tr"
    and "0 \<le> tr_spreadBps tr" "tr_spreadBps tr \<le> 10000" "6 \<le> d" "d \<le> 30" "fits_word (audit * 10 ^ (nat d - 6))"
  shows "map call_transfer calls = split_transfers tr d job audit \<and> (\<forall>c\<in>set calls. mc_Target c = token \<and> \<not> mc_AllowFailure c)"
proof -
  define fee where "fee = audit * tr_spreadBps tr div 10000"
  define k :: int where "k = 10 ^ (nat d - 6)"
  note plan = job_calls_plan [OF assms(1-6), folded fee_def k_def]
  have small: "fits_word (x * k)" if "0 \<le> x" "x \<le> audit" for x
    by (rule fits_word_le [OF assms(7) [folded k_def]]) (use that in \<open>simp_all add: k_def mult_right_mono\<close>)
  have "call_transfer (transfer_call token (rj_to job) ((audit - fee) * k)) = (address_slot (rj_to job), (audit - fee) * k)"
    by (rule transfer_call_fields [OF small]) (use plan in simp_all)
  moreover have "call_transfer (transfer_call token (tr_hotWallet tr) (fee * k)) = (address_slot (tr_hotWallet tr), fee * k)"
    by (rule transfer_call_fields [OF small]) (use plan in simp_all)
  ultimately show ?thesis unfolding split_transfers_def Let_def fee_def [symmetric] k_def [symmetric]
    using plan by (auto simp: transfer_call_def)
qed

lemma batch_loop_total:
  assumes "rb_relayer rb = Some tr" "0 \<le> tr_spreadBps tr" "tr_spreadBps tr \<le> 10000" "6 \<le> d" "d \<le> 30"
  shows "batch_loop rb token d acc jobs = Inr out \<Longrightarrow>
    snd out = snd acc + sum_list (map job_micro jobs) \<and> list_all (\<lambda>j. 0 < job_micro j) jobs"
proof (induction jobs arbitrary: acc)
  case (Cons job jobs)
  then obtain calls audit where j: "job_calls rb token d job = Inr (calls, audit)"
    "batch_loop rb token d (fst acc @ calls, snd acc + audit) jobs = Inr out"
    by (auto split: sum.splits)
  show ?case using Cons.IH [OF j(2)] job_calls_plan [OF j(1) assms] by simp
qed simp

lemma sum_list_nonneg_all: "list_all (\<lambda>j. 0 < (f j :: int)) jobs \<Longrightarrow> 0 \<le> sum_list (map f jobs)"
  by (induction jobs) simp_all

lemma batch_loop_split:
  assumes "rb_relayer rb = Some tr" "0 \<le> tr_spreadBps tr" "tr_spreadBps tr \<le> 10000" "6 \<le> d" "d \<le> 30"
  shows "batch_loop rb token d acc jobs = Inr out \<Longrightarrow> 0 \<le> snd acc \<Longrightarrow> fits_word (snd out * 10 ^ (nat d - 6)) \<Longrightarrow>
    \<forall>c\<in>set (fst acc). mc_Target c = token \<and> \<not> mc_AllowFailure c \<Longrightarrow>
    map call_transfer (fst out) = map call_transfer (fst acc) @ concat (map (\<lambda>j. split_transfers tr d j (job_micro j)) jobs) \<and>
    (\<forall>c\<in>set (fst out). mc_Target c = token \<and> \<not> mc_AllowFailure c)"
proof (induction jobs arbitrary: acc)
  case (Cons job jobs)
  then obtain calls audit where j: "job_calls rb token d job = Inr (calls, audit)"
    "batch_loop rb token d (fst acc @ calls, snd acc + audit) jobs = Inr out"
    by (auto split: sum.splits)
  have p: "job_micro job = audit" "0 < audit" using job_calls_plan [OF j(1) assms] by simp_all
  have "audit \<le> snd out" using batch_loop_total [OF assms Cons.prems(1)] p Cons.prems(2) sum_list_nonneg_all [of job_micro jobs] by simp
  then have "fits_word (audit * 10 ^ (nat d - 6))"
    by (intro fits_word_le [OF Cons.prems(3)] mult_right_mono) (use p in simp_all)
  note s = job_calls_split [OF j(1) assms this]
  have a: "0 \<le> snd (fst acc @ calls, snd acc + audit)" using Cons.prems(2) p(2) by simp
  have c: "\<forall>c\<in>set (fst (fst acc @ calls, snd acc + audit)). mc_Target c = token \<and> \<not> mc_AllowFailure c"
    using s Cons.prems(4) by auto
  note IH = Cons.IH [OF j(2) a Cons.prems(3) c]
  then show ?case unfolding fst_conv map_append list.map concat.simps append_assoc p(1) conjunct1 [OF s] by (intro conjI) blast+
qed simp



text \<open>Every positive amount of micro-USDT, printed, can be bundled when the spread leaves something.\<close>

lemma job_calls_built:
  assumes "0 < m" "rj_amount job = microUSDTToString (Some m)" "rb_relayer rb = Some tr"
    and "0 \<le> tr_spreadBps tr" "tr_spreadBps tr < 10000" "6 \<le> d" "d \<le> 30"
  shows "\<exists>calls. job_calls rb token d job = Inr (calls, m)"
proof -
  let ?fee = "m * tr_spreadBps tr div 10000"
  obtain w f where t: "microUSDTToString (Some m) = w @ ''.'' @ f" and w: "w \<noteq> []" "list_all is_digit w" and f: "list_all is_digit f"
    by (rule micro_text [OF less_imp_le [OF assms(1)]])
  have tr: "trim_space (rj_amount job) = rj_amount job" unfolding assms(2) t by (rule micro_text_trimmed [OF w f])
  have "m * tr_spreadBps tr < m * 10000" using assms(1,5) by simp
  then have fee: "0 \<le> ?fee" "?fee < m"
    using fee_bounds [of "tr_spreadBps tr" m] assms(1,4,5) int_div_less_self [of m 10000] by linarith+
  have "Plan tr (rj_amount job) = Inr \<lparr> TotalMicro = m, NetMicro = m - ?fee, FeeMicro = ?fee, SpreadBps = tr_spreadBps tr \<rparr>"
    using micro_of_text [of m] assms(1,2) by (simp add: Plan_Inr)
  moreover have "rj_amount job \<noteq> []" "rj_amount job \<noteq> ''0''" unfolding assms(2) t using w(1) by (auto simp: append_eq_Cons_conv)
  ultimately have "split_amounts (rb_relayer rb) (trim_space (rj_amount job)) = Inr (microUSDTToString (Some (m - ?fee)),
      if HasFeeDestination tr \<and> 0 < ?fee then Some (microUSDTToString (Some ?fee)) else None)"
    by (simp add: split_amounts_def tr assms(3))
  moreover have "decimalToTokenUnits (microUSDTToString (Some (m - ?fee))) d = Inr ((m - ?fee) * 10 ^ (nat d - 6))"
    using units_of_micro [OF _ assms(6,7), of "m - ?fee"] fee by simp
  moreover have "decimalToTokenUnits (microUSDTToString (Some ?fee)) d = Inr (?fee * 10 ^ (nat d - 6))"
    by (rule units_of_micro [OF fee(1) assms(6,7)])
  moreover have "decimalToTokenUnits (rj_amount job) 6 = Inr m" using units_of_micro [of m 6] assms(1,2) by simp
  moreover have "0 < (m - ?fee) * 10 ^ (nat d - 6)" using fee by simp
  ultimately show ?thesis unfolding job_calls_def by (auto simp: wrap_error_def guard_def)
qed

lemma batch_loop_built:
  assumes "rb_relayer rb = Some tr" "0 \<le> tr_spreadBps tr" "tr_spreadBps tr < 10000" "6 \<le> d" "d \<le> 30"
  shows "list_all (\<lambda>job. \<exists>m > 0. rj_amount job = microUSDTToString (Some m)) jobs \<Longrightarrow>
    \<exists>out. batch_loop rb token d acc jobs = Inr out"
proof (induction jobs arbitrary: acc)
  case (Cons job jobs)
  then obtain m where "0 < m" "rj_amount job = microUSDTToString (Some m)" by auto
  then obtain calls where "job_calls rb token d job = Inr (calls, m)" using job_calls_built [OF _ _ assms] by blast
  then show ?case using Cons by simp
qed simp

definition sample_relayer :: TokenRelayer where
  "sample_relayer = NewTokenRelayer 0 ''0x00000000000000000000000000000000000000aa''"

definition sample_job :: "int \<Rightarrow> relayJob" where
  "sample_job m = \<lparr> rj_relayID = ''r'', rj_to = ''0x00000000000000000000000000000000000000bb'', rj_amount = microUSDTToString (Some m),
     rj_token = ''0x55d398326f99059ff775485246999027b3197955'', rj_network = ''BSC'' \<rparr>"

lemma trim_bsc: "trim_space ''BSC'' = ''BSC''" "to_upper ''BSC'' = ''BSC''"
  by code_simp+


section \<open>The layout of the bundle\<close>

text \<open>
  How a contract reads \<open>aggregate3((address,bool,bytes)[])\<close> under the contract ABI: the tuple has a
  member of dynamic size, so the array holds one offset per element, counted from the start of the
  elements, and the tuple is at that offset. Reading outside the data fails.
\<close>

definition abi_word :: "bytes \<Rightarrow> nat \<Rightarrow> nat option" where
  "abi_word args at = (if at + 32 \<le> length args then Some (big_set_bytes (take 32 (drop at args))) else None)"

definition abi_call3 :: "bytes \<Rightarrow> nat \<Rightarrow> (nat \<times> bool \<times> bytes) option" where
  "abi_call3 args at =
     Option.bind (abi_word args at) (\<lambda>target.
     Option.bind (abi_word args (at + 32)) (\<lambda>allowFailure.
     Option.bind (abi_word args (at + 64)) (\<lambda>off.
     Option.bind (abi_word args (at + off)) (\<lambda>len.
     if at + off + 32 + len \<le> length args then Some (target, allowFailure \<noteq> 0, take len (drop (at + off + 32) args)) else None))))"

fun abi_elements :: "bytes \<Rightarrow> nat \<Rightarrow> nat \<Rightarrow> nat \<Rightarrow> (nat \<times> bool \<times> bytes) list option" where
  "abi_elements args base i 0 = Some []"
| "abi_elements args base i (Suc n) =
     Option.bind (abi_word args (base + 32 * i)) (\<lambda>off.
     Option.bind (abi_call3 args (base + off)) (\<lambda>c.
     Option.bind (abi_elements args base (Suc i) n) (\<lambda>cs. Some (c # cs))))"

definition abi_aggregate3 :: "bytes \<Rightarrow> (nat \<times> bool \<times> bytes) list option" where
  "abi_aggregate3 data =
     (let args = drop 4 data in
      Option.bind (abi_word args 0) (\<lambda>off.
      Option.bind (abi_word args off) (\<lambda>n. abi_elements args (off + 32) 0 n)))"

lemma length_be_bytes [simp]: "length (be_bytes n v) = n"
  by (induction n arbitrary: v) simp_all

lemma big_set_bytes_snoc: "big_set_bytes (s @ [c]) = big_set_bytes s * 256 + code c"
  by (simp add: big_set_bytes_def)

lemma be_bytes_val: "v < 256 ^ n \<Longrightarrow> big_set_bytes (be_bytes n v) = v"
proof (induction n arbitrary: v)
  case 0
  then show ?case by (simp add: big_set_bytes_def)
next
  case (Suc n)
  then have "v div 256 < 256 ^ n" by (simp add: less_mult_imp_div_less mult.commute)
  then show ?case using Suc.IH [of "v div 256"] by (simp add: big_set_bytes_snoc)
qed

lemma length_writeUint256 [simp]: "length (writeUint256 v) = 32"
  by (simp add: writeUint256_def)

lemma writeUint256_val: "v < 2 ^ 64 \<Longrightarrow> big_set_bytes (writeUint256 v) = v"
  using be_bytes_val [of v 8] by (simp add: writeUint256_def set_bytes_zeros)

lemma abi_word_at: "length pre = at \<Longrightarrow> length w = 32 \<Longrightarrow> abi_word (pre @ w @ post) at = Some (big_set_bytes w)"
  by (auto simp: abi_word_def)

lemma abi_word_outside: "length args < at + 32 \<Longrightarrow> abi_word args at = None"
  by (simp add: abi_word_def)

text \<open>A sanity check of the reader: it reads back a single call that is encoded as the ABI says.\<close>

lemma abi_reads_one_call:
  assumes "length target = 32" "length payload < 2 ^ 64"
  shows "abi_aggregate3 (map byte_of [0x82, 0xad, 0x56, 0xcb] @ writeUint256 32 @ writeUint256 1 @ writeUint256 32 @
      target @ writeUint256 0 @ writeUint256 96 @ writeUint256 (length payload) @ payload @ pad) = Some [(big_set_bytes target, False, payload)]"
proof -
  let ?w = writeUint256
  let ?args = "?w 32 @ ?w 1 @ ?w 32 @ target @ ?w 0 @ ?w 96 @ ?w (length payload) @ payload @ pad"
  have "abi_word ?args 0 = Some 32" using abi_word_at [of "[]" 0 "?w 32"] writeUint256_val [of 32] by simp
  moreover have "abi_word ?args 32 = Some 1" using abi_word_at [of "?w 32" 32 "?w 1"] writeUint256_val [of 1] by simp
  moreover have "abi_word ?args 64 = Some 32" using abi_word_at [of "?w 32 @ ?w 1" 64 "?w 32"] writeUint256_val [of 32] by simp
  moreover have "abi_word ?args 96 = Some (big_set_bytes target)"
    using abi_word_at [of "?w 32 @ ?w 1 @ ?w 32" 96 target] assms(1) by simp
  moreover have "abi_word ?args 128 = Some 0"
    using abi_word_at [of "?w 32 @ ?w 1 @ ?w 32 @ target" 128 "?w 0"] writeUint256_val [of 0] assms(1) by simp
  moreover have "abi_word ?args 160 = Some 96"
    using abi_word_at [of "?w 32 @ ?w 1 @ ?w 32 @ target @ ?w 0" 160 "?w 96"] writeUint256_val [of 96] assms(1) by simp
  moreover have "abi_word ?args 192 = Some (length payload)"
    using abi_word_at [of "?w 32 @ ?w 1 @ ?w 32 @ target @ ?w 0 @ ?w 96" 192 "?w (length payload)"] writeUint256_val [OF assms(2)] assms(1) by simp
  moreover have "take (length payload) (drop 224 ?args) = payload" "224 + length payload \<le> length ?args" using assms(1) by simp_all
  moreover define args where "args = ?args"
  ultimately have a: "abi_word args 0 = Some 32" "abi_word args 32 = Some 1" "abi_word args 64 = Some 32"
    "abi_word args 96 = Some (big_set_bytes target)" "abi_word args 128 = Some 0" "abi_word args 160 = Some 96"
    "abi_word args 192 = Some (length payload)" "take (length payload) (drop 224 args) = payload" "224 + length payload \<le> length args"
    by simp_all
  then have "abi_call3 args 96 = Some (big_set_bytes target, False, payload)" by (simp add: abi_call3_def)
  then have "abi_elements args 64 0 (Suc 0) = Some [(big_set_bytes target, False, payload)]" using a(3) by simp
  moreover have "abi_aggregate3 (map byte_of [0x82, 0xad, 0x56, 0xcb] @ args) = abi_elements args 64 0 (Suc 0)"
    using a(1,2) by (simp add: abi_aggregate3_def)
  ultimately show ?thesis by (simp add: args_def)
qed

text \<open>
  The encoder writes the members of each tuple where the ABI has the offsets: the word that a
  contract takes for the position of the first tuple is the address of the token. So whatever is
  bundled, unless the number of that address is within the length of the data, a contract that follows
  the ABI cannot decode the call.
\<close>

theorem multicall_undecodable:
  assumes "calls \<noteq> []" "length calls < 2 ^ 64"
    and "length (multicall3_bytes calls) \<le> big_set_bytes (address_slot (mc_Target (hd calls)))"
  shows "abi_aggregate3 (multicall3_bytes calls) = None"
proof -
  let ?w = writeUint256 and ?slot = "address_slot (mc_Target (hd calls))"
  obtain n where n: "length calls = Suc n" using assms(1) by (cases calls) auto
  obtain rest where heads: "concat (map (\<lambda>(i, c). call_head i (bytes_offsets (length calls * 3 * 32) calls ! i) c) (enumerate 0 calls)) = ?slot @ rest"
    using assms(1) by (cases calls) (simp_all add: call_head_def)
  define args where "args = ?w 32 @ ?w (length calls) @ ?slot @ rest @ concat (map call_bytes calls)"
  have data: "multicall3_bytes calls = map byte_of [0x82, 0xad, 0x56, 0xcb] @ args"
    unfolding multicall3_bytes_def Let_def heads args_def by simp
  have "abi_word args 0 = Some 32" using abi_word_at [of "[]" 0 "?w 32"] writeUint256_val [of 32] by (simp add: args_def)
  moreover have "abi_word args 32 = Some (Suc n)"
    using abi_word_at [of "?w 32" 32 "?w (length calls)"] writeUint256_val [OF assms(2)] n by (simp add: args_def)
  moreover have "abi_word args 64 = Some (big_set_bytes ?slot)"
    using abi_word_at [of "?w 32 @ ?w (length calls)" 64 ?slot] by (simp add: args_def)
  moreover have "abi_word args (64 + big_set_bytes ?slot) = None"
    by (rule abi_word_outside) (use assms(3) data in simp)
  ultimately show ?thesis unfolding data by (simp add: abi_aggregate3_def abi_call3_def)
qed

definition sample_call :: multicall3Call where
  "sample_call = \<lparr> mc_Target = ''0x5500000000000000000000000000000000000000'', mc_AllowFailure = False, mc_CallData = ''abcd'' \<rparr>"

theorem multicall_undecodable_witness: "abi_aggregate3 (multicall3_bytes [sample_call]) = None"
proof (rule multicall_undecodable)
  have "map of_char (address_slot (mc_Target (hd [sample_call]))) = [0::nat, 0, 0, 0, 0, 0, 0, 0, 0, 0, 0, 0, 85, 0, 0, 0, 0, 0, 0, 0, 0, 0, 0, 0, 0, 0, 0, 0, 0, 0, 0, 0]" by code_simp
  then have "big_set_bytes (address_slot (mc_Target (hd [sample_call]))) = 85 * 256 ^ 19"
    unfolding big_set_bytes_def by (simp add: of_digits_def)
  moreover have "length (multicall3_bytes [sample_call]) = 228"
    by (simp add: multicall3_bytes_def call_head_def call_bytes_def sample_call_def)
  ultimately show "length (multicall3_bytes [sample_call]) \<le> big_set_bytes (address_slot (mc_Target (hd [sample_call])))" by simp
qed simp_all

text \<open>
  The calldata of a transfer is built twice in the system, by the gateway for a bundle and by the
  signer for a single transfer. For a well-formed address and an amount of at most 256 bits the
  two routines write the same bytes.
\<close>

theorem transfer_data_agrees_with_signer:
  assumes "hex_decoded (trim_prefix to ''0x'') = address_bytes a" "fits_word u"
  shows "encodeERC20Transfer to (big_bytes (nat u)) = erc20TransferData a u"
proof -
  have u: "0 \<le> u" "u < 2 ^ 256" using assms(2) by (simp_all add: fits_word_def)
  then have "nat u < nat (2 ^ 256)" by (intro nat_mono_iff [THEN iffD2]) simp_all
  then have "nat u < 256 ^ 32" by (simp add: nat_power_eq)
  then have len: "length (big_bytes (nat u)) \<le> 32" by (rule length_big_bytes)
  have "erc20TransferData a u = map byte_of [0xa9, 0x05, 0x9c, 0xbb] @ (replicate 12 (byte_of 0) @ address_bytes a) @
      (replicate (32 - length (big_bytes (nat u))) (byte_of 0) @ big_bytes (nat u))"
    using len u(1) by (simp add: erc20TransferData_def Let_def take_Cons' min_def)
  then show ?thesis using len assms(1) by (simp add: encodeERC20Transfer_def address_slot_def)
qed

theorem transfer_data_agrees_with_signer_witness:
  "encodeERC20Transfer ''0x00000000000000000000000000000000000000bb'' (big_bytes (nat 1000)) = erc20TransferData 0xbb 1000"
proof (rule transfer_data_agrees_with_signer)
  show "hex_decoded (trim_prefix ''0x00000000000000000000000000000000000000bb'' ''0x'') = address_bytes 0xbb"
    by code_simp
  show "fits_word 1000" by (simp add: fits_word_def)
qed

end
