(* ===== verification/Paymaster_Service.thy ===== *)
theory Paymaster_Service
  imports Paymaster_Relay Signer_Run
begin

text \<open>
  The gas station at work: retries (\<open>internal/paymaster/retry.go\<close>), the dispatch of relays to the
  signer (\<open>batcher.go\<close>), the replay lock (\<open>idempotency.go\<close>), the fee (\<open>estimator.go\<close>, \<open>oracle.go\<close>) and the
  service (\<open>paymaster.go\<close>) with its table of relays (\<open>internal/database/gas_station.go\<close>). The answers of
  the signer, of the nodes, of the price feeds and of the database are arguments; what the signer
  really answers is added at the end from \<open>Signer_Service\<close>.
\<close>

section \<open>Retries\<close>

record pm_RetryConfig =
  rt_MaxAttempts :: int64
  rt_BaseDelay :: duration
  rt_CapDelay :: duration

definition pm_DefaultRetryConfig :: pm_RetryConfig where
  "pm_DefaultRetryConfig = \<lparr> rt_MaxAttempts = 4, rt_BaseDelay = 500000000, rt_CapDelay = 8 * second \<rparr>"

datatype send_error = NonRetryable string | Retryable string | ContextDone

text \<open>
  The loop of \<open>ExecuteWithRetry\<close>. An operation changes the state of the outside world; \<open>cancelled n\<close> says
  whether the context ends during the sleep after attempt \<open>n\<close>.
\<close>

function retry_attempts ::
  "pm_RetryConfig \<Rightarrow> (int64 \<Rightarrow> bool) \<Rightarrow> ('s \<Rightarrow> send_error option \<times> 's) \<Rightarrow> int64 \<Rightarrow> send_error option \<Rightarrow> 's \<Rightarrow> send_error option \<times> 's" where
  "retry_attempts cfg cancelled operation attempt lastErr s =
     (if attempt < rt_MaxAttempts cfg then
        case operation s of
          (None, s) \<Rightarrow> (None, s)
        | (Some (NonRetryable m), s) \<Rightarrow> (Some (NonRetryable m), s)
        | (Some e, s) \<Rightarrow>
            if attempt = rt_MaxAttempts cfg - 1 then (Some e, s)
            else if cancelled attempt then (Some ContextDone, s)
            else retry_attempts cfg cancelled operation (attempt + 1) (Some e) s
      else (lastErr, s))"
  by pat_completeness auto

termination by (relation "measure (\<lambda>(cfg, _, _, attempt, _, _). nat (rt_MaxAttempts cfg - attempt))") auto

declare retry_attempts.simps [simp del]

definition ExecuteWithRetry ::
  "pm_RetryConfig \<Rightarrow> (int64 \<Rightarrow> bool) \<Rightarrow> ('s \<Rightarrow> send_error option \<times> 's) \<Rightarrow> 's \<Rightarrow> send_error option \<times> 's" where
  "ExecuteWithRetry cfg cancelled operation s = retry_attempts cfg cancelled operation 0 None s"

text \<open>The window of the jitter: \<open>rand.Int63n\<close> is asked for a number up to it. \<open>uint(1)<<attempt\<close> is zero from 64 on.\<close>

definition retry_window :: "'f float_ops \<Rightarrow> pm_RetryConfig \<Rightarrow> nat \<Rightarrow> int64" where
  "retry_window F cfg attempt =
     (let window = f_mul F (f_of_int F (rt_BaseDelay cfg)) (f_of_int F (uint (push_bit attempt 1 :: 64 word)));
          capF = f_of_int F (rt_CapDelay cfg) in
      f_trunc F (if f_lt F capF window then capF else window))"

section \<open>Dispatch\<close>

text \<open>What comes back from the signer: no answer, or a status with the error text of its body.\<close>

datatype signer_reply = NoReply string | Reply nat string

definition signer_error :: "signer_reply \<Rightarrow> send_error option" where
  "signer_error reply =
     (case reply of
        NoReply e \<Rightarrow> Some (Retryable e)
      | Reply status body \<Rightarrow>
          if 400 \<le> status \<and> status < 500 then Some (NonRetryable body)
          else if 500 \<le> status then Some (Retryable body)
          else None)"

text \<open>The outside world of the batcher: the two endpoints of the signer, the contexts and the dead-letter callback.\<close>

record 's relay_world =
  rw_transfer :: "signerTransferPayload \<Rightarrow> 's \<Rightarrow> signer_reply \<times> 's"
  rw_contract :: "signerContractCallPayload \<Rightarrow> 's \<Rightarrow> signer_reply \<times> 's"
  rw_cancelled :: "string \<Rightarrow> int64 \<Rightarrow> bool"
  rw_dlq :: "string \<Rightarrow> string \<Rightarrow> 's \<Rightarrow> 's"

definition signerTransfer :: "'s relay_world \<Rightarrow> string \<Rightarrow> string \<Rightarrow> string \<Rightarrow> string \<Rightarrow> string \<Rightarrow> 's \<Rightarrow> send_error option \<times> 's" where
  "signerTransfer w to amount token network key s =
     (case rw_transfer w \<lparr> tp_DerivationIndex = 0, tp_To = to, tp_Amount = amount, tp_TokenContract = token,
             tp_Network = network, tp_IdempotencyKey = key \<rparr> s of
        (reply, s) \<Rightarrow> (signer_error reply, s))"

definition signerContractCall :: "'s relay_world \<Rightarrow> signerContractCallPayload \<Rightarrow> 's \<Rightarrow> send_error option \<times> 's" where
  "signerContractCall w payload s = (case rw_contract w payload s of (reply, s) \<Rightarrow> (signer_error reply, s))"

definition error_text :: "send_error \<Rightarrow> string" where
  "error_text e = (case e of NonRetryable m \<Rightarrow> m | Retryable m \<Rightarrow> m | ContextDone \<Rightarrow> ''context canceled'')"

text \<open>The legs of a relay that is sent alone; here a plan that fails means the full amount.\<close>

definition relay_legs :: "TokenRelayer option \<Rightarrow> string \<Rightarrow> string \<times> string option" where
  "relay_legs relayer amount =
     (case split_amounts relayer amount of Inl _ \<Rightarrow> (amount, None) | Inr legs \<Rightarrow> legs)"

definition dispatchOne :: "RelayBatcher \<Rightarrow> 's relay_world \<Rightarrow> relayJob \<Rightarrow> 's \<Rightarrow> 's" where
  "dispatchOne rb w job s =
     (case relay_legs (rb_relayer rb) (rj_amount job) of
        (netAmount, feeAmount) \<Rightarrow>
          (case ExecuteWithRetry pm_DefaultRetryConfig (rw_cancelled w (''relay:net:'' @ rj_relayID job))
                  (signerTransfer w (rj_to job) netAmount (rj_token job) (rj_network job) (rj_relayID job)) s of
             (Some e, s) \<Rightarrow> rw_dlq w (rj_relayID job) (error_text e) s
           | (None, s) \<Rightarrow>
               (case feeAmount of
                  None \<Rightarrow> s
                | Some fee \<Rightarrow>
                    (case ExecuteWithRetry pm_DefaultRetryConfig (rw_cancelled w (''relay:fee:'' @ rj_relayID job))
                            (signerTransfer w (tr_hotWallet (the (rb_relayer rb))) fee (rj_token job) (rj_network job) (rj_relayID job @ ''_fee'')) s of
                       (Some e, s) \<Rightarrow> rw_dlq w (rj_relayID job) (''fee leg failed after net leg: '' @ error_text e) s
                     | (None, s) \<Rightarrow> s))))"

definition dispatchMulticallBatch :: "RelayBatcher \<Rightarrow> 's relay_world \<Rightarrow> relayJob list \<Rightarrow> 's \<Rightarrow> 's" where
  "dispatchMulticallBatch rb w batch s =
     (case buildMulticallPayload rb batch of
        Inl _ \<Rightarrow> foldl (\<lambda>s job. dispatchOne rb w job s) s batch
      | Inr payload \<Rightarrow>
          (case ExecuteWithRetry pm_DefaultRetryConfig (rw_cancelled w (''relay:multicall:'' @ cp_IdempotencyKey payload))
                  (signerContractCall w payload) s of
             (Some e, s) \<Rightarrow> foldl (\<lambda>s job. rw_dlq w (rj_relayID job) (error_text e) s) s batch
           | (None, s) \<Rightarrow> s))"

section \<open>The price of gas\<close>

record 'f PriceOracle =
  po_prices :: "(string, 'f) go_map"
  po_fetchedAt :: "(string, go_time) go_map"

definition oracleCacheTTL :: duration where
  "oracleCacheTTL = 60 * second"

definition isOracleOutlier :: "'f float_ops \<Rightarrow> 'f \<Rightarrow> 'f \<Rightarrow> bool" where
  "isOracleOutlier F lastPrice nextPrice =
     (if f_le F lastPrice (f_zero F) \<or> f_le F nextPrice (f_zero F) then False
      else
        let diff = f_div F (f_sub F nextPrice lastPrice) lastPrice;
            diff = (if f_lt F diff (f_zero F) then f_sub F (f_zero F) diff else diff) in
        f_lt F (f_lit F 15 100) diff)"

definition coinGeckoID :: "string \<Rightarrow> string + string" where
  "coinGeckoID symbol =
     (if symbol = ''BNBUSDT'' then Inr ''binancecoin''
      else if symbol = ''POLUSDT'' then Inr ''polygon-ecosystem-token''
      else Inl (''unsupported oracle symbol '' @ symbol))"

text \<open>
  The two feeds. Binance gives the text of a price or an error; CoinGecko, asked for an identifier, a
  number that is zero when the identifier is missing in the answer.
\<close>

record 'f price_feeds =
  pf_binance :: "string \<Rightarrow> string + string"
  pf_coingecko :: "string \<Rightarrow> string + 'f"

definition fetchFromBinance :: "'f float_ops \<Rightarrow> 'f price_feeds \<Rightarrow> string \<Rightarrow> string + 'f" where
  "fetchFromBinance F feeds symbol =
     bind_result (pf_binance feeds symbol) (\<lambda>ticker.
       case f_parse F ticker of
         None \<Rightarrow> Inl ''parse price''
       | Some price \<Rightarrow> if f_le F price (f_zero F) then Inl ''invalid price'' else Inr price)"

definition fetchFromCoinGecko :: "'f float_ops \<Rightarrow> 'f price_feeds \<Rightarrow> string \<Rightarrow> string + 'f" where
  "fetchFromCoinGecko F feeds symbol =
     bind_result (coinGeckoID symbol) (\<lambda>id.
     bind_result (pf_coingecko feeds id) (\<lambda>price.
       if f_le F price (f_zero F) then Inl ''invalid coingecko price'' else Inr price))"

fun first_source :: "('f \<Rightarrow> bool) \<Rightarrow> (string \<times> (string + 'f)) list \<Rightarrow> string + 'f \<times> string" where
  "first_source outlier [] = Inl ''no source''"
| "first_source outlier ((name, Inl e) # srcs) = first_source outlier srcs"
| "first_source outlier ((name, Inr price) # srcs) =
     (if outlier price then first_source outlier srcs else Inr (price, name))"

definition fetchPrice :: "'f float_ops \<Rightarrow> 'f price_feeds \<Rightarrow> string \<Rightarrow> 'f \<Rightarrow> bool \<Rightarrow> string + 'f \<times> string" where
  "fetchPrice F feeds symbol lastPrice hasRecentLast =
     first_source (\<lambda>price. hasRecentLast \<and> isOracleOutlier F lastPrice price)
       [(''binance'', fetchFromBinance F feeds symbol), (''coingecko'', fetchFromCoinGecko F feeds symbol)]"

text \<open>The clock is read for the cache, again for the outlier check and when the price is stored.\<close>

definition oracle_price ::
  "'f float_ops \<Rightarrow> 'f price_feeds \<Rightarrow> go_time \<times> go_time \<times> go_time \<Rightarrow> string \<Rightarrow> 'f PriceOracle \<Rightarrow> (string + 'f) \<times> 'f PriceOracle" where
  "oracle_price F feeds clock symbol orc =
     (case clock of (now1, now2, now3) \<Rightarrow>
        let cached = map_of (po_prices orc) symbol;
            p = (case cached of None \<Rightarrow> f_zero F | Some p \<Rightarrow> p);
            fetchedAt = (case map_of (po_fetchedAt orc) symbol of None \<Rightarrow> 0 | Some t \<Rightarrow> t) in
        if cached \<noteq> None \<and> time_sub now1 fetchedAt < oracleCacheTTL then (Inr p, orc)
        else case fetchPrice F feeds symbol p (cached \<noteq> None \<and> time_sub now2 fetchedAt < oracleCacheTTL) of
               Inl err \<Rightarrow> (if cached \<noteq> None then Inr p else Inl (''oracle: no price available for '' @ symbol), orc)
             | Inr (fetched, source) \<Rightarrow>
                 (Inr fetched, orc\<lparr>po_prices := AList.update symbol fetched (po_prices orc),
                                po_fetchedAt := AList.update symbol now3 (po_fetchedAt orc)\<rparr>))"

definition BNBPrice where
  "BNBPrice F feeds clock orc = oracle_price F feeds clock ''BNBUSDT'' orc"

definition POLPrice where
  "POLPrice F feeds clock orc = oracle_price F feeds clock ''POLUSDT'' orc"

section \<open>The fee of a relay\<close>

record Estimator =
  es_surchargeBps :: int64
  es_maxFeeUsdt :: int64
  es_minFeeUsdt :: int64

record GasEstimate =
  ge_GasPriceWei :: int
  ge_GasLimit :: "64 word"
  ge_CostWei :: int
  ge_CostUSDT :: int
  ge_FeeUSDT :: int

definition NewEstimator :: "'f float_ops \<Rightarrow> int64 \<Rightarrow> 'f \<Rightarrow> 'f \<Rightarrow> Estimator" where
  "NewEstimator F surchargeBps maxFeeUsdt minFeeUsdt =
     \<lparr> es_surchargeBps = surchargeBps, es_maxFeeUsdt = f_trunc F (f_mul F maxFeeUsdt (f_of_int F 1000000)),
       es_minFeeUsdt = f_trunc F (f_mul F minFeeUsdt (f_of_int F 1000000)) \<rparr>"

text \<open>
  The nodes give a gas price and, when they can, an estimate of the gas; 65000 stands in otherwise. The
  limit is a \<open>uint64\<close>, the other numbers are big integers.
\<close>

definition relay_gas :: "(64 word) option \<Rightarrow> 64 word" where
  "relay_gas estimate = (case estimate of None \<Rightarrow> 65000 | Some g \<Rightarrow> g) * 120 div 100"

definition relay_fee :: "Estimator \<Rightarrow> int \<Rightarrow> int" where
  "relay_fee e costUSDTMicro =
     (let fee = costUSDTMicro * i64_add basisPointDivisor (es_surchargeBps e) div basisPointDivisor;
          fee = (if es_minFeeUsdt e > 0 \<and> fee < es_minFeeUsdt e then es_minFeeUsdt e else fee) in
      if es_maxFeeUsdt e > 0 \<and> fee > es_maxFeeUsdt e then es_maxFeeUsdt e else fee)"

definition EstimateRelay ::
  "'f float_ops \<Rightarrow> Estimator \<Rightarrow> string + int \<times> (64 word) option \<Rightarrow> 'f price_feeds \<Rightarrow> go_time \<times> go_time \<times> go_time \<Rightarrow> 'f PriceOracle \<Rightarrow>
     (string + GasEstimate) \<times> 'f PriceOracle" where
  "EstimateRelay F e rpc feeds clock orc =
     (case rpc of
        Inl err \<Rightarrow> (Inl (''estimator: rpc error: '' @ err), orc)
      | Inr (gasPrice, estimate) \<Rightarrow>
          (let gasLimit = relay_gas estimate; costWei = gasPrice * uint gasLimit in
           case BNBPrice F feeds clock orc of
             (Inl err, orc) \<Rightarrow> (Inl (''estimator: oracle: '' @ err), orc)
           | (Inr bnbPrice, orc) \<Rightarrow>
               (let bnbPriceMicro = f_trunc F (f_mul F bnbPrice (f_of_int F 1000000));
                    costUSDTMicro = costWei * bnbPriceMicro div 10 ^ 18 in
                (Inr \<lparr> ge_GasPriceWei = gasPrice, ge_GasLimit = gasLimit, ge_CostWei = costWei, ge_CostUSDT = costUSDTMicro,
                       ge_FeeUSDT = relay_fee e costUSDTMicro \<rparr>, orc))))"

section \<open>Replay locks\<close>

definition sigLockTTL :: duration where
  "sigLockTTL = 2 * minute"

definition stripHex :: "string \<Rightarrow> string" where
  "stripHex s = (if length s \<ge> 2 \<and> take 2 s = ''0x'' then drop 2 s else s)"

definition PermitSigHash :: "(bytes \<Rightarrow> bytes) \<Rightarrow> string \<Rightarrow> string \<Rightarrow> string option" where
  "PermitSigHash sha256 r s =
     (case hex_decode (stripHex r) of
        None \<Rightarrow> None
      | Some rBytes \<Rightarrow>
          (case hex_decode (stripHex s) of
             None \<Rightarrow> None
           | Some sBytes \<Rightarrow> Some (hex_encode (sha256 (rBytes @ sBytes)))))"

text \<open>The lock in memory: a map from hashes to the time of acquisition, swept by a goroutine.\<close>

type_synonym InMemorySigLock = "(string, go_time) go_map"

definition mem_AcquireLock :: "unit \<Rightarrow> go_time \<Rightarrow> string \<Rightarrow> InMemorySigLock \<Rightarrow> bool \<times> InMemorySigLock" where
  "mem_AcquireLock _ now hash sl =
     (case map_of sl hash of Some _ \<Rightarrow> (False, sl) | None \<Rightarrow> (True, AList.update hash now sl))"

definition mem_ReleaseLock :: "string \<Rightarrow> InMemorySigLock \<Rightarrow> InMemorySigLock" where
  "mem_ReleaseLock hash sl = AList.delete hash sl"

definition mem_gc :: "go_time \<Rightarrow> InMemorySigLock \<Rightarrow> InMemorySigLock" where
  "mem_gc now sl = filter (\<lambda>(_, acquiredAt). \<not> time_sub now acquiredAt > sigLockTTL) sl"

text \<open>
  The lock in the database: the table \<open>paymaster_sig_locks\<close> with the expiry of each hash. A call of the
  database may fail, and a failed commit may have been carried out.
\<close>

datatype lock_fault = LockOk | LockUnavailable | LockCommitLost | LockCommitUnknown

type_synonym DBSigLock = "(string, go_time) go_map"

definition db_AcquireLock :: "lock_fault \<Rightarrow> go_time \<Rightarrow> string \<Rightarrow> DBSigLock \<Rightarrow> bool \<times> DBSigLock" where
  "db_AcquireLock fault now hash table =
     (if fault = LockUnavailable then (False, table)
      else
        let swept = filter (\<lambda>(_, expires). \<not> expires \<le> now) table in
        case map_of swept hash of
          Some _ \<Rightarrow> (False, table)
        | None \<Rightarrow>
            (let inserted = AList.update hash (now + sigLockTTL) swept in
             case fault of
               LockCommitLost \<Rightarrow> (False, table)
             | LockCommitUnknown \<Rightarrow> (False, inserted)
             | _ \<Rightarrow> (True, inserted)))"

definition db_ReleaseLock :: "string \<Rightarrow> DBSigLock \<Rightarrow> DBSigLock" where
  "db_ReleaseLock hash table = AList.delete hash table"

section \<open>The service\<close>

text \<open>A row of \<open>gas_relay_requests\<close>, without the columns of the fee.\<close>

record GasRelayRequest =
  gr_ID :: string
  gr_UserAddress :: string
  gr_SigR :: string
  gr_SigS :: string
  gr_SigHash :: string
  gr_TxTo :: string
  gr_TxData :: string
  gr_Status :: string
  gr_Attempts :: int64
  gr_NextRetryAt :: "go_time option"
  gr_DLQAt :: "go_time option"
  gr_LastError :: "string option"

text \<open>
  The statements of \<open>gas_station.go\<close> on the table in the order of creation; \<open>sig_hash\<close> is unique. The
  database gives a new row its identifier.
\<close>

definition CreateGasRelayRequest ::
  "string \<Rightarrow> string \<Rightarrow> string \<Rightarrow> string \<Rightarrow> string \<Rightarrow> string \<Rightarrow> string \<Rightarrow> GasRelayRequest list \<Rightarrow> (string + string) \<times> GasRelayRequest list" where
  "CreateGasRelayRequest newID user sigR sigS sigHash txTo txData rows =
     (if list_ex (\<lambda>r. gr_SigHash r = sigHash) rows then (Inl ''CreateGasRelayRequest: duplicate sig_hash'', rows)
      else (Inr newID, rows @ [\<lparr> gr_ID = newID, gr_UserAddress = user, gr_SigR = sigR, gr_SigS = sigS, gr_SigHash = sigHash,
        gr_TxTo = txTo, gr_TxData = txData, gr_Status = ''pending'', gr_Attempts = 0, gr_NextRetryAt = None, gr_DLQAt = None,
        gr_LastError = None \<rparr>]))"

definition ListRetryableRelays :: "go_time \<Rightarrow> GasRelayRequest list \<Rightarrow> GasRelayRequest list" where
  "ListRetryableRelays now rows =
     take 20 (filter (\<lambda>r. (gr_Status r = ''pending'' \<or> gr_Status r = ''failed'') \<and>
       (case gr_NextRetryAt r of None \<Rightarrow> True | Some t \<Rightarrow> t \<le> now) \<and> gr_Attempts r < 4) rows)"

definition MarkRelayDLQ :: "go_time \<Rightarrow> string \<Rightarrow> string \<Rightarrow> GasRelayRequest list \<Rightarrow> GasRelayRequest list" where
  "MarkRelayDLQ now relayID errMsg rows =
     map (\<lambda>r. if gr_ID r = relayID then r\<lparr>gr_Status := ''dlq'', gr_DLQAt := Some now, gr_LastError := Some errMsg\<rparr> else r) rows"

record RelayRequest =
  lr_UserAddress :: string
  lr_TxTo :: string
  lr_TxData :: string
  lr_SigR :: string
  lr_SigS :: string
  lr_SigV :: string
  lr_Amount :: string
  lr_TokenAddr :: string
  lr_Network :: string

text \<open>The decoder that \<open>isRelaySigHex\<close> calls never reports an error, so only the length counts.\<close>

definition isRelaySigHex :: "string \<Rightarrow> nat \<Rightarrow> bool" where
  "isRelaySigHex v wantBytes \<longleftrightarrow> length (trim_prefix (trim_prefix (trim_space v) ''0x'') ''0X'') = wantBytes * 2"

definition validateRelaySignature :: "string \<Rightarrow> string \<Rightarrow> string \<Rightarrow> bool" where
  "validateRelaySignature r s v \<longleftrightarrow> isRelaySigHex r 32 \<and> isRelaySigHex s 32 \<and>
     to_lower (trim_space v) \<in> {''0'', ''1'', ''27'', ''28'', ''0x0'', ''0x1'', ''0x1b'', ''0x1c''}"

definition batchChanCap :: nat where
  "batchChanCap = 256"

definition Enqueue :: "relayJob \<Rightarrow> relayJob list \<Rightarrow> bool \<times> relayJob list" where
  "Enqueue job queue = (if length queue < batchChanCap then (True, queue @ [job]) else (False, queue))"

record 'f paymaster_sys =
  ps_locks :: DBSigLock
  ps_rows :: "GasRelayRequest list"
  ps_queue :: "relayJob list"
  ps_oracle :: "'f PriceOracle"

text \<open>
  What one submission meets outside: the clocks, the fault of the lock, the nodes, the feeds, whether the
  insert fails and the identifier of a new row.
\<close>

record 'f submit_world =
  pw_now :: go_time
  pw_lock :: lock_fault
  pw_rpc :: "string + int \<times> (64 word) option"
  pw_feeds :: "'f price_feeds"
  pw_clock :: "go_time \<times> go_time \<times> go_time"
  pw_insertFails :: bool
  pw_newID :: string

datatype submit_answer =
    GasStationDisabled | InvalidSignature | InvalidSigComponents | DuplicateSig | EstimateFailed string | PersistFailed string
  | RelayAccepted string int

definition SubmitRelay ::
  "'f float_ops \<Rightarrow> (bytes \<Rightarrow> bytes) \<Rightarrow> bool \<Rightarrow> Estimator \<Rightarrow> 'f submit_world \<Rightarrow> RelayRequest \<Rightarrow> 'f paymaster_sys \<Rightarrow> submit_answer \<times> 'f paymaster_sys" where
  "SubmitRelay F sha256 enabled est w req s =
     (if \<not> enabled then (GasStationDisabled, s)
      else if \<not> validateRelaySignature (lr_SigR req) (lr_SigS req) (lr_SigV req) then (InvalidSignature, s)
      else case PermitSigHash sha256 (lr_SigR req) (lr_SigS req) of
        None \<Rightarrow> (InvalidSigComponents, s)
      | Some sigHash \<Rightarrow>
          (case db_AcquireLock (pw_lock w) (pw_now w) sigHash (ps_locks s) of
             (False, locks) \<Rightarrow> (DuplicateSig, s\<lparr>ps_locks := locks\<rparr>)
           | (True, locks) \<Rightarrow>
               (case EstimateRelay F est (pw_rpc w) (pw_feeds w) (pw_clock w) (ps_oracle s) of
                  (Inl e, orc) \<Rightarrow> (EstimateFailed e, s\<lparr>ps_locks := db_ReleaseLock sigHash locks, ps_oracle := orc\<rparr>)
                | (Inr ge, orc) \<Rightarrow>
                    (case (if pw_insertFails w then (Inl ''CreateGasRelayRequest'', ps_rows s)
                           else CreateGasRelayRequest (pw_newID w) (lr_UserAddress req) (lr_SigR req) (lr_SigS req) sigHash
                             (lr_TxTo req) (lr_TxData req) (ps_rows s)) of
                       (Inl e, rows) \<Rightarrow>
                         (PersistFailed e, s\<lparr>ps_locks := db_ReleaseLock sigHash locks, ps_oracle := orc, ps_rows := rows\<rparr>)
                     | (Inr relayID, rows) \<Rightarrow>
                         (let job = \<lparr> rj_relayID = relayID, rj_to = lr_TxTo req, rj_amount = lr_Amount req,
                                      rj_token = lr_TokenAddr req,
                                      rj_network = (if lr_Network req = [] then ''BSC'' else lr_Network req) \<rparr> in
                          (RelayAccepted relayID (ge_FeeUSDT ge),
                           s\<lparr>ps_locks := locks, ps_oracle := orc, ps_rows := rows, ps_queue := snd (Enqueue job (ps_queue s))\<rparr>))))))"

text \<open>The fallback poller puts the rows that wait into the queue again, with the amount 0 and the token of BSC.\<close>

definition recovered_job :: "string \<Rightarrow> GasRelayRequest \<Rightarrow> relayJob" where
  "recovered_job bscUsdtContract r = \<lparr> rj_relayID = gr_ID r, rj_to = gr_TxTo r, rj_amount = ''0'', rj_token = bscUsdtContract, rj_network = ''BSC'' \<rparr>"

definition pollPendingRelays :: "string \<Rightarrow> go_time \<Rightarrow> 'f paymaster_sys \<Rightarrow> 'f paymaster_sys" where
  "pollPendingRelays bscUsdtContract now s =
     s\<lparr>ps_queue := foldl (\<lambda>queue r. snd (Enqueue (recovered_job bscUsdtContract r) queue)) (ps_queue s) (ListRetryableRelays now (ps_rows s))\<rparr>"

definition markDLQ :: "go_time \<Rightarrow> string \<Rightarrow> string \<Rightarrow> 'f paymaster_sys \<Rightarrow> 'f paymaster_sys" where
  "markDLQ now relayID errMsg s = s\<lparr>ps_rows := MarkRelayDLQ now relayID errMsg (ps_rows s)\<rparr>"

section \<open>Retries end\<close>

text \<open>The same operation with the results of its calls recorded.\<close>

definition traced :: "('s \<Rightarrow> send_error option \<times> 's) \<Rightarrow> send_error option list \<times> 's \<Rightarrow> send_error option \<times> send_error option list \<times> 's" where
  "traced operation = (\<lambda>(rs, s). case operation s of (r, s) \<Rightarrow> (r, rs @ [r], s))"

definition retryable :: "send_error option \<Rightarrow> bool" where
  "retryable r \<longleftrightarrow> (case r of None \<Rightarrow> False | Some (NonRetryable _) \<Rightarrow> False | Some _ \<Rightarrow> True)"

lemma retry_attempts_trace:
  assumes "retry_attempts cfg cancelled (traced operation) attempt lastErr (rs, s) = (r, rs', s')"
    and "int (length rs) = attempt" "\<forall>x\<in>set rs. retryable x" "rs = [] \<longrightarrow> lastErr = None" "attempt < rt_MaxAttempts cfg"
  shows "length rs < length rs' \<and> int (length rs') \<le> rt_MaxAttempts cfg \<and> (\<forall>x\<in>set (butlast rs'). retryable x) \<and>
    (r = last rs' \<and> (retryable r \<longrightarrow> int (length rs') = rt_MaxAttempts cfg) \<or>
     r = Some ContextDone \<and> retryable (last rs') \<and> cancelled (int (length rs') - 1) \<and> int (length rs') < rt_MaxAttempts cfg)"
  using assms
proof (induction "nat (rt_MaxAttempts cfg - attempt)" arbitrary: attempt lastErr rs s rule: less_induct)
  case less
  obtain x s1 where op: "operation s = (x, s1)" by (cases "operation s")
  have step: "retry_attempts cfg cancelled (traced operation) attempt lastErr (rs, s) =
      (case x of None \<Rightarrow> (None, rs @ [x], s1)
       | Some (NonRetryable m) \<Rightarrow> (x, rs @ [x], s1)
       | Some e \<Rightarrow> if attempt = rt_MaxAttempts cfg - 1 then (x, rs @ [x], s1)
           else if cancelled attempt then (Some ContextDone, rs @ [x], s1)
           else retry_attempts cfg cancelled (traced operation) (attempt + 1) x (rs @ [x], s1))"
    using less.prems(5) op by (subst retry_attempts.simps) (auto simp: traced_def split: option.splits send_error.splits)
  show ?case
  proof (cases "retryable x \<and> attempt \<noteq> rt_MaxAttempts cfg - 1 \<and> \<not> cancelled attempt")
    case True
    then have rec: "retry_attempts cfg cancelled (traced operation) (attempt + 1) x (rs @ [x], s1) = (r, rs', s')"
      using less.prems(1) step by (auto simp: retryable_def split: option.splits send_error.splits)
    have "length (rs @ [x]) < length rs' \<and> int (length rs') \<le> rt_MaxAttempts cfg \<and> (\<forall>x\<in>set (butlast rs'). retryable x) \<and>
      (r = last rs' \<and> (retryable r \<longrightarrow> int (length rs') = rt_MaxAttempts cfg) \<or>
       r = Some ContextDone \<and> retryable (last rs') \<and> cancelled (int (length rs') - 1) \<and> int (length rs') < rt_MaxAttempts cfg)"
      by (rule less.hyps [OF _ rec]) (use True less.prems in auto)
    then show ?thesis by auto
  next
    case False
    then have e: "(r, rs', s') = (if retryable x \<and> attempt \<noteq> rt_MaxAttempts cfg - 1 then Some ContextDone else x, rs @ [x], s1)"
      using less.prems(1) unfolding step by (cases x; cases "the x") (auto simp: retryable_def)
    then have "rs' = rs @ [x]" "length rs' = Suc (length rs)" by simp_all
    then show ?thesis using e False less.prems(2-5) by (cases "retryable x \<and> attempt \<noteq> rt_MaxAttempts cfg - 1") auto
  qed
qed

text \<open>
  C29. Retrying ends: for every configuration and every behaviour of the operation at most
  \<open>MaxAttempts\<close> calls are made, every call but the last failed in a way that may be retried, and the result
  is that of the last call, unless the context ended while waiting. An error that may be retried is
  returned only when all attempts are used up. A configuration without attempts reports success
  without calling the operation at all.
\<close>

theorem retry_makes_bounded_attempts:
  "case ExecuteWithRetry cfg cancelled (traced operation) ([], s) of (r, rs, s') \<Rightarrow>
     (if rt_MaxAttempts cfg \<le> 0 then r = None \<and> rs = [] \<and> s' = s
      else rs \<noteq> [] \<and> int (length rs) \<le> rt_MaxAttempts cfg \<and> list_all retryable (butlast rs) \<and>
        (r = last rs \<and> \<not> (retryable r \<and> int (length rs) \<noteq> rt_MaxAttempts cfg) \<or>
         r = Some ContextDone \<and> retryable (last rs) \<and> cancelled (int (length rs) - 1)))"
proof (cases "rt_MaxAttempts cfg \<le> 0")
  case True
  then show ?thesis by (simp add: ExecuteWithRetry_def retry_attempts.simps)
next
  case False
  obtain r rs s' where run: "retry_attempts cfg cancelled (traced operation) 0 None ([], s) = (r, rs, s')"
    by (cases "retry_attempts cfg cancelled (traced operation) 0 None ([], s)") auto
  note t = retry_attempts_trace [OF run]
  show ?thesis using False run t by (auto simp: ExecuteWithRetry_def list_all_iff)
qed

declare map_of_eq_Some_iff [simp del]

section \<open>What a replay lock promises\<close>

text \<open>
  The interface \<open>SigLockStore\<close> as the service relies on it. \<open>held_until d h s\<close>: the lock of \<open>h\<close> was taken
  and holds at least until \<open>d\<close>. Both implementations provide it.
\<close>

datatype 'e lock_event = TryLock 'e go_time string | Unlock_sig string | Sweep go_time

fun lock_time_ok :: "go_time \<Rightarrow> string \<Rightarrow> 'e lock_event \<Rightarrow> bool" where
  "lock_time_ok d h (TryLock _ now _) = (now < d)"
| "lock_time_ok d h (Unlock_sig h') = (h' \<noteq> h)"
| "lock_time_ok d h (Sweep now) = (now < d)"

locale sig_lock_store =
  fixes acquire :: "'e \<Rightarrow> go_time \<Rightarrow> string \<Rightarrow> 's \<Rightarrow> bool \<times> 's"
    and release :: "string \<Rightarrow> 's \<Rightarrow> 's"
    and sweep :: "go_time \<Rightarrow> 's \<Rightarrow> 's"
    and held_until :: "go_time \<Rightarrow> string \<Rightarrow> 's \<Rightarrow> bool"
    and ok :: "'s \<Rightarrow> bool"
  assumes acquired: "ok s \<Longrightarrow> fst (acquire e now h s) \<Longrightarrow> held_until (now + sigLockTTL) h (snd (acquire e now h s))"
    and refused: "ok s \<Longrightarrow> held_until d h s \<Longrightarrow> now < d \<Longrightarrow> \<not> fst (acquire e now h s)"
    and acquire_keeps: "ok s \<Longrightarrow> held_until d h s \<Longrightarrow> now < d \<Longrightarrow> held_until d h (snd (acquire e now h' s))"
    and release_keeps: "ok s \<Longrightarrow> held_until d h s \<Longrightarrow> h' \<noteq> h \<Longrightarrow> held_until d h (release h' s)"
    and sweep_keeps: "ok s \<Longrightarrow> held_until d h s \<Longrightarrow> now < d \<Longrightarrow> held_until d h (sweep now s)"
    and acquire_ok: "ok s \<Longrightarrow> ok (snd (acquire e now h s))"
    and release_ok: "ok s \<Longrightarrow> ok (release h s)"
    and sweep_ok: "ok s \<Longrightarrow> ok (sweep now s)"
begin

fun lock_step :: "'s \<Rightarrow> 'e lock_event \<Rightarrow> 's" where
  "lock_step s (TryLock e now h) = snd (acquire e now h s)"
| "lock_step s (Unlock_sig h) = release h s"
| "lock_step s (Sweep now) = sweep now s"

lemma lock_step_ok: "ok s \<Longrightarrow> ok (lock_step s ev)"
  by (cases ev) (simp_all add: acquire_ok release_ok sweep_ok)

lemma lock_step_keeps: "ok s \<Longrightarrow> held_until d h s \<Longrightarrow> lock_time_ok d h ev \<Longrightarrow> held_until d h (lock_step s ev)"
  by (cases ev) (simp_all add: acquire_keeps release_keeps sweep_keeps)

lemma lock_run_keeps:
  "ok s \<Longrightarrow> held_until d h s \<Longrightarrow> list_all (lock_time_ok d h) evs \<Longrightarrow>
     ok (foldl lock_step s evs) \<and> held_until d h (foldl lock_step s evs)"
  by (induction evs arbitrary: s) (simp_all add: lock_step_ok lock_step_keeps)

lemma lock_excludes:
  assumes "ok s" "fst (acquire e now h s)" "list_all (lock_time_ok (now + sigLockTTL) h) evs" "later < now + sigLockTTL"
  shows "\<not> fst (acquire e' later h (foldl lock_step (snd (acquire e now h s)) evs))"
  using lock_run_keeps [OF acquire_ok [OF assms(1)] acquired [OF assms(1,2)] assms(3)] refused [OF _ _ assms(4)] by blast

end

text \<open>Both stores are maps from a hash to a time; the lock lasts until that time plus an offset.\<close>

definition kept_until :: "duration \<Rightarrow> go_time \<Rightarrow> string \<Rightarrow> (string, go_time) go_map \<Rightarrow> bool" where
  "kept_until off d h m \<longleftrightarrow> (\<exists>t. map_of m h = Some t \<and> d \<le> t + off)"

lemma kept_filter:
  "map_ok m \<Longrightarrow> kept_until off d h m \<Longrightarrow> (\<And>t. d \<le> t + off \<Longrightarrow> P (h, t)) \<Longrightarrow> kept_until off d h (filter P m)"
  by (auto simp: kept_until_def map_of_filter_ok)

lemma not_swept: "d \<le> t + sigLockTTL \<Longrightarrow> now < d \<Longrightarrow> \<not> sigLockTTL < time_sub now t"
  by (auto simp: time_sub_def sigLockTTL_def duration_defs max_int64_def min_int64_def)

interpretation mem_lock: sig_lock_store mem_AcquireLock mem_ReleaseLock mem_gc "kept_until sigLockTTL" map_ok
  by unfold_locales
    (auto simp: mem_AcquireLock_def mem_ReleaseLock_def mem_gc_def kept_until_def map_of_filter_ok map_ok_filter not_swept
      split: option.splits if_splits)

interpretation db_lock: sig_lock_store db_AcquireLock db_ReleaseLock "\<lambda>_ table. table" "kept_until 0" map_ok
  by unfold_locales
    (auto simp: db_AcquireLock_def db_ReleaseLock_def kept_until_def Let_def map_of_filter_ok map_ok_filter
      split: option.splits if_splits lock_fault.splits)

section \<open>Prices and fees\<close>

text \<open>
  The fee of a relay is at most the cap, and at least the floor when the floor is not above the cap,
  whatever the nodes and the price feeds answer and however the floating-point numbers are rounded.
\<close>

theorem relay_fee_within_limits:
  assumes "EstimateRelay F e rpc feeds clock orc = (Inr ge, orc')"
  shows "(es_maxFeeUsdt e \<le> 0 \<or> ge_FeeUSDT ge \<le> es_maxFeeUsdt e) \<and>
    (es_minFeeUsdt e \<le> 0 \<or> 0 < es_maxFeeUsdt e \<and> es_maxFeeUsdt e < es_minFeeUsdt e \<or> es_minFeeUsdt e \<le> ge_FeeUSDT ge)"
proof -
  have "ge_FeeUSDT ge = relay_fee e (ge_CostUSDT ge)"
    using assms by (auto simp: EstimateRelay_def Let_def split: sum.splits prod.splits)
  then show ?thesis by (auto simp: relay_fee_def Let_def)
qed

lemma relay_gas_exact: "unat g * 120 < 2 ^ 64 \<Longrightarrow> unat (relay_gas (Some g)) = unat g * 120 div 100"
  by (simp add: relay_gas_def unat_div unat_mult_lem [THEN iffD1])

text \<open>
  The outlier check of the oracle is never in force: when the cached price is not fresh the feeds are
  asked, but then the check, which wants a fresh price to compare with, is off. So any first quote that
  reads as a positive number is taken and cached, however far it is from the last price.
\<close>

theorem oracle_takes_any_first_quote:
  assumes "map_of (po_prices orc) symbol = Some lastPrice" "map_of (po_fetchedAt orc) symbol = Some t"
    and "oracleCacheTTL \<le> time_sub now1 t" "now1 \<le> now2"
    and "pf_binance feeds symbol = Inr ticker" "f_parse F ticker = Some quote" "\<not> f_le F quote (f_zero F)"
  shows "fst (oracle_price F feeds (now1, now2, now3) symbol orc) = Inr quote \<and>
    map_of (po_prices (snd (oracle_price F feeds (now1, now2, now3) symbol orc))) symbol = Some quote"
proof -
  have "time_sub now1 t \<le> time_sub now2 t" using assms(4) by (auto simp: time_sub_def)
  then have stale: "\<not> time_sub now1 t < oracleCacheTTL" "\<not> time_sub now2 t < oracleCacheTTL" using assms(3) by simp_all
  have "fetchFromBinance F feeds symbol = Inr quote" using assms(5-7) by (simp add: fetchFromBinance_def)
  then show ?thesis using stale assms(1,2) by (simp add: oracle_price_def fetchPrice_def)
qed


theorem relay_fee_within_limits_witness:
  "\<exists>ge. fst (EstimateRelay (coarse_float (\<lambda>_. Some (Some 600))) \<lparr> es_surchargeBps = 1000, es_maxFeeUsdt = 2000000, es_minFeeUsdt = 50000 \<rparr>
      (Inr (5000000000, None)) \<lparr> pf_binance = (\<lambda>_. Inr ''600''), pf_coingecko = (\<lambda>_. Inl ''down'') \<rparr> (0, 0, 0)
      \<lparr> po_prices = [], po_fetchedAt = [] \<rparr>) = Inr ge \<and> ge_FeeUSDT ge \<le> 2000000 \<and> 50000 \<le> ge_FeeUSDT ge"
proof -
  let ?F = "coarse_float (\<lambda>_. Some (Some 600))"
  let ?e = "\<lparr> es_surchargeBps = 1000, es_maxFeeUsdt = 2000000, es_minFeeUsdt = 50000 \<rparr>"
  let ?r = "EstimateRelay ?F ?e (Inr (5000000000, None)) \<lparr> pf_binance = (\<lambda>_. Inr ''600''), pf_coingecko = (\<lambda>_. Inl ''down'') \<rparr> (0, 0, 0)
      \<lparr> po_prices = [], po_fetchedAt = [] \<rparr>"
  have "\<exists>ge. fst ?r = Inr ge"
    by (simp add: EstimateRelay_def BNBPrice_def oracle_price_def fetchPrice_def fetchFromBinance_def coarse_float_def nan_rel_def Let_def)
  then obtain ge orc' where "?r = (Inr ge, orc')" by (metis prod.collapse)
  from relay_fee_within_limits [OF this] this show ?thesis by simp
qed

theorem oracle_takes_any_first_quote_witness:
  "fst (oracle_price (coarse_float (\<lambda>_. Some (Some 60000))) \<lparr> pf_binance = (\<lambda>_. Inr ''60000''), pf_coingecko = (\<lambda>_. Inl ''down'') \<rparr>
     (60 * second, 60 * second, 60 * second) ''BNBUSDT'' \<lparr> po_prices = [(''BNBUSDT'', Some 600)], po_fetchedAt = [(''BNBUSDT'', 0)] \<rparr>) = Inr (Some 60000)"
  using oracle_takes_any_first_quote [of "\<lparr> po_prices = [(''BNBUSDT'', Some 600)], po_fetchedAt = [(''BNBUSDT'', 0)] \<rparr>" "''BNBUSDT''" "Some 600" 0
      "60 * second" "60 * second" "\<lparr> pf_binance = (\<lambda>_. Inr ''60000''), pf_coingecko = (\<lambda>_. Inl ''down'') \<rparr>" "''60000''"
      "coarse_float (\<lambda>_. Some (Some 60000))" "Some 60000" "60 * second"]
  by (simp add: coarse_float_def nan_rel_def oracleCacheTTL_def time_sub_def second_def max_int64_def min_int64_def)

section \<open>One relay per signature\<close>

text \<open>
  A history of the service: submissions, polls, batches taken from the queue and relays that are given
  up. The log holds the requests that were accepted.
\<close>

datatype 'f pm_event = Submit "'f submit_world" RelayRequest | Poll go_time | Take nat | GiveUp go_time string string

definition sig_bytes :: "RelayRequest \<Rightarrow> bytes option \<times> bytes option" where
  "sig_bytes req = (hex_decode (stripHex (lr_SigR req)), hex_decode (stripHex (lr_SigS req)))"

fun pm_step ::
  "'f float_ops \<Rightarrow> (bytes \<Rightarrow> bytes) \<Rightarrow> bool \<Rightarrow> Estimator \<Rightarrow> string \<Rightarrow> 'f paymaster_sys \<times> RelayRequest list \<Rightarrow> 'f pm_event \<Rightarrow>
     'f paymaster_sys \<times> RelayRequest list" where
  "pm_step F sha256 enabled est usdt (s, accepted) (Submit w req) =
     (case SubmitRelay F sha256 enabled est w req s of
        (RelayAccepted _ _, s) \<Rightarrow> (s, accepted @ [req])
      | (_, s) \<Rightarrow> (s, accepted))"
| "pm_step F sha256 enabled est usdt (s, accepted) (Poll now) = (pollPendingRelays usdt now s, accepted)"
| "pm_step F sha256 enabled est usdt (s, accepted) (Take n) = (s\<lparr>ps_queue := drop n (ps_queue s)\<rparr>, accepted)"
| "pm_step F sha256 enabled est usdt (s, accepted) (GiveUp now relayID e) = (markDLQ now relayID e s, accepted)"

definition pm_start :: "'f paymaster_sys" where
  "pm_start = \<lparr> ps_locks = [], ps_rows = [], ps_queue = [], ps_oracle = \<lparr> po_prices = [], po_fetchedAt = [] \<rparr> \<rparr>"

definition pm_inv :: "(bytes \<Rightarrow> bytes) \<Rightarrow> 'f paymaster_sys \<times> RelayRequest list \<Rightarrow> bool" where
  "pm_inv sha256 = (\<lambda>(s, accepted).
     map (\<lambda>req. PermitSigHash sha256 (lr_SigR req) (lr_SigS req)) accepted = map (Some \<circ> gr_SigHash) (ps_rows s) \<and>
     distinct (map gr_SigHash (ps_rows s)) \<and> length (ps_queue s) \<le> batchChanCap)"

lemma Enqueue_length: "length q \<le> batchChanCap \<Longrightarrow> length (snd (Enqueue job q)) \<le> batchChanCap"
  by (simp add: Enqueue_def)

lemma enqueue_all_length: "length q \<le> batchChanCap \<Longrightarrow> length (foldl (\<lambda>q r. snd (Enqueue (f r) q)) q rs) \<le> batchChanCap"
  by (induction rs arbitrary: q) (simp_all add: Enqueue_length)

lemma SubmitRelay_rows:
  assumes "SubmitRelay F sha256 enabled est w req s = (answer, s')"
  shows "(case answer of
      RelayAccepted _ _ \<Rightarrow> \<exists>h row. PermitSigHash sha256 (lr_SigR req) (lr_SigS req) = Some h \<and> gr_SigHash row = h \<and>
        ps_rows s' = ps_rows s @ [row] \<and> h \<notin> set (map gr_SigHash (ps_rows s)) \<and> (\<exists>job. ps_queue s' = snd (Enqueue job (ps_queue s)))
    | _ \<Rightarrow> ps_rows s' = ps_rows s \<and> ps_queue s' = ps_queue s)"
  using assms unfolding SubmitRelay_def CreateGasRelayRequest_def
  by (auto simp: Let_def list_ex_iff split: if_splits option.splits prod.splits sum.splits bool.splits)

lemma pm_step_inv:
  assumes "pm_inv sha256 st"
  shows "pm_inv sha256 (pm_step F sha256 enabled est usdt st ev)"
proof (cases st)
  case (Pair s accepted)
  show ?thesis
  proof (cases ev)
    case (Submit w req)
    obtain answer s' where sub: "SubmitRelay F sha256 enabled est w req s = (answer, s')" by (cases "SubmitRelay F sha256 enabled est w req s")
    show ?thesis using SubmitRelay_rows [OF sub] assms Pair Submit sub
      by (cases answer) (auto simp: pm_inv_def Enqueue_length)
  qed (use assms Pair in \<open>auto simp: pm_inv_def pollPendingRelays_def markDLQ_def MarkRelayDLQ_def enqueue_all_length comp_def if_distrib cong: if_cong\<close>)
qed

interpretation pm: transition_system "\<lambda>st. st = (pm_start, [])" "pm_step F sha256 enabled est usdt" "\<lambda>_ _. True" "pm_inv sha256"
proof unfold_locales
  show "st = (pm_start, []) \<Longrightarrow> pm_inv sha256 st" for st :: "'a paymaster_sys \<times> RelayRequest list"
    by (simp add: pm_inv_def pm_start_def)
qed (rule pm_step_inv)

text \<open>
  C10. Whatever is submitted in whatever order, with locks that expire and with every failure of the lock,
  the nodes, the feeds and the database: two accepted relays never carry the same two signature words,
  in any spelling of their hexadecimal digits; there is one row for each accepted relay, and the queue
  never holds more than its capacity.
\<close>

theorem one_relay_per_signature:
  "case foldl (pm_step F sha256 enabled est usdt) (pm_start, []) es of (s, accepted) \<Rightarrow>
     distinct (map sig_bytes accepted) \<and> length (ps_rows s) = length accepted \<and> length (ps_queue s) \<le> 256"
proof -
  define out where "out = foldl (pm_step F sha256 enabled est usdt) (pm_start, []) es"
  have adm: "pm.admissible F sha256 enabled est usdt st es" for st by (induction es arbitrary: st) simp_all
  have inv: "pm_inv sha256 out" unfolding out_def pm.run_foldl [symmetric] by (rule pm.run_init_inv [OF refl adm])
  obtain s accepted where o: "out = (s, accepted)" by (cases out)
  have hashes: "map (\<lambda>req. PermitSigHash sha256 (lr_SigR req) (lr_SigS req)) accepted = map (Some \<circ> gr_SigHash) (ps_rows s)"
    "distinct (map gr_SigHash (ps_rows s))" "length (ps_queue s) \<le> batchChanCap" using inv o by (simp_all add: pm_inv_def)
  define g where "g = (\<lambda>(r, s). case r of None \<Rightarrow> None | Some rb \<Rightarrow> (case s of None \<Rightarrow> None | Some sb \<Rightarrow> Some (hex_encode (sha256 (rb @ sb)))))"
  have "PermitSigHash sha256 (lr_SigR req) (lr_SigS req) = g (sig_bytes req)" for req by (simp add: PermitSigHash_def g_def sig_bytes_def)
  then have "map g (map sig_bytes accepted) = map Some (map gr_SigHash (ps_rows s))" using hashes(1) by (simp add: comp_def)
  moreover have "distinct (map Some (map gr_SigHash (ps_rows s)))" using hashes(2) by (simp only: distinct_map) simp
  ultimately have "distinct (map sig_bytes accepted)" by (metis distinct_map)
  moreover have "length (ps_rows s) = length accepted" using arg_cong [OF hashes(1), of length] by simp
  ultimately show ?thesis using hashes(3) o out_def by (simp add: batchChanCap_def)
qed

section \<open>The gas station and the signer\<close>

text \<open>
  The JSON bodies that the batcher sends, as the signer decodes them: the fields have the same names, and
  \<open>derivationIndex\<close> is always present because its Go type has no \<open>omitempty\<close>.
\<close>

definition transfer_request :: "signerTransferPayload \<Rightarrow> TransferRequest" where
  "transfer_request p = \<lparr> tq_To = tp_To p, tq_Amount = tp_Amount p, tq_TokenContract = tp_TokenContract p, tq_Network = tp_Network p,
     tq_IdempotencyKey = tp_IdempotencyKey p, tq_DerivationIndex = Some (tp_DerivationIndex p) \<rparr>"

definition contract_request :: "signerContractCallPayload \<Rightarrow> ContractCallRequest" where
  "contract_request p = \<lparr> cq_To = cp_To p, cq_Data = cp_Data p, cq_Network = cp_Network p, cq_IdempotencyKey = cp_IdempotencyKey p,
     cq_Amount = cp_Amount p, cq_TokenContract = cp_TokenContract p, cq_DerivationIndex = Some (cp_DerivationIndex p) \<rparr>"

fun reply_of :: "http_response \<Rightarrow> signer_reply" where
  "reply_of (HttpError n) = Reply n []"
| "reply_of (HttpFailed e) = Reply 502 []"
| "reply_of (HttpJSON r) = Reply 200 []"
| "reply_of HttpUnlocked = Reply 200 []"

text \<open>Both services together; the calls are numbered, and \<open>env\<close> gives each its world and its nonce.\<close>

record relay_sys =
  rs_signer :: signer_sys
  rs_rows :: "GasRelayRequest list"
  rs_calls :: nat

definition post :: "'r \<Rightarrow> string \<Rightarrow> 'r http_request" where
  "post req nonce = \<lparr> hq_Method = ''POST'', hq_Nonce = Some nonce, hq_Body = Some (Some req) \<rparr>"

definition signer_world ::
  "'f float_ops \<Rightarrow> 'l signer_lib_scheme \<Rightarrow> ('f, 'z) signer_config_scheme \<Rightarrow> (nat \<Rightarrow> rpc_world \<times> string) \<Rightarrow> (string \<Rightarrow> int64 \<Rightarrow> bool) \<Rightarrow> go_time \<Rightarrow>
     relay_sys relay_world" where
  "signer_world F lib cfg env cancelled now = \<lparr>
     rw_transfer = (\<lambda>p s. case env (rs_calls s) of (w, nonce) \<Rightarrow>
       (case hd_transfer F lib cfg w (post (transfer_request p) nonce) (rs_signer s) of
          (resp, sg) \<Rightarrow> (reply_of resp, s\<lparr>rs_signer := sg, rs_calls := Suc (rs_calls s)\<rparr>))),
     rw_contract = (\<lambda>p s. case env (rs_calls s) of (w, nonce) \<Rightarrow>
       (case hd_contract_call F lib cfg w (post (contract_request p) nonce) (rs_signer s) of
          (resp, sg) \<Rightarrow> (reply_of resp, s\<lparr>rs_signer := sg, rs_calls := Suc (rs_calls s)\<rparr>))),
     rw_cancelled = cancelled,
     rw_dlq = (\<lambda>relayID e s. s\<lparr>rs_rows := MarkRelayDLQ now relayID e (rs_rows s)\<rparr>) \<rparr>"

text \<open>What refusing keeps: nothing is sent and the stored results of the signer stay as they are.\<close>

definition same_books :: "signer_sys \<Rightarrow> signer_sys \<Rightarrow> bool" where
  "same_books s s' \<longleftrightarrow> sv_sent s' = sv_sent s \<and> ms_results (sv_store s') = ms_results (sv_store s)"

lemma derivation_refused_transfer:
  assumes "executeTransfer F lib cfg w (transfer_request p) s = (r, s')"
  shows "(\<exists>e. r = Inl e) \<and> same_books s s'"
  using assms unfolding executeTransfer_def Let_def validateTreasuryPolicy_def
  by (auto simp: same_books_def transfer_request_def dest!: daily_limits_frame split: sum.splits prod.splits)

lemma derivation_refused_contract:
  assumes "executeContractCall F lib cfg w (contract_request p) s = (r, s')"
  shows "(\<exists>e. r = Inl e) \<and> same_books s s'"
  using assms unfolding executeContractCall_def Let_def validateContractCallTreasuryPolicy_def
  by (auto simp: same_books_def contract_request_def dest!: daily_limits_frame split: sum.splits prod.splits if_splits)

lemma refusing_handler:
  assumes "money_handler cfg execute key w (post req nonce) s = (resp, s')"
    and "\<And>s r s'. execute w req s = (r, s') \<Longrightarrow> (\<exists>e. r = Inl e) \<and> same_books s s'"
    and "map_of (ms_results (sv_store s)) (key req) = None"
  shows "signer_error (reply_of resp) \<noteq> None \<and> same_books s s'"
proof -
  obtain ok st where acc: "AcceptNonce (w_now w) nonce (GetNonceTTL cfg) (sv_store s) = (ok, st)" by (cases "AcceptNonce (w_now w) nonce (GetNonceTTL cfg) (sv_store s)")
  then have st: "ms_results st = ms_results (sv_store s)" using AcceptNonce_frame by blast
  obtain prev won st2 where cl: "ClaimResult (key req) st = ((prev, won), st2)" by (metis prod.collapse)
  then have st2: "prev = None" "ms_results st2 = ms_results (sv_store s)"
    using st assms(3) by (auto simp: ClaimResult_def split: if_splits option.splits)
  obtain r s1 where ex: "execute w req (s\<lparr>sv_store := st2\<rparr>) = (r, s1)" by (cases "execute w req (s\<lparr>sv_store := st2\<rparr>)")
  from assms(2) [OF this] obtain e where e: "r = Inl e" "same_books (s\<lparr>sv_store := st2\<rparr>) s1" by blast
  show ?thesis using assms(1) acc cl st st2 ex e
    by (auto simp: money_handler_def post_def same_books_def signer_error_def on_store_def ReleaseClaim_def split: if_splits bool.splits)
qed

lemma retry_always_fails:
  assumes op: "\<And>s. P s \<Longrightarrow> fst (operation s) \<noteq> None \<and> P (snd (operation s))"
  shows "P s \<Longrightarrow> lastErr \<noteq> None \<or> attempt < rt_MaxAttempts cfg \<Longrightarrow>
    fst (retry_attempts cfg cancelled operation attempt lastErr s) \<noteq> None \<and> P (snd (retry_attempts cfg cancelled operation attempt lastErr s))"
proof (induction "nat (rt_MaxAttempts cfg - attempt)" arbitrary: attempt lastErr s rule: less_induct)
  case less
  obtain x s1 where x: "operation s = (x, s1)" by (cases "operation s")
  with op [OF less.prems(1)] obtain e where e: "x = Some e" "P s1" by auto
  show ?case
  proof (cases "attempt < rt_MaxAttempts cfg - 1 \<and> \<not> cancelled attempt \<and> retryable x")
    case True
    then have "retry_attempts cfg cancelled operation attempt lastErr s = retry_attempts cfg cancelled operation (attempt + 1) x s1"
      using x e by (subst retry_attempts.simps) (auto simp: retryable_def split: send_error.splits)
    moreover have "nat (rt_MaxAttempts cfg - (attempt + 1)) < nat (rt_MaxAttempts cfg - attempt)" using True by simp
    ultimately show ?thesis using less.hyps [OF _ e(2), of "attempt + 1" x] e(1) by simp
  next
    case False
    then show ?thesis using x e less.prems by (subst (1 2) retry_attempts.simps) (auto simp: retryable_def split: send_error.splits)
  qed
qed

lemma execute_always_fails:
  assumes "\<forall>x. P x \<longrightarrow> fst (operation x) \<noteq> None \<and> P (snd (operation x))" "P s" "0 < rt_MaxAttempts cfg"
  shows "\<exists>e s'. ExecuteWithRetry cfg cancelled operation s = (Some e, s') \<and> P s'"
proof -
  have "fst (ExecuteWithRetry cfg cancelled operation s) \<noteq> None \<and> P (snd (ExecuteWithRetry cfg cancelled operation s))"
    unfolding ExecuteWithRetry_def by (rule retry_always_fails) (use assms in auto)
  then show ?thesis by (cases "ExecuteWithRetry cfg cancelled operation s") auto
qed

lemma default_attempts: "0 < rt_MaxAttempts pm_DefaultRetryConfig"
  by (simp add: pm_DefaultRetryConfig_def)

text \<open>What the refusals keep of the joint state, for a set of idempotency keys without a stored result.\<close>

definition refused_so_far :: "string set \<Rightarrow> relay_sys \<Rightarrow> relay_sys \<Rightarrow> bool" where
  "refused_so_far keys s s' \<longleftrightarrow> same_books (rs_signer s) (rs_signer s') \<and> rs_rows s' = rs_rows s \<and>
     (\<forall>k\<in>keys. map_of (ms_results (sv_store (rs_signer s'))) k = None)"

lemma signer_transfer_refuses:
  assumes "refused_so_far keys s0 s" "key \<in> keys"
  shows "fst (signerTransfer (signer_world F lib cfg env cancelled now) to amount token network key s) \<noteq> None \<and>
    refused_so_far keys s0 (snd (signerTransfer (signer_world F lib cfg env cancelled now) to amount token network key s))"
proof -
  obtain w nonce where env: "env (rs_calls s) = (w, nonce)" by (cases "env (rs_calls s)")
  let ?p = "\<lparr> tp_DerivationIndex = 0, tp_To = to, tp_Amount = amount, tp_TokenContract = token, tp_Network = network, tp_IdempotencyKey = key \<rparr>"
  obtain resp sg where h: "hd_transfer F lib cfg w (post (transfer_request ?p) nonce) (rs_signer s) = (resp, sg)" by (metis prod.collapse)
  have "map_of (ms_results (sv_store (rs_signer s))) (tq_IdempotencyKey (transfer_request ?p)) = None"
    using assms by (simp add: refused_so_far_def transfer_request_def)
  from refusing_handler [OF h [unfolded hd_transfer_def] derivation_refused_transfer this]
  have "signer_error (reply_of resp) \<noteq> None \<and> same_books (rs_signer s) sg" .
  then show ?thesis using h env assms(1) by (auto simp: signerTransfer_def signer_world_def refused_so_far_def same_books_def)
qed

lemma signer_contract_refuses:
  assumes "refused_so_far keys s0 s" "cp_IdempotencyKey p \<in> keys"
  shows "fst (signerContractCall (signer_world F lib cfg env cancelled now) p s) \<noteq> None \<and>
    refused_so_far keys s0 (snd (signerContractCall (signer_world F lib cfg env cancelled now) p s))"
proof -
  obtain w nonce where env: "env (rs_calls s) = (w, nonce)" by (cases "env (rs_calls s)")
  obtain resp sg where h: "hd_contract_call F lib cfg w (post (contract_request p) nonce) (rs_signer s) = (resp, sg)" by (metis prod.collapse)
  have "map_of (ms_results (sv_store (rs_signer s))) (cq_IdempotencyKey (contract_request p)) = None"
    using assms by (simp add: refused_so_far_def contract_request_def)
  from refusing_handler [OF h [unfolded hd_contract_call_def] derivation_refused_contract this]
  have "signer_error (reply_of resp) \<noteq> None \<and> same_books (rs_signer s) sg" .
  then show ?thesis using h env assms(1) by (auto simp: signerContractCall_def signer_world_def refused_so_far_def same_books_def)
qed


text \<open>
  A whole batch. The jobs of a batch that is not bundled run in goroutines, three at a time; each uses its
  own idempotency keys, and here they run one after the other.
\<close>

definition dispatchBatch :: "RelayBatcher \<Rightarrow> 's relay_world \<Rightarrow> relayJob list \<Rightarrow> 's \<Rightarrow> 's" where
  "dispatchBatch rb w batch s =
     (if 2 \<le> length batch \<and> rb_multicall rb \<noteq> [] \<and> canMulticall rb batch then dispatchMulticallBatch rb w batch s
      else foldl (\<lambda>s job. dispatchOne rb w job s) s batch)"

definition given_up :: "string \<Rightarrow> relay_sys \<Rightarrow> bool" where
  "given_up relayID s \<longleftrightarrow> list_all (\<lambda>r. gr_ID r \<noteq> relayID \<or> gr_Status r = ''dlq'') (rs_rows s)"

lemma given_up_mark: "given_up relayID (s\<lparr>rs_rows := MarkRelayDLQ now relayID e (rs_rows s)\<rparr>)"
  "given_up k s \<Longrightarrow> given_up k (s\<lparr>rs_rows := MarkRelayDLQ now relayID e (rs_rows s)\<rparr>)"
  unfolding given_up_def MarkRelayDLQ_def by (simp_all add: list.pred_map comp_def) (simp_all add: list_all_iff)

lemma dispatchOne_refused:
  assumes "\<forall>k\<in>keys. map_of (ms_results (sv_store (rs_signer s))) k = None" "rj_relayID job \<in> keys"
    and s': "s' = dispatchOne rb (signer_world F lib cfg env cancelled now) job s"
  shows "same_books (rs_signer s) (rs_signer s') \<and> (\<forall>k\<in>keys. map_of (ms_results (sv_store (rs_signer s'))) k = None) \<and>
    given_up (rj_relayID job) s' \<and> (\<forall>k. given_up k s \<longrightarrow> given_up k s')"
proof -
  let ?w = "signer_world F lib cfg env cancelled now"
  obtain net fee where legs: "relay_legs (rb_relayer rb) (rj_amount job) = (net, fee)" by (cases "relay_legs (rb_relayer rb) (rj_amount job)")
  let ?op = "signerTransfer ?w (rj_to job) net (rj_token job) (rj_network job) (rj_relayID job)"
  have law: "\<forall>x. refused_so_far keys s x \<longrightarrow> fst (?op x) \<noteq> None \<and> refused_so_far keys s (snd (?op x))"
    by (intro allI impI signer_transfer_refuses [OF _ assms(2)])
  have "refused_so_far keys s s" using assms(1) by (simp add: refused_so_far_def same_books_def)
  from execute_always_fails [where operation = ?op, OF law this default_attempts] obtain e s1 where e: "ExecuteWithRetry pm_DefaultRetryConfig (rw_cancelled ?w (''relay:net:'' @ rj_relayID job)) ?op s = (Some e, s1)"
      "refused_so_far keys s s1" by blast
  then have "s' = s1\<lparr>rs_rows := MarkRelayDLQ now (rj_relayID job) (error_text e) (rs_rows s1)\<rparr>"
    using legs unfolding s' dispatchOne_def by (simp add: signer_world_def)
  then show ?thesis using e(2) given_up_mark by (auto simp: refused_so_far_def given_up_def)
qed

lemma dispatch_each_refused:
  assumes "\<forall>k\<in>keys. map_of (ms_results (sv_store (rs_signer s))) k = None" "set (map rj_relayID batch) \<subseteq> keys"
  shows "same_books (rs_signer s) (rs_signer (foldl (\<lambda>s job. dispatchOne rb (signer_world F lib cfg env cancelled now) job s) s batch)) \<and>
    (\<forall>k. k \<in> set (map rj_relayID batch) \<or> given_up k s \<longrightarrow>
       given_up k (foldl (\<lambda>s job. dispatchOne rb (signer_world F lib cfg env cancelled now) job s) s batch))"
  using assms
proof (induction batch arbitrary: s)
  case Nil
  then show ?case by (simp add: same_books_def)
next
  case (Cons job batch)
  let ?s1 = "dispatchOne rb (signer_world F lib cfg env cancelled now) job s"
  have one: "same_books (rs_signer s) (rs_signer ?s1)" "\<forall>k\<in>keys. map_of (ms_results (sv_store (rs_signer ?s1))) k = None"
    "given_up (rj_relayID job) ?s1" "\<forall>k. given_up k s \<longrightarrow> given_up k ?s1"
    using dispatchOne_refused [OF Cons.prems(1) _ refl, of job rb F lib cfg env cancelled now] Cons.prems(2) by auto
  from Cons.IH [OF one(2)] Cons.prems(2) show ?case using one(1,3,4) by (auto simp: same_books_def)
qed

lemma mark_all_given_up:
  "rs_signer (foldl (\<lambda>s job. rw_dlq (signer_world F lib cfg env cancelled now) (rj_relayID job) e s) s batch) = rs_signer s \<and>
    (\<forall>k. k \<in> set (map rj_relayID batch) \<or> given_up k s \<longrightarrow>
       given_up k (foldl (\<lambda>s job. rw_dlq (signer_world F lib cfg env cancelled now) (rj_relayID job) e s) s batch))"
proof (induction batch arbitrary: s)
  case (Cons job batch)
  let ?s1 = "s\<lparr>rs_rows := MarkRelayDLQ now (rj_relayID job) e (rs_rows s)\<rparr>"
  have "rw_dlq (signer_world F lib cfg env cancelled now) (rj_relayID job) e s = ?s1" by (simp add: signer_world_def)
  then show ?case using Cons.IH [of ?s1] given_up_mark by auto
qed simp



section \<open>The handler in front\<close>

text \<open>
  The checks of \<open>internal/server/paymaster_handlers.go\<close> on a relay request. The request is first
  trimmed; go-ethereum decides what an address is.
\<close>

definition isFixedHexBytes :: "string \<Rightarrow> nat \<Rightarrow> bool" where
  "isFixedHexBytes v wantBytes =
     (let raw = trim_prefix (trim_prefix v ''0x'') ''0X'' in length raw = wantBytes * 2 \<and> hex_decode raw \<noteq> None)"

definition isHexPayload :: "string \<Rightarrow> bool" where
  "isHexPayload v =
     (let raw = trim_prefix (trim_prefix v ''0x'') ''0X'' in raw \<noteq> [] \<and> length raw mod 2 = 0 \<and> hex_decode raw \<noteq> None)"

definition isAcceptedSignatureV :: "string \<Rightarrow> bool" where
  "isAcceptedSignatureV v \<longleftrightarrow> to_lower (trim_space v) \<in> {''0'', ''1'', ''27'', ''28'', ''0x0'', ''0x1'', ''0x1b'', ''0x1c''}"

datatype relay_field_error = MissingField string | InvalidField string

definition trimmed_request :: "RelayRequest \<Rightarrow> RelayRequest" where
  "trimmed_request req = \<lparr> lr_UserAddress = trim_space (lr_UserAddress req), lr_TxTo = trim_space (lr_TxTo req),
     lr_TxData = trim_space (lr_TxData req), lr_SigR = trim_space (lr_SigR req), lr_SigS = trim_space (lr_SigS req),
     lr_SigV = trim_space (lr_SigV req), lr_Amount = trim_space (lr_Amount req), lr_TokenAddr = trim_space (lr_TokenAddr req),
     lr_Network = to_upper (trim_space (lr_Network req)) \<rparr>"

definition validateRelayRequest :: "(string \<Rightarrow> bool) \<Rightarrow> RelayRequest \<Rightarrow> relay_field_error + RelayRequest" where
  "validateRelayRequest isHexAddress req =
     (let req = trimmed_request req in
      bind_result (guard (lr_UserAddress req = []) (MissingField ''user_address'')) (\<lambda>_.
      bind_result (guard (\<not> isHexAddress (lr_UserAddress req)) (InvalidField ''user_address'')) (\<lambda>_.
      bind_result (guard (lr_TxTo req = []) (MissingField ''tx_to'')) (\<lambda>_.
      bind_result (guard (\<not> isHexAddress (lr_TxTo req)) (InvalidField ''tx_to'')) (\<lambda>_.
      bind_result (guard (lr_TokenAddr req = []) (MissingField ''token_addr'')) (\<lambda>_.
      bind_result (guard (\<not> isHexAddress (lr_TokenAddr req)) (InvalidField ''token_addr'')) (\<lambda>_.
      bind_result (guard (lr_SigR req = [] \<or> lr_SigS req = [] \<or> lr_SigV req = []) (MissingField ''sig_r / sig_s / sig_v'')) (\<lambda>_.
      bind_result (guard (\<not> isFixedHexBytes (lr_SigR req) 32 \<or> \<not> isFixedHexBytes (lr_SigS req) 32) (InvalidField ''sig_r sig_s'')) (\<lambda>_.
      bind_result (guard (\<not> isAcceptedSignatureV (lr_SigV req)) (InvalidField ''sig_v'')) (\<lambda>_.
      bind_result (guard (lr_TxData req \<noteq> [] \<and> \<not> isHexPayload (lr_TxData req)) (InvalidField ''tx_data'')) (\<lambda>_.
      bind_result (guard (lr_Amount req = []) (MissingField ''amount'')) (\<lambda>_.
      let req = (if lr_Network req = [] then req\<lparr>lr_Network := ''BSC''\<rparr> else req) in
      bind_result (guard (lr_Network req \<noteq> ''BSC'' \<and> lr_Network req \<noteq> ''POLYGON'') (InvalidField ''network'')) (\<lambda>_.
      Inr req)))))))))))))"

lemma validateRelayRequest_sig:
  assumes "validateRelayRequest isHexAddress req = Inr req'"
  shows "lr_SigR req' = trim_space (lr_SigR req) \<and> lr_SigS req' = trim_space (lr_SigS req) \<and> isFixedHexBytes (lr_SigR req') 32 \<and>
    isFixedHexBytes (lr_SigS req') 32 \<and> isAcceptedSignatureV (lr_SigV req')"
  using assms unfolding validateRelayRequest_def Let_def bind_result_Inr guard_Inr
  by (auto simp: trimmed_request_def split: if_splits)

lemma fixed_hex_sig: "trim_space v = v \<Longrightarrow> isFixedHexBytes v n \<Longrightarrow> isRelaySigHex v n"
  by (simp add: isFixedHexBytes_def isRelaySigHex_def Let_def)

lemma stripHex_trim_prefix: "stripHex v = trim_prefix v ''0x''"
proof -
  have "length v \<ge> 2 \<and> take 2 v = ''0x'' \<longleftrightarrow> has_prefix v ''0x''"
    by (cases v; cases "tl v") (auto simp: has_prefix_def)
  then show ?thesis by (simp add: stripHex_def trim_prefix_def numeral_2_eq_2)
qed

lemma fixed_hex_decodes:
  assumes "isFixedHexBytes v n" "\<not> has_prefix (trim_prefix v ''0x'') ''0X''"
  shows "\<exists>bs. hex_decode (stripHex v) = Some bs"
  using assms by (simp add: isFixedHexBytes_def Let_def stripHex_trim_prefix trim_prefix_def [of "trim_prefix v ''0x''"])

text \<open>
  The two layers of checks agree: a request that the handler lets through is never refused by the
  service for the form of its signature, unless a word is written with the prefix \<open>0X\<close>, which the handler
  accepts and the service cannot decode.
\<close>

theorem handler_checks_cover_service:
  assumes "validateRelayRequest isHexAddress req = Inr req'" "SubmitRelay F sha256 True est w req' s = (answer, s')"
  shows "answer \<noteq> InvalidSignature \<and> (has_prefix (trim_prefix (lr_SigR req') ''0x'') ''0X'' \<or>
    has_prefix (trim_prefix (lr_SigS req') ''0x'') ''0X'' \<or> answer \<noteq> InvalidSigComponents)"
proof -
  note sig = validateRelayRequest_sig [OF assms(1)]
  have t: "trim_space (lr_SigR req') = lr_SigR req'" "trim_space (lr_SigS req') = lr_SigS req'" using sig by simp_all
  have "isRelaySigHex (lr_SigR req') 32" "isRelaySigHex (lr_SigS req') 32"
    using fixed_hex_sig [OF t(1)] fixed_hex_sig [OF t(2)] sig by blast+
  then have "validateRelaySignature (lr_SigR req') (lr_SigS req') (lr_SigV req')"
    using sig unfolding validateRelaySignature_def isAcceptedSignatureV_def by blast
  moreover have "answer \<noteq> InvalidSignature" if "validateRelaySignature (lr_SigR req') (lr_SigS req') (lr_SigV req')"
    using that assms(2) by (auto simp: SubmitRelay_def Let_def split: option.splits prod.splits bool.splits sum.splits if_splits)
  moreover have "answer \<noteq> InvalidSigComponents" if "PermitSigHash sha256 (lr_SigR req') (lr_SigS req') \<noteq> None"
      "validateRelaySignature (lr_SigR req') (lr_SigS req') (lr_SigV req')"
    using that assms(2) by (auto simp: SubmitRelay_def Let_def split: option.splits prod.splits bool.splits sum.splits if_splits)
  moreover have "PermitSigHash sha256 (lr_SigR req') (lr_SigS req') \<noteq> None"
    if "\<not> has_prefix (trim_prefix (lr_SigR req') ''0x'') ''0X''" "\<not> has_prefix (trim_prefix (lr_SigS req') ''0x'') ''0X''"
    using fixed_hex_decodes [OF _ that(1)] fixed_hex_decodes [OF _ that(2)] sig by (fastforce simp: PermitSigHash_def)
  ultimately show ?thesis by blast
qed

end
