(* ===== verification/Ip_Guard.thy ===== *)
theory Ip_Guard
  imports Go_Strings "HOL-Library.Word"
begin

text \<open>
  The checks that keep webhooks away from internal addresses: \<open>ValidateTargetURL\<close> and \<open>isDisallowedIP\<close> of
  \<open>internal/webhooks/webhooks.go\<close>, \<open>validateWebhookTargetURL\<close> and \<open>isPrivateOrReservedIP\<close> of
  \<open>internal/mobile/helpers_phase5.go\<close>, \<open>validateTargetURL\<close> of \<open>internal/workers/webhookdelivery.go\<close> and the two
  checks of \<open>internal/server/chainfx_webhook_helpers.go\<close>. An address has 128 bits, the IPv4 ones are mapped
  into it as Go keeps them. The parser of URLs and the name service are arguments.
\<close>

unbundle bit_operations_syntax

section \<open>Addresses and networks\<close>

type_synonym IP = "128 word"

text \<open>\<open>IP.To4\<close>: the IPv4 addresses are those of \<open>::ffff:0:0/96\<close>.\<close>

definition To4 :: "IP \<Rightarrow> 32 word option" where
  "To4 ip = (if drop_bit 32 ip = 0xFFFF then Some (ucast ip) else None)"

definition IPv4 :: "32 word \<Rightarrow> IP" where
  "IPv4 a = word_of_int (0xFFFF * 2 ^ 32 + uint a)"

text \<open>The result of \<open>ParseCIDR\<close>: the network and the length of its prefix.\<close>

datatype IPNet = Net4 "32 word" nat | Net6 "128 word" nat

definition quad :: "nat \<Rightarrow> nat \<Rightarrow> nat \<Rightarrow> nat \<Rightarrow> 32 word" where
  "quad a b c d = word_of_nat (a * 2 ^ 24 + b * 2 ^ 16 + c * 2 ^ 8 + d)"

fun Contains :: "IPNet \<Rightarrow> IP \<Rightarrow> bool" where
  "Contains (Net4 n p) ip = (case To4 ip of Some a \<Rightarrow> drop_bit (32 - p) a = drop_bit (32 - p) n | None \<Rightarrow> False)"
| "Contains (Net6 n p) ip = (case To4 ip of Some a \<Rightarrow> False | None \<Rightarrow> drop_bit (128 - p) ip = drop_bit (128 - p) n)"

text \<open>The predicates of Go's \<open>net.IP\<close>, on the bytes of the address.\<close>

definition byte4 :: "nat \<Rightarrow> 32 word \<Rightarrow> 32 word" where
  "byte4 i a = drop_bit (24 - 8 * i) a AND 0xFF"

definition byte6 :: "nat \<Rightarrow> IP \<Rightarrow> IP" where
  "byte6 i a = drop_bit (120 - 8 * i) a AND 0xFF"

definition IsUnspecified :: "IP \<Rightarrow> bool" where
  "IsUnspecified ip \<longleftrightarrow> ip = IPv4 0 \<or> ip = 0"

definition IsLoopback :: "IP \<Rightarrow> bool" where
  "IsLoopback ip \<longleftrightarrow> (case To4 ip of Some a \<Rightarrow> byte4 0 a = 127 | None \<Rightarrow> ip = 1)"

definition IsMulticast :: "IP \<Rightarrow> bool" where
  "IsMulticast ip \<longleftrightarrow> (case To4 ip of Some a \<Rightarrow> byte4 0 a AND 0xF0 = 0xE0 | None \<Rightarrow> byte6 0 ip = 0xFF)"

definition IsLinkLocalMulticast :: "IP \<Rightarrow> bool" where
  "IsLinkLocalMulticast ip \<longleftrightarrow>
     (case To4 ip of Some a \<Rightarrow> byte4 0 a = 224 \<and> byte4 1 a = 0 \<and> byte4 2 a = 0 | None \<Rightarrow> byte6 0 ip = 0xFF \<and> byte6 1 ip AND 0x0F = 2)"

definition IsLinkLocalUnicast :: "IP \<Rightarrow> bool" where
  "IsLinkLocalUnicast ip \<longleftrightarrow>
     (case To4 ip of Some a \<Rightarrow> byte4 0 a = 169 \<and> byte4 1 a = 254 | None \<Rightarrow> byte6 0 ip = 0xFE \<and> byte6 1 ip AND 0xC0 = 0x80)"

section \<open>The lists of the three guards\<close>

definition privateBlocks :: "IPNet list" where
  "privateBlocks =
     [Net4 (quad 10 0 0 0) 8, Net4 (quad 172 16 0 0) 12, Net4 (quad 192 168 0 0) 16,
      Net4 (quad 169 254 0 0) 16, Net4 (quad 127 0 0 0) 8, Net6 (push_bit 120 0xFC) 7, Net6 1 128,
      Net4 (quad 100 64 0 0) 10]"

definition isDisallowedIP :: "IP \<Rightarrow> bool" where
  "isDisallowedIP ip \<longleftrightarrow>
     IsLoopback ip \<or> IsLinkLocalUnicast ip \<or> IsLinkLocalMulticast ip \<or> IsUnspecified ip \<or> IsMulticast ip \<or>
     list_ex (\<lambda>cidr. Contains cidr ip) privateBlocks"

definition mobile_private :: "IPNet list" where
  "mobile_private =
     [Net4 (quad 127 0 0 0) 8, Net6 1 128, Net4 (quad 10 0 0 0) 8, Net4 (quad 172 16 0 0) 12, Net4 (quad 192 168 0 0) 16,
      Net4 (quad 169 254 0 0) 16, Net6 (push_bit 112 0xFE80) 10, Net6 (push_bit 120 0xFC) 7, Net4 (quad 0 0 0 0) 8,
      Net4 (quad 240 0 0 0) 4, Net4 (quad 224 0 0 0) 4, Net4 (quad 100 64 0 0) 10]"

definition isPrivateOrReservedIP :: "IP \<Rightarrow> bool" where
  "isPrivateOrReservedIP ip \<longleftrightarrow> list_ex (\<lambda>network. Contains network ip) mobile_private"

definition privateRanges :: "IPNet list" where
  "privateRanges =
     [Net4 (quad 127 0 0 0) 8, Net6 1 128, Net4 (quad 10 0 0 0) 8, Net4 (quad 172 16 0 0) 12,
      Net4 (quad 192 168 0 0) 16, Net4 (quad 169 254 0 0) 16, Net6 (push_bit 112 0xFE80) 10, Net6 (push_bit 120 0xFC) 7,
      Net4 (quad 100 64 0 0) 10, Net4 (quad 0 0 0 0) 8, Net4 (quad 240 0 0 0) 4, Net4 (quad 224 0 0 0) 4]"

section \<open>The checks of a URL\<close>

text \<open>
  What the checks use of \<open>net/url\<close> and \<open>net\<close>: the two parsers give the scheme and the host name, or fail;
  \<open>LookupHost\<close> gives texts, each with the address \<open>ParseIP\<close> reads from it, if it reads one.
\<close>

record net_lib =
  url_Parse :: "string \<Rightarrow> (string \<times> string) option"
  url_ParseRequestURI :: "string \<Rightarrow> (string \<times> string) option"
  LookupIP :: "string \<Rightarrow> IP list option"
  LookupHost :: "string \<Rightarrow> IP option list option"

datatype url_error =
  InvalidURL | SchemeNotAllowed | NoHost | HostBlocked | Unresolved | InternalAddress | ManualNeedsHTTPS | MetadataHost

definition has_suffix :: "string \<Rightarrow> string \<Rightarrow> bool" where
  "has_suffix s suf \<longleftrightarrow> has_prefix (rev s) (rev suf)"

definition ValidateTargetURL :: "net_lib \<Rightarrow> string \<Rightarrow> url_error + unit" where
  "ValidateTargetURL N raw =
     (case url_Parse N (trim_space raw) of
        None \<Rightarrow> Inl InvalidURL
      | Some (sch, host) \<Rightarrow>
          if to_lower sch \<noteq> ''http'' \<and> to_lower sch \<noteq> ''https'' then Inl SchemeNotAllowed
          else if host = [] then Inl NoHost
          else if equal_fold host ''localhost'' \<or> has_suffix (to_lower host) ''.localhost'' then Inl HostBlocked
          else case LookupIP N host of
                 None \<Rightarrow> Inl Unresolved
               | Some ips \<Rightarrow> if list_ex isDisallowedIP ips then Inl InternalAddress else Inr ())"

definition blocked_hosts :: "string list" where
  "blocked_hosts = [''localhost'', ''0.0.0.0'', ''::1'', ''metadata.google.internal'', ''169.254.169.254'']"

definition validateWebhookTargetURL :: "net_lib \<Rightarrow> string \<Rightarrow> url_error + unit" where
  "validateWebhookTargetURL N rawURL =
     (case url_ParseRequestURI N rawURL of
        None \<Rightarrow> Inl InvalidURL
      | Some (sch, host) \<Rightarrow>
          if sch \<noteq> ''http'' \<and> sch \<noteq> ''https'' then Inl SchemeNotAllowed
          else if host = [] then Inl NoHost
          else if to_lower host \<in> set blocked_hosts then Inl HostBlocked
          else case LookupHost N host of
                 None \<Rightarrow> Inl Unresolved
               | Some addrs \<Rightarrow>
                   if list_ex (\<lambda>addr. case addr of None \<Rightarrow> False | Some ip \<Rightarrow> isPrivateOrReservedIP ip) addrs
                   then Inl InternalAddress else Inr ())"

definition worker_validateTargetURL :: "net_lib \<Rightarrow> string \<Rightarrow> url_error + unit" where
  "worker_validateTargetURL N rawURL =
     (case url_ParseRequestURI N rawURL of
        None \<Rightarrow> Inl InvalidURL
      | Some (sch, host) \<Rightarrow>
          if sch \<noteq> ''http'' \<and> sch \<noteq> ''https'' then Inl SchemeNotAllowed
          else if to_lower host \<in> set blocked_hosts then Inl HostBlocked
          else case LookupHost N host of
                 None \<Rightarrow> Inr ()
               | Some addrs \<Rightarrow>
                   if list_ex (\<lambda>addr. case addr of None \<Rightarrow> False | Some ip \<Rightarrow> list_ex (\<lambda>network. Contains network ip) privateRanges) addrs
                   then Inl InternalAddress else Inr ())"

definition isAllowedWebhookURL :: "net_lib \<Rightarrow> string \<Rightarrow> bool" where
  "isAllowedWebhookURL N rawURL \<longleftrightarrow> validateWebhookTargetURL N rawURL = Inr ()"

definition validateWebhookDeliveryTarget :: "net_lib \<Rightarrow> string \<Rightarrow> url_error + unit" where
  "validateWebhookDeliveryTarget N targetURL =
     (case ValidateTargetURL N targetURL of
        Inl err \<Rightarrow> Inl err
      | Inr _ \<Rightarrow>
          case url_Parse N (trim_space targetURL) of
            None \<Rightarrow> Inl InvalidURL
          | Some (_, host) \<Rightarrow> if equal_fold host ''metadata.google.internal'' then Inl MetadataHost else Inr ())"

definition validateManualWebhookTarget :: "net_lib \<Rightarrow> string \<Rightarrow> url_error + unit" where
  "validateManualWebhookTarget N targetURL =
     (case validateWebhookDeliveryTarget N targetURL of
        Inl err \<Rightarrow> Inl err
      | Inr _ \<Rightarrow>
          case url_Parse N (trim_space targetURL) of
            None \<Rightarrow> Inl InvalidURL
          | Some (sch, _) \<Rightarrow> if to_lower sch \<noteq> ''https'' then Inl ManualNeedsHTTPS else Inr ())"


section \<open>Addresses as numbers\<close>

lemma uint_drop_bit: "uint (drop_bit k a) = uint a div 2 ^ k"
proof -
  have "uint (drop_bit k a) = drop_bit k (uint a)" using uint_lt2p [of a] by (simp add: unsigned_drop_bit_eq take_bit_int_eq_self del: drop_bit_eq_div)
  then show ?thesis by (simp only: drop_bit_eq_div)
qed

lemma drop_bit_eq_iff: "drop_bit k a = c \<longleftrightarrow> uint a div 2 ^ k = uint c"
  by (simp add: word_uint_eq_iff uint_drop_bit)

lemma and_mask_block: "(y :: int) AND push_bit k (mask m) = push_bit k (take_bit m (drop_bit k y))"
  by (rule bit_eqI) (auto simp: bit_simps)

lemma and_masks: "(y :: int) AND 0xF0 = 16 * (y div 16 mod 16)" "(y :: int) AND 0xC0 = 64 * (y div 64 mod 4)"
  "(y :: int) AND 0x0F = y mod 16" "(y :: int) AND 0xFF = y mod 256"
  using and_mask_block [of y 4 4] and_mask_block [of y 6 2] and_mask_block [of y 0 4] and_mask_block [of y 0 8]
  by (simp_all add: mask_eq_exp_minus_1 push_bit_eq_mult take_bit_eq_mod drop_bit_eq_div)

lemma uint_bound: "uint (a :: 32 word) < 2 ^ 32" "0 \<le> uint (a :: 32 word)"
  using uint_lt2p [of a] by simp_all

lemma uint_IPv4: "uint (IPv4 a) = 0xFFFF * 2 ^ 32 + uint a"
proof -
  have "(0xFFFF * 2 ^ 32 + uint a) mod 2 ^ 128 = 0xFFFF * 2 ^ 32 + uint a"
    using uint_bound [of a] by (intro mod_pos_pos_trivial) simp_all
  then show ?thesis unfolding IPv4_def by (subst uint_word_of_int) simp
qed

lemma To4_IPv4 [simp]: "To4 (IPv4 a) = Some a"
proof -
  have "uint (IPv4 a) div 2 ^ 32 = 0xFFFF" 
    by (rule int_div_pos_eq [of _ _ _ "uint a"]) (use uint_bound [of a] in \<open>simp_all add: uint_IPv4\<close>)
  moreover have "ucast (IPv4 a) = a" 
  proof -
    have "(0xFFFF * 2 ^ 32 + x) mod 2 ^ 32 = x" if "0 \<le> x" "x < 2 ^ 32" for x :: int
      using that by (simp only: mod_mult_self3 mod_pos_pos_trivial)
    from this [OF uint_bound(2,1)] have "(0xFFFF * 2 ^ 32 + uint a) mod 2 ^ 32 = uint a" .
    then show ?thesis by (simp add: word_uint_eq_iff unsigned_ucast_eq uint_IPv4 take_bit_eq_mod)
  qed
  ultimately show ?thesis by (simp add: To4_def drop_bit_eq_iff)
qed

lemma To4_Some: "To4 ip = Some a \<Longrightarrow> ip = IPv4 a"
proof -
  assume a: "To4 ip = Some a"
  then have "uint ip div 2 ^ 32 = 0xFFFF" "a = ucast ip" by (simp_all add: To4_def drop_bit_eq_iff split: if_splits)
  moreover from this(2) have "uint a = uint ip mod 2 ^ 32" by (simp add: unsigned_ucast_eq take_bit_eq_mod)
  ultimately have "uint ip = uint (IPv4 a)" using div_mult_mod_eq [of "uint ip" "2 ^ 32"] by (simp add: uint_IPv4)
  then show ?thesis by (simp add: word_uint_eq_iff)
qed
lemma uint_byte4: "uint (byte4 i a) = uint a div 2 ^ (24 - 8 * i) mod 256"
  by (simp add: byte4_def unsigned_and_eq uint_drop_bit and_masks)

lemma uint_byte6: "uint (byte6 i a) = uint a div 2 ^ (120 - 8 * i) mod 256"
  by (simp add: byte6_def unsigned_and_eq uint_drop_bit and_masks)


lemma masked_bytes:
  "byte4 i a AND 0xF0 = 0xE0 \<longleftrightarrow> (uint (byte4 i a) div 16) = 14"
  "byte6 i b AND 0x0F = 2 \<longleftrightarrow> uint (byte6 i b) mod 16 = 2"
  "byte6 i b AND 0xC0 = 0x80 \<longleftrightarrow> uint (byte6 i b) div 64 = 2"
  by (simp_all add: word_uint_eq_iff unsigned_and_eq and_masks uint_byte4 uint_byte6)

text \<open>The first octet and the second of an IPv4 address; the first group of an IPv6 one.\<close>

definition octet1 :: "32 word \<Rightarrow> int" where
  "octet1 a = uint a div 2 ^ 24"

definition octet2 :: "32 word \<Rightarrow> int" where
  "octet2 a = uint a div 2 ^ 16 mod 2 ^ 8"

definition group1 :: "IP \<Rightarrow> int" where
  "group1 a = uint a div 2 ^ 112"

lemma div_eq_range: "0 < k \<Longrightarrow> (x :: int) div k = c \<longleftrightarrow> k * c \<le> x \<and> x < k * c + k"
proof -
  assume k: "0 < k"
  have "k * (x div k) \<le> x" "x < k * (x div k) + k"
    using mult_div_mod_eq [of k x] pos_mod_sign [OF k, of x] pos_mod_bound [OF k, of x] by linarith+
  moreover have "x div k = c" if "k * c \<le> x" "x < k * c + k"
    by (rule int_div_pos_eq [of _ _ _ "x - k * c"]) (use that in simp_all)
  ultimately show ?thesis by auto
qed

lemma digits_eq_iff:
  fixes y :: int
  assumes "0 < k" "0 < m"
  shows "y div k = c \<longleftrightarrow> y div (k * m) = c div m \<and> y mod (k * m) div k = c mod m"
proof -
  have "y mod (k * m) div k = y div k mod m" using assms by (simp add: zmod_zmult2_eq)
  moreover have "y div (k * m) = y div k div m" using assms by (simp add: zdiv_zmult2_eq)
  ultimately show ?thesis by (metis div_mult_mod_eq)
qed

lemma prefix_octets:
  fixes a :: "32 word"
  shows "uint a div 2 ^ 16 = c \<longleftrightarrow> octet1 a = c div 256 \<and> octet2 a = c mod 256"
    and "uint a div 2 ^ 20 = c \<longleftrightarrow> octet1 a = c div 16 \<and> octet2 a div 16 = c mod 16"
    and "uint a div 2 ^ 22 = c \<longleftrightarrow> octet1 a = c div 4 \<and> octet2 a div 64 = c mod 4"
    and "uint a div 2 ^ 28 = octet1 a div 16" "uint a div 2 ^ 24 = octet1 a" "octet1 a mod 256 = octet1 a"
proof -
  define y where "y = uint a div 2 ^ 16"
  have o: "octet1 a = y div 256" "octet2 a = y mod 256" "uint a div 2 ^ 20 = y div 16" "uint a div 2 ^ 22 = y div 64" "uint a div 2 ^ 28 = y div 4096"
    by (simp_all add: octet1_def octet2_def y_def zdiv_zmult2_eq [symmetric])
  have "0 \<le> x \<Longrightarrow> x < 2 ^ 32 \<Longrightarrow> 0 \<le> x div 2 ^ 16 \<and> x div 2 ^ 16 < 65536" for x :: int by (simp add: pos_imp_zdiv_nonneg_iff)
  from this [OF uint_bound(2,1), of a] have y: "0 \<le> y" "y < 65536" by (simp_all only: y_def)
  show "uint a div 2 ^ 16 = c \<longleftrightarrow> octet1 a = c div 256 \<and> octet2 a = c mod 256" unfolding o unfolding y_def [symmetric] by (metis div_mult_mod_eq)
  show "uint a div 2 ^ 20 = c \<longleftrightarrow> octet1 a = c div 16 \<and> octet2 a div 16 = c mod 16" unfolding o using digits_eq_iff [of 16 16 y c] by simp
  show "uint a div 2 ^ 22 = c \<longleftrightarrow> octet1 a = c div 4 \<and> octet2 a div 64 = c mod 4" unfolding o using digits_eq_iff [of 64 4 y c] by simp
  show "uint a div 2 ^ 28 = octet1 a div 16" unfolding o by (simp add: zdiv_zmult2_eq [symmetric])
  show "uint a div 2 ^ 24 = octet1 a" by (simp add: octet1_def)
  show "octet1 a mod 256 = octet1 a" unfolding o using y by simp
qed


lemma contains_v4:
  "Contains (Net4 n 4) (IPv4 a) \<longleftrightarrow> uint a div 2 ^ 28 = uint n div 2 ^ 28"
  "Contains (Net4 n 8) (IPv4 a) \<longleftrightarrow> uint a div 2 ^ 24 = uint n div 2 ^ 24"
  "Contains (Net4 n 10) (IPv4 a) \<longleftrightarrow> uint a div 2 ^ 22 = uint n div 2 ^ 22"
  "Contains (Net4 n 12) (IPv4 a) \<longleftrightarrow> uint a div 2 ^ 20 = uint n div 2 ^ 20"
  "Contains (Net4 n 16) (IPv4 a) \<longleftrightarrow> uint a div 2 ^ 16 = uint n div 2 ^ 16"
  "Contains (Net6 m p) (IPv4 a) = False"
  by (simp_all add: drop_bit_eq_iff uint_drop_bit)

lemma quad_prefix:
  "uint (quad 10 0 0 0) div 2 ^ 24 = 10" "uint (quad 127 0 0 0) div 2 ^ 24 = 127" "uint (quad 0 0 0 0) div 2 ^ 24 = 0"
  "uint (quad 172 16 0 0) div 2 ^ 20 = 2753" "uint (quad 192 168 0 0) div 2 ^ 16 = 49320" "uint (quad 169 254 0 0) div 2 ^ 16 = 43518"
  "uint (quad 100 64 0 0) div 2 ^ 22 = 401" "uint (quad 240 0 0 0) div 2 ^ 28 = 15" "uint (quad 224 0 0 0) div 2 ^ 28 = 14"
  by (simp_all add: quad_def)

text \<open>The addresses that stay inside, of the form of an IPv4 address.\<close>

definition internal4 :: "int \<Rightarrow> int \<Rightarrow> bool" where
  "internal4 o1 o2 \<longleftrightarrow> o1 = 10 \<or> o1 = 127 \<or> (o1 = 172 \<and> 16 \<le> o2 \<and> o2 \<le> 31) \<or> (o1 = 192 \<and> o2 = 168) \<or> (o1 = 169 \<and> o2 = 254) \<or>
     (o1 = 100 \<and> 64 \<le> o2 \<and> o2 \<le> 127)"

lemma block_bounds:
  "(x :: int) div 16 = 1 \<longleftrightarrow> 16 \<le> x \<and> x \<le> 31" "(x :: int) div 64 = 1 \<longleftrightarrow> 64 \<le> x \<and> x \<le> 127"
  "(x :: int) div 16 = 15 \<longleftrightarrow> 240 \<le> x \<and> x < 256" "(x :: int) div 16 = 14 \<longleftrightarrow> 224 \<le> x \<and> x < 240"
  by (auto simp: div_eq_range)

lemma octet1_bounds: "0 \<le> octet1 a" "octet1 a < 256"
  using prefix_octets(6) [of a] pos_mod_bound [of 256 "octet1 a"] pos_mod_sign [of 256 "octet1 a"] by simp_all

lemma octets_const:
  "2753 div 16 = (172 :: int)" "2753 mod 16 = (1 :: int)" "49320 div 256 = (192 :: int)" "49320 mod 256 = (168 :: int)"
  "43518 div 256 = (169 :: int)" "43518 mod 256 = (254 :: int)" "401 div 4 = (100 :: int)" "401 mod 4 = (1 :: int)"
  "octet1 (quad 10 0 0 0) = 10" "octet1 (quad 127 0 0 0) = 127" "octet1 (quad 0 0 0 0) = 0"
  "octet1 (quad 240 0 0 0) div 16 = 15" "octet1 (quad 224 0 0 0) div 16 = 14"
  by (simp_all add: octet1_def quad_def)

lemmas v4_rules = contains_v4 quad_prefix prefix_octets(1-5) block_bounds

lemma list_ex_unfold: "list_ex P [] = False" "list_ex P (x # xs) \<longleftrightarrow> P x \<or> list_ex P xs"
  by simp_all

lemma blocks_v4:
  "list_ex (\<lambda>cidr. Contains cidr (IPv4 a)) privateBlocks \<longleftrightarrow> internal4 (octet1 a) (octet2 a)"
  "list_ex (\<lambda>cidr. Contains cidr (IPv4 a)) mobile_private \<longleftrightarrow> internal4 (octet1 a) (octet2 a) \<or> octet1 a = 0 \<or> (224 \<le> octet1 a \<and> octet1 a < 240) \<or> (240 \<le> octet1 a \<and> octet1 a < 256)"
  by (simp_all only: privateBlocks_def mobile_private_def list_ex_unfold v4_rules internal4_def octets_const block_bounds) blast+

lemma isDisallowedIP_v4: "isDisallowedIP (IPv4 a) \<longleftrightarrow> internal4 (octet1 a) (octet2 a) \<or> uint a = 0 \<or> (224 \<le> octet1 a \<and> octet1 a < 240)"
proof -
  have "0xFFFF * 2 ^ 32 + uint a \<noteq> 0" using add_pos_nonneg [of "0xFFFF * 2 ^ 32" "uint a"] by fastforce
  then have "IsUnspecified (IPv4 a) \<longleftrightarrow> uint a = 0" by (simp add: IsUnspecified_def word_uint_eq_iff uint_IPv4)
  moreover have b: "byte4 0 a = c \<longleftrightarrow> octet1 a = uint c" "byte4 1 a = c \<longleftrightarrow> octet2 a = uint c" for c
    using prefix_octets(6) [of a] by (simp_all add: octet1_def octet2_def word_uint_eq_iff uint_byte4)
  moreover have "IsMulticast (IPv4 a) \<longleftrightarrow> 224 \<le> octet1 a \<and> octet1 a < 240"
    using prefix_octets(6) [of a] block_bounds(4) [of "octet1 a"] by (simp add: IsMulticast_def masked_bytes uint_byte4 octet1_def)
  moreover have "IsLoopback (IPv4 a) \<longleftrightarrow> octet1 a = 127" "IsLinkLocalUnicast (IPv4 a) \<longleftrightarrow> octet1 a = 169 \<and> octet2 a = 254"
    by (simp_all add: IsLoopback_def IsLinkLocalUnicast_def b del: One_nat_def)
  moreover have "IsLinkLocalMulticast (IPv4 a) \<Longrightarrow> 224 \<le> octet1 a \<and> octet1 a < 240" by (simp add: IsLinkLocalMulticast_def b)
  ultimately show ?thesis unfolding isDisallowedIP_def blocks_v4 internal4_def by blast
qed


text \<open>The other addresses, by their first group.\<close>

lemma group1_parts:
  "uint ip div 2 ^ 121 = group1 ip div 512" "uint ip div 2 ^ 118 = group1 ip div 64"
  "uint (byte6 0 ip) = group1 ip div 256" "uint (byte6 1 ip) = group1 ip mod 256"
proof -
  have x: "0 \<le> uint ip" "uint ip < 2 ^ 128" using uint_lt2p [of ip] by simp_all
  have "0 \<le> x \<Longrightarrow> x < 2 ^ 128 \<Longrightarrow> x div 2 ^ 120 mod 256 = x div 2 ^ 120" for x :: int by (simp add: pos_imp_zdiv_nonneg_iff)
  from this [OF x] show "uint (byte6 0 ip) = group1 ip div 256"
    by (simp add: uint_byte6 group1_def zdiv_zmult2_eq [symmetric])
qed (simp_all add: uint_byte6 group1_def zdiv_zmult2_eq [symmetric])

lemma contains_v6:
  assumes "To4 ip = None"
  shows "Contains (Net4 n p) ip = False" "Contains (Net6 1 128) ip \<longleftrightarrow> ip = 1"
    "Contains (Net6 (push_bit 120 0xFC) 7) ip \<longleftrightarrow> group1 ip div 512 = 126" "Contains (Net6 (push_bit 112 0xFE80) 10) ip \<longleftrightarrow> group1 ip div 64 = 1018"
  using assms group1_parts(1,2) [of ip] by (simp_all add: drop_bit_eq_iff uint_drop_bit)

lemma group_bounds:
  "(x :: int) div 512 = 126 \<longleftrightarrow> 0xFC00 \<le> x \<and> x < 0xFE00" "(x :: int) div 64 = 1018 \<longleftrightarrow> 0xFE80 \<le> x \<and> x < 0xFEC0"
  "(x :: int) div 256 = 255 \<longleftrightarrow> 0xFF00 \<le> x \<and> x < 0x10000" "(x :: int) div 256 = 254 \<and> x mod 256 div 64 = 2 \<longleftrightarrow> x div 64 = 1018"
proof -
  show "(x :: int) div 256 = 254 \<and> x mod 256 div 64 = 2 \<longleftrightarrow> x div 64 = 1018" using digits_eq_iff [of 64 4 x 1018] by simp
qed (simp_all add: div_eq_range)

lemma blocks_v6:
  assumes "To4 ip = None"
  shows "list_ex (\<lambda>cidr. Contains cidr ip) privateBlocks \<longleftrightarrow> ip = 1 \<or> (0xFC00 \<le> group1 ip \<and> group1 ip < 0xFE00)"
    "list_ex (\<lambda>cidr. Contains cidr ip) mobile_private \<longleftrightarrow> ip = 1 \<or> (0xFC00 \<le> group1 ip \<and> group1 ip < 0xFE00) \<or> (0xFE80 \<le> group1 ip \<and> group1 ip < 0xFEC0)"
  by (simp_all only: privateBlocks_def mobile_private_def list_ex_unfold contains_v6 [OF assms] group_bounds) blast+

lemma isDisallowedIP_v6:
  assumes "To4 ip = None"
  shows "isDisallowedIP ip \<longleftrightarrow> ip = 0 \<or> ip = 1 \<or> (0xFC00 \<le> group1 ip \<and> group1 ip < 0xFE00) \<or>
    (0xFE80 \<le> group1 ip \<and> group1 ip < 0xFEC0) \<or> (0xFF00 \<le> group1 ip \<and> group1 ip < 0x10000)"
proof -
  have "ip \<noteq> IPv4 0" using assms To4_IPv4 [of 0] by auto
  then have "IsUnspecified ip \<longleftrightarrow> ip = 0" by (simp add: IsUnspecified_def)
  moreover have "IsLoopback ip \<longleftrightarrow> ip = 1" using assms by (simp add: IsLoopback_def)
  moreover have ff: "byte6 0 ip = 0xFF \<longleftrightarrow> 0xFF00 \<le> group1 ip \<and> group1 ip < 0x10000"
    using group_bounds(3) [of "group1 ip"] by (simp add: word_uint_eq_iff group1_parts)
  moreover have "IsMulticast ip \<longleftrightarrow> byte6 0 ip = 0xFF" "IsLinkLocalMulticast ip \<Longrightarrow> byte6 0 ip = 0xFF"
    using assms by (simp_all add: IsMulticast_def IsLinkLocalMulticast_def)
  moreover have "IsLinkLocalUnicast ip \<longleftrightarrow> 0xFE80 \<le> group1 ip \<and> group1 ip < 0xFEC0"
    using assms group_bounds(2,4) [of "group1 ip"] by (simp add: IsLinkLocalUnicast_def masked_bytes group1_parts word_uint_eq_iff [of "byte6 0 _"] del: One_nat_def)
  ultimately show ?thesis unfolding isDisallowedIP_def blocks_v6 [OF assms] by blast
qed


section \<open>What the checks let through\<close>

text \<open>The addresses on the public network, as far as the dispatcher of webhooks is concerned.\<close>

definition public_ip :: "IP \<Rightarrow> bool" where
  "public_ip ip \<longleftrightarrow>
     (case To4 ip of
        Some a \<Rightarrow> uint a \<noteq> 0 \<and> \<not> internal4 (octet1 a) (octet2 a) \<and> octet1 a \<notin> {224..239}
      | None \<Rightarrow> ip \<noteq> 0 \<and> ip \<noteq> 1 \<and> group1 ip \<notin> {0xFC00..0xFDFF} \<and> group1 ip \<notin> {0xFE80..0xFEBF} \<and> group1 ip < 0xFF00)"

lemma group1_bound: "group1 ip < 0x10000"
proof -
  have x: "0 \<le> uint ip" "uint ip < 2 ^ 128" using uint_lt2p [of ip] by simp_all
  have "0 \<le> x \<Longrightarrow> x < 2 ^ 128 \<Longrightarrow> x div 2 ^ 112 < 0x10000" for x :: int by simp
  from this [OF x] show ?thesis by (simp add: group1_def)
qed

lemma isDisallowedIP_public: "isDisallowedIP ip \<longleftrightarrow> \<not> public_ip ip"
proof (cases "To4 ip")
  case None
  then show ?thesis using group1_bound [of ip] by (auto simp: isDisallowedIP_v6 public_ip_def)
next
  case (Some a)
  then have "ip = IPv4 a" by (rule To4_Some)
  then show ?thesis by (auto simp: isDisallowedIP_v4 public_ip_def)
qed


text \<open>
  The check of the dispatcher and the checks of the mobile API and of the delivery worker differ on
  exactly these addresses: only the latter two refuse the rest of 0.0.0.0/8 and 240.0.0.0/4, and only the
  former refuses the unspecified address \<open>::\<close> and the multicast addresses of IPv6; the mobile API and the
  worker have the same ranges.
\<close>

theorem guards_differ_exactly:
  "(isDisallowedIP ip \<noteq> isPrivateOrReservedIP ip \<longleftrightarrow>
      (case To4 ip of Some a \<Rightarrow> (octet1 a = 0 \<and> 0 < uint a) \<or> 240 \<le> octet1 a | None \<Rightarrow> ip = 0 \<or> 0xFF00 \<le> group1 ip)) \<and>
   isPrivateOrReservedIP ip = list_ex (\<lambda>network. Contains network ip) privateRanges"
proof -
  have "isDisallowedIP ip \<noteq> isPrivateOrReservedIP ip \<longleftrightarrow>
      (case To4 ip of Some a \<Rightarrow> (octet1 a = 0 \<and> 0 < uint a) \<or> 240 \<le> octet1 a | None \<Rightarrow> ip = 0 \<or> 0xFF00 \<le> group1 ip)"
  proof (cases "To4 ip")
    case None
    have "group1 0 = 0" by (simp add: group1_def)
    then show ?thesis using None group1_bound [of ip]
      by (auto simp: isPrivateOrReservedIP_def isDisallowedIP_v6 blocks_v6 group1_def)
  next
    case (Some a)
    then have ip: "ip = IPv4 a" by (rule To4_Some)
    have "octet1 a = 0" if "uint a = 0" using that by (simp add: octet1_def)
    moreover have "0 < uint a \<longleftrightarrow> uint a \<noteq> 0" using uint_bound(2) [of a] by linarith
    ultimately show ?thesis using ip octet1_bounds [of a]
      by (auto simp: isPrivateOrReservedIP_def isDisallowedIP_v4 blocks_v4 internal4_def)
  qed
  moreover have "isPrivateOrReservedIP ip = list_ex (\<lambda>network. Contains network ip) privateRanges"
    by (auto simp: isPrivateOrReservedIP_def mobile_private_def privateRanges_def simp del: Contains.simps)
  ultimately show ?thesis by blast
qed

text \<open>
  A target whose host is the unspecified address \<open>::\<close> passes the check of the mobile API and the check
  of the worker, and a host that does not resolve passes the worker's: the dispatcher refuses both.
\<close>

theorem unspecified_target_passes:
  assumes "url_ParseRequestURI N raw = Some (sch, host)" "sch \<in> {''http'', ''https''}" "host \<noteq> []" "to_lower host \<notin> set blocked_hosts"
  shows "(LookupHost N host = Some [Some 0] \<longrightarrow> validateWebhookTargetURL N raw = Inr () \<and> worker_validateTargetURL N raw = Inr ()) \<and>
    (LookupHost N host = None \<longrightarrow> validateWebhookTargetURL N raw = Inl Unresolved \<and> worker_validateTargetURL N raw = Inr ()) \<and>
    isDisallowedIP 0"
proof -
  have "To4 0 = None" by (simp add: To4_def)
  then have "\<not> isPrivateOrReservedIP 0" "\<not> list_ex (\<lambda>network. Contains network 0) privateRanges" "isDisallowedIP 0"
    using blocks_v6(2) [of 0] isDisallowedIP_v6 [of 0]
    by (simp_all add: isPrivateOrReservedIP_def group1_def privateRanges_def mobile_private_def del: Contains.simps)
  then show ?thesis using assms by (auto simp: validateWebhookTargetURL_def worker_validateTargetURL_def)
qed

definition toy_net :: net_lib where
  "toy_net = \<lparr> url_Parse = \<lambda>s. Some (''https'', drop 8 s), url_ParseRequestURI = \<lambda>s. Some (''https'', drop 8 s),
     LookupIP = \<lambda>h. if h = ''::'' then Some [0] else if h = ''a.b'' then Some [IPv4 (quad 8 8 8 8)] else None,
     LookupHost = \<lambda>h. if h = ''::'' then Some [Some 0] else None \<rparr>"

theorem unspecified_target_passes_witness:
  "validateWebhookTargetURL toy_net ''https://::'' = Inr () \<and> worker_validateTargetURL toy_net ''https://::'' = Inr () \<and>
   worker_validateTargetURL toy_net ''https://x'' = Inr ()"
  using unspecified_target_passes [of toy_net "''https://::''" "''https''" "''::''"]
    unspecified_target_passes [of toy_net "''https://x''" "''https''" "''x''"]
  by (simp add: toy_net_def blocked_hosts_def to_lower_def lower_char_def)

end
