(* ===== verification/Event_Bus.thy ===== *)
theory Event_Bus
  imports Go_Strings "HOL-Library.Sublist" "HOL-Library.Word"
begin

text \<open>
  The bus between the workers, \<open>internal/workers/bus.go\<close>, and their dead-letter queue,
  \<open>internal/workers/dlq.go\<close>. A channel is a bounded buffer with an identity; sending to a closed channel
  and closing one twice are panics of Go and are recorded as such. A publisher holds the read lock, so
  channels come and go only between publications; while it waits for a full channel of a critical event the
  consumer may take events, and how many it takes is an argument.
\<close>

declare map_of_eq_Some_iff [simp del]

section \<open>Events and channels\<close>

record 'p Event =
  ev_Type :: string
  ev_OrderID :: string
  ev_Payload :: 'p

text \<open>A channel with what it holds; \<open>ch_log\<close> is what its consumer has received.\<close>

record 'p channel =
  ch_buf :: "'p Event list"
  ch_closed :: bool
  ch_log :: "'p Event list"

record 'p EventBus =
  eb_subscribers :: "(string, nat list) go_map"
  eb_channels :: "'p channel list"
  eb_closed :: bool
  eb_published :: "64 word"
  eb_dropped :: "64 word"
  eb_panic :: bool

definition NewEventBus :: "'p EventBus" where
  "NewEventBus = \<lparr> eb_subscribers = [], eb_channels = [], eb_closed = False, eb_published = 0, eb_dropped = 0, eb_panic = False \<rparr>"

definition defaultSubscriberBuffer :: nat where
  "defaultSubscriberBuffer = 100"

definition subs_of :: "string \<Rightarrow> 'p EventBus \<Rightarrow> nat list" where
  "subs_of t b = (case map_of (eb_subscribers b) t of None \<Rightarrow> [] | Some l \<Rightarrow> l)"

definition new_channel :: "bool \<Rightarrow> 'p channel" where
  "new_channel closed = \<lparr> ch_buf = [], ch_closed = closed, ch_log = [] \<rparr>"

definition Subscribe :: "string \<Rightarrow> 'p EventBus \<Rightarrow> nat \<times> 'p EventBus" where
  "Subscribe eventType b =
     (let ch = length (eb_channels b) in
      if eb_closed b then (ch, b\<lparr>eb_channels := eb_channels b @ [new_channel True]\<rparr>)
      else (ch, b\<lparr>eb_channels := eb_channels b @ [new_channel False],
                  eb_subscribers := AList.update eventType (subs_of eventType b @ [ch]) (eb_subscribers b)\<rparr>))"

text \<open>\<open>close(ch)\<close>: closing a closed channel panics.\<close>

definition close_channel :: "nat \<Rightarrow> 'p EventBus \<Rightarrow> 'p EventBus" where
  "close_channel ch b =
     (if ch_closed (eb_channels b ! ch) then b\<lparr>eb_panic := True\<rparr>
      else b\<lparr>eb_channels := (eb_channels b)[ch := (eb_channels b ! ch)\<lparr>ch_closed := True\<rparr>]\<rparr>)"

definition Unsubscribe :: "string \<Rightarrow> nat \<Rightarrow> 'p EventBus \<Rightarrow> 'p EventBus" where
  "Unsubscribe eventType ch b =
     (let subs = subs_of eventType b;
          b = (if ch \<in> set subs
               then close_channel ch (b\<lparr>eb_subscribers := AList.update eventType (remove1 ch subs) (eb_subscribers b)\<rparr>)
               else b) in
      if subs_of eventType b = [] then b\<lparr>eb_subscribers := AList.delete eventType (eb_subscribers b)\<rparr> else b)"

definition isCriticalMoneyEvent :: "string \<Rightarrow> bool" where
  "isCriticalMoneyEvent eventType \<longleftrightarrow> eventType \<in> set
     [''buy.paid'', ''buy.sent'', ''buy.failed'', ''payout.requested'', ''payout.settled'', ''payout.manual_required'',
      ''onchain.detected'', ''m2m.deposit.confirmed'', ''m2m.settlement.done'', ''m2m.settlement.failed'',
      ''nfc.capture.completed'', ''nfc.authorization.reversed'', ''nfc.authorization.expired'',
      ''nfc.settlement.manual_required'', ''nfc.settlement.submitted'', ''nfc.settlement.submission_unknown'',
      ''nfc.settlement.confirmed'', ''nfc.settlement.failed'', ''mobile.payout.requested'', ''sweep.sent'']"

text \<open>The consumer of a channel receives up to \<open>k\<close> events.\<close>

definition receive :: "nat \<Rightarrow> 'p channel \<Rightarrow> 'p channel" where
  "receive k c = c\<lparr>ch_buf := drop k (ch_buf c), ch_log := ch_log c @ take k (ch_buf c)\<rparr>"

definition try_send :: "'p Event \<Rightarrow> 'p channel \<Rightarrow> 'p channel option" where
  "try_send e c = (if length (ch_buf c) < defaultSubscriberBuffer then Some (c\<lparr>ch_buf := ch_buf c @ [e]\<rparr>) else None)"

text \<open>\<open>publishOne\<close>: whether the event was sent, and the channel. \<open>k\<close> is what the consumer takes during the wait of two seconds.\<close>

definition publishOne :: "nat \<Rightarrow> 'p Event \<Rightarrow> 'p channel \<Rightarrow> bool \<times> 'p channel" where
  "publishOne k e c =
     (case try_send e c of
        Some c \<Rightarrow> (True, c)
      | None \<Rightarrow>
          if \<not> isCriticalMoneyEvent (ev_Type e) then (False, c)
          else
            let c = receive k c in
            case try_send e c of Some c \<Rightarrow> (True, c) | None \<Rightarrow> (False, c))"

definition publish_to :: "(nat \<Rightarrow> nat) \<Rightarrow> 'p Event \<Rightarrow> nat \<Rightarrow> 'p EventBus \<Rightarrow> 'p EventBus" where
  "publish_to taken e ch b =
     (if ch_closed (eb_channels b ! ch) then b\<lparr>eb_panic := True\<rparr>
      else case publishOne (taken ch) e (eb_channels b ! ch) of
        (sent, c) \<Rightarrow>
          (let b = b\<lparr>eb_channels := (eb_channels b)[ch := c]\<rparr> in
           if sent then b else b\<lparr>eb_dropped := eb_dropped b + 1\<rparr>))"

definition Publish :: "(nat \<Rightarrow> nat) \<Rightarrow> 'p Event \<Rightarrow> 'p EventBus \<Rightarrow> 'p EventBus" where
  "Publish taken e b =
     (if eb_closed b then b\<lparr>eb_dropped := eb_dropped b + 1\<rparr>
      else foldl (\<lambda>b ch. publish_to taken e ch b) (b\<lparr>eb_published := eb_published b + 1\<rparr>) (subs_of (ev_Type e) b))"

record EventBusMetrics =
  em_Subscribers :: nat
  em_QueueSize :: nat
  em_Published :: "64 word"
  em_Dropped :: "64 word"
  em_Closed :: bool

definition Metrics :: "'p EventBus \<Rightarrow> EventBusMetrics" where
  "Metrics b = \<lparr> em_Subscribers = sum_list (map (length \<circ> snd) (eb_subscribers b)),
     em_QueueSize = sum_list (map (\<lambda>(_, subs). sum_list (map (\<lambda>ch. length (ch_buf (eb_channels b ! ch))) subs)) (eb_subscribers b)),
     em_Published = eb_published b, em_Dropped = eb_dropped b, em_Closed = eb_closed b \<rparr>"

definition Close :: "'p EventBus \<Rightarrow> 'p EventBus" where
  "Close b =
     (if eb_closed b then b
      else
        let b = foldl (\<lambda>b ch. close_channel ch b) (b\<lparr>eb_closed := True\<rparr>) (concat (map snd (eb_subscribers b))) in
        b\<lparr>eb_subscribers := []\<rparr>)"

section \<open>The dead-letter queue\<close>

record 'p DLQEntry =
  dl_OriginalEvent :: "'p Event"
  dl_FailedAt :: go_time
  dl_Reason :: string
  dl_Attempts :: int64

text \<open>The queue, with the entries given to the database sink when there is one, in the order in which the goroutines that write them are started.\<close>

record 'p DeadLetterQueue =
  dq_entries :: "'p DLQEntry list"
  dq_maxSize :: int64
  dq_sink :: "'p DLQEntry list option"

definition NewDLQ :: "int64 \<Rightarrow> bool \<Rightarrow> 'p DeadLetterQueue" where
  "NewDLQ maxSize hasSink =
     \<lparr> dq_entries = [], dq_maxSize = (if maxSize \<le> 0 then 10000 else maxSize), dq_sink = (if hasSink then Some [] else None) \<rparr>"

definition Push :: "go_time \<Rightarrow> 'p Event \<Rightarrow> int64 \<Rightarrow> string \<Rightarrow> 'p DeadLetterQueue \<Rightarrow> 'p DeadLetterQueue" where
  "Push now event attempts reason q =
     (let entry = \<lparr> dl_OriginalEvent = event, dl_FailedAt = now, dl_Reason = reason, dl_Attempts = attempts \<rparr>;
          entries = (if int (length (dq_entries q)) \<ge> dq_maxSize q then tl (dq_entries q) else dq_entries q) in
      q\<lparr>dq_entries := entries @ [entry], dq_sink := map_option (\<lambda>l. l @ [entry]) (dq_sink q)\<rparr>)"

definition Drain :: "'p DeadLetterQueue \<Rightarrow> 'p DLQEntry list \<times> 'p DeadLetterQueue" where
  "Drain q = (dq_entries q, q\<lparr>dq_entries := []\<rparr>)"

definition dlq_Len :: "'p DeadLetterQueue \<Rightarrow> nat" where
  "dlq_Len q = length (dq_entries q)"


section \<open>Histories of the bus\<close>

text \<open>
  The bus with its history: for each channel the events that were published to its subscription, and
  how often an event was published, altogether and after the bus was closed.
\<close>

record 'p bus_sys =
  bs_bus :: "'p EventBus"
  bs_seen :: "'p Event list list"
  bs_published :: nat
  bs_late :: nat

datatype 'p bus_op = OpSubscribe string | OpUnsubscribe string nat | OpPublish "nat \<Rightarrow> nat" "'p Event" | OpReceive nat nat | OpClose

definition note_event :: "'p Event \<Rightarrow> 'p Event list list \<Rightarrow> nat \<Rightarrow> 'p Event list list" where
  "note_event e seen ch = seen[ch := seen ! ch @ [e]]"

fun bus_step :: "'p bus_sys \<Rightarrow> 'p bus_op \<Rightarrow> 'p bus_sys" where
  "bus_step s (OpSubscribe t) = s\<lparr>bs_bus := snd (Subscribe t (bs_bus s)), bs_seen := bs_seen s @ [[]]\<rparr>"
| "bus_step s (OpUnsubscribe t ch) = s\<lparr>bs_bus := Unsubscribe t ch (bs_bus s)\<rparr>"
| "bus_step s (OpPublish taken e) =
     (if eb_closed (bs_bus s) then s\<lparr>bs_bus := Publish taken e (bs_bus s), bs_late := Suc (bs_late s)\<rparr>
      else s\<lparr>bs_bus := Publish taken e (bs_bus s), bs_published := Suc (bs_published s),
             bs_seen := foldl (note_event e) (bs_seen s) (subs_of (ev_Type e) (bs_bus s))\<rparr>)"
| "bus_step s (OpReceive ch k) =
     (if ch < length (eb_channels (bs_bus s))
      then s\<lparr>bs_bus := (bs_bus s)\<lparr>eb_channels := (eb_channels (bs_bus s))[ch := receive k (eb_channels (bs_bus s) ! ch)]\<rparr>\<rparr> else s)"
| "bus_step s OpClose = s\<lparr>bs_bus := Close (bs_bus s)\<rparr>"

definition bus_start :: "'p bus_sys" where
  "bus_start = \<lparr> bs_bus = NewEventBus, bs_seen = [], bs_published = 0, bs_late = 0 \<rparr>"

definition got :: "'p channel \<Rightarrow> 'p Event list" where
  "got c = ch_log c @ ch_buf c"

text \<open>The subscriptions: each channel at most once, and only open ones.\<close>

definition subs_ok :: "'p EventBus \<Rightarrow> bool" where
  "subs_ok b \<longleftrightarrow> map_ok (eb_subscribers b) \<and> (\<forall>t. distinct (subs_of t b)) \<and>
     (\<forall>t t'. t \<noteq> t' \<longrightarrow> set (subs_of t b) \<inter> set (subs_of t' b) = {}) \<and>
     (\<forall>t. \<forall>ch\<in>set (subs_of t b). ch < length (eb_channels b) \<and> \<not> ch_closed (eb_channels b ! ch)) \<and>
     \<not> eb_panic b \<and> (eb_closed b \<longrightarrow> eb_subscribers b = [])"

lemma subs_of_frame [simp]:
  "subs_of t (b\<lparr>eb_channels := x1\<rparr>) = subs_of t b" "subs_of t (b\<lparr>eb_published := x2\<rparr>) = subs_of t b"
  "subs_of t (b\<lparr>eb_dropped := x3\<rparr>) = subs_of t b" "subs_of t (b\<lparr>eb_closed := x4\<rparr>) = subs_of t b"
  "subs_of t (b\<lparr>eb_panic := x4\<rparr>) = subs_of t b"
  by (simp_all add: subs_of_def)

lemma subs_of_same: "eb_subscribers b' = eb_subscribers b \<Longrightarrow> subs_of t b' = subs_of t b"
  by (simp add: subs_of_def)

text \<open>The channels against the history, with \<open>lost\<close> events in between.\<close>

definition chan_ok :: "'p Event list \<Rightarrow> 'p channel \<Rightarrow> bool" where
  "chan_ok seen c \<longleftrightarrow> subseq (got c) seen \<and> length (ch_buf c) \<le> defaultSubscriberBuffer"

definition lost :: "'p Event list list \<Rightarrow> 'p channel list \<Rightarrow> nat" where
  "lost seen chans = sum_list (map2 (\<lambda>sn c. length sn - length (got c)) seen chans)"

lemma chan_ok_new: "chan_ok [] (new_channel c)"
  by (simp add: chan_ok_def got_def new_channel_def)

lemma chan_ok_receive: "chan_ok seen c \<Longrightarrow> chan_ok seen (receive k c)" "got (receive k c) = got c"
  by (auto simp: chan_ok_def got_def receive_def)

lemma chan_ok_closed: "chan_ok seen (c\<lparr>ch_closed := x\<rparr>) = chan_ok seen c" "got (c\<lparr>ch_closed := x\<rparr>) = got c"
  by (simp_all add: chan_ok_def got_def)

lemma try_send_spec:
  assumes "try_send e c = Some c'" "chan_ok seen c"
  shows "chan_ok (seen @ [e]) c' \<and> got c' = got c @ [e] \<and> ch_closed c' = ch_closed c"
proof -
  have "subseq (got c @ [e]) (seen @ [e])" using assms(2) list_emb_append_mono [of "(=)" "got c" seen "[e]" "[e]"] by (simp add: chan_ok_def)
  then show ?thesis using assms by (auto simp: try_send_def chan_ok_def got_def split: if_splits)
qed

lemma chan_ok_missed: "chan_ok seen c \<Longrightarrow> chan_ok (seen @ [e]) c"
  by (auto simp: chan_ok_def intro: subseq_rev_drop_many)

lemma publishOne_spec:
  assumes "publishOne k e c = (sent, c')" "chan_ok seen c"
  shows "chan_ok (seen @ [e]) c' \<and> got c' = (if sent then got c @ [e] else got c) \<and> ch_closed c' = ch_closed c"
  using assms(1) try_send_spec [OF _ assms(2)] try_send_spec [OF _ chan_ok_receive(1) [OF assms(2), of k]]
    chan_ok_missed [OF assms(2)] chan_ok_missed [OF chan_ok_receive(1) [OF assms(2), of k]]
  by (auto simp: publishOne_def Let_def chan_ok_receive(2) split: if_splits option.splits) (auto simp: receive_def)

text \<open>The joint invariant, and one channel of a publication.\<close>

definition bus_inv :: "'p bus_sys \<Rightarrow> bool" where
  "bus_inv s \<longleftrightarrow> subs_ok (bs_bus s) \<and> list_all2 chan_ok (bs_seen s) (eb_channels (bs_bus s)) \<and>
     eb_published (bs_bus s) = of_nat (bs_published s) \<and>
     eb_dropped (bs_bus s) = of_nat (bs_late s + lost (bs_seen s) (eb_channels (bs_bus s)))"

definition same_subs :: "'p EventBus \<Rightarrow> 'p EventBus \<Rightarrow> bool" where
  "same_subs b b' \<longleftrightarrow> eb_subscribers b' = eb_subscribers b \<and> eb_closed b' = eb_closed b \<and> eb_panic b' = eb_panic b \<and>
     eb_published b' = eb_published b \<and> map ch_closed (eb_channels b') = map ch_closed (eb_channels b)"

lemma lost_update:
  assumes "ch < length chans" "length seen = length chans"
  shows "lost (seen[ch := sn]) (chans[ch := c]) + (length (seen ! ch) - length (got (chans ! ch))) =
    lost seen chans + (length sn - length (got c))"
proof -
  let ?f = "\<lambda>(sn, c). length sn - length (got c)"
  have z: "zip (seen[ch := sn]) (chans[ch := c]) = (zip seen chans)[ch := (sn, c)]" by (simp add: update_zip)
  have "lost (seen[ch := sn]) (chans[ch := c]) = sum_list ((map ?f (zip seen chans))[ch := length sn - length (got c)])"
    by (simp add: lost_def z map_update)
  also have "\<dots> = sum_list (map ?f (zip seen chans)) + (length sn - length (got c)) - map ?f (zip seen chans) ! ch"
    using assms by (simp add: sum_list_update)
  finally have l: "lost (seen[ch := sn]) (chans[ch := c]) =
      lost seen chans + (length sn - length (got c)) - map ?f (zip seen chans) ! ch" by (simp only: lost_def)
  have "map ?f (zip seen chans) ! ch \<in> set (map ?f (zip seen chans))" using assms by (intro nth_mem) simp
  then have "map ?f (zip seen chans) ! ch \<le> lost seen chans" unfolding lost_def by (rule member_le_sum_list) simp
  then show ?thesis using l assms by simp
qed

lemma publish_to_spec:
  assumes "list_all2 chan_ok seen (eb_channels b)" "ch < length (eb_channels b)" "\<not> ch_closed (eb_channels b ! ch)"
    and "eb_dropped b = of_nat (n + lost seen (eb_channels b))"
  shows "same_subs b (publish_to taken e ch b) \<and> list_all2 chan_ok (note_event e seen ch) (eb_channels (publish_to taken e ch b)) \<and>
    eb_dropped (publish_to taken e ch b) = of_nat (n + lost (note_event e seen ch) (eb_channels (publish_to taken e ch b)))"
proof -
  let ?c = "eb_channels b ! ch"
  obtain sent c' where p: "publishOne (taken ch) e ?c = (sent, c')" by (cases "publishOne (taken ch) e ?c")
  have len: "length seen = length (eb_channels b)" using assms(1) by (rule list_all2_lengthD)
  have ok: "chan_ok (seen ! ch) ?c" using assms(1,2) len by (simp add: list_all2_nthD2)
  note spec = publishOne_spec [OF p ok]
  have bus: "publish_to taken e ch b = (let b' = b\<lparr>eb_channels := (eb_channels b)[ch := c']\<rparr> in if sent then b' else b'\<lparr>eb_dropped := eb_dropped b' + 1\<rparr>)"
    using assms(3) p by (simp add: publish_to_def)
  have "length (got ?c) \<le> length (seen ! ch)" using ok by (auto simp: chan_ok_def dest: list_emb_length)
  then have "lost (note_event e seen ch) ((eb_channels b)[ch := c']) = lost seen (eb_channels b) + (if sent then 0 else 1)"
    using lost_update [OF assms(2) len, of "seen ! ch @ [e]" c'] spec by (auto simp: note_event_def)
  moreover have "map ch_closed ((eb_channels b)[ch := c']) = map ch_closed (eb_channels b)"
    using spec assms(2) by (simp add: map_update list_update_same_conv)
  moreover have "list_all2 chan_ok (note_event e seen ch) ((eb_channels b)[ch := c'])"
    unfolding note_event_def using assms(1) spec by (simp add: list_all2_update_cong)
  ultimately show ?thesis using assms(4) by (simp add: bus same_subs_def Let_def)
qed


lemma publish_all_spec:
  assumes "list_all2 chan_ok seen (eb_channels b)" "eb_dropped b = of_nat (n + lost seen (eb_channels b))"
    and "\<forall>ch\<in>set chs. ch < length (eb_channels b) \<and> \<not> ch_closed (eb_channels b ! ch)"
  shows "same_subs b (foldl (\<lambda>b ch. publish_to taken e ch b) b chs) \<and>
    list_all2 chan_ok (foldl (note_event e) seen chs) (eb_channels (foldl (\<lambda>b ch. publish_to taken e ch b) b chs)) \<and>
    eb_dropped (foldl (\<lambda>b ch. publish_to taken e ch b) b chs) =
      of_nat (n + lost (foldl (note_event e) seen chs) (eb_channels (foldl (\<lambda>b ch. publish_to taken e ch b) b chs)))"
  using assms
proof (induction chs arbitrary: b seen)
  case Nil
  then show ?case by (simp add: same_subs_def)
next
  case (Cons ch chs)
  let ?b = "publish_to taken e ch b" and ?seen = "note_event e seen ch"
  have one: "same_subs b ?b" "list_all2 chan_ok ?seen (eb_channels ?b)" "eb_dropped ?b = of_nat (n + lost ?seen (eb_channels ?b))"
    using publish_to_spec [OF Cons.prems(1) _ _ Cons.prems(2), of ch taken e] Cons.prems(3) by auto
  have len: "length (eb_channels ?b) = length (eb_channels b)" using one(1) by (metis same_subs_def length_map)
  have cl: "ch_closed (eb_channels ?b ! i) = ch_closed (eb_channels b ! i)" if "i < length (eb_channels b)" for i
    using one(1) that len nth_map [of i "eb_channels ?b" ch_closed] nth_map [of i "eb_channels b" ch_closed] by (simp add: same_subs_def)
  show ?case using Cons.IH [OF one(2,3)] Cons.prems(3) one(1) len cl by (auto simp: same_subs_def)
qed

lemma subs_ok_same: "subs_ok b \<Longrightarrow> same_subs b b' \<Longrightarrow> subs_ok b'"
proof -
  assume ok: "subs_ok b" and same: "same_subs b b'"
  have len: "length (eb_channels b') = length (eb_channels b)" using same by (metis same_subs_def length_map)
  have "ch_closed (eb_channels b' ! i) = ch_closed (eb_channels b ! i)" if "i < length (eb_channels b)" for i
    using same that len nth_map [of i "eb_channels b'" ch_closed] nth_map [of i "eb_channels b" ch_closed] by (simp add: same_subs_def)
  moreover have "subs_of t b' = subs_of t b" for t using same by (intro subs_of_same) (simp add: same_subs_def)
  ultimately show ?thesis using ok same len by (simp add: subs_ok_def same_subs_def)
qed

lemma publish_inv:
  assumes "bus_inv s"
  shows "bus_inv (bus_step s (OpPublish taken e))"
proof (cases "eb_closed (bs_bus s)")
  case True
  then show ?thesis using assms by (simp add: bus_inv_def Publish_def subs_ok_def)
next
  case False
  let ?b = "(bs_bus s)\<lparr>eb_published := eb_published (bs_bus s) + 1\<rparr>" and ?chs = "subs_of (ev_Type e) (bs_bus s)"
  have "\<forall>ch\<in>set ?chs. ch < length (eb_channels ?b) \<and> \<not> ch_closed (eb_channels ?b ! ch)"
    using assms by (simp add: bus_inv_def subs_ok_def)
  with publish_all_spec [of "bs_seen s" ?b "bs_late s" ?chs taken e] assms have
    p: "same_subs ?b (Publish taken e (bs_bus s))" "list_all2 chan_ok (foldl (note_event e) (bs_seen s) ?chs) (eb_channels (Publish taken e (bs_bus s)))"
    "eb_dropped (Publish taken e (bs_bus s)) = of_nat (bs_late s + lost (foldl (note_event e) (bs_seen s) ?chs) (eb_channels (Publish taken e (bs_bus s))))"
    using False by (simp_all add: bus_inv_def Publish_def)
  have "subs_ok ?b" using assms by (simp add: bus_inv_def subs_ok_def)
  then have "subs_ok (Publish taken e (bs_bus s))" using p(1) by (rule subs_ok_same)
  moreover have "eb_published (Publish taken e (bs_bus s)) = of_nat (Suc (bs_published s))"
    using p(1) assms by (simp add: same_subs_def bus_inv_def)
  ultimately show ?thesis using p False by (simp add: bus_inv_def)
qed

lemma receive_inv:
  assumes "bus_inv s"
  shows "bus_inv (bus_step s (OpReceive ch k))"
proof (cases "ch < length (eb_channels (bs_bus s))")
  case True
  let ?chs = "eb_channels (bs_bus s)"
  have all: "list_all2 chan_ok (bs_seen s) ?chs" using assms by (simp add: bus_inv_def)
  then have len: "length (bs_seen s) = length ?chs" by (rule list_all2_lengthD)
  have "list_all2 chan_ok ((bs_seen s)[ch := bs_seen s ! ch]) (?chs[ch := receive k (?chs ! ch)])"
    using all True len by (intro list_all2_update_cong chan_ok_receive) (auto simp: list_all2_nthD2)
  moreover have "lost (bs_seen s) (?chs[ch := receive k (?chs ! ch)]) = lost (bs_seen s) ?chs"
    using lost_update [OF True len, of "bs_seen s ! ch" "receive k (?chs ! ch)"] by (simp add: chan_ok_receive)
  moreover have "same_subs (bs_bus s) ((bs_bus s)\<lparr>eb_channels := ?chs[ch := receive k (?chs ! ch)]\<rparr>)"
    using True by (simp add: same_subs_def map_update receive_def list_update_same_conv)
  then have "subs_ok ((bs_bus s)\<lparr>eb_channels := ?chs[ch := receive k (?chs ! ch)]\<rparr>)"
    using assms subs_ok_same by (auto simp: bus_inv_def)
  ultimately show ?thesis using assms True by (simp add: bus_inv_def)
next
  case False
  then show ?thesis using assms by simp
qed


lemma subs_of_update: "subs_of t' (b\<lparr>eb_subscribers := AList.update t l (eb_subscribers b)\<rparr>) = (if t' = t then l else subs_of t' b)"
  by (simp add: subs_of_def)

lemma subscribe_inv:
  assumes "bus_inv s"
  shows "bus_inv (bus_step s (OpSubscribe t))"
proof -
  let ?b = "bs_bus s" and ?n = "length (eb_channels (bs_bus s))"
  have all: "list_all2 chan_ok (bs_seen s) (eb_channels ?b)" using assms by (simp add: bus_inv_def)
  then have "list_all2 chan_ok (bs_seen s @ [[]]) (eb_channels ?b @ [new_channel c])" for c
    by (intro list_all2_appendI) (simp_all add: chan_ok_new)
  moreover have "lost (bs_seen s @ [[]]) (eb_channels ?b @ [new_channel c]) = lost (bs_seen s) (eb_channels ?b)" for c
    using list_all2_lengthD [OF all] by (simp add: lost_def)
  moreover have "subs_ok (snd (Subscribe t ?b))"
  proof (cases "eb_closed ?b")
    case True
    moreover from True have "eb_subscribers ?b = []" using assms by (simp add: bus_inv_def subs_ok_def)
    ultimately show ?thesis using assms by (simp add: Subscribe_def bus_inv_def subs_ok_def) (simp add: subs_of_def)
  next
    case False
    define b' where "b' = ?b\<lparr>eb_channels := eb_channels ?b @ [new_channel False], eb_subscribers := AList.update t (subs_of t ?b @ [?n]) (eb_subscribers ?b)\<rparr>"
    have ok: "subs_ok ?b" using assms by (simp add: bus_inv_def)
    have subs: "subs_of t' b' = (if t' = t then subs_of t ?b @ [?n] else subs_of t' ?b)" for t' by (simp add: b'_def subs_of_def)
    have old: "ch < ?n" "\<not> ch_closed (eb_channels ?b ! ch)" if "ch \<in> set (subs_of t' ?b)" for ch t' using ok that by (auto simp: subs_ok_def)
    have fresh: "?n \<notin> set (subs_of t' ?b)" for t' using old(1) by blast
    have "subs_ok b'" unfolding subs_ok_def subs
      using ok False fresh by (auto simp: subs_ok_def b'_def nth_append new_channel_def less_SucI dest: old)
    then show ?thesis using False by (simp add: Subscribe_def b'_def Let_def)
  qed
  ultimately show ?thesis using assms by (auto simp: bus_inv_def Subscribe_def Let_def)
qed

lemma close_channel_spec:
  assumes "list_all2 chan_ok seen (eb_channels b)" "ch < length (eb_channels b)" "\<not> ch_closed (eb_channels b ! ch)"
  shows "list_all2 chan_ok seen (eb_channels (close_channel ch b)) \<and> lost seen (eb_channels (close_channel ch b)) = lost seen (eb_channels b) \<and>
    eb_subscribers (close_channel ch b) = eb_subscribers b \<and> eb_panic (close_channel ch b) = eb_panic b \<and>
    eb_closed (close_channel ch b) = eb_closed b \<and> eb_published (close_channel ch b) = eb_published b \<and> eb_dropped (close_channel ch b) = eb_dropped b \<and>
    length (eb_channels (close_channel ch b)) = length (eb_channels b) \<and>
    (\<forall>i. i \<noteq> ch \<longrightarrow> eb_channels (close_channel ch b) ! i = eb_channels b ! i)"
proof -
  have len: "length seen = length (eb_channels b)" using assms(1) by (rule list_all2_lengthD)
  let ?c = "(eb_channels b ! ch)\<lparr>ch_closed := True\<rparr>"
  have "list_all2 chan_ok (seen[ch := seen ! ch]) ((eb_channels b)[ch := ?c])"
    using assms len by (intro list_all2_update_cong) (auto simp: list_all2_nthD2 chan_ok_closed)
  moreover have "lost seen ((eb_channels b)[ch := ?c]) = lost seen (eb_channels b)"
    using lost_update [OF assms(2) len, of "seen ! ch" ?c] by (simp add: chan_ok_closed)
  ultimately show ?thesis using assms(3) by (simp add: close_channel_def)
qed


lemma unsubscribe_inv:
  assumes "bus_inv s"
  shows "bus_inv (bus_step s (OpUnsubscribe t ch))"
proof -
  let ?b = "bs_bus s"
  let ?b1 = "?b\<lparr>eb_subscribers := AList.update t (remove1 ch (subs_of t ?b)) (eb_subscribers ?b)\<rparr>"
  define b2 where "b2 = (if ch \<in> set (subs_of t ?b) then close_channel ch ?b1 else ?b)"
  have ok: "subs_ok ?b" and all: "list_all2 chan_ok (bs_seen s) (eb_channels ?b)" using assms by (simp_all add: bus_inv_def)
  have b2: "subs_ok b2 \<and> list_all2 chan_ok (bs_seen s) (eb_channels b2) \<and> lost (bs_seen s) (eb_channels b2) = lost (bs_seen s) (eb_channels ?b) \<and>
    eb_published b2 = eb_published ?b \<and> eb_dropped b2 = eb_dropped ?b"
  proof (cases "ch \<in> set (subs_of t ?b)")
    case False
    then show ?thesis using ok all by (simp add: b2_def)
  next
    case True
    have open_ch: "ch < length (eb_channels ?b1)" "\<not> ch_closed (eb_channels ?b1 ! ch)" using True ok by (auto simp: subs_ok_def)
    have c: "b2 = close_channel ch ?b1" using True by (simp add: b2_def)
    note spec = close_channel_spec [of "bs_seen s" ?b1, OF _ open_ch, folded c]
    have subs: "subs_of t' b2 = (if t' = t then remove1 ch (subs_of t ?b) else subs_of t' ?b)" for t'
      using spec all subs_of_same [of b2 ?b1 t'] by (simp add: subs_of_update)
    have other: "ch \<notin> set (subs_of t' ?b)" if "t' \<noteq> t" for t' using ok True that by (auto simp: subs_ok_def)
    have "distinct (subs_of t ?b)" using ok by (simp add: subs_ok_def)
    then have rem: "set (remove1 ch (subs_of t ?b)) = set (subs_of t ?b) - {ch}" by (rule set_remove1_eq)
    have sub: "eb_subscribers b2 = AList.update t (remove1 ch (subs_of t ?b)) (eb_subscribers ?b)" and flags: "eb_panic b2 = eb_panic ?b" "eb_closed b2 = eb_closed ?b"
      and chans: "length (eb_channels b2) = length (eb_channels ?b)" "\<And>i. i \<noteq> ch \<Longrightarrow> eb_channels b2 ! i = eb_channels ?b ! i" using spec all by simp_all
    have was: "subs_of t' b2 = filter (\<lambda>i. i \<noteq> ch) (subs_of t' ?b)" for t'
      using subs [of t'] other [of t'] \<open>distinct (subs_of t ?b)\<close> by (cases "t' = t") (auto simp: distinct_remove1_removeAll removeAll_filter_not_eq filter_id_conv intro!: filter_cong sym [OF filter_True])
    have "\<not> eb_closed ?b" using ok True by (auto simp: subs_ok_def subs_of_def)
    moreover have "map_ok (eb_subscribers b2)" using ok by (simp add: subs_ok_def sub)
    moreover have "\<forall>t'. distinct (subs_of t' b2)" using ok by (simp add: subs_ok_def was)
    moreover have "\<forall>t1 t2. t1 \<noteq> t2 \<longrightarrow> set (subs_of t1 b2) \<inter> set (subs_of t2 b2) = {}" using ok unfolding subs_ok_def was by auto
    moreover have "\<forall>t'. \<forall>i\<in>set (subs_of t' b2). i < length (eb_channels b2) \<and> \<not> ch_closed (eb_channels b2 ! i)"
      using ok chans unfolding subs_ok_def was by auto
    ultimately have "subs_ok b2" using ok unfolding subs_ok_def flags by blast
    then show ?thesis using spec all by simp
  qed
  have "subs_ok (b2\<lparr>eb_subscribers := AList.delete t (eb_subscribers b2)\<rparr>)" if "subs_of t b2 = []"
  proof -
    have "subs_of t' (b2\<lparr>eb_subscribers := AList.delete t (eb_subscribers b2)\<rparr>) = subs_of t' b2" for t'
      using that by (auto simp: subs_of_def)
    then show ?thesis using b2 by (simp add: subs_ok_def)
  qed
  moreover have "Unsubscribe t ch ?b = (if subs_of t b2 = [] then b2\<lparr>eb_subscribers := AList.delete t (eb_subscribers b2)\<rparr> else b2)"
    by (simp only: Unsubscribe_def b2_def Let_def)
  ultimately show ?thesis using b2 assms by (simp add: bus_inv_def)
qed

lemma close_all_spec:
  assumes "list_all2 chan_ok seen (eb_channels b)" "distinct chs" "\<forall>ch\<in>set chs. ch < length (eb_channels b) \<and> \<not> ch_closed (eb_channels b ! ch)"
  shows "list_all2 chan_ok seen (eb_channels (foldl (\<lambda>b ch. close_channel ch b) b chs)) \<and>
    lost seen (eb_channels (foldl (\<lambda>b ch. close_channel ch b) b chs)) = lost seen (eb_channels b) \<and>
    eb_panic (foldl (\<lambda>b ch. close_channel ch b) b chs) = eb_panic b \<and> eb_published (foldl (\<lambda>b ch. close_channel ch b) b chs) = eb_published b \<and>
    eb_dropped (foldl (\<lambda>b ch. close_channel ch b) b chs) = eb_dropped b"
  using assms
proof (induction chs arbitrary: b)
  case (Cons ch chs)
  let ?b = "close_channel ch b"
  have ch: "ch < length (eb_channels b)" "\<not> ch_closed (eb_channels b ! ch)" using Cons.prems(3) by simp_all
  note spec = close_channel_spec [OF Cons.prems(1) ch]
  have "\<forall>i\<in>set chs. i < length (eb_channels ?b) \<and> \<not> ch_closed (eb_channels ?b ! i)" using Cons.prems(2,3) spec by auto
  then show ?case using Cons.IH [of ?b] Cons.prems(2) spec by simp
qed simp

lemma concat_subs: "map_ok m \<Longrightarrow> (\<forall>t l. map_of m t = Some l \<longrightarrow> distinct l) \<Longrightarrow>
    (\<forall>t t' l l'. t \<noteq> t' \<longrightarrow> map_of m t = Some l \<longrightarrow> map_of m t' = Some l' \<longrightarrow> set l \<inter> set l' = {}) \<Longrightarrow> distinct (concat (map snd m))"
proof (induction m)
  case (Cons p m)
  obtain t l where p: "p = (t, l)" by (cases p)
  have new: "map_of m t = None" using Cons.prems(1) p by (simp add: map_of_eq_None_iff)
  have sub: "map_of (p # m) t' = Some l'" if "map_of m t' = Some l'" for t' l' using that new p by auto
  have "distinct (concat (map snd m))"
    by (rule Cons.IH) (use Cons.prems sub in \<open>auto, meson+\<close>)
  moreover have "set l \<inter> set l' = {}" if "(t', l') \<in> set m" for t' l'
  proof -
    have "map_of m t' = Some l'" using that Cons.prems(1) by simp
    moreover have "t' \<noteq> t" using that Cons.prems(1) p by force
    ultimately show ?thesis using Cons.prems(3) sub p by (metis map_of_Cons_code(2))
  qed
  moreover have "distinct l" using Cons.prems(2) [rule_format, of t l] p by simp
  ultimately show ?case by (fastforce simp: p)
qed simp

lemma close_inv:
  assumes "bus_inv s"
  shows "bus_inv (bus_step s OpClose)"
proof (cases "eb_closed (bs_bus s)")
  case True
  then show ?thesis using assms by (simp add: Close_def)
next
  case False
  let ?b = "bs_bus s"
  let ?chs = "concat (map snd (eb_subscribers ?b))"
  have ok: "subs_ok ?b" and all: "list_all2 chan_ok (bs_seen s) (eb_channels ?b)" using assms by (simp_all add: bus_inv_def)
  have m: "map_ok (eb_subscribers ?b)" using ok by (simp add: subs_ok_def)
  have sub: "subs_of t ?b = l" if "map_of (eb_subscribers ?b) t = Some l" for t l using that by (simp add: subs_of_def)
  have "distinct ?chs"
  proof (rule concat_subs [OF m])
    show "\<forall>t l. map_of (eb_subscribers ?b) t = Some l \<longrightarrow> distinct l" using ok sub by (auto simp: subs_ok_def)
    show "\<forall>t t' l l'. t \<noteq> t' \<longrightarrow> map_of (eb_subscribers ?b) t = Some l \<longrightarrow> map_of (eb_subscribers ?b) t' = Some l' \<longrightarrow> set l \<inter> set l' = {}"
      using ok sub unfolding subs_ok_def by blast
  qed
  moreover have "\<forall>ch\<in>set ?chs. ch < length (eb_channels ?b) \<and> \<not> ch_closed (eb_channels ?b ! ch)"
  proof
    fix ch assume "ch \<in> set ?chs"
    then obtain t l where "(t, l) \<in> set (eb_subscribers ?b)" "ch \<in> set l" by auto
    then have "ch \<in> set (subs_of t ?b)" using m sub by (auto dest: map_of_is_SomeI)
    then show "ch < length (eb_channels ?b) \<and> \<not> ch_closed (eb_channels ?b ! ch)" using ok by (auto simp: subs_ok_def)
  qed
  ultimately have "bus_inv s" and spec: "list_all2 chan_ok (bs_seen s) (eb_channels (Close ?b)) \<and>
      lost (bs_seen s) (eb_channels (Close ?b)) = lost (bs_seen s) (eb_channels ?b) \<and> eb_panic (Close ?b) = eb_panic ?b \<and>
      eb_published (Close ?b) = eb_published ?b \<and> eb_dropped (Close ?b) = eb_dropped ?b \<and> eb_subscribers (Close ?b) = []"
    using close_all_spec [of "bs_seen s" "?b\<lparr>eb_closed := True\<rparr>" ?chs] assms all False by (auto simp: Close_def Let_def)
  then have "subs_ok (Close ?b)" using ok by (simp add: subs_ok_def) (simp add: subs_of_def)
  then show ?thesis using assms spec by (simp add: bus_inv_def)
qed

lemma bus_step_inv: "bus_inv s \<Longrightarrow> bus_inv (bus_step s p)"
  by (cases p) (simp_all only: publish_inv receive_inv subscribe_inv unsubscribe_inv close_inv)

lemma bus_start_inv: "bus_inv bus_start"
  by (simp add: bus_inv_def bus_start_def NewEventBus_def subs_ok_def lost_def subs_of_def)

interpretation eb: transition_system "\<lambda>s. s = bus_start" bus_step "\<lambda>_ _. True" bus_inv
  by unfold_locales (auto intro: bus_step_inv bus_start_inv)

definition bus_run :: "'p bus_op list \<Rightarrow> 'p bus_sys" where
  "bus_run ops = foldl bus_step bus_start ops"

lemma bus_run_inv: "bus_inv (bus_run ops)"
proof -
  have "bus_run ops = eb.run bus_start ops" unfolding bus_run_def by (induction ops rule: rev_induct) (simp_all add: eb.run_append)
  moreover have "eb.admissible s ops" for s :: "'a bus_sys" by (induction ops arbitrary: s) simp_all
  ultimately show ?thesis using eb.run_inv bus_start_inv by metis
qed

text \<open>
  C35. Whatever is subscribed, unsubscribed, published, received and closed in whatever order: the bus
  never sends to a closed channel and never closes one twice; every consumer has received and will
  receive, in the order of publication and without duplicates, some of the events published to its
  subscription; no channel holds more than 100 events; and the two counters say exactly how many events
  were published and how many were not delivered, late or because a channel was full.
\<close>

theorem bus_delivers_in_order:
  "let s = bus_run ops; b = bs_bus s in
     \<not> eb_panic b \<and>
     list_all2 (\<lambda>seen c. subseq (ch_log c @ ch_buf c) seen \<and> length (ch_buf c) \<le> 100) (bs_seen s) (eb_channels b) \<and>
     eb_published b = of_nat (bs_published s) \<and>
     eb_dropped b = of_nat (bs_late s + sum_list (map2 (\<lambda>seen c. length seen - length (ch_log c @ ch_buf c)) (bs_seen s) (eb_channels b)))"
proof -
  have inv: "bus_inv (bus_run ops)" by (rule bus_run_inv)
  then have "list_all2 (\<lambda>seen c. subseq (ch_log c @ ch_buf c) seen \<and> length (ch_buf c) \<le> 100) (bs_seen (bus_run ops)) (eb_channels (bs_bus (bus_run ops)))"
    by (auto simp: bus_inv_def chan_ok_def got_def defaultSubscriberBuffer_def elim: list_all2_mono)
  then show ?thesis using inv by (simp add: Let_def bus_inv_def subs_ok_def lost_def got_def)
qed

section \<open>The dead letters kept\<close>

definition dlq_cap :: "int64 \<Rightarrow> nat" where
  "dlq_cap maxSize = (if maxSize \<le> 0 then 10000 else nat maxSize)"

definition push_entry :: "'p DeadLetterQueue \<Rightarrow> 'p DLQEntry \<Rightarrow> 'p DeadLetterQueue" where
  "push_entry q en = Push (dl_FailedAt en) (dl_OriginalEvent en) (dl_Attempts en) (dl_Reason en) q"

lemma push_entries:
  "foldl push_entry (NewDLQ maxSize hasSink) es =
     \<lparr> dq_entries = drop (length es - dlq_cap maxSize) es, dq_maxSize = int (dlq_cap maxSize), dq_sink = (if hasSink then Some es else None) \<rparr>"
proof (induction es rule: rev_induct)
  case Nil
  then show ?case by (simp add: NewDLQ_def dlq_cap_def)
next
  case (snoc en es)
  have "0 < dlq_cap maxSize" by (simp add: dlq_cap_def)
  moreover have "\<lparr> dl_OriginalEvent = dl_OriginalEvent en, dl_FailedAt = dl_FailedAt en, dl_Reason = dl_Reason en, dl_Attempts = dl_Attempts en \<rparr> = en" by simp
  moreover have "tl (drop (length es - dlq_cap maxSize) es) = drop (Suc (length es - dlq_cap maxSize)) es" by (simp add: drop_Suc tl_drop)
  ultimately show ?case using snoc by (auto simp: push_entry_def Push_def Let_def Suc_diff_le)
qed

text \<open>
  After any pushes the queue holds the most recent of them, as many as its size allows and in the
  order they failed; a drain returns exactly these and leaves the queue empty with its size; the sink,
  when there is one, has been given every entry, also those the queue no longer holds. A size of zero is
  10000 entries.
\<close>

theorem dlq_keeps_most_recent:
  "let q = foldl push_entry (NewDLQ maxSize hasSink) es; cap = (if maxSize \<le> 0 then 10000 else nat maxSize) in
     rev (take cap (rev es)) = fst (Drain q) \<and> dlq_Len q = min cap (length es) \<and>
     dlq_Len (snd (Drain q)) = 0 \<and> dq_maxSize (snd (Drain q)) = int cap \<and> dq_sink q = (if hasSink then Some es else None)"
proof -
  have "rev (take n (rev es)) = drop (length es - n) es" for n by (simp add: take_rev)
  then show ?thesis by (auto simp: Let_def push_entries Drain_def dlq_Len_def dlq_cap_def [of maxSize, symmetric])
qed

end
