(* ===== verification/Webhooks.thy ===== *)
theory Webhooks
  imports Ip_Guard Event_Bus Request_Security
begin

text \<open>
  The outbound automation webhooks: the dispatcher, its retry queue, a delivery and the registry of
  \<open>internal/webhooks\<close>, with the two tables of \<open>internal/database/webhooks.go\<close> and the test operations of
  \<open>internal/server/automation.go\<close> and \<open>internal/mcp/tools.go\<close>. A payload is a Go map, which is shared by
  reference: the payloads are kept in a store and the jobs of the queue hold their addresses. The JSON
  encoder, the message authentication code, the name service and the receivers are arguments.
\<close>

declare map_of_eq_Some_iff [simp del]

section \<open>Events\<close>

definition AllEvents :: "string list" where
  "AllEvents =
     [''order.created'', ''order.completed'', ''order.failed'', ''payment.received'', ''payout.sent'', ''price.change'', ''dca.executed'',
      ''m2m.intent.created'', ''m2m.deposit.received'', ''m2m.overpayment.detected'', ''m2m.card_payment.due'',
      ''m2m.settlement.done'', ''m2m.settlement.failed'',
      ''capability.purchased'', ''capability.executed'', ''capability.granted'',
      ''nfc.capture.completed'', ''nfc.authorization.reversed'', ''nfc.authorization.expired'']"

definition IsKnownEvent :: "string \<Rightarrow> bool" where
  "IsKnownEvent event \<longleftrightarrow> list_ex (\<lambda>e. e = event) AllEvents"

definition busEventMapping :: "string \<Rightarrow> string list" where
  "busEventMapping eventType =
     (if eventType \<in> {''order.created'', ''buy.created''} then [''order.created'']
      else if eventType = ''buy.paid'' then [''payment.received'']
      else if eventType = ''payout.settled'' then [''order.completed'', ''payout.sent'']
      else if eventType \<in> {''buy.sent'', ''sweep.sent''} then [''order.completed'']
      else if eventType = ''price.updated'' then [''price.change'']
      else if eventType = ''dca.buy.requested'' then [''dca.executed'']
      else if eventType \<in> {''order.failed'', ''buy.failed''} then [''order.failed'']
      else if eventType = ''m2m.intent.created'' then [''m2m.intent.created'']
      else if eventType = ''m2m.deposit.confirmed'' then [''m2m.deposit.received'']
      else if eventType = ''m2m.overpayment.detected'' then [''m2m.overpayment.detected'']
      else if eventType = ''m2m.card_payment.due'' then [''m2m.card_payment.due'']
      else if eventType = ''m2m.settlement.done'' then [''m2m.settlement.done'']
      else if eventType = ''m2m.settlement.failed'' then [''m2m.settlement.failed'']
      else if eventType = ''marketplace.capability.purchased'' then [''capability.purchased'']
      else if eventType = ''marketplace.capability.granted'' then [''capability.granted'']
      else if eventType = ''marketplace.capability.executed'' then [''capability.executed'']
      else if eventType = ''nfc.capture.completed'' then [''nfc.capture.completed'', ''payment.received'']
      else if eventType = ''nfc.authorization.reversed'' then [''nfc.authorization.reversed'']
      else if eventType = ''nfc.authorization.expired'' then [''nfc.authorization.expired'']
      else [])"

definition busTypes :: "string list" where
  "busTypes =
     [''order.created'', ''buy.created'', ''buy.paid'', ''payout.settled'',
      ''buy.sent'', ''sweep.sent'', ''price.updated'', ''dca.buy.requested'',
      ''order.failed'', ''buy.failed'',
      ''m2m.intent.created'', ''m2m.deposit.confirmed'',
      ''m2m.overpayment.detected'', ''m2m.card_payment.due'',
      ''m2m.settlement.done'', ''m2m.settlement.failed'',
      ''marketplace.capability.purchased'', ''marketplace.capability.granted'',
      ''marketplace.capability.executed'',
      ''nfc.capture.completed'', ''nfc.authorization.reversed'', ''nfc.authorization.expired'']"

section \<open>Subscriptions and deliveries in the database\<close>

record WebhookSubscription =
  wh_ID :: string
  wh_Provider :: string
  wh_TargetURL :: string
  wh_Secret :: "string option"
  wh_Events :: "string list"
  wh_Active :: bool
  wh_Description :: "string option"
  wh_AgentKeyHash :: "string option"
  wh_CreatedBy :: string
  wh_CreatedAt :: go_time
  wh_UpdatedAt :: go_time
  wh_LastTriggeredAt :: "go_time option"
  wh_LastStatusCode :: "int64 option"
  wh_LastError :: "string option"
  wh_FailureCount :: int64

record 'b WebhookDelivery =
  wd_ID :: string
  wd_SubscriptionID :: string
  wd_Event :: string
  wd_Payload :: 'b
  wd_StatusCode :: int64
  wd_OK :: bool
  wd_Error :: "string option"
  wd_Attempt :: int64
  wd_CreatedAt :: go_time

record 'b webhook_tables =
  wt_subs :: "WebhookSubscription list"
  wt_deliveries :: "'b WebhookDelivery list"

definition nullableString :: "string \<Rightarrow> string option" where
  "nullableString s = (if s = [] then None else Some s)"

text \<open>\<open>id\<close> is the fresh identifier; the insertion fails on an identifier in use.\<close>

definition GetWebhookSubscription :: "string \<Rightarrow> 'b webhook_tables \<Rightarrow> WebhookSubscription option" where
  "GetWebhookSubscription i t = find (\<lambda>s. wh_ID s = i) (wt_subs t)"

definition CreateWebhookSubscription ::
  "string \<Rightarrow> go_time \<Rightarrow> string \<Rightarrow> string \<Rightarrow> string \<Rightarrow> string \<Rightarrow> string \<Rightarrow> string \<Rightarrow> string list \<Rightarrow> 'b webhook_tables \<Rightarrow>
     WebhookSubscription option \<times> 'b webhook_tables" where
  "CreateWebhookSubscription i now provider targetURL secret description agentKeyHash createdBy events t =
     (if list_ex (\<lambda>s. wh_ID s = i) (wt_subs t) then (None, t)
      else
        let s = \<lparr> wh_ID = i, wh_Provider = provider, wh_TargetURL = targetURL, wh_Secret = Some secret, wh_Events = events,
                  wh_Active = True, wh_Description = Some description,
                  wh_AgentKeyHash = (if agentKeyHash \<noteq> [] then Some agentKeyHash else None),
                  wh_CreatedBy = (if createdBy = [] then ''web'' else createdBy), wh_CreatedAt = now, wh_UpdatedAt = now,
                  wh_LastTriggeredAt = None, wh_LastStatusCode = None, wh_LastError = None, wh_FailureCount = 0 \<rparr>;
            t = t\<lparr>wt_subs := wt_subs t @ [s]\<rparr> in
        (GetWebhookSubscription i t, t))"

definition ListWebhookSubscriptions :: "'b webhook_tables \<Rightarrow> WebhookSubscription list" where
  "ListWebhookSubscriptions t = rev (sort_key wh_CreatedAt (wt_subs t))"

definition ListWebhookSubscriptionsByAgent :: "string \<Rightarrow> 'b webhook_tables \<Rightarrow> WebhookSubscription list" where
  "ListWebhookSubscriptionsByAgent agentKeyHash t =
     (if agentKeyHash = [] then ListWebhookSubscriptions t
      else rev (sort_key wh_CreatedAt (filter (\<lambda>s. wh_AgentKeyHash s = Some agentKeyHash) (wt_subs t))))"

definition listens :: "string \<Rightarrow> WebhookSubscription \<Rightarrow> bool" where
  "listens eventType s \<longleftrightarrow> wh_Active s \<and> (eventType \<in> set (wh_Events s) \<or> ''*'' \<in> set (wh_Events s))"

definition ListActiveWebhookSubscriptionsForEvent :: "string \<Rightarrow> 'b webhook_tables \<Rightarrow> WebhookSubscription list" where
  "ListActiveWebhookSubscriptionsForEvent eventType t = filter (listens eventType) (wt_subs t)"

text \<open>A deletion takes the deliveries of the subscription with it.\<close>

definition DeleteWebhookSubscription :: "string \<Rightarrow> 'b webhook_tables \<Rightarrow> 'b webhook_tables" where
  "DeleteWebhookSubscription i t =
     t\<lparr>wt_subs := filter (\<lambda>s. wh_ID s \<noteq> i) (wt_subs t), wt_deliveries := filter (\<lambda>d. wd_SubscriptionID d \<noteq> i) (wt_deliveries t)\<rparr>"

definition update_sub :: "string \<Rightarrow> (WebhookSubscription \<Rightarrow> WebhookSubscription) \<Rightarrow> 'b webhook_tables \<Rightarrow> 'b webhook_tables" where
  "update_sub i f t = t\<lparr>wt_subs := map (\<lambda>s. if wh_ID s = i then f s else s) (wt_subs t)\<rparr>"

definition SetWebhookSubscriptionActive :: "go_time \<Rightarrow> string \<Rightarrow> bool \<Rightarrow> 'b webhook_tables \<Rightarrow> 'b webhook_tables" where
  "SetWebhookSubscriptionActive now i active = update_sub i (\<lambda>s. s\<lparr>wh_Active := active, wh_UpdatedAt := now\<rparr>)"

text \<open>
  \<open>RecordWebhookDelivery\<close>: the row refers to a subscription, so it is refused when the subscription is
  gone. \<open>insert_ok\<close> and \<open>update_ok\<close> say whether the database executes the two statements.
\<close>

definition RecordWebhookDelivery ::
  "string \<Rightarrow> go_time \<Rightarrow> bool \<Rightarrow> bool \<Rightarrow> string \<Rightarrow> string \<Rightarrow> 'b \<Rightarrow> int64 \<Rightarrow> bool \<Rightarrow> string \<Rightarrow> int64 \<Rightarrow> 'b webhook_tables \<Rightarrow> 'b webhook_tables" where
  "RecordWebhookDelivery i now insert_ok update_ok subscriptionID event raw statusCode ok deliveryErr attempt t =
     (if \<not> insert_ok \<or> \<not> list_ex (\<lambda>s. wh_ID s = subscriptionID) (wt_subs t) then t
      else
        let t = t\<lparr>wt_deliveries := wt_deliveries t @
              [\<lparr> wd_ID = i, wd_SubscriptionID = subscriptionID, wd_Event = event, wd_Payload = raw, wd_StatusCode = statusCode, wd_OK = ok,
                 wd_Error = nullableString deliveryErr, wd_Attempt = attempt, wd_CreatedAt = now \<rparr>]\<rparr>;
            failureIncrement = (if ok then 0 else 1) in
        if update_ok
        then update_sub subscriptionID
               (\<lambda>s. s\<lparr>wh_LastTriggeredAt := Some now, wh_LastStatusCode := Some statusCode, wh_LastError := nullableString deliveryErr,
                      wh_FailureCount := (if ok then 0 else wh_FailureCount s + failureIncrement), wh_UpdatedAt := now\<rparr>) t
        else t)"

definition ListWebhookDeliveries :: "string \<Rightarrow> int64 \<Rightarrow> 'b webhook_tables \<Rightarrow> 'b WebhookDelivery list" where
  "ListWebhookDeliveries subscriptionID lim0 t =
     (let lim = (if lim0 \<le> 0 \<or> lim0 > 500 then 50 else lim0) in
      take (nat lim) (rev (sort_key wd_CreatedAt (filter (\<lambda>d. wd_SubscriptionID d = subscriptionID) (wt_deliveries t)))))"

record WebhookDeliveryStats =
  wst_TotalSubscriptions :: nat
  wst_ActiveSubscriptions :: nat
  wst_Deliveries24h :: nat
  wst_Failures24h :: nat

definition WebhookDashboardStats :: "go_time \<Rightarrow> 'b webhook_tables \<Rightarrow> WebhookDeliveryStats" where
  "WebhookDashboardStats now t =
     (let recent = filter (\<lambda>d. wd_CreatedAt d > now - 24 * hour) (wt_deliveries t) in
      \<lparr> wst_TotalSubscriptions = length (wt_subs t), wst_ActiveSubscriptions = length (filter wh_Active (wt_subs t)),
        wst_Deliveries24h = length recent, wst_Failures24h = length (filter (\<lambda>d. \<not> wd_OK d) recent) \<rparr>)"

section \<open>A delivery\<close>

record DeliveryResult =
  dr_SubscriptionID :: string
  dr_Attempted :: bool
  dr_OK :: bool
  dr_StatusCode :: int64
  dr_Body :: string
  dr_Error :: string

datatype any = AnyStr string | AnyBool bool | AnyInt int64

definition toMap :: "DeliveryResult \<Rightarrow> (string, any) go_map" where
  "toMap r =
     [(''subscriptionId'', AnyStr (dr_SubscriptionID r)), (''attempted'', AnyBool (dr_Attempted r)), (''ok'', AnyBool (dr_OK r))] @
     (if dr_StatusCode r \<noteq> 0 then [(''statusCode'', AnyInt (dr_StatusCode r))] else []) @
     (if dr_Body r \<noteq> [] then [(''body'', AnyStr (dr_Body r))] else []) @
     (if dr_Error r \<noteq> [] then [(''error'', AnyStr (dr_Error r))] else [])"

definition providerHeaderName :: "string \<Rightarrow> string" where
  "providerHeaderName provider =
     (let p = to_lower (trim_space provider) in
      if p = ''n8n'' then ''n8n'' else if p = ''zapier'' then ''zapier'' else if p = ''make'' then ''make'' else ''generic'')"

definition sign :: "mac_lib \<Rightarrow> string \<Rightarrow> bytes \<Rightarrow> string" where
  "sign M secret raw = (if trim_space secret = [] then [] else ''sha256='' @ mac_of M secret raw)"

record http_post =
  hp_URL :: string
  hp_Header :: "(string, string) go_map"
  hp_Body :: bytes

text \<open>What becomes of a request: it cannot be built, there is no answer, or an answer with a status and a body.\<close>

datatype http_outcome = NotBuilt string | NoAnswer string | Answer int64 bytes

text \<open>The world of one attempt: the name service, the text of an error of the check, and the receivers.\<close>

record attempt_world =
  aw_net :: net_lib
  aw_err :: "url_error \<Rightarrow> string"
  aw_receiver :: "http_post \<Rightarrow> http_outcome"

definition webhook_request :: "mac_lib \<Rightarrow> WebhookSubscription \<Rightarrow> string \<Rightarrow> bytes \<Rightarrow> http_post" where
  "webhook_request M sub event raw =
     (let sig = sign M (case wh_Secret sub of None \<Rightarrow> [] | Some s \<Rightarrow> s) raw in
      \<lparr> hp_URL = wh_TargetURL sub,
        hp_Header = [(''Content-Type'', ''application/json''), (''User-Agent'', ''ChainFX-Automation/1.0''), (''X-ChainFX-Event'', event),
                     (''X-ChainFX-Provider'', providerHeaderName (wh_Provider sub))] @
                    (if sig \<noteq> [] then [(''X-ChainFX-Signature'', sig)] else []),
        hp_Body = raw \<rparr>)"

text \<open>\<open>deliverOnce\<close>: the result, and the request that went out.\<close>

definition deliverOnce :: "mac_lib \<Rightarrow> attempt_world \<Rightarrow> WebhookSubscription \<Rightarrow> string \<Rightarrow> bytes \<Rightarrow> DeliveryResult \<times> http_post option" where
  "deliverOnce M W sub event raw =
     (let fail = (\<lambda>attempted err. \<lparr> dr_SubscriptionID = wh_ID sub, dr_Attempted = attempted, dr_OK = False, dr_StatusCode = 0, dr_Body = [], dr_Error = err \<rparr>) in
      case ValidateTargetURL (aw_net W) (wh_TargetURL sub) of
        Inl err \<Rightarrow> (fail False (aw_err W err), None)
      | Inr _ \<Rightarrow>
          let req = webhook_request M sub event raw in
          case aw_receiver W req of
            NotBuilt err \<Rightarrow> (fail False err, None)
          | NoAnswer err \<Rightarrow> (fail True err, Some req)
          | Answer status body \<Rightarrow>
              let ok = status \<ge> 200 \<and> status < 300 in
              (\<lparr> dr_SubscriptionID = wh_ID sub, dr_Attempted = True, dr_OK = ok, dr_StatusCode = status, dr_Body = take 4096 body,
                 dr_Error = (if ok then [] else ''unexpected status code'') \<rparr>, Some req))"

section \<open>The retry queue\<close>

definition backoffSchedule :: "duration list" where
  "backoffSchedule = [5 * second, 30 * second, 2 * minute, 10 * minute, 30 * minute]"

text \<open>A job: the subscription as it was read, the event, and the address of its payload.\<close>

record retryJob =
  rj_sub :: WebhookSubscription
  rj_event :: string
  rj_payload :: nat

record RetryQueue =
  rq_jobs :: "retryJob list"
  rq_workers :: int64
  rq_enqueued :: "64 word"
  rq_dropped :: "64 word"

definition rq_capacity :: nat where
  "rq_capacity = 1000"

definition NewRetryQueue :: "int64 \<Rightarrow> RetryQueue" where
  "NewRetryQueue workers = \<lparr> rq_jobs = [], rq_workers = (if workers \<le> 0 then 4 else workers), rq_enqueued = 0, rq_dropped = 0 \<rparr>"

definition rq_Enqueue :: "WebhookSubscription \<Rightarrow> string \<Rightarrow> nat \<Rightarrow> RetryQueue \<Rightarrow> RetryQueue" where
  "rq_Enqueue sub event payload q =
     (if length (rq_jobs q) < rq_capacity
      then q\<lparr>rq_jobs := rq_jobs q @ [\<lparr> rj_sub = sub, rj_event = event, rj_payload = payload \<rparr>], rq_enqueued := rq_enqueued q + 1\<rparr>
      else q\<lparr>rq_dropped := rq_dropped q + 1\<rparr>)"

text \<open>
  The dispatcher with its queue, the payloads it has made, the database and, for the reader, the requests
  that went out. \<open>'d\<close> is the type of the data of an event.
\<close>

datatype 'd pvalue = PStr string | PBool bool | PTime go_time | PData 'd

type_synonym 'd payload = "(string, 'd pvalue) go_map"

record 'd Dispatcher =
  ds_maxRetries :: int64
  ds_enabled :: bool
  ds_queue :: RetryQueue
  ds_payloads :: "'d payload list"
  ds_db :: "bytes webhook_tables"
  ds_sent :: "http_post list"

definition new_Dispatcher :: "int64 \<Rightarrow> bool \<Rightarrow> bytes webhook_tables \<Rightarrow> 'd Dispatcher" where
  "new_Dispatcher maxRetries enabled t =
     \<lparr> ds_maxRetries = (if maxRetries \<le> 0 then 1 else maxRetries), ds_enabled = enabled, ds_queue = NewRetryQueue 4,
       ds_payloads = [], ds_db = t, ds_sent = [] \<rparr>"

text \<open>\<open>Emit\<close> on the payload at an address: \<open>list_ok\<close> says whether the query for the subscriptions succeeds.\<close>

definition Emit :: "bool \<Rightarrow> string \<Rightarrow> nat \<Rightarrow> 'd Dispatcher \<Rightarrow> 'd Dispatcher" where
  "Emit list_ok event p d =
     (if \<not> list_ok then d
      else
        let subs = ListActiveWebhookSubscriptionsForEvent event (ds_db d) in
        d\<lparr>ds_payloads := (ds_payloads d)[p := AList.update ''event'' (PStr event) (ds_payloads d ! p)],
          ds_queue := foldl (\<lambda>q sub. rq_Enqueue sub event p q) (ds_queue d) subs\<rparr>)"

definition handle :: "(string \<Rightarrow> bool) \<Rightarrow> go_time \<Rightarrow> 'd Event \<Rightarrow> 'd Dispatcher \<Rightarrow> 'd Dispatcher" where
  "handle list_ok now ev d =
     (let triggers = busEventMapping (ev_Type ev) in
      if triggers = [] then d
      else
        let p = length (ds_payloads d);
            payload = [(''orderId'', PStr (ev_OrderID ev)), (''sourceEvent'', PStr (ev_Type ev)), (''data'', PData (ev_Payload ev)), (''timestamp'', PTime now)];
            d = d\<lparr>ds_payloads := ds_payloads d @ [payload]\<rparr> in
        foldl (\<lambda>d trigger. Emit (list_ok trigger) trigger p d) d triggers)"

text \<open>
  The world of a sequence of attempts: that of each attempt, the identifier, the time and the outcome of the two statements
  that record it, and whether the worker is stopped in the pause that follows.
\<close>

record job_world =
  jw_attempt :: "nat \<Rightarrow> attempt_world"
  jw_record :: "nat \<Rightarrow> string \<times> go_time \<times> bool \<times> bool"
  jw_stopped :: "nat \<Rightarrow> bool"

definition record_result :: "job_world \<Rightarrow> nat \<Rightarrow> string \<Rightarrow> bytes \<Rightarrow> DeliveryResult \<Rightarrow> bytes webhook_tables \<Rightarrow> bytes webhook_tables" where
  "record_result J attempt event raw r t =
     (case jw_record J attempt of
        (i, now, ins, upd) \<Rightarrow>
          RecordWebhookDelivery i now ins upd (dr_SubscriptionID r) event raw (dr_StatusCode r) (dr_OK r) (dr_Error r) (int attempt) t)"

definition retry_delay :: "nat \<Rightarrow> duration" where
  "retry_delay attempt = (if attempt - 1 < length backoffSchedule then backoffSchedule ! (attempt - 1) else last backoffSchedule)"

text \<open>\<open>process\<close>: the loop over the attempts, which returns the results and the pauses made.\<close>

fun process_from ::
  "mac_lib \<Rightarrow> ('d payload \<Rightarrow> bytes) \<Rightarrow> job_world \<Rightarrow> retryJob \<Rightarrow> nat \<Rightarrow> nat \<Rightarrow> 'd Dispatcher \<Rightarrow> DeliveryResult list \<times> duration list \<times> 'd Dispatcher" where
  "process_from M marshal J job attempt 0 d = ([], [], d)"
| "process_from M marshal J job attempt (Suc left) d =
     (let raw = marshal (ds_payloads d ! rj_payload job);
          (r, req) = deliverOnce M (jw_attempt J attempt) (rj_sub job) (rj_event job) raw;
          d = d\<lparr>ds_sent := ds_sent d @ (case req of None \<Rightarrow> [] | Some q \<Rightarrow> [q]),
                ds_db := record_result J attempt (rj_event job) raw r (ds_db d)\<rparr> in
      if dr_OK r then ([r], [], d)
      else if left = 0 then ([r], [], d)
      else if jw_stopped J attempt then ([r], [retry_delay attempt], d)
      else case process_from M marshal J job (Suc attempt) left d of
             (rs, ps, d) \<Rightarrow> (r # rs, retry_delay attempt # ps, d))"

definition process :: "mac_lib \<Rightarrow> ('d payload \<Rightarrow> bytes) \<Rightarrow> job_world \<Rightarrow> retryJob \<Rightarrow> 'd Dispatcher \<Rightarrow> DeliveryResult list \<times> duration list \<times> 'd Dispatcher" where
  "process M marshal J job d = process_from M marshal J job 1 (nat (if ds_maxRetries d \<le> 0 then 1 else ds_maxRetries d)) d"

text \<open>A worker takes the first job of the queue.\<close>

definition worker :: "mac_lib \<Rightarrow> ('d payload \<Rightarrow> bytes) \<Rightarrow> job_world \<Rightarrow> 'd Dispatcher \<Rightarrow> 'd Dispatcher" where
  "worker M marshal J d =
     (case rq_jobs (ds_queue d) of
        [] \<Rightarrow> d
      | job # jobs \<Rightarrow> snd (snd (process M marshal J job (d\<lparr>ds_queue := (ds_queue d)\<lparr>rq_jobs := jobs\<rparr>\<rparr>))))"

text \<open>\<open>EmitSync\<close>: one attempt for each subscription, \<open>J k\<close> is the world of the k-th.\<close>

definition sync_one :: "mac_lib \<Rightarrow> ('d payload \<Rightarrow> bytes) \<Rightarrow> (nat \<Rightarrow> job_world) \<Rightarrow> string \<Rightarrow> nat \<Rightarrow>
    DeliveryResult list \<times> 'd Dispatcher \<Rightarrow> WebhookSubscription \<Rightarrow> DeliveryResult list \<times> 'd Dispatcher" where
  "sync_one M marshal J event p = (\<lambda>(rs, d) sub.
     let raw = marshal (ds_payloads d ! p);
         (r, req) = deliverOnce M (jw_attempt (J (length rs)) 1) sub event raw in
     (rs @ [r], d\<lparr>ds_sent := ds_sent d @ (case req of None \<Rightarrow> [] | Some q \<Rightarrow> [q]),
                  ds_db := record_result (J (length rs)) 1 event raw r (ds_db d)\<rparr>))"

definition EmitSync :: "mac_lib \<Rightarrow> ('d payload \<Rightarrow> bytes) \<Rightarrow> (nat \<Rightarrow> job_world) \<Rightarrow> bool \<Rightarrow> string \<Rightarrow> 'd payload \<Rightarrow> 'd Dispatcher \<Rightarrow>
    (string, any) go_map list \<times> 'd Dispatcher" where
  "EmitSync M marshal J list_ok event payload d =
     (if \<not> list_ok then ([], d)
      else
        let p = length (ds_payloads d);
            d = d\<lparr>ds_payloads := ds_payloads d @ [AList.update ''event'' (PStr event) payload]\<rparr>;
            (rs, d) = foldl (sync_one M marshal J event p) ([], d) (ListActiveWebhookSubscriptionsForEvent event (ds_db d)) in
        (map toMap rs, d))"

section \<open>The registry and the test operations\<close>

datatype registry_error = TargetRequired | BadTarget url_error | NoValidEvent | RegistryDB

definition Registry_Create ::
  "net_lib \<Rightarrow> string \<Rightarrow> go_time \<Rightarrow> string \<Rightarrow> string \<Rightarrow> string \<Rightarrow> string \<Rightarrow> string list \<Rightarrow> 'b webhook_tables \<Rightarrow>
     (registry_error + WebhookSubscription) \<times> 'b webhook_tables" where
  "Registry_Create N i now provider targetURL secret description events t =
     (let targetURL = trim_space targetURL in
      case ValidateTargetURL N targetURL of
        Inl err \<Rightarrow> (Inl (BadTarget err), t)
      | Inr _ \<Rightarrow>
          let provider = (if provider = [] then ''generic'' else provider);
              validEvents = filter IsKnownEvent events in
          if validEvents = [] then (Inl NoValidEvent, t)
          else case CreateWebhookSubscription i now provider targetURL secret description [] ''web'' validEvents t of
                 (None, t) \<Rightarrow> (Inl RegistryDB, t)
               | (Some s, t) \<Rightarrow> (Inr s, t))"

text \<open>\<open>handleTestWebhookSubscription\<close>, after the administrator is authorised: the event, or nothing when the subscription is not found.\<close>

definition handleTestWebhookSubscription ::
  "mac_lib \<Rightarrow> ('d payload \<Rightarrow> bytes) \<Rightarrow> (nat \<Rightarrow> job_world) \<Rightarrow> bool \<Rightarrow> string \<Rightarrow> 'd Dispatcher \<Rightarrow>
     (string \<times> (string, any) go_map list) option \<times> 'd Dispatcher" where
  "handleTestWebhookSubscription M marshal J list_ok i d =
     (case GetWebhookSubscription i (ds_db d) of
        None \<Rightarrow> (None, d)
      | Some sub \<Rightarrow>
          let event = (case wh_Events sub of [] \<Rightarrow> ''order.created'' | e # _ \<Rightarrow> e) in
          case EmitSync M marshal J list_ok event [(''test'', PBool True), (''subscriptionId'', PStr (wh_ID sub))] d of
            (results, d) \<Rightarrow> (Some (event, results), d))"

text \<open>\<open>toolTriggerTestWebhook\<close>: the event and the payload are the agent's.\<close>

definition toolTriggerTestWebhook ::
  "mac_lib \<Rightarrow> ('d payload \<Rightarrow> bytes) \<Rightarrow> (nat \<Rightarrow> job_world) \<Rightarrow> bool \<Rightarrow> string \<Rightarrow> 'd payload option \<Rightarrow> 'd Dispatcher \<Rightarrow>
     (string, any) go_map list option \<times> 'd Dispatcher" where
  "toolTriggerTestWebhook M marshal J list_ok event payload d =
     (if \<not> IsKnownEvent event then (None, d)
      else case EmitSync M marshal J list_ok event (case payload of None \<Rightarrow> [(''test'', PBool True)] | Some p \<Rightarrow> p) d of
             (results, d) \<Rightarrow> (Some results, d))"

text \<open>\<open>toolCreateWebhookSubscription\<close>: \<open>agentKeyHash\<close> is the hash of the agent's key.\<close>

definition toolCreateWebhookSubscription ::
  "net_lib \<Rightarrow> string \<Rightarrow> go_time \<Rightarrow> string \<Rightarrow> string \<Rightarrow> string \<Rightarrow> string \<Rightarrow> string \<Rightarrow> string list \<Rightarrow> 'b webhook_tables \<Rightarrow>
     (registry_error + WebhookSubscription) \<times> 'b webhook_tables" where
  "toolCreateWebhookSubscription N i now agentKeyHash provider targetURL secret description events t =
     (let targetURL = trim_space targetURL;
          provider = (if provider = [] then ''generic'' else provider) in
      if targetURL = [] then (Inl TargetRequired, t)
      else case ValidateTargetURL N targetURL of
        Inl err \<Rightarrow> (Inl (BadTarget err), t)
      | Inr _ \<Rightarrow>
          let validEvents = filter IsKnownEvent events in
          if validEvents = [] then (Inl NoValidEvent, t)
          else case CreateWebhookSubscription i now provider targetURL secret description agentKeyHash ''mcp'' validEvents t of
                 (None, t) \<Rightarrow> (Inl RegistryDB, t)
               | (Some s, t) \<Rightarrow> (Inr s, t))"


section \<open>Which events reach a subscriber\<close>

lemma bus_types_mapped: "list_all (\<lambda>t. busEventMapping t \<noteq> [] \<and> distinct (busEventMapping t)) busTypes"
  by code_simp

lemma mapped_events: "set (concat (map busEventMapping busTypes)) = set AllEvents"
  by code_simp

lemma other_types_unmapped: "t \<notin> set busTypes \<Longrightarrow> busEventMapping t = []"
  by (simp add: busTypes_def busEventMapping_def)

text \<open>
  C39. The dispatcher subscribes to exactly the bus events that the mapping translates; what it emits are
  events that can be subscribed to, each one once for a bus event, and every event that can be subscribed
  to is emitted for some bus event.
\<close>

theorem triggers_known:
  "(busEventMapping t \<noteq> [] \<longleftrightarrow> t \<in> set busTypes) \<and> set (busEventMapping t) \<subseteq> set AllEvents \<and> distinct (busEventMapping t) \<and>
   (IsKnownEvent e \<longleftrightarrow> (\<exists>t. e \<in> set (busEventMapping t)))"
proof -
  have sub: "set (busEventMapping t) \<subseteq> set AllEvents" for t
    using mapped_events other_types_unmapped [of t] by (cases "t \<in> set busTypes") auto
  have "busEventMapping t \<noteq> [] \<longleftrightarrow> t \<in> set busTypes" "distinct (busEventMapping t)"
    using bus_types_mapped other_types_unmapped [of t] by (auto simp: list_all_iff)
  moreover have "IsKnownEvent e \<longleftrightarrow> e \<in> set AllEvents" by (auto simp: IsKnownEvent_def list_ex_iff)
  then have "IsKnownEvent e \<longleftrightarrow> (\<exists>t. e \<in> set (busEventMapping t))"
    using sub by (auto simp: mapped_events [symmetric])
  ultimately show ?thesis using sub by blast
qed

section \<open>The attempts of a job\<close>

definition attempt_result :: "mac_lib \<Rightarrow> job_world \<Rightarrow> retryJob \<Rightarrow> bytes \<Rightarrow> nat \<Rightarrow> DeliveryResult" where
  "attempt_result M J job raw i = fst (deliverOnce M (jw_attempt J i) (rj_sub job) (rj_event job) raw)"

definition attempt_sent :: "mac_lib \<Rightarrow> job_world \<Rightarrow> retryJob \<Rightarrow> bytes \<Rightarrow> nat \<Rightarrow> http_post list" where
  "attempt_sent M J job raw i = (case snd (deliverOnce M (jw_attempt J i) (rj_sub job) (rj_event job) raw) of None \<Rightarrow> [] | Some q \<Rightarrow> [q])"

definition after_attempt :: "mac_lib \<Rightarrow> job_world \<Rightarrow> retryJob \<Rightarrow> bytes \<Rightarrow> nat \<Rightarrow> 'd Dispatcher \<Rightarrow> 'd Dispatcher" where
  "after_attempt M J job raw i d =
     d\<lparr>ds_sent := ds_sent d @ attempt_sent M J job raw i, ds_db := record_result J i (rj_event job) raw (attempt_result M J job raw i) (ds_db d)\<rparr>"

lemma process_from_Suc:
  "process_from M marshal J job a (Suc n) d =
     (let raw = marshal (ds_payloads d ! rj_payload job); r = attempt_result M J job raw a; d' = after_attempt M J job raw a d in
      if dr_OK r \<or> n = 0 then ([r], [], d')
      else if jw_stopped J a then ([r], [retry_delay a], d')
      else case process_from M marshal J job (Suc a) n d' of (rs, ps, d'') \<Rightarrow> (r # rs, retry_delay a # ps, d''))"
  by (auto simp: after_attempt_def attempt_result_def attempt_sent_def Let_def case_prod_beta)

declare process_from.simps(2) [simp del]

lemma after_attempt_fields [simp]:
  "ds_payloads (after_attempt M J job raw i d) = ds_payloads d" "ds_queue (after_attempt M J job raw i d) = ds_queue d"
  "ds_sent (after_attempt M J job raw i d) = ds_sent d @ attempt_sent M J job raw i"
  by (simp_all add: after_attempt_def)

lemma process_from_bounded: "length (fst (process_from M marshal J job a n d)) \<le> n"
  by (induction n arbitrary: a d) (simp_all add: process_from_Suc Let_def case_prod_beta)

text \<open>The attempts up to the first that is accepted, when the worker is not stopped before.\<close>

lemma process_from_until:
  assumes "raw = marshal (ds_payloads d ! rj_payload job)" "a \<le> k" "k < a + n" "dr_OK (attempt_result M J job raw k)"
    and "\<forall>i. a \<le> i \<and> i < k \<longrightarrow> \<not> dr_OK (attempt_result M J job raw i) \<and> \<not> jw_stopped J i"
  shows "process_from M marshal J job a n d =
    (map (attempt_result M J job raw) [a..<Suc k], map retry_delay [a..<k], foldl (\<lambda>d i. after_attempt M J job raw i d) d [a..<Suc k])"
  using assms
proof (induction n arbitrary: a d)
  case (Suc n)
  show ?case
  proof (cases "a = k")
    case True
    then show ?thesis using Suc.prems by (simp add: process_from_Suc Let_def)
  next
    case False
    have "process_from M marshal J job (Suc a) n (after_attempt M J job raw a d) =
        (map (attempt_result M J job raw) [Suc a..<Suc k], map retry_delay [Suc a..<k],
         foldl (\<lambda>d i. after_attempt M J job raw i d) (after_attempt M J job raw a d) [Suc a..<Suc k])"
      using False Suc.prems by (intro Suc.IH) simp_all
    moreover have "[a..<Suc k] = a # [Suc a..<Suc k]" "[a..<k] = a # [Suc a..<k]" using False Suc.prems(2) by (simp_all add: upt_conv_Cons)
    moreover have "n \<noteq> 0" "\<not> dr_OK (attempt_result M J job raw a)" "\<not> jw_stopped J a" using False Suc.prems by auto
    ultimately show ?thesis using Suc.prems(1) by (simp add: process_from_Suc Let_def del: upt_Suc)
  qed
qed simp

lemma deliverOnce_ok:
  "dr_OK (fst (deliverOnce M W sub event raw)) \<longleftrightarrow>
     ValidateTargetURL (aw_net W) (wh_TargetURL sub) = Inr () \<and>
     (\<exists>status body. aw_receiver W (webhook_request M sub event raw) = Answer status body \<and> 200 \<le> status \<and> status < 300)"
  by (auto simp: deliverOnce_def Let_def split: sum.splits http_outcome.splits)

lemma deliverOnce_ok_sent: "dr_OK (fst (deliverOnce M W sub event raw)) \<Longrightarrow> snd (deliverOnce M W sub event raw) = Some (webhook_request M sub event raw)"
  by (auto simp: deliverOnce_def Let_def split: sum.splits http_outcome.splits)


lemma foldl_after_attempt:
  "ds_sent (foldl (\<lambda>d i. after_attempt M J job raw i d) d is) = ds_sent d @ concat (map (attempt_sent M J job raw) is)"
  "ds_queue (foldl (\<lambda>d i. after_attempt M J job raw i d) d is) = ds_queue d"
  by (induction "is" arbitrary: d) simp_all


text \<open>
  However its target answers, a job makes at most the configured number of attempts, and at least one.
\<close>

theorem attempts_bounded:
  "1 \<le> length (fst (process M marshal J job d)) \<and> int (length (fst (process M marshal J job d))) \<le> max 1 (ds_maxRetries d)"
proof -
  obtain n where n: "nat (if ds_maxRetries d \<le> 0 then 1 else ds_maxRetries d) = Suc n"
    by (cases "nat (if ds_maxRetries d \<le> 0 then 1 else ds_maxRetries d)") (auto split: if_splits)
  have "1 \<le> length (fst (process_from M marshal J job 1 (Suc n) d))" by (simp add: process_from_Suc Let_def case_prod_beta)
  then show ?thesis using process_from_bounded [of M marshal J job 1 "Suc n" d] n
    by (auto simp: process_def split: if_splits)
qed

section \<open>What an event leaves in the queue\<close>

lemma foldl_rq_Enqueue:
  "foldl (\<lambda>q sub. rq_Enqueue sub event p q) q subs =
     (let room = rq_capacity - length (rq_jobs q) in
      q\<lparr>rq_jobs := rq_jobs q @ map (\<lambda>sub. \<lparr> rj_sub = sub, rj_event = event, rj_payload = p \<rparr>) (take room subs),
        rq_enqueued := rq_enqueued q + of_nat (min room (length subs)), rq_dropped := rq_dropped q + of_nat (length subs - room)\<rparr>)"
proof (induction subs arbitrary: q)
  case (Cons sub subs)
  show ?case
  proof (cases "length (rq_jobs q) < rq_capacity")
    case True
    then obtain r where "rq_capacity - length (rq_jobs q) = Suc r" "rq_capacity - Suc (length (rq_jobs q)) = r"
      by (metis Suc_diff_Suc)
    then show ?thesis using Cons.IH True by (simp add: rq_Enqueue_def Let_def algebra_simps)
  next
    case False
    then show ?thesis using Cons.IH by (simp add: rq_Enqueue_def Let_def algebra_simps)
  qed
qed (simp add: Let_def)

lemma Emit_queue:
  "ds_queue (Emit True event p d) = foldl (\<lambda>q sub. rq_Enqueue sub event p q) (ds_queue d) (ListActiveWebhookSubscriptionsForEvent event (ds_db d))"
  "ds_payloads (Emit True event p d) = (ds_payloads d)[p := AList.update ''event'' (PStr event) (ds_payloads d ! p)]"
  "ds_db (Emit True event p d) = ds_db d"
  by (simp_all add: Emit_def Let_def)

text \<open>
  A bus event with two triggers, such as a settled payout, makes one payload for both: the second
  trigger overwrites the event named in it. Every job the event leaves in the queue, those of the first
  trigger too, has a payload that names the second trigger, while its header will name its own.
\<close>

theorem shared_payload_overwritten:
  assumes "busEventMapping (ev_Type ev) = [t1, t2]" "list_ok t1" "list_ok t2" "length (rq_jobs (ds_queue d)) < rq_capacity"
    and "ListActiveWebhookSubscriptionsForEvent t1 (ds_db d) = sub # subs"
  shows "let d' = handle list_ok now ev d; new_jobs = drop (length (rq_jobs (ds_queue d))) (rq_jobs (ds_queue d')) in
    list_all (\<lambda>job. map_of (ds_payloads d' ! rj_payload job) ''event'' = Some (PStr t2)) new_jobs \<and>
    rj_sub (hd new_jobs) = sub \<and> rj_event (hd new_jobs) = t1 \<and> new_jobs \<noteq> []"
proof -
  let ?p = "length (ds_payloads d)"
  let ?payload = "[(''orderId'', PStr (ev_OrderID ev)), (''sourceEvent'', PStr (ev_Type ev)), (''data'', PData (ev_Payload ev)), (''timestamp'', PTime now)]"
  define d0 where "d0 = d\<lparr>ds_payloads := ds_payloads d @ [?payload]\<rparr>"
  define d1 where "d1 = Emit True t1 ?p d0"
  have d': "handle list_ok now ev d = Emit True t2 ?p d1" using assms(1,2,3) by (simp add: handle_def d0_def d1_def Let_def)
  have pay: "ds_payloads (handle list_ok now ev d) ! ?p = AList.update ''event'' (PStr t2) (ds_payloads d1 ! ?p)"
    unfolding d' by (simp add: Emit_queue d1_def d0_def)
  obtain r where r: "rq_capacity - length (rq_jobs (ds_queue d)) = Suc r" using assms(4) by (metis Suc_diff_Suc)
  have q1: "rq_jobs (ds_queue d1) = rq_jobs (ds_queue d) @ map (\<lambda>sub. \<lparr> rj_sub = sub, rj_event = t1, rj_payload = ?p \<rparr>) (sub # take r subs)"
    using assms(5) by (simp add: d1_def Emit_queue foldl_rq_Enqueue Let_def d0_def r)
  have "\<exists>js. rq_jobs (ds_queue (handle list_ok now ev d)) = rq_jobs (ds_queue d1) @ map (\<lambda>sub. \<lparr> rj_sub = sub, rj_event = t2, rj_payload = ?p \<rparr>) js"
    unfolding d' by (auto simp: Emit_queue foldl_rq_Enqueue Let_def)
  then obtain js where "rq_jobs (ds_queue (handle list_ok now ev d)) = rq_jobs (ds_queue d1) @ map (\<lambda>sub. \<lparr> rj_sub = sub, rj_event = t2, rj_payload = ?p \<rparr>) js" ..
  then show ?thesis unfolding Let_def using pay by (auto simp: q1 list_all_iff update_conv)
qed


section \<open>The registry\<close>

lemma find_fresh: "\<not> list_ex P xs \<Longrightarrow> P x \<Longrightarrow> find P (xs @ [x]) = Some x"
  by (induction xs) auto

text \<open>
  A subscription that the registry or an agent's tool creates has a target that passed the check and at
  least one event, all of them known; it is the one that is found under its identifier, and from then on it
  is among the subscriptions notified of an event exactly when it asked for it: no subscription listens to
  all events.
\<close>

theorem created_subscription_listens:
  assumes "Registry_Create N i now provider targetURL secret description events t = (Inr s, t') \<or>
    toolCreateWebhookSubscription N i now agentKeyHash provider targetURL secret description events t = (Inr s, t')"
  shows "ValidateTargetURL N (wh_TargetURL s) = Inr () \<and> wh_TargetURL s = trim_space targetURL \<and>
    wh_Events s \<noteq> [] \<and> list_all IsKnownEvent (wh_Events s) \<and> GetWebhookSubscription i t' = Some s \<and>
    (s \<in> set (ListActiveWebhookSubscriptionsForEvent e t') \<longleftrightarrow> e \<in> set events \<and> IsKnownEvent e)"
proof -
  obtain h by' provider' where c: "CreateWebhookSubscription i now provider' (trim_space targetURL) secret description h by' (filter IsKnownEvent events) t = (Some s, t')"
    and v: "ValidateTargetURL N (trim_space targetURL) = Inr ()" and n: "filter IsKnownEvent events \<noteq> []"
    using assms by (auto simp: Registry_Create_def toolCreateWebhookSubscription_def Let_def split: sum.splits if_splits option.splits prod.splits)
  define s0 where "s0 = \<lparr> wh_ID = i, wh_Provider = provider', wh_TargetURL = trim_space targetURL, wh_Secret = Some secret, wh_Events = filter IsKnownEvent events,
                  wh_Active = True, wh_Description = Some description, wh_AgentKeyHash = (if h \<noteq> [] then Some h else None),
                  wh_CreatedBy = (if by' = [] then ''web'' else by'), wh_CreatedAt = now, wh_UpdatedAt = now,
                  wh_LastTriggeredAt = None, wh_LastStatusCode = None, wh_LastError = None, wh_FailureCount = 0 \<rparr>"
  have fresh: "\<not> list_ex (\<lambda>s. wh_ID s = i) (wt_subs t)" and t': "t' = t\<lparr>wt_subs := wt_subs t @ [s0]\<rparr>" and g: "GetWebhookSubscription i t' = Some s"
    using c by (auto simp: CreateWebhookSubscription_def s0_def Let_def split: if_splits)
  have "s = s0" using g find_fresh [OF fresh, of s0] by (simp add: GetWebhookSubscription_def t') (simp add: s0_def)
  moreover have "\<not> IsKnownEvent ''*''" by code_simp
  ultimately show ?thesis using v n g
    by (auto simp: ListActiveWebhookSubscriptionsForEvent_def t' listens_def s0_def list_all_iff)
qed

section \<open>The health of a subscription\<close>

lemma record_result_failures:
  assumes "wh_ID s = i" "filter (\<lambda>s. wh_ID s = i) (wt_subs t) = [s]"
  shows "\<exists>s'. filter (\<lambda>s. wh_ID s = i) (wt_subs (RecordWebhookDelivery j now True True i event raw code' ok err attempt t)) = [s'] \<and>
    wh_ID s' = i \<and> wh_FailureCount s' = (if ok then 0 else wh_FailureCount s + 1)"
proof -
  have "list_ex (\<lambda>s. wh_ID s = i) (wt_subs t)" using assms(2) by (auto simp: list_ex_iff filter_eq_Cons_iff)
  moreover have "filter (\<lambda>s. wh_ID s = i) (map (\<lambda>s. if wh_ID s = i then f s else s) ss) = map f (filter (\<lambda>s. wh_ID s = i) ss)"
    if "\<And>s. wh_ID (f s) = wh_ID s" for f and ss :: "WebhookSubscription list"
    using that by (induction ss) auto
  ultimately show ?thesis using assms by (simp add: RecordWebhookDelivery_def update_sub_def)
qed

text \<open>A sequence of recorded attempts of one subscription, each with its outcome.\<close>

definition record_all :: "string \<Rightarrow> (string \<times> go_time \<times> string \<times> 'b \<times> int64 \<times> bool \<times> string \<times> int64) list \<Rightarrow> 'b webhook_tables \<Rightarrow> 'b webhook_tables" where
  "record_all i rs t = foldl (\<lambda>t (j, now, event, raw, status, ok, err, attempt). RecordWebhookDelivery j now True True i event raw status ok err attempt t) t rs"

definition outcome :: "string \<times> go_time \<times> string \<times> 'b \<times> int64 \<times> bool \<times> string \<times> int64 \<Rightarrow> bool" where
  "outcome = (\<lambda>(_, _, _, _, _, ok, _, _). ok)"

lemma failures_since_success:
  assumes "filter (\<lambda>s. wh_ID s = i) (wt_subs t) = [s]"
  shows "\<exists>s'. filter (\<lambda>s. wh_ID s = i) (wt_subs (record_all i rs t)) = [s'] \<and>
    wh_FailureCount s' = (if \<exists>r\<in>set rs. outcome r then 0 else wh_FailureCount s) + int (length (takeWhile (\<lambda>r. \<not> outcome r) (rev rs)))"
proof (induction rs rule: rev_induct)
  case Nil
  then show ?case using assms by (simp add: record_all_def)
next
  case (snoc r rs)
  obtain j now event raw status ok err attempt where r: "r = (j, now, event, raw, status, ok, err, attempt)" by (cases r) auto
  obtain s1 where s1: "filter (\<lambda>s. wh_ID s = i) (wt_subs (record_all i rs t)) = [s1]"
    "wh_FailureCount s1 = (if \<exists>r\<in>set rs. outcome r then 0 else wh_FailureCount s) + int (length (takeWhile (\<lambda>r. \<not> outcome r) (rev rs)))"
    using snoc.IH by blast
  have "wh_ID s1 = i" using s1(1) by (auto simp: filter_eq_Cons_iff)
  from record_result_failures [OF this s1(1), of j now event raw status ok err attempt] s1(2)
  show ?case by (auto simp: record_all_def r outcome_def)
qed


section \<open>Synthetic events\<close>

lemma sync_all:
  "foldl (sync_one M marshal J event p) (rs, d) subs = (rs', d') \<Longrightarrow> ds_payloads d' = ds_payloads d \<and> length rs' = length rs + length subs"
  by (induction subs arbitrary: rs d) (auto simp: sync_one_def Let_def case_prod_beta)

lemma sync_sent:
  assumes "foldl (sync_one M marshal J event p) (rs, d) subs = (rs', d')"
    and "\<forall>k. \<forall>sub\<in>set subs. snd (deliverOnce M (jw_attempt (J k) 1) sub event (marshal (ds_payloads d ! p))) \<noteq> None"
  shows "ds_sent d' = ds_sent d @ map (\<lambda>sub. webhook_request M sub event (marshal (ds_payloads d ! p))) subs"
  using assms
proof (induction subs arbitrary: rs d)
  case (Cons sub subs)
  let ?raw = "marshal (ds_payloads d ! p)"
  obtain rs1 d1 where one: "sync_one M marshal J event p (rs, d) sub = (rs1, d1)" by (cases "sync_one M marshal J event p (rs, d) sub")
  have "snd (deliverOnce M W sub event ?raw) \<noteq> None \<Longrightarrow> snd (deliverOnce M W sub event ?raw) = Some (webhook_request M sub event ?raw)" for W
    by (auto simp: deliverOnce_def Let_def split: sum.splits http_outcome.splits)
  then have "snd (deliverOnce M (jw_attempt (J (length rs)) 1) sub event ?raw) = Some (webhook_request M sub event ?raw)"
    using Cons.prems(2) by simp
  then have "ds_sent d1 = ds_sent d @ [webhook_request M sub event ?raw]" "ds_payloads d1 = ds_payloads d"
    using one by (auto simp: sync_one_def Let_def case_prod_beta)
  then show ?case using Cons.IH [of rs1 d1] Cons.prems one by simp
qed simp

text \<open>
  The tool that triggers a test event takes the event and the payload from the agent that calls it. When
  the targets can be reached, every active subscription for the event, whoever created it, receives the
  agent's payload with the name of the event, in a request that is signed with the subscription's own secret
  like a genuine one.
\<close>

theorem test_event_reaches_everyone:
  assumes "IsKnownEvent event"
    and "raw = marshal (AList.update ''event'' (PStr event) payload)"
    and "\<forall>k. \<forall>sub\<in>set (ListActiveWebhookSubscriptionsForEvent event (ds_db d)). snd (deliverOnce M (jw_attempt (J k) 1) sub event raw) \<noteq> None"
  shows "ds_sent (snd (toolTriggerTestWebhook M marshal J True event (Some payload) d)) =
    ds_sent d @ map (\<lambda>sub. webhook_request M sub event raw) (ListActiveWebhookSubscriptionsForEvent event (ds_db d))"
proof -
  let ?d = "d\<lparr>ds_payloads := ds_payloads d @ [AList.update ''event'' (PStr event) payload]\<rparr>"
  obtain rs' d' where f: "foldl (sync_one M marshal J event (length (ds_payloads d))) ([], ?d) (ListActiveWebhookSubscriptionsForEvent event (ds_db d)) = (rs', d')"
    by (metis surj_pair)
  have "snd (toolTriggerTestWebhook M marshal J True event (Some payload) d) = d'"
    using assms(1) f by (simp add: toolTriggerTestWebhook_def EmitSync_def Let_def)
  then show ?thesis using sync_sent [OF f] assms(2,3) by simp
qed


section \<open>Concrete runs\<close>

definition toy_subscription :: WebhookSubscription where
  "toy_subscription = \<lparr> wh_ID = ''s'', wh_Provider = ''n8n'', wh_TargetURL = ''https://a.b'', wh_Secret = Some ''k'',
     wh_Events = [''order.completed'', ''payout.sent''], wh_Active = True, wh_Description = None, wh_AgentKeyHash = None, wh_CreatedBy = ''web'',
     wh_CreatedAt = 0, wh_UpdatedAt = 0, wh_LastTriggeredAt = None, wh_LastStatusCode = None, wh_LastError = None, wh_FailureCount = 0 \<rparr>"

definition toy_dispatcher :: "unit Dispatcher" where
  "toy_dispatcher = (new_Dispatcher 3 True \<lparr> wt_subs = [toy_subscription], wt_deliveries = [] \<rparr>)\<lparr>ds_payloads := [[]]\<rparr>"

definition toy_marshal :: "unit payload \<Rightarrow> bytes" where
  "toy_marshal p = (case map_of p ''event'' of Some (PStr e) \<Rightarrow> e | _ \<Rightarrow> [])"

text \<open>The receiver refuses the first attempt and accepts the others.\<close>

definition toy_job_world :: job_world where
  "toy_job_world = \<lparr> jw_attempt = \<lambda>i. \<lparr> aw_net = toy_net, aw_err = \<lambda>_. ''x'', aw_receiver = \<lambda>_. Answer (if i = 1 then 500 else 200) [] \<rparr>,
     jw_record = \<lambda>_. (''d'', 0, True, True), jw_stopped = \<lambda>_. False \<rparr>"

definition toy_job :: retryJob where
  "toy_job = \<lparr> rj_sub = toy_subscription, rj_event = ''payout.sent'', rj_payload = 0 \<rparr>"

lemma toy_target: "ValidateTargetURL toy_net ''https://a.b'' = Inr ()"
proof -
  have "public_ip (IPv4 (quad 8 8 8 8))" by (simp add: public_ip_def quad_def octet1_def octet2_def internal4_def)
  then have "\<not> isDisallowedIP (IPv4 (quad 8 8 8 8))" by (simp add: isDisallowedIP_public)
  moreover have "trim_space ''https://a.b'' = ''https://a.b''" "\<not> equal_fold ''a.b'' ''localhost''" "\<not> has_suffix (to_lower ''a.b'') ''.localhost''" "to_lower ''https'' = ''https''"
    by code_simp+
  ultimately show ?thesis by (simp add: ValidateTargetURL_def toy_net_def)
qed

lemma toy_attempt: "dr_OK (attempt_result toy_mac toy_job_world toy_job raw i) \<longleftrightarrow> i \<noteq> 1"
  using toy_target by (simp add: attempt_result_def deliverOnce_ok toy_job_world_def toy_job_def toy_subscription_def)


lemma toy_listens: "ListActiveWebhookSubscriptionsForEvent ''order.completed'' (ds_db toy_dispatcher) = [toy_subscription]"
  "ListActiveWebhookSubscriptionsForEvent ''payout.sent'' (ds_db toy_dispatcher) = [toy_subscription]"
  by (simp_all add: ListActiveWebhookSubscriptionsForEvent_def toy_dispatcher_def new_Dispatcher_def listens_def toy_subscription_def)

definition toy_settled :: "unit Event" where
  "toy_settled = \<lparr> ev_Type = ''payout.settled'', ev_OrderID = ''o'', ev_Payload = () \<rparr>"

theorem shared_payload_overwritten_witness:
  "rj_event (hd (rq_jobs (ds_queue (handle (\<lambda>_. True) 7 toy_settled toy_dispatcher)))) = ''order.completed'' \<and>
   map_of (ds_payloads (handle (\<lambda>_. True) 7 toy_settled toy_dispatcher) ! 1) ''event'' = Some (PStr ''payout.sent'')"
proof -
  have "busEventMapping (ev_Type toy_settled) = [''order.completed'', ''payout.sent'']" by code_simp
  moreover have "rq_jobs (ds_queue toy_dispatcher) = []" by (simp add: toy_dispatcher_def new_Dispatcher_def NewRetryQueue_def)
  moreover have "rj_payload (hd (rq_jobs (ds_queue (handle (\<lambda>_. True) 7 toy_settled toy_dispatcher)))) = 1" by code_simp
  ultimately show ?thesis
    using shared_payload_overwritten [of toy_settled "''order.completed''" "''payout.sent''" "\<lambda>_. True" toy_dispatcher toy_subscription "[]" 7] toy_listens
    by (auto simp: rq_capacity_def Let_def list_all_iff dest!: bspec [OF _ hd_in_set])
qed

theorem created_subscription_listens_witness:
  "let s = snd (Registry_Create toy_net ''s'' 0 [] '' https://a.b '' ''k'' [] [''order.failed'', ''*''] \<lparr> wt_subs = [], wt_deliveries = [] :: unit WebhookDelivery list \<rparr>) in
   map (\<lambda>e. length (ListActiveWebhookSubscriptionsForEvent e s)) [''order.failed'', ''payout.sent''] = [1, 0]"
proof -
  have tr: "trim_space '' https://a.b '' = ''https://a.b''" "trim_space ''https://a.b'' = ''https://a.b''" by code_simp+
  have ev: "IsKnownEvent ''order.failed''" "\<not> IsKnownEvent ''*''" by code_simp+
  obtain s t' where c: "Registry_Create toy_net ''s'' 0 [] '' https://a.b '' ''k'' [] [''order.failed'', ''*''] \<lparr> wt_subs = [], wt_deliveries = [] :: unit WebhookDelivery list \<rparr> = (Inr s, t')" "wt_subs t' = [s]"
    using toy_target by (simp add: Registry_Create_def tr ev CreateWebhookSubscription_def GetWebhookSubscription_def Let_def)
  note listens = created_subscription_listens [OF disjI1 [OF c(1)]]
  have "s \<in> set (ListActiveWebhookSubscriptionsForEvent ''order.failed'' t')" "s \<notin> set (ListActiveWebhookSubscriptionsForEvent ''payout.sent'' t')"
    using listens [of "''order.failed''"] listens [of "''payout.sent''"] ev by simp_all
  then show ?thesis using c by (simp add: ListActiveWebhookSubscriptionsForEvent_def Let_def split: if_splits)
qed

theorem test_event_reaches_everyone_witness:
  "map hp_URL (ds_sent (snd (toolTriggerTestWebhook toy_mac toy_marshal (\<lambda>_. toy_job_world) True ''payout.sent'' (Some []) toy_dispatcher))) = [''https://a.b'']"
proof -
  have "IsKnownEvent ''payout.sent''" by code_simp
  moreover have "snd (deliverOnce toy_mac (jw_attempt toy_job_world 1) toy_subscription event raw) \<noteq> None" for event raw
    using toy_target by (simp add: deliverOnce_def toy_job_world_def toy_subscription_def Let_def)
  ultimately show ?thesis
    using test_event_reaches_everyone [of "''payout.sent''" _ toy_marshal "[]" toy_dispatcher toy_mac "\<lambda>_. toy_job_world"] toy_listens
    by (simp add: toy_dispatcher_def new_Dispatcher_def webhook_request_def Let_def) (simp add: toy_subscription_def)
qed

end
