(* ===== verification/Sell_Orders.thy ===== *)
theory Sell_Orders
  imports Go_Strings Float_Ops "HOL-Library.AList" "HOL-Library.Word"
begin

text \<open>
  The orders of customers who sell tokens: their states (\<open>internal/models/order.go\<close>), the statements on the
  tables \<open>orders\<close>, \<open>order_events\<close> and \<open>order_incidents\<close> (\<open>internal/database/postgres.go\<close>, \<open>incidents.go\<close>) and the
  confirmation of deposits by the on-chain worker (\<open>internal/workers/onchain.go\<close>) and by the internal
  endpoint (\<open>internal/server/settlement_handlers.go\<close>). A statement is atomic, and the database may not
  execute it or execute it and fail to say so. What the code does between two statements can interleave
  with anything, so an operation that reads and then writes is split there.
\<close>

section \<open>The states of an order\<close>

definition StatusAguardandoDeposito :: string where "StatusAguardandoDeposito = ''aguardando_deposito''"
definition StatusAguardandoValidacao :: string where "StatusAguardandoValidacao = ''aguardando_validacao''"
definition StatusExpirada :: string where "StatusExpirada = ''expirada''"
definition StatusPago :: string where "StatusPago = ''pago''"
definition StatusAguardandoPixManual :: string where "StatusAguardandoPixManual = ''aguardando_pix_manual''"
definition StatusProcessandoPayout :: string where "StatusProcessandoPayout = ''processando_payout''"
definition StatusIncidenteValidacao :: string where "StatusIncidenteValidacao = ''incidente_validacao''"
definition StatusConcluida :: string where "StatusConcluida = ''concluida''"
definition StatusErro :: string where "StatusErro = ''erro''"

lemmas status_defs = StatusAguardandoDeposito_def StatusAguardandoValidacao_def StatusExpirada_def StatusPago_def
  StatusAguardandoPixManual_def StatusProcessandoPayout_def StatusIncidenteValidacao_def StatusConcluida_def StatusErro_def

definition ValidStatuses :: "string list" where
  "ValidStatuses = [StatusAguardandoDeposito, StatusAguardandoValidacao, StatusExpirada, StatusPago,
     StatusAguardandoPixManual, StatusProcessandoPayout, StatusIncidenteValidacao, StatusConcluida, StatusErro]"

definition order_IsValid :: "string \<Rightarrow> bool" where
  "order_IsValid s \<longleftrightarrow> s \<in> set ValidStatuses"

definition IsFinal :: "string \<Rightarrow> bool" where
  "IsFinal s \<longleftrightarrow> s = StatusConcluida \<or> s = StatusExpirada \<or> s = StatusErro \<or> s = StatusIncidenteValidacao"

definition order_IsPaid :: "string \<Rightarrow> bool" where
  "order_IsPaid s \<longleftrightarrow> s = StatusPago"

definition order_transitions :: "(string \<times> string list) list" where
  "order_transitions =
     [(StatusAguardandoDeposito, [StatusAguardandoValidacao, StatusExpirada, StatusErro]),
      (StatusAguardandoValidacao, [StatusPago, StatusExpirada, StatusErro, StatusIncidenteValidacao]),
      (StatusPago, [StatusAguardandoPixManual, StatusProcessandoPayout, StatusErro, StatusIncidenteValidacao]),
      (StatusAguardandoPixManual, [StatusConcluida, StatusErro, StatusIncidenteValidacao]),
      (StatusProcessandoPayout, [StatusConcluida, StatusErro, StatusIncidenteValidacao]),
      (StatusIncidenteValidacao, []), (StatusConcluida, []), (StatusExpirada, []), (StatusErro, [])]"

definition CanTransition :: "string \<Rightarrow> string \<Rightarrow> bool" where
  "CanTransition s to = (case map_of order_transitions s of None \<Rightarrow> False | Some allowed \<Rightarrow> to \<in> set allowed)"

section \<open>The tables\<close>

text \<open>A row of \<open>orders\<close> with its row of \<open>order_private\<close>, decrypted.\<close>

record 'f Order =
  so_ID :: string
  so_AmountBRL :: 'f
  so_AmountUSDT :: 'f
  so_FeeBRL :: 'f
  so_PayoutBRL :: 'f
  so_Status :: string
  so_PixCpf :: string
  so_PixPhone :: string
  so_Address :: string
  so_Asset :: string
  so_Network :: string
  so_RateLocked :: 'f
  so_TxHash :: "string option"
  so_DepositTx :: "string option"
  so_DepositAmount :: "'f option"
  so_Error :: "string option"
  so_RateLockExpiresAt :: go_time
  so_CreatedAt :: go_time
  so_UpdatedAt :: go_time

definition db_firstNonEmpty :: "string list \<Rightarrow> string" where
  "db_firstNonEmpty values = (case filter (\<lambda>v. trim_space v \<noteq> []) values of [] \<Rightarrow> [] | v # _ \<Rightarrow> trim_space v)"

text \<open>The key that \<open>scanOrder\<close> puts into the order it returns.\<close>

definition so_PixKey :: "'f Order \<Rightarrow> string" where
  "so_PixKey o1 = db_firstNonEmpty [so_PixPhone o1, so_PixCpf o1]"

definition order_IsExpired :: "go_time \<Rightarrow> 'f Order \<Rightarrow> bool" where
  "order_IsExpired now o1 \<longleftrightarrow> now > so_RateLockExpiresAt o1"

definition CanAcceptDeposit :: "go_time \<Rightarrow> 'f Order \<Rightarrow> bool" where
  "CanAcceptDeposit now o1 \<longleftrightarrow> so_Status o1 = StatusAguardandoDeposito \<and> \<not> order_IsExpired now o1"

record 'f sell_db =
  sd_orders :: "'f Order list"
  sd_events :: "(string \<times> string) list"
  sd_incidents :: "(string \<times> string) list"

text \<open>What becomes of a statement: executed, not executed, or executed with the answer lost.\<close>

datatype stmt = Run | NotRun | NoReply

definition sell_AddEvent :: "stmt \<Rightarrow> string \<Rightarrow> string \<Rightarrow> 'f sell_db \<Rightarrow> bool \<times> 'f sell_db" where
  "sell_AddEvent st i eventType db =
     (case st of
        Run \<Rightarrow> (True, db\<lparr>sd_events := sd_events db @ [(i, eventType)]\<rparr>)
      | NotRun \<Rightarrow> (False, db)
      | NoReply \<Rightarrow> (False, db\<lparr>sd_events := sd_events db @ [(i, eventType)]\<rparr>))"

definition GetOrder :: "string \<Rightarrow> 'f sell_db \<Rightarrow> 'f Order option" where
  "GetOrder i db = find (\<lambda>o1. so_ID o1 = i) (sd_orders db)"

definition update_where :: "('f Order \<Rightarrow> bool) \<Rightarrow> ('f Order \<Rightarrow> 'f Order) \<Rightarrow> 'f sell_db \<Rightarrow> 'f sell_db" where
  "update_where P f db = db\<lparr>sd_orders := map (\<lambda>o1. if P o1 then f o1 else o1) (sd_orders db)\<rparr>"

text \<open>A claim: \<open>UPDATE ... WHERE id = ... AND status ... RETURNING id\<close>, whether a row was changed.\<close>

definition claim_stmt :: "stmt \<Rightarrow> go_time \<Rightarrow> string \<Rightarrow> string list \<Rightarrow> string \<Rightarrow> 'f sell_db \<Rightarrow> bool option \<times> 'f sell_db" where
  "claim_stmt st now i from to db =
     (let P = (\<lambda>o1. so_ID o1 = i \<and> so_Status o1 \<in> set from);
          db' = update_where P (\<lambda>o1. o1\<lparr>so_Status := to, so_UpdatedAt := now\<rparr>) db in
      case st of
        Run \<Rightarrow> (Some (list_ex P (sd_orders db)), db')
      | NotRun \<Rightarrow> (None, db)
      | NoReply \<Rightarrow> (None, db'))"

definition ClaimOrderForPayout :: "stmt \<Rightarrow> go_time \<Rightarrow> string \<Rightarrow> 'f sell_db \<Rightarrow> bool option \<times> 'f sell_db" where
  "ClaimOrderForPayout st now i db = claim_stmt st now i [StatusPago] StatusProcessandoPayout db"

text \<open>The result is the claim with the outcome of the event, or an error of the claim.\<close>

definition ClaimOrderForManualPayout :: "stmt \<Rightarrow> stmt \<Rightarrow> go_time \<Rightarrow> string \<Rightarrow> 'f sell_db \<Rightarrow> (bool \<times> bool) option \<times> 'f sell_db" where
  "ClaimOrderForManualPayout st st' now i db =
     (case claim_stmt st now i [StatusPago] StatusAguardandoPixManual db of
        (None, db) \<Rightarrow> (None, db)
      | (Some False, db) \<Rightarrow> (Some (False, True), db)
      | (Some True, db) \<Rightarrow>
          (case sell_AddEvent st' i ''order.aguardando_pix_manual'' db of (ok, db) \<Rightarrow> (Some (True, ok), db)))"

definition MarkManualPixPaid :: "stmt \<Rightarrow> stmt \<Rightarrow> go_time \<Rightarrow> string \<Rightarrow> string \<Rightarrow> 'f sell_db \<Rightarrow> (bool \<times> bool) option \<times> 'f sell_db" where
  "MarkManualPixPaid st st' now i providerID db =
     (let providerID = (if trim_space providerID = [] then ''pix-manual-'' @ i else providerID);
          P = (\<lambda>o1. so_ID o1 = i \<and> so_Status o1 \<in> {StatusAguardandoPixManual, StatusPago, StatusProcessandoPayout});
          db' = update_where P (\<lambda>o1. o1\<lparr>so_Status := StatusConcluida, so_TxHash := Some providerID, so_UpdatedAt := now\<rparr>) db in
      case st of
        Run \<Rightarrow>
          if list_ex P (sd_orders db)
          then (case sell_AddEvent st' i ''order.pix_manual_paid'' db' of (ok, db) \<Rightarrow> (Some (True, ok), db))
          else (Some (False, True), db)
      | NotRun \<Rightarrow> (None, db)
      | NoReply \<Rightarrow> (None, db'))"

text \<open>The values that \<open>UpdateOrderStatus\<close> takes from its map; an empty text leaves the column.\<close>

record 'f order_extra =
  ux_txHash :: string
  ux_error :: string
  ux_depositTx :: string
  ux_depositAmount :: "'f option"

definition no_extra :: "'f order_extra" where
  "no_extra = \<lparr> ux_txHash = [], ux_error = [], ux_depositTx = [], ux_depositAmount = None \<rparr>"

definition keep_nonempty :: "string \<Rightarrow> string option \<Rightarrow> string option" where
  "keep_nonempty s old = (if s = [] then old else Some s)"

definition status_row :: "go_time \<Rightarrow> string \<Rightarrow> 'f order_extra \<Rightarrow> 'f Order \<Rightarrow> 'f Order" where
  "status_row now status ux o1 =
     o1\<lparr>so_Status := status, so_TxHash := keep_nonempty (ux_txHash ux) (so_TxHash o1), so_Error := keep_nonempty (ux_error ux) (so_Error o1),
        so_DepositTx := keep_nonempty (ux_depositTx ux) (so_DepositTx o1),
        so_DepositAmount := (case ux_depositAmount ux of None \<Rightarrow> so_DepositAmount o1 | Some a \<Rightarrow> Some a), so_UpdatedAt := now\<rparr>"

text \<open>The unique index on \<open>deposit_tx\<close>.\<close>

definition deposit_tx_free :: "string \<Rightarrow> string \<Rightarrow> 'f sell_db \<Rightarrow> bool" where
  "deposit_tx_free i tx db \<longleftrightarrow> tx = [] \<or> list_all (\<lambda>o1. so_ID o1 \<noteq> i \<longrightarrow> so_DepositTx o1 \<noteq> Some tx) (sd_orders db)"

definition HasDepositTxForOtherOrder :: "string \<Rightarrow> string \<Rightarrow> 'f sell_db \<Rightarrow> bool" where
  "HasDepositTxForOtherOrder i tx db \<longleftrightarrow> \<not> deposit_tx_free i tx db"

definition UpdateOrderStatus :: "stmt \<Rightarrow> stmt \<Rightarrow> go_time \<Rightarrow> string \<Rightarrow> string \<Rightarrow> 'f order_extra \<Rightarrow> 'f sell_db \<Rightarrow> bool \<times> 'f sell_db" where
  "UpdateOrderStatus st st' now i status ux db =
     (if st = NotRun \<or> \<not> deposit_tx_free i (ux_depositTx ux) db \<and> list_ex (\<lambda>o1. so_ID o1 = i) (sd_orders db) then (False, db)
      else
        let db = update_where (\<lambda>o1. so_ID o1 = i) (status_row now status ux) db in
        if st = NoReply then (False, db) else sell_AddEvent st' i (''order.'' @ status) db)"

definition OpenOrderIncident :: "stmt \<Rightarrow> stmt \<Rightarrow> string \<Rightarrow> string \<Rightarrow> 'f sell_db \<Rightarrow> bool \<times> 'f sell_db" where
  "OpenOrderIncident st st' i incidentType db =
     (if st = NotRun then (False, db)
      else
        let db = db\<lparr>sd_incidents := (if (i, incidentType) \<in> set (sd_incidents db) then sd_incidents db else sd_incidents db @ [(i, incidentType)])\<rparr> in
        if st = NoReply then (False, db) else sell_AddEvent st' i (''order.incident.'' @ incidentType) db)"

definition GetPendingOrdersByNetwork :: "string \<Rightarrow> 'f sell_db \<Rightarrow> 'f Order list" where
  "GetPendingOrdersByNetwork network db =
     filter (\<lambda>o1. so_Status o1 \<in> {StatusAguardandoDeposito, StatusAguardandoValidacao} \<and> to_upper (so_Network o1) = to_upper (trim_space network)) (sd_orders db)"

definition HasPendingOrderForAddressNetwork :: "string \<Rightarrow> string \<Rightarrow> 'f sell_db \<Rightarrow> bool" where
  "HasPendingOrderForAddressNetwork address network db \<longleftrightarrow>
     list_ex (\<lambda>o1. to_lower (so_Address o1) = to_lower address \<and> to_upper (so_Network o1) = to_upper (trim_space network) \<and>
       so_Status o1 \<in> {StatusAguardandoDeposito, StatusAguardandoValidacao, StatusPago, StatusProcessandoPayout}) (sd_orders db)"

definition stale_sell :: "go_time \<Rightarrow> 'f Order \<Rightarrow> bool" where
  "stale_sell now o1 \<longleftrightarrow> so_Status o1 = StatusAguardandoDeposito \<and> so_DepositTx o1 = None \<and> so_RateLockExpiresAt o1 \<le> now"

definition ExpireStaleSellOrders :: "stmt \<Rightarrow> (nat \<Rightarrow> stmt) \<Rightarrow> go_time \<Rightarrow> 'f sell_db \<Rightarrow> nat option \<times> 'f sell_db" where
  "ExpireStaleSellOrders st ev now db =
     (let ids = map so_ID (filter (stale_sell now) (sd_orders db));
          db' = update_where (stale_sell now)
            (\<lambda>o1. o1\<lparr>so_Status := StatusExpirada,
               so_Error := Some ''deposito nao identificado dentro da janela de pagamento; ordem expirada sem estorno automatico'', so_UpdatedAt := now\<rparr>) db in
      case st of
        Run \<Rightarrow> (Some (length ids), foldl (\<lambda>db (k, i). snd (sell_AddEvent (ev k) i ''order.expirada'' db)) db' (zip [0..<length ids] ids))
      | NotRun \<Rightarrow> (None, db)
      | NoReply \<Rightarrow> (None, db'))"


section \<open>Deposits\<close>

text \<open>The networks watched, with the confirmations each requires.\<close>

record onchainNetworkConfig =
  nc_Name :: string
  nc_TokenDecimals :: nat
  nc_RequiredConfirmations :: "64 word"

definition defaultBSCConfirmations :: "64 word" where "defaultBSCConfirmations = 6"
definition defaultPolygonConfirmations :: "64 word" where "defaultPolygonConfirmations = 128"
definition minSafeBSCConfirmations :: "64 word" where "minSafeBSCConfirmations = 3"
definition minSafePolygonConfirmations :: "64 word" where "minSafePolygonConfirmations = 64"
definition scanBlockRange :: "64 word" where "scanBlockRange = 50"

definition confirmations :: "64 word \<Rightarrow> 64 word \<Rightarrow> 64 word \<Rightarrow> 64 word" where
  "confirmations configured dflt flr = (let c = (if configured = 0 then dflt else configured) in if c < flr then flr else c)"

definition onchain_networks :: "64 word \<Rightarrow> 64 word \<Rightarrow> onchainNetworkConfig list" where
  "onchain_networks bsc polygon =
     [\<lparr> nc_Name = ''BSC'', nc_TokenDecimals = 18, nc_RequiredConfirmations = confirmations bsc defaultBSCConfirmations minSafeBSCConfirmations \<rparr>,
      \<lparr> nc_Name = ''POLYGON'', nc_TokenDecimals = 6, nc_RequiredConfirmations = confirmations polygon defaultPolygonConfirmations minSafePolygonConfirmations \<rparr>]"

definition subtractFloor :: "64 word \<Rightarrow> 64 word \<Rightarrow> 64 word" where
  "subtractFloor n delta = (if n \<le> delta then 0 else n - delta)"

definition min64 :: "64 word \<Rightarrow> 64 word \<Rightarrow> 64 word" where
  "min64 a b = (if a < b then a else b)"

text \<open>\<open>getCursor\<close>: \<open>saved\<close> is the stored block, nothing when the query fails or finds none.\<close>

definition getCursor :: "64 word option \<Rightarrow> 64 word \<Rightarrow> 64 word" where
  "getCursor saved latestBlock =
     (case saved of
        None \<Rightarrow> subtractFloor latestBlock 1000
      | Some block \<Rightarrow>
          if block = 0 then subtractFloor latestBlock 1000
          else if latestBlock > block \<and> latestBlock - block > 50000 then subtractFloor latestBlock 1000
          else block)"

text \<open>The blocks a poll asks the node for, as the bounds of the query, or none.\<close>

definition scan_range :: "64 word option \<Rightarrow> onchainNetworkConfig \<Rightarrow> 64 word \<Rightarrow> (64 word \<times> 64 word) option" where
  "scan_range saved network latestBlock =
     (if latestBlock \<le> nc_RequiredConfirmations network then None
      else
        let scanHead = latestBlock - nc_RequiredConfirmations network;
            fromBlock = getCursor saved scanHead in
        if fromBlock \<ge> scanHead then None
        else
          let toBlock = min64 (fromBlock + scanBlockRange) scanHead in
          if toBlock \<le> fromBlock then None else Some (fromBlock, toBlock))"

record transfer_log =
  tl_TxHash :: string
  tl_To :: string
  tl_Amount :: int
  tl_Block :: "64 word"

text \<open>The block up to which the cursor moves after the logs of a scan.\<close>

definition safe_block :: "onchainNetworkConfig \<Rightarrow> 64 word \<Rightarrow> 64 word \<Rightarrow> transfer_log list \<Rightarrow> 64 word" where
  "safe_block network latestBlock toBlock logs =
     foldl (\<lambda>b l. if latestBlock < tl_Block l + nc_RequiredConfirmations network \<and> tl_Block l > 0 \<and> tl_Block l - 1 < b then tl_Block l - 1 else b) toBlock logs"

text \<open>
  What a deposit decides to write, from the order it read. \<open>tokenAmount\<close> is \<open>tokenAmountFloat\<close>, a
  quotient of big floats.
\<close>

datatype 'f deposit_plan = Ignore | Replay | Plan string "'f order_extra"

definition depositTolerance :: "'f float_ops \<Rightarrow> 'f \<Rightarrow> 'f" where
  "depositTolerance F configured = (if f_le F configured (f_zero F) then f_lit F 2 100 else configured)"

definition underpaid :: "'f float_ops \<Rightarrow> 'f \<Rightarrow> 'f \<Rightarrow> 'f \<Rightarrow> bool" where
  "underpaid F tol expected amount \<longleftrightarrow>
     f_lt F (f_zero F) expected \<and> f_lt F (f_div F (f_sub F amount expected) expected) (f_sub F (f_zero F) tol)"

definition deposit_extra :: "string \<Rightarrow> 'f \<Rightarrow> 'f order_extra" where
  "deposit_extra tx amount = \<lparr> ux_txHash = [], ux_error = [], ux_depositTx = tx, ux_depositAmount = Some amount \<rparr>"

definition confirmDeposit_plan :: "'f float_ops \<Rightarrow> 'f \<Rightarrow> onchainNetworkConfig \<Rightarrow> string \<Rightarrow> string \<Rightarrow> 'f \<Rightarrow> 'f sell_db \<Rightarrow> 'f deposit_plan" where
  "confirmDeposit_plan F tol network i tx amount db =
     (case GetOrder i db of
        None \<Rightarrow> Ignore
      | Some o1 \<Rightarrow>
          if so_Status o1 \<noteq> StatusAguardandoDeposito \<and> so_Status o1 \<noteq> StatusAguardandoValidacao then Ignore
          else if \<not> equal_fold (so_Network o1) (nc_Name network) then Ignore
          else if so_DepositTx o1 = Some tx then Ignore
          else if HasDepositTxForOtherOrder i tx db then Replay
          else if underpaid F tol (so_AmountUSDT o1) amount then Plan StatusAguardandoValidacao (deposit_extra tx amount)
          else Plan StatusPago (deposit_extra tx amount))"

text \<open>The internal endpoint \<open>handleDeposit\<close>, after its checks of the signature, the payload and the idempotency key.\<close>

definition handleDeposit_plan :: "string \<Rightarrow> string \<Rightarrow> 'f \<Rightarrow> 'f sell_db \<Rightarrow> 'f deposit_plan" where
  "handleDeposit_plan i tx amount db =
     (case GetOrder i db of
        None \<Rightarrow> Ignore
      | Some o1 \<Rightarrow>
          if so_Status o1 \<noteq> StatusAguardandoDeposito then Ignore
          else if HasDepositTxForOtherOrder i tx db then Replay
          else Plan StatusPago (deposit_extra tx amount))"

text \<open>The writes of either; the result says whether \<open>payout.requested\<close> is published.\<close>

definition finish_deposit :: "(nat \<Rightarrow> stmt) \<Rightarrow> go_time \<Rightarrow> string \<Rightarrow> string \<Rightarrow> 'f deposit_plan \<Rightarrow> 'f sell_db \<Rightarrow> bool \<times> 'f sell_db" where
  "finish_deposit st now i tx plan db =
     (case plan of
        Ignore \<Rightarrow> (False, db)
      | Replay \<Rightarrow>
          (let db = snd (UpdateOrderStatus (st 0) (st 1) now i StatusIncidenteValidacao
                 (no_extra\<lparr>ux_depositTx := tx, ux_error := ''deposit tx ja vinculada a outra ordem''\<rparr>) db) in
           (False, snd (OpenOrderIncident (st 2) (st 3) i ''sell_deposit_tx_replay'' db)))
      | Plan status ux \<Rightarrow>
          (case UpdateOrderStatus (st 0) (st 1) now i status ux db of
             (ok, db) \<Rightarrow> (ok \<and> status = StatusPago, db)))"

text \<open>\<open>matchSharedSellDeposit\<close>: the orders of a shared address that the amount fits, or the orders to report.\<close>

definition shared_candidates :: "'f float_ops \<Rightarrow> ('f \<Rightarrow> 'f) \<Rightarrow> 'f \<Rightarrow> onchainNetworkConfig \<Rightarrow> 'f Order list \<Rightarrow> 'f \<Rightarrow> 'f Order list" where
  "shared_candidates F f_abs tol network orders amount =
     filter (\<lambda>o1. so_Status o1 \<in> {StatusAguardandoDeposito, StatusAguardandoValidacao} \<and> equal_fold (so_Network o1) (nc_Name network) \<and>
        \<not> f_le F (so_AmountUSDT o1) (f_zero F) \<and>
        f_le F (f_abs (f_div F (f_sub F amount (so_AmountUSDT o1)) (so_AmountUSDT o1))) tol) orders"

definition matchSharedSellDeposit :: "'f float_ops \<Rightarrow> ('f \<Rightarrow> 'f) \<Rightarrow> 'f \<Rightarrow> onchainNetworkConfig \<Rightarrow> 'f Order list \<Rightarrow> 'f \<Rightarrow> string + string list" where
  "matchSharedSellDeposit F f_abs tol network orders amount =
     (case shared_candidates F f_abs tol network orders amount of
        [o1] \<Rightarrow> Inl (so_ID o1)
      | [] \<Rightarrow> Inr (map so_ID orders)
      | cs \<Rightarrow> Inr (map so_ID cs))"


section \<open>The blocks that are scanned\<close>

text \<open>
  C37. A scan asks for between one and fifty blocks, from the cursor on, and only for blocks with the
  required number of confirmations, with no wrap-around: on the networks watched that is at least 3 on
  BSC and 64 on Polygon, whatever is configured.
\<close>

theorem scan_confirmed_blocks:
  assumes "network \<in> set (onchain_networks bsc polygon)" "scan_range saved network latest = Some (a, b)"
  shows "a < b \<and> unat b + unat (nc_RequiredConfirmations network) \<le> unat latest \<and> unat b \<le> unat a + 50 \<and>
    (if nc_Name network = ''BSC'' then 3 else 64) \<le> unat (nc_RequiredConfirmations network) \<and>
    a = getCursor saved (latest - nc_RequiredConfirmations network)"
proof -
  let ?c = "nc_RequiredConfirmations network"
  have r: "?c < latest" "a = getCursor saved (latest - ?c)" "b = min64 (a + scanBlockRange) (latest - ?c)" "a < b"
    using assms(2) by (auto simp: scan_range_def Let_def not_le split: if_splits)
  have "unat (latest - ?c) = unat latest - unat ?c" using r(1) by (simp add: unat_sub)
  moreover have "b \<le> latest - ?c" "b \<le> a + scanBlockRange" using r(3) by (auto simp: min64_def)
  moreover have "unat (a + 50) \<le> unat a + 50" using unat_add_lem [of a 50] by (cases "unat a + 50 < 2 ^ 64") (auto simp: unat_word_ariths)
  moreover have "unat ?c < unat latest" using r(1) by (simp add: word_less_nat_alt)
  ultimately have "unat b + unat ?c \<le> unat latest" "unat b \<le> unat a + 50" by (simp_all add: word_le_nat_alt scanBlockRange_def)
  moreover have "(if nc_Name network = ''BSC'' then 3 else 64) \<le> unat ?c"
    using assms(1) by (auto simp: onchain_networks_def confirmations_def Let_def minSafeBSCConfirmations_def minSafePolygonConfirmations_def
      defaultBSCConfirmations_def defaultPolygonConfirmations_def not_less word_le_nat_alt)
  ultimately show ?thesis using r by blast
qed

theorem scan_confirmed_blocks_witness:
  "scan_range (Some 100) (hd (onchain_networks 0 0)) 1000 = Some (100, 150) \<and> (100 :: 64 word) < 150"
proof -
  have "scan_range (Some 100) (hd (onchain_networks 0 0)) 1000 = Some (100, 150)" by code_simp
  moreover from this have "(100 :: 64 word) < 150"
    using scan_confirmed_blocks [of "hd (onchain_networks 0 0)" 0 0 "Some 100" 1000 100 150] by (simp add: onchain_networks_def)
  ultimately show ?thesis by blast
qed

text \<open>
  Blocks are given up: when the stored cursor cannot be read, and when it is more than 50000 blocks
  behind, the scan starts a thousand blocks before the head, and no later scan goes back to what lies
  between.
\<close>

theorem cursor_skips_blocks:
  assumes "1000 < head" "saved = None \<or> (\<exists>c. saved = Some c \<and> c < head \<and> 50000 < head - c)"
  shows "getCursor saved head = head - 1000"
  using assms by (auto simp: getCursor_def subtractFloor_def not_le split: option.split)

theorem cursor_skips_blocks_witness:
  "(1000 :: 64 word) < 70000 \<and> getCursor (Some 10) 70000 = 69000 \<and> getCursor None 70000 = 69000"
  using cursor_skips_blocks [of 70000 "Some 10"] cursor_skips_blocks [of 70000 None] by simp

section \<open>Deposits that were used before\<close>

lemma sell_AddEvent_orders [simp]: "sd_orders (snd (sell_AddEvent st i e db)) = sd_orders db"
  by (simp add: sell_AddEvent_def split: stmt.split)



definition replay_rows :: "int option sell_db" where
  "replay_rows = (let o1 = \<lparr> so_ID = ''a'', so_AmountBRL = Some 500, so_AmountUSDT = Some 100, so_FeeBRL = Some 5, so_PayoutBRL = Some 495,
     so_Status = StatusConcluida, so_PixCpf = ''k'', so_PixPhone = [], so_Address = ''a'', so_Asset = ''USDT'', so_Network = ''BSC'',
     so_RateLocked = Some 5, so_TxHash = None, so_DepositTx = Some ''t'', so_DepositAmount = None, so_Error = None,
     so_RateLockExpiresAt = 900, so_CreatedAt = 0, so_UpdatedAt = 0 \<rparr> in
     \<lparr> sd_orders = [o1, o1\<lparr>so_ID := ''b'', so_Status := StatusAguardandoDeposito, so_DepositTx := None\<rparr>], sd_events = [], sd_incidents = [] \<rparr>)"


text \<open>Lists of runs in which one run changes its phase.\<close>

lemma count_list_update:
  assumes "k < length xs"
  shows "count_list (xs[k := y]) x + (if xs ! k = x then 1 else 0) = count_list xs x + (if y = x then 1 else 0)"
proof -
  have "count_list xs x = count_list (take k xs @ xs ! k # drop (Suc k) xs) x" using id_take_nth_drop [OF assms] by simp
  moreover have "count_list (xs[k := y]) x = count_list (take k xs @ y # drop (Suc k) xs) x" using upd_conv_take_nth_drop [OF assms] by simp
  ultimately show ?thesis by simp
qed

end
