(* ===== verification/Sell_Payout.thy ===== *)
theory Sell_Payout
  imports Sell_Orders Circuit_Breaker
begin

text \<open>
  The payout of a sell order: \<open>internal/workers/payout.go\<close> on the tables of \<open>Sell_Orders\<close>. The bank is the
  world: for each attempt it says what became of the request. A PIX below is a request that the bank took
  and did not refuse; whether it recognises a repeated one by the number of the order, which is all the
  request has to tell, is not in the code. A run is split at the claim, which is the statement that decides which run pays.
\<close>

record payout_config =
  pc_SellPayoutMode :: string
  pc_AllowSimulations :: bool
  pc_IsProduction :: bool
  pc_EfiClientID :: string
  pc_EfiClientSecret :: string

definition maxPayoutAttempts :: int64 where
  "maxPayoutAttempts = 4"

text \<open>
  The outcome of one call of the bank: the token is refused, the request fails, with or without the bank
  having executed it, it is refused with a status and a text, or it is accepted, with an answer that can be
  read or not.
\<close>

datatype efi_call =
    TokenFails string
  | RequestFails string bool
  | Refused nat string
  | Unreadable string
  | Accepted string string

text \<open>A PIX that the bank has taken: the order it names, the key and the amount.\<close>

record 'f pix =
  px_order :: string
  px_key :: string
  px_amount :: 'f

fun bank_pays :: "efi_call \<Rightarrow> bool" where
  "bank_pays (TokenFails e) = False"
| "bank_pays (RequestFails e done) = done"
| "bank_pays (Refused code' body) = False"
| "bank_pays (Unreadable e) = True"
| "bank_pays (Accepted e2e status) = True"

text \<open>
  The world of a run: the script of the bank, with the outcome of the statements that record a success, the
  numbers of attempts after which the context is found cancelled or a pause is interrupted, and the text
  of an error of the database.
\<close>

record efi_script =
  es_calls :: "(efi_call \<times> stmt \<times> stmt) list"
  es_cancelled :: "nat \<Rightarrow> bool"
  es_interrupted :: "nat \<Rightarrow> bool"
  es_db_error :: string

record 'f payout_state =
  ps_db :: "'f sell_db"
  ps_pix :: "'f pix list"
  ps_bus :: "(string \<times> string) list"
  ps_dlq :: "(string \<times> nat \<times> string) list"
  ps_attempt :: nat

definition efi :: string where
  "efi = ''ef'' @ [CHR 0xC3, CHR 0xAD]"

text \<open>\<open>callEfiPix\<close>; an empty script is a bank that does not answer.\<close>

definition callEfiPix :: "go_time \<Rightarrow> string \<Rightarrow> string \<Rightarrow> 'f \<Rightarrow> efi_script \<times> 'f payout_state \<Rightarrow> string option \<times> efi_script \<times> 'f payout_state" where
  "callEfiPix now i pixKey amount = (\<lambda>(scr, s).
     let (call, st, st') = (case es_calls scr of [] \<Rightarrow> (RequestFails [] False, Run, Run) | c # _ \<Rightarrow> c);
         scr = scr\<lparr>es_calls := tl (es_calls scr)\<rparr>;
         s = s\<lparr>ps_attempt := Suc (ps_attempt s),
               ps_pix := ps_pix s @ (if bank_pays call then [\<lparr> px_order = i, px_key = pixKey, px_amount = amount \<rparr>] else [])\<rparr> in
     case call of
       TokenFails e \<Rightarrow> (Some (efi @ '' auth: '' @ e), scr, s)
     | RequestFails e _ \<Rightarrow> (Some (efi @ '' pix request: '' @ e), scr, s)
     | Refused code' body \<Rightarrow> (Some (efi @ '' pix status '' @ nat_str code' @ '': '' @ body), scr, s)
     | Unreadable e \<Rightarrow> (Some (efi @ '' response parse: '' @ e), scr, s)
     | Accepted e2e status \<Rightarrow>
         (case UpdateOrderStatus st st' now i StatusConcluida (no_extra\<lparr>ux_txHash := e2e\<rparr>) (ps_db s) of
            (False, db) \<Rightarrow> (Some (es_db_error scr), scr, s\<lparr>ps_db := db\<rparr>)
          | (True, db) \<Rightarrow> (None, scr, s\<lparr>ps_db := db, ps_bus := ps_bus s @ [(''payout.settled'', i)]\<rparr>)))"

definition payout_retryable :: "string \<Rightarrow> bool" where
  "payout_retryable e \<longleftrightarrow>
     \<not> list_ex (str_contains (to_lower e)) [''chave_invalida'', ''cpf_invalido'', ''conta_bloqueada'', ''kyc'', ''status 4'']"

definition isPayoutValidationIncident :: "string \<Rightarrow> bool" where
  "isPayoutValidationIncident msg \<longleftrightarrow>
     list_ex (str_contains (to_lower msg))
       [''chave_invalida'', ''cpf_invalido'', ''conta_bloqueada'', ''kyc'', ''cpf'', ''titular'', ''beneficiario'',
        ''benefici'' @ [CHR 0xC3, CHR 0xA1] @ ''rio'']"

definition payout_retry :: RetryConfig where
  "payout_retry = DefaultRetryConfig\<lparr>MaxAttempts := maxPayoutAttempts\<rparr>"

text \<open>The text of the error that the retries end with.\<close>

definition retry_text :: "string retry_error \<Rightarrow> string" where
  "retry_text e = (case e of CtxErr c \<Rightarrow> c | LastErr c \<Rightarrow> c | AllAttemptsFailed name n c \<Rightarrow> name @ '': all '' @ int_str n @ '' attempts failed: '' @ c)"

text \<open>What the first part of \<open>processPayout\<close> decides, from the order it reads. \<open>read\<close> is the result of the query, or its error.\<close>

datatype 'f payout_plan = PayoutEnd | PayoutDLQ string | PayoutManual "'f Order" | PayoutAuto "'f Order"

definition is_manual :: "payout_config \<Rightarrow> bool" where
  "is_manual cfg \<longleftrightarrow> equal_fold (trim_space (pc_SellPayoutMode cfg)) ''manual'' \<or> trim_space (pc_SellPayoutMode cfg) = []"

definition read_payout :: "payout_config \<Rightarrow> string + 'f Order option \<Rightarrow> 'f payout_plan" where
  "read_payout cfg got =
     (case got of
        Inl e \<Rightarrow> PayoutDLQ (''db fetch error: '' @ e)
      | Inr None \<Rightarrow> PayoutEnd
      | Inr (Some o1) \<Rightarrow> if so_Status o1 \<noteq> StatusPago then PayoutEnd else if is_manual cfg then PayoutManual o1 else PayoutAuto o1)"

text \<open>The manual queue; \<open>err\<close> is the text of an error of the database.\<close>

definition manual_payout :: "string \<Rightarrow> stmt \<Rightarrow> stmt \<Rightarrow> go_time \<Rightarrow> string \<Rightarrow> 'f payout_state \<Rightarrow> 'f payout_state" where
  "manual_payout err st st' now i s =
     (case ClaimOrderForManualPayout st st' now i (ps_db s) of
        (None, db) \<Rightarrow> s\<lparr>ps_db := db, ps_dlq := ps_dlq s @ [(i, 1, ''manual payout queue error: '' @ err)]\<rparr>
      | (Some (claimed, ok), db) \<Rightarrow>
          if \<not> ok then s\<lparr>ps_db := db, ps_dlq := ps_dlq s @ [(i, 1, ''manual payout queue error: '' @ err)]\<rparr>
          else if \<not> claimed then s\<lparr>ps_db := db\<rparr>
          else s\<lparr>ps_db := db, ps_bus := ps_bus s @ [(''payout.manual_required'', i)]\<rparr>)"

text \<open>The run after a successful claim: \<open>st\<close> are the outcomes of its own statements.\<close>

definition set_status :: "stmt \<Rightarrow> stmt \<Rightarrow> go_time \<Rightarrow> string \<Rightarrow> string \<Rightarrow> 'f order_extra \<Rightarrow> 'f payout_state \<Rightarrow> 'f payout_state" where
  "set_status st st' now i status ux s = s\<lparr>ps_db := snd (UpdateOrderStatus st st' now i status ux (ps_db s))\<rparr>"

definition open_incident :: "stmt \<Rightarrow> stmt \<Rightarrow> string \<Rightarrow> 'f payout_state \<Rightarrow> 'f payout_state" where
  "open_incident st st' i s = s\<lparr>ps_db := snd (OpenOrderIncident st st' i ''sell_payout_validation'' (ps_db s))\<rparr>"

definition dead_letter :: "string \<Rightarrow> nat \<Rightarrow> string \<Rightarrow> 'f payout_state \<Rightarrow> 'f payout_state" where
  "dead_letter i n reason s = s\<lparr>ps_dlq := ps_dlq s @ [(i, n, reason)]\<rparr>"

definition pay_claimed ::
  "'f float_ops \<Rightarrow> payout_config \<Rightarrow> (RetryConfig \<Rightarrow> int64 \<Rightarrow> duration) \<Rightarrow> efi_script \<Rightarrow> (nat \<Rightarrow> stmt) \<Rightarrow> go_time \<Rightarrow> 'f Order \<Rightarrow> 'f payout_state \<Rightarrow> 'f payout_state" where
  "pay_claimed F cfg backoffDelay scr st now o1 s =
     (let i = so_ID o1 in
      if so_PixKey o1 = [] then
        dead_letter i 1 ''empty pix key'' (open_incident (st 2) (st 3) i
          (set_status (st 0) (st 1) now i StatusIncidenteValidacao (no_extra\<lparr>ux_error := ''PixKey vazia '' @ [CHR 0xE2, CHR 0x80, CHR 0x94] @ '' contato suporte''\<rparr>) s))
      else if f_le F (so_PayoutBRL o1) (f_zero F) then
        dead_letter i 1 ''invalid payout amount'' (set_status (st 0) (st 1) now i StatusErro (no_extra\<lparr>ux_error := ''PayoutBRL inv'' @ [CHR 0xC3, CHR 0xA1] @ ''lido''\<rparr>) s)
      else if pc_AllowSimulations cfg \<and> \<not> pc_IsProduction cfg then
        (case UpdateOrderStatus (st 0) (st 1) now i StatusConcluida (no_extra\<lparr>ux_txHash := ''pix-sim-'' @ i\<rparr>) (ps_db s) of
           (False, db) \<Rightarrow> s\<lparr>ps_db := db\<rparr>
         | (True, db) \<Rightarrow> s\<lparr>ps_db := db, ps_bus := ps_bus s @ [(''payout.settled'', i)]\<rparr>)
      else if pc_EfiClientID cfg = [] \<or> pc_EfiClientSecret cfg = [] then
        dead_letter i 1 ''efi not configured'' (set_status (st 0) (st 1) now i StatusErro (no_extra\<lparr>ux_error := ''Ef'' @ [CHR 0xC3, CHR 0xAD] @ '' n'' @ [CHR 0xC3, CHR 0xA3] @ ''o configurado''\<rparr>) s)
      else
        case DoWithContext (\<lambda>(scr, s). if es_cancelled scr (ps_attempt s) then Some ''context canceled'' else None)
               (\<lambda>_ (scr, s). (if es_interrupted scr (ps_attempt s) then Some ''context canceled'' else None, (scr, s))) backoffDelay
               payout_retry (''pix.payout.'' @ i) (Some payout_retryable)
               (callEfiPix now i (so_PixKey o1) (so_PayoutBRL o1)) (scr, s\<lparr>ps_attempt := 0\<rparr>) of
          (None, (_, s)) \<Rightarrow> s
        | (Some err, (_, s)) \<Rightarrow>
            let e = retry_text err; reason = ''Payout PIX bloqueado para revisao manual: '' @ e in
            if isPayoutValidationIncident e then
              dead_letter i (ps_attempt s) reason (open_incident (st 2) (st 3) i
                (set_status (st 0) (st 1) now i StatusIncidenteValidacao (no_extra\<lparr>ux_error := reason\<rparr>) s))
            else dead_letter i (ps_attempt s) e (set_status (st 0) (st 1) now i StatusErro (no_extra\<lparr>ux_error := e\<rparr>) s))"


section \<open>Histories\<close>

text \<open>
  The system in which runs, deposits and administrators interleave: the plans that were read and not yet
  acted on, the orders whose run has the claim and has not paid yet, and as history the orders for which
  a credit was written and those for which a claim was made.
\<close>

record 'f sell_sys =
  sy_st :: "'f payout_state"
  sy_runs :: "(string \<times> 'f payout_plan) list"
  sy_claimed :: "'f Order list"
  sy_deposits :: "(string \<times> string \<times> 'f deposit_plan) list"
  sy_credits :: "string list"
  sy_claims :: "string list"

datatype 'f sell_op =
    OpCreate "'f Order"
  | OpReadDeposit onchainNetworkConfig string string 'f 'f
  | OpReadInternal string string 'f
  | OpWriteDeposit nat "nat \<Rightarrow> stmt" go_time
  | OpReadPayout string "string option"
  | OpClaim nat string stmt stmt go_time
  | OpPay nat efi_script "nat \<Rightarrow> stmt" go_time
  | OpManualPaid stmt stmt go_time string string
  | OpExpire stmt "nat \<Rightarrow> stmt" go_time
  | OpReport stmt stmt go_time string string "'f order_extra"

definition remove_nth :: "nat \<Rightarrow> 'a list \<Rightarrow> 'a list" where
  "remove_nth k xs = take k xs @ drop (Suc k) xs"

text \<open>The step of a run that has read its order: it claims it, by the statement of its mode.\<close>

definition claim_run :: "string \<Rightarrow> stmt \<Rightarrow> stmt \<Rightarrow> go_time \<Rightarrow> string \<Rightarrow> 'f payout_plan \<Rightarrow> 'f sell_sys \<Rightarrow> 'f sell_sys" where
  "claim_run err st st' now i plan s =
     (case plan of
        PayoutEnd \<Rightarrow> s
      | PayoutDLQ reason \<Rightarrow> s\<lparr>sy_st := dead_letter i 1 reason (sy_st s)\<rparr>
      | PayoutManual o1 \<Rightarrow> s\<lparr>sy_st := manual_payout err st st' now i (sy_st s)\<rparr>
      | PayoutAuto o1 \<Rightarrow>
          (case ClaimOrderForPayout st now i (ps_db (sy_st s)) of
             (None, db) \<Rightarrow> s\<lparr>sy_st := dead_letter i 1 (''claim error: '' @ err) ((sy_st s)\<lparr>ps_db := db\<rparr>)\<rparr>
           | (Some False, db) \<Rightarrow> s\<lparr>sy_st := (sy_st s)\<lparr>ps_db := db\<rparr>\<rparr>
           | (Some True, db) \<Rightarrow> s\<lparr>sy_st := (sy_st s)\<lparr>ps_db := db\<rparr>, sy_claimed := sy_claimed s @ [o1], sy_claims := sy_claims s @ [i]\<rparr>))"

fun sell_step :: "'f float_ops \<Rightarrow> payout_config \<Rightarrow> (RetryConfig \<Rightarrow> int64 \<Rightarrow> duration) \<Rightarrow> 'f sell_sys \<Rightarrow> 'f sell_op \<Rightarrow> 'f sell_sys" where
  "sell_step F cfg bo s (OpCreate o1) =
     (if so_Status o1 \<noteq> StatusAguardandoDeposito \<or> GetOrder (so_ID o1) (ps_db (sy_st s)) \<noteq> None then s
      else s\<lparr>sy_st := (sy_st s)\<lparr>ps_db := (ps_db (sy_st s))\<lparr>sd_orders := sd_orders (ps_db (sy_st s)) @ [o1]\<rparr>\<rparr>\<rparr>)"
| "sell_step F cfg bo s (OpReadDeposit net i tx amount tol) =
     s\<lparr>sy_deposits := sy_deposits s @ [(i, tx, confirmDeposit_plan F (depositTolerance F tol) net i tx amount (ps_db (sy_st s)))]\<rparr>"
| "sell_step F cfg bo s (OpReadInternal i tx amount) =
     s\<lparr>sy_deposits := sy_deposits s @ [(i, tx, handleDeposit_plan i tx amount (ps_db (sy_st s)))]\<rparr>"
| "sell_step F cfg bo s (OpWriteDeposit k st now) =
     (if k < length (sy_deposits s) then
        case sy_deposits s ! k of (i, tx, plan) \<Rightarrow>
        (case finish_deposit st now i tx plan (ps_db (sy_st s)) of (pub, db) \<Rightarrow>
           s\<lparr>sy_st := (sy_st s)\<lparr>ps_db := db, ps_bus := ps_bus (sy_st s) @ (if pub then [(''payout.requested'', i)] else [])\<rparr>,
             sy_deposits := remove_nth k (sy_deposits s),
             sy_credits := sy_credits s @ (case plan of Plan status ux \<Rightarrow> if status = StatusPago then [i] else [] | _ \<Rightarrow> [])\<rparr>)
      else s)"
| "sell_step F cfg bo s (OpReadPayout i err) =
     s\<lparr>sy_runs := sy_runs s @ [(i, read_payout cfg (case err of Some e \<Rightarrow> Inl e | None \<Rightarrow> Inr (GetOrder i (ps_db (sy_st s)))))]\<rparr>"
| "sell_step F cfg bo s (OpClaim k err st st' now) =
     (if k < length (sy_runs s) then
        case sy_runs s ! k of (i, plan) \<Rightarrow> claim_run err st st' now i plan (s\<lparr>sy_runs := remove_nth k (sy_runs s)\<rparr>)
      else s)"
| "sell_step F cfg bo s (OpPay k scr st now) =
     (if k < length (sy_claimed s) then
        s\<lparr>sy_st := pay_claimed F cfg bo scr st now (sy_claimed s ! k) (sy_st s), sy_claimed := remove_nth k (sy_claimed s)\<rparr>
      else s)"
| "sell_step F cfg bo s (OpManualPaid st st' now i providerID) =
     s\<lparr>sy_st := (sy_st s)\<lparr>ps_db := snd (MarkManualPixPaid st st' now i providerID (ps_db (sy_st s)))\<rparr>\<rparr>"
| "sell_step F cfg bo s (OpExpire st ev now) =
     s\<lparr>sy_st := (sy_st s)\<lparr>ps_db := snd (ExpireStaleSellOrders st ev now (ps_db (sy_st s)))\<rparr>\<rparr>"
| "sell_step F cfg bo s (OpReport st st' now i status ux) =
     (if status \<in> {StatusConcluida, StatusErro, StatusIncidenteValidacao}
      then s\<lparr>sy_st := set_status st st' now i status ux (sy_st s)\<rparr> else s)"

definition sell_start :: "'f sell_sys" where
  "sell_start = \<lparr> sy_st = \<lparr> ps_db = \<lparr> sd_orders = [], sd_events = [], sd_incidents = [] \<rparr>, ps_pix = [], ps_bus = [], ps_dlq = [], ps_attempt = 0 \<rparr>,
     sy_runs = [], sy_claimed = [], sy_deposits = [], sy_credits = [], sy_claims = [] \<rparr>"

section \<open>Statements that credit nothing\<close>

text \<open>One table follows from another by statements that neither credit an order nor touch its key and its amount.\<close>

definition row_after :: "'f Order \<Rightarrow> 'f Order \<Rightarrow> bool" where
  "row_after o1 o2 \<longleftrightarrow> so_ID o2 = so_ID o1 \<and> so_PixKey o2 = so_PixKey o1 \<and> so_PayoutBRL o2 = so_PayoutBRL o1"

definition no_credit :: "'f sell_db \<Rightarrow> 'f sell_db \<Rightarrow> bool" where
  "no_credit db db' \<longleftrightarrow> list_all2 (\<lambda>o1 o2. row_after o1 o2 \<and> (so_Status o2 = StatusPago \<longrightarrow> so_Status o1 = StatusPago)) (sd_orders db) (sd_orders db')"

definition pagos :: "string \<Rightarrow> 'f sell_db \<Rightarrow> nat" where
  "pagos i db = length (filter (\<lambda>o1. so_ID o1 = i \<and> so_Status o1 = StatusPago) (sd_orders db))"

lemma row_after_refl [simp]: "row_after o1 o1"
  by (simp add: row_after_def)

lemma no_credit_refl [simp, intro]: "no_credit db db"
  by (simp add: no_credit_def row_after_def list_all2_refl)

lemma no_credit_trans [trans]: "no_credit a b \<Longrightarrow> no_credit b c \<Longrightarrow> no_credit a c"
  unfolding no_credit_def by (rule list_all2_trans) (auto simp: row_after_def)

lemma no_credit_orders: "sd_orders db' = sd_orders db \<Longrightarrow> no_credit db db'"
  by (simp add: no_credit_def row_after_def list_all2_refl)

lemma no_credit_update_where:
  assumes "\<And>o1. row_after o1 (f o1)" "\<And>o1. P o1 \<Longrightarrow> so_Status (f o1) \<noteq> StatusPago"
  shows "no_credit db (update_where P f db)"
  using assms by (auto simp: no_credit_def update_where_def list_all2_map2 row_after_def intro!: list_all2_refl)

lemma no_credit_pagos: "no_credit db db' \<Longrightarrow> pagos i db' \<le> pagos i db"
proof -
  have "list_all2 (\<lambda>o1 o2. row_after o1 o2 \<and> (so_Status o2 = StatusPago \<longrightarrow> so_Status o1 = StatusPago)) xs ys \<Longrightarrow>
    length (filter (\<lambda>o1. so_ID o1 = i \<and> so_Status o1 = StatusPago) ys) \<le> length (filter (\<lambda>o1. so_ID o1 = i \<and> so_Status o1 = StatusPago) xs)"
    for xs ys :: "'a Order list"
    by (induction rule: list_all2_induct) (auto simp: row_after_def)
  then show "no_credit db db' \<Longrightarrow> pagos i db' \<le> pagos i db" by (simp add: no_credit_def pagos_def)
qed

lemma no_credit_AddEvent [simp]: "no_credit db (snd (sell_AddEvent st i e db'))  = no_credit db db'"
  by (simp add: no_credit_def)

lemma status_row_after: "row_after o1 (status_row now status ux o1)"
  by (simp add: row_after_def status_row_def so_PixKey_def)

lemma UpdateOrderStatus_no_credit: "status \<noteq> StatusPago \<Longrightarrow> no_credit db (snd (UpdateOrderStatus st st' now i status ux db))"
  using no_credit_update_where [of "status_row now status ux" "\<lambda>o1. so_ID o1 = i" db]
  by (auto simp: UpdateOrderStatus_def Let_def status_row_after) (simp_all add: status_row_def)

lemma OpenOrderIncident_no_credit: "no_credit db (snd (OpenOrderIncident st st' i t db))"
  by (auto simp: OpenOrderIncident_def Let_def intro!: no_credit_orders)

lemma claim_no_credit: "to \<noteq> StatusPago \<Longrightarrow> no_credit db (snd (claim_stmt st now i from to db))"
  by (auto simp: claim_stmt_def Let_def row_after_def so_PixKey_def intro!: no_credit_update_where split: stmt.split)

lemma status_distinct [simp]:
  "StatusPago \<noteq> StatusConcluida" "StatusConcluida \<noteq> StatusPago" "StatusAguardandoPixManual \<noteq> StatusPago" "StatusProcessandoPayout \<noteq> StatusPago"
  "StatusErro \<noteq> StatusPago" "StatusIncidenteValidacao \<noteq> StatusPago" "StatusExpirada \<noteq> StatusPago" "StatusAguardandoValidacao \<noteq> StatusPago"
  "StatusAguardandoDeposito \<noteq> StatusPago"
  by (simp_all add: status_defs)

lemma ManualPaid_no_credit: "no_credit db (snd (MarkManualPixPaid st st' now i p db))"
proof -
  have "no_credit db (update_where P (\<lambda>o1. o1\<lparr>so_Status := StatusConcluida, so_TxHash := t, so_UpdatedAt := now\<rparr>) db)" for P t
    by (rule no_credit_update_where) (simp_all add: row_after_def so_PixKey_def)
  then show ?thesis by (simp add: MarkManualPixPaid_def Let_def case_prod_beta split: stmt.split)
qed

lemma fold_events_orders: "sd_orders (foldl (\<lambda>db (k, i). snd (sell_AddEvent (ev k) i t db)) db ks) = sd_orders db"
  by (induction ks arbitrary: db) (auto split: prod.split)

lemma Expire_no_credit: "no_credit db (snd (ExpireStaleSellOrders st ev now db))"
proof -
  have "no_credit db (update_where (stale_sell now) (\<lambda>o1. o1\<lparr>so_Status := StatusExpirada, so_Error := e, so_UpdatedAt := now\<rparr>) db)" for e
    by (rule no_credit_update_where) (simp_all add: row_after_def so_PixKey_def status_defs)
  then show ?thesis
    by (simp add: ExpireStaleSellOrders_def Let_def split: stmt.split) (simp add: no_credit_def fold_events_orders)
qed


lemma manual_payout_no_credit: "no_credit (ps_db s) (ps_db (manual_payout err st st' now i s)) \<and> ps_pix (manual_payout err st st' now i s) = ps_pix s"
  using claim_no_credit [of StatusAguardandoPixManual "ps_db s" st now i "[StatusPago]"]
  by (auto simp: manual_payout_def ClaimOrderForManualPayout_def status_defs split: prod.split option.split bool.split)
     (metis no_credit_AddEvent snd_conv)+

section \<open>A run that pays\<close>

text \<open>What a run adds: at most so many PIX, all to its order, with its key and its amount.\<close>

definition pays_up_to :: "nat \<Rightarrow> 'f pix \<Rightarrow> 'f payout_state \<Rightarrow> 'f payout_state \<Rightarrow> bool" where
  "pays_up_to n p s s' \<longleftrightarrow> (\<exists>k\<le>n. ps_pix s' = ps_pix s @ replicate k p) \<and> no_credit (ps_db s) (ps_db s')"

lemma pays_up_to_trans: "pays_up_to m p a b \<Longrightarrow> pays_up_to n p b c \<Longrightarrow> pays_up_to (m + n) p a c"
  unfolding pays_up_to_def
  by (auto intro: no_credit_trans) (metis add_mono append.assoc replicate_add)

lemma pays_none: "ps_pix s' = ps_pix s \<Longrightarrow> no_credit (ps_db s) (ps_db s') \<Longrightarrow> pays_up_to n p s s'"
  unfolding pays_up_to_def by (intro conjI exI [of _ 0]) simp_all

lemma callEfiPix_pays:
  assumes "callEfiPix now i key amount (scr, s) = (r, scr', s')"
  shows "pays_up_to 1 \<lparr> px_order = i, px_key = key, px_amount = amount \<rparr> s s'"
proof -
  obtain call st st' where c: "(case es_calls scr of [] \<Rightarrow> (RequestFails [] False, Run, Run) | c # _ \<Rightarrow> c) = (call, st, st')"
    by (metis prod_cases3)
  have db: "ps_db s' = ps_db s \<or> ps_db s' = snd (UpdateOrderStatus st st' now i StatusConcluida ux (ps_db s))"
    if "ux = no_extra\<lparr>ux_txHash := e\<rparr>" "call = Accepted e t" for ux e t
    using assms that c by (auto simp: callEfiPix_def Let_def split: prod.splits bool.splits)
  have "no_credit (ps_db s) (ps_db s')"
  proof (cases "\<exists>e t. call = Accepted e t")
    case True
    then show ?thesis using db UpdateOrderStatus_no_credit [of StatusConcluida] by (fastforce simp: status_defs)
  next
    case False
    then have "ps_db s' = ps_db s" using assms c by (auto simp: callEfiPix_def Let_def split: efi_call.splits)
    then show ?thesis by simp
  qed
  moreover have "ps_pix s' = ps_pix s @ (if bank_pays call then [\<lparr> px_order = i, px_key = key, px_amount = amount \<rparr>] else [])"
    using assms c by (auto simp: callEfiPix_def Let_def split: efi_call.splits prod.splits bool.splits)
  ultimately show ?thesis unfolding pays_up_to_def
    by (intro conjI exI [of _ "if bank_pays call then 1 else 0"]) auto
qed

text \<open>What the attempts of a retry loop add up to, when the pauses change nothing.\<close>

lemma retry_loop_adds:
  assumes "attempt \<le> n" "\<And>d w c w'. wait d w = (c, w') \<Longrightarrow> w' = w"
    and "\<And>w e w'. fn w = (e, w') \<Longrightarrow> R (1 :: nat) w w'" "\<And>m w. R m w w"
    and "\<And>m k a b c. R m a b \<Longrightarrow> R k b c \<Longrightarrow> R (m + k) a c"
    and "retry_loop ctx wait delay n name r fn attempt w = (res, w')"
  shows "R (nat (n - attempt) + 1) w w'"
  using assms(1,6)
proof (induction "nat (n - attempt)" arbitrary: attempt w)
  case 0
  then have "n = attempt" by simp
  then show ?case using 0 assms(3) [of w] assms(4) [of _ w]
    by (subst (asm) retry_loop.simps) (auto split: option.splits prod.splits)
next
  case (Suc k)
  obtain e w1 where c: "fn w = (e, w1)" by (cases "fn w")
  note one = assms(3) [OF c]
  have rest: "R (nat (n - (attempt + 1)) + 1) w1 w'" if "retry_loop ctx wait delay n name r fn (attempt + 1) w1 = (res, w')"
    using that Suc by (intro Suc.hyps(1)) auto
  obtain p where pause: "wait (delay attempt) w1 = (p, w1)" using assms(2) by (metis surj_pair)
  have "w' = w \<or> w' = w1 \<or> retry_loop ctx wait delay n name r fn (attempt + 1) w1 = (res, w')"
    using Suc.prems(2) c pause by (subst (asm) retry_loop.simps) (auto split: option.splits if_splits)
  moreover have "1 + (nat (n - (attempt + 1)) + 1) = nat (n - attempt) + 1" using Suc.hyps(2) by simp
  ultimately show ?case using assms(4) assms(5) [OF one rest] assms(5) [OF one assms(4), of "nat (n - attempt)"] by auto
qed

lemma retry_pays:
  assumes "attempt \<le> n" "\<And>d w c w'. wait d w = (c, w') \<Longrightarrow> w' = w"
    and "retry_loop ctx wait delay n name r (callEfiPix now i key amount) attempt (scr, s) = (res, (scr', s'))"
  shows "pays_up_to (nat (n - attempt) + 1) \<lparr> px_order = i, px_key = key, px_amount = amount \<rparr> s s'"
proof -
  have "pays_up_to (nat (n - attempt) + 1) \<lparr> px_order = i, px_key = key, px_amount = amount \<rparr> (snd (scr, s)) (snd (scr', s'))"
    by (rule retry_loop_adds [OF assms(1,2) _ _ _ assms(3), where R = "\<lambda>m w w'. pays_up_to m \<lparr> px_order = i, px_key = key, px_amount = amount \<rparr> (snd w) (snd w')"])
       (auto dest: callEfiPix_pays intro: pays_none pays_up_to_trans)
  then show ?thesis by simp
qed

lemma set_status_pays: "status \<noteq> StatusPago \<Longrightarrow> pays_up_to n p s (set_status st st' now i status ux s)"
  by (intro pays_none) (simp_all add: set_status_def UpdateOrderStatus_no_credit)

lemma open_incident_pays: "pays_up_to n p s (open_incident st st' i s)"
  by (intro pays_none) (simp_all add: open_incident_def OpenOrderIncident_no_credit)

lemma dead_letter_pays: "pays_up_to n p s (dead_letter i k r s)"
  by (intro pays_none) (simp_all add: dead_letter_def)

lemma pays_refl: "pays_up_to n p s s"
  by (intro pays_none) simp_all

lemmas failure_pays = pays_up_to_trans [where n = 0, simplified, OF _ dead_letter_pays]
  pays_up_to_trans [where n = 0, simplified, OF _ open_incident_pays] pays_up_to_trans [where n = 0, simplified, OF _ set_status_pays]

lemma pay_claimed_pays:
  "pays_up_to 4 \<lparr> px_order = so_ID o1, px_key = so_PixKey o1, px_amount = so_PayoutBRL o1 \<rparr> s (pay_claimed F cfg bo scr st now o1 s)"
    (is "pays_up_to 4 ?p _ _")
proof -
  define run where "run = DoWithContext (\<lambda>(scr, s). if es_cancelled scr (ps_attempt s) then Some ''context canceled'' else None)
               (\<lambda>_ (scr, s). (if es_interrupted scr (ps_attempt s) then Some ''context canceled'' else None, (scr, s))) bo
               payout_retry (''pix.payout.'' @ so_ID o1) (Some payout_retryable)
               (callEfiPix now (so_ID o1) (so_PixKey o1) (so_PayoutBRL o1)) (scr, s\<lparr>ps_attempt := 0\<rparr>)"
  obtain res scr' s' where r: "run = (res, (scr', s'))" by (metis prod_cases3)
  have "pays_up_to (nat (4 - 1) + 1) ?p (s\<lparr>ps_attempt := 0\<rparr>) s'"
    using r unfolding run_def DoWithContext_def
    by (intro retry_pays [where attempt = 1 and n = 4]) (auto simp: payout_retry_def maxPayoutAttempts_def)
  then have s': "pays_up_to 4 ?p s s'" by (simp add: pays_up_to_def)
  have sim: "pays_up_to 4 ?p s (case UpdateOrderStatus a b now i StatusConcluida ux (ps_db s) of
      (False, db) \<Rightarrow> s\<lparr>ps_db := db\<rparr> | (True, db) \<Rightarrow> s\<lparr>ps_db := db, ps_bus := bus\<rparr>)" for a b i ux bus
    using UpdateOrderStatus_no_credit [of StatusConcluida "ps_db s" a b now i ux]
    by (intro pays_none) (auto split: prod.split bool.split)
  show ?thesis
    unfolding pay_claimed_def run_def [symmetric] Let_def r
    by (auto intro!: failure_pays sim s' pays_refl split: option.split)
qed

section \<open>One claim for a credit\<close>

definition known_order :: "'f sell_db \<Rightarrow> 'f Order \<Rightarrow> bool" where
  "known_order db o1 \<longleftrightarrow> (\<exists>o2\<in>set (sd_orders db). row_after o2 o1)"

definition pix_ok :: "'f sell_db \<Rightarrow> 'f pix \<Rightarrow> bool" where
  "pix_ok db p \<longleftrightarrow> (\<exists>o1\<in>set (sd_orders db). so_ID o1 = px_order p \<and> so_PixKey o1 = px_key p \<and> so_PayoutBRL o1 = px_amount p)"

definition plan_ok :: "'f sell_db \<Rightarrow> string \<times> 'f payout_plan \<Rightarrow> bool" where
  "plan_ok db = (\<lambda>(i, plan). case plan of PayoutAuto o1 \<Rightarrow> so_ID o1 = i \<and> known_order db o1 | _ \<Rightarrow> True)"

definition pix_of :: "string \<Rightarrow> 'f pix list \<Rightarrow> nat" where
  "pix_of i ps = length (filter (\<lambda>p. px_order p = i) ps)"

definition sell_inv :: "'f sell_sys \<Rightarrow> bool" where
  "sell_inv s \<longleftrightarrow>
     (\<forall>i. count_list (sy_claims s) i + pagos i (ps_db (sy_st s)) \<le> count_list (sy_credits s) i) \<and>
     (\<forall>i. pix_of i (ps_pix (sy_st s)) + 4 * count_list (map so_ID (sy_claimed s)) i \<le> 4 * count_list (sy_claims s) i) \<and>
     distinct (map so_ID (sd_orders (ps_db (sy_st s)))) \<and>
     list_all (pix_ok (ps_db (sy_st s))) (ps_pix (sy_st s)) \<and> list_all (plan_ok (ps_db (sy_st s))) (sy_runs s) \<and>
     list_all (known_order (ps_db (sy_st s))) (sy_claimed s)"

definition same_rows :: "'f sell_db \<Rightarrow> 'f sell_db \<Rightarrow> bool" where
  "same_rows db db' \<longleftrightarrow> list_all2 row_after (sd_orders db) (sd_orders db')"

lemma no_credit_same_rows: "no_credit db db' \<Longrightarrow> same_rows db db'"
  unfolding no_credit_def same_rows_def by (erule list_all2_mono) simp

lemma same_rows_ids: "same_rows db db' \<Longrightarrow> map so_ID (sd_orders db') = map so_ID (sd_orders db)"
proof -
  have "list_all2 row_after xs ys \<Longrightarrow> map so_ID ys = map so_ID xs" for xs ys :: "'a Order list"
    by (induction rule: list_all2_induct) (auto simp: row_after_def)
  then show "same_rows db db' \<Longrightarrow> map so_ID (sd_orders db') = map so_ID (sd_orders db)" by (simp add: same_rows_def)
qed

lemma same_rows_row:
  assumes "same_rows db db'" "o1 \<in> set (sd_orders db)"
  shows "\<exists>o2\<in>set (sd_orders db'). row_after o1 o2"
proof -
  obtain k where "k < length (sd_orders db)" "sd_orders db ! k = o1" using assms(2) by (auto simp: in_set_conv_nth)
  then have "k < length (sd_orders db')" "row_after o1 (sd_orders db' ! k)"
    using assms(1) by (auto simp: same_rows_def list_all2_conv_all_nth)
  then show ?thesis using nth_mem by blast
qed

lemma known_order_mono: "same_rows db db' \<Longrightarrow> known_order db o1 \<Longrightarrow> known_order db' o1"
proof -
  assume n: "same_rows db db'" and "known_order db o1"
  then obtain o2 where o2: "o2 \<in> set (sd_orders db)" "row_after o2 o1" by (auto simp: known_order_def)
  obtain o3 where "o3 \<in> set (sd_orders db')" "row_after o2 o3" using same_rows_row [OF n o2(1)] by blast
  then show ?thesis using o2(2) unfolding known_order_def by (intro bexI [of _ o3]) (simp_all add: row_after_def)
qed

lemma pix_ok_mono: "same_rows db db' \<Longrightarrow> pix_ok db p \<Longrightarrow> pix_ok db' p"
proof -
  assume n: "same_rows db db'" and "pix_ok db p"
  then obtain o2 where o2: "o2 \<in> set (sd_orders db)" "so_ID o2 = px_order p" "so_PixKey o2 = px_key p" "so_PayoutBRL o2 = px_amount p" by (auto simp: pix_ok_def)
  obtain o3 where "o3 \<in> set (sd_orders db')" "row_after o2 o3" using same_rows_row [OF n o2(1)] by blast
  then show ?thesis using o2 by (auto simp: pix_ok_def row_after_def)
qed

lemma plan_ok_mono: "same_rows db db' \<Longrightarrow> plan_ok db p \<Longrightarrow> plan_ok db' p"
  by (auto simp: plan_ok_def known_order_mono split: payout_plan.splits)

lemmas ok_mono = known_order_mono pix_ok_mono plan_ok_mono

text \<open>A step that neither credits nor claims nor pays.\<close>

lemma sell_inv_quiet:
  assumes "sell_inv s" "no_credit (ps_db (sy_st s)) (ps_db (sy_st s'))" "ps_pix (sy_st s') = ps_pix (sy_st s)"
    and "set (sy_runs s') \<subseteq> set (sy_runs s)" "sy_claimed s' = sy_claimed s" "sy_credits s' = sy_credits s" "sy_claims s' = sy_claims s"
  shows "sell_inv s'"
proof -
  note rows = no_credit_same_rows [OF assms(2)]
  have "distinct (map so_ID (sd_orders (ps_db (sy_st s'))))" using assms(1) same_rows_ids [OF rows] by (simp add: sell_inv_def)
  moreover have "count_list (sy_claims s') i + pagos i (ps_db (sy_st s')) \<le> count_list (sy_credits s') i" for i
    using assms(1,6,7) no_credit_pagos [OF assms(2), of i] unfolding sell_inv_def by (metis add_left_mono le_trans)
  ultimately show ?thesis using assms(1,3-) unfolding sell_inv_def list_all_iff by (auto intro: ok_mono [OF rows])
qed


lemma remove_nth_subset: "set (remove_nth k xs) \<subseteq> set xs"
  by (auto simp: remove_nth_def dest: in_set_takeD in_set_dropD)

lemma count_remove_nth: "k < length xs \<Longrightarrow> count_list (remove_nth k xs) x + (if xs ! k = x then 1 else 0) = count_list xs x"
proof -
  assume k: "k < length xs"
  have "count_list xs x = count_list (take k xs @ xs ! k # drop (Suc k) xs) x" using id_take_nth_drop [OF k] by simp
  then show ?thesis by (simp add: remove_nth_def)
qed

lemma remove_nth_map: "map f (remove_nth k xs) = remove_nth k (map f xs)"
  by (simp add: remove_nth_def take_map drop_map)

lemma GetOrder_known: "GetOrder i db = Some o1 \<Longrightarrow> so_ID o1 = i \<and> known_order db o1"
proof -
  assume "GetOrder i db = Some o1"
  then have "o1 \<in> set (sd_orders db)" "so_ID o1 = i" by (auto simp: GetOrder_def find_Some_iff)
  then show ?thesis by (auto simp: known_order_def row_after_def)
qed

lemma read_payout_ok: "plan_ok db (i, read_payout cfg (case err of Some e \<Rightarrow> Inl e | None \<Rightarrow> Inr (GetOrder i db)))"
  using GetOrder_known [of i db] by (auto simp: plan_ok_def read_payout_def split: option.split if_splits)

lemma ClaimOrder_takes:
  assumes "ClaimOrderForPayout st now i db = (Some True, db')"
  shows "Suc (pagos i db') \<le> pagos i db" "no_credit db db'"
proof -
  let ?P = "\<lambda>o1. so_ID o1 = i \<and> so_Status o1 = StatusPago"
  have db': "db' = update_where ?P (\<lambda>o1. o1\<lparr>so_Status := StatusProcessandoPayout, so_UpdatedAt := now\<rparr>) db" and ex: "list_ex ?P (sd_orders db)"
    using assms by (auto simp: ClaimOrderForPayout_def claim_stmt_def Let_def split: stmt.splits)
  have "pagos i db' = 0" unfolding db' by (auto simp: pagos_def update_where_def filter_empty_conv)
  moreover have "filter ?P (sd_orders db) \<noteq> []" using ex by (auto simp: list_ex_iff filter_empty_conv)
  ultimately show "Suc (pagos i db') \<le> pagos i db" by (simp add: pagos_def Suc_le_eq)
  show "no_credit db db'" using claim_no_credit [of StatusProcessandoPayout db st now i "[StatusPago]"] assms by (simp add: ClaimOrderForPayout_def)
qed

lemma pagos_once: "distinct (map so_ID (sd_orders db)) \<Longrightarrow> pagos i db \<le> 1"
proof -
  have "distinct (map so_ID xs) \<Longrightarrow> length (filter (\<lambda>o1. so_ID o1 = i \<and> so_Status o1 = StatusPago) xs) \<le> 1" for xs :: "'a Order list"
  proof (induction xs)
    case (Cons x xs)
    show ?case
    proof (cases "so_ID x = i")
      case True
      then have "\<forall>o1\<in>set xs. so_ID o1 \<noteq> i" using Cons.prems by (auto simp: image_iff)
      then have "filter (\<lambda>o1. so_ID o1 = i \<and> so_Status o1 = StatusPago) xs = []" by (simp add: filter_empty_conv)
      then show ?thesis by simp
    qed (use Cons in simp)
  qed simp
  then show "distinct (map so_ID (sd_orders db)) \<Longrightarrow> pagos i db \<le> 1" by (simp add: pagos_def)
qed

lemma UpdateOrderStatus_rows:
  "same_rows db (snd (UpdateOrderStatus st st' now i status ux db))"
  "j \<noteq> i \<Longrightarrow> pagos j (snd (UpdateOrderStatus st st' now i status ux db)) = pagos j db"
proof -
  have rows: "same_rows db (update_where (\<lambda>o1. so_ID o1 = i) (status_row now status ux) db)" "same_rows db db"
    by (auto simp: same_rows_def update_where_def list_all2_map2 status_row_after intro!: list_all2_refl)
  then show "same_rows db (snd (UpdateOrderStatus st st' now i status ux db))"
    by (simp add: UpdateOrderStatus_def Let_def same_rows_def)
  assume j: "j \<noteq> i"
  have "length (filter (\<lambda>o1. so_ID o1 = j \<and> so_Status o1 = StatusPago) (map (\<lambda>o1. if so_ID o1 = i then status_row now status ux o1 else o1) xs)) =
    length (filter (\<lambda>o1. so_ID o1 = j \<and> so_Status o1 = StatusPago) xs)" for xs :: "'a Order list"
    using j by (induction xs) (auto simp: status_row_def)
  then show "pagos j (snd (UpdateOrderStatus st st' now i status ux db)) = pagos j db"
    by (simp add: UpdateOrderStatus_def Let_def pagos_def update_where_def)
qed

lemma write_deposit_inv:
  assumes "sell_inv s"
  shows "sell_inv (sell_step F cfg bo s (OpWriteDeposit k st now))"
proof (cases "k < length (sy_deposits s)")
  case True
  obtain i tx plan where d: "sy_deposits s ! k = (i, tx, plan)" by (cases "sy_deposits s ! k") auto
  let ?db = "ps_db (sy_st s)" and ?s' = "sell_step F cfg bo s (OpWriteDeposit k st now)"
  show ?thesis
  proof (cases "\<exists>ux. plan = Plan StatusPago ux")
    case False
    have "no_credit ?db (snd (finish_deposit st now i tx plan ?db))"
    proof (cases plan)
      case Replay
      have "no_credit ?db (snd (UpdateOrderStatus (st 0) (st 1) now i StatusIncidenteValidacao ux ?db))" for ux
        by (rule UpdateOrderStatus_no_credit) simp
      then show ?thesis using Replay by (auto simp: finish_deposit_def Let_def intro: no_credit_trans OpenOrderIncident_no_credit)
    next
      case (Plan status ux)
      then show ?thesis using False UpdateOrderStatus_no_credit [of status ?db "st 0" "st 1" now i ux]
        by (auto simp: finish_deposit_def split: prod.split)
    qed (simp add: finish_deposit_def)
    then show ?thesis using True d False
      by (intro sell_inv_quiet [OF assms]) (auto split: prod.split deposit_plan.split)
  next
    case credit: True
    then obtain ux where p: "plan = Plan StatusPago ux" ..
    define db' where "db' = snd (UpdateOrderStatus (st 0) (st 1) now i StatusPago ux ?db)"
    note rows = UpdateOrderStatus_rows [where db = ?db and i = i and st = "st 0" and st' = "st 1" and now = now and status = StatusPago and ux = ux, folded db'_def]
    have s': "ps_db (sy_st ?s') = db'" "ps_pix (sy_st ?s') = ps_pix (sy_st s)" "sy_runs ?s' = sy_runs s" "sy_claimed ?s' = sy_claimed s"
      "sy_credits ?s' = sy_credits s @ [i]" "sy_claims ?s' = sy_claims s"
      using True d p by (auto simp: db'_def finish_deposit_def split: prod.split)
    have ids: "distinct (map so_ID (sd_orders db'))" using assms same_rows_ids [OF rows(1)] by (simp add: sell_inv_def)
    have "count_list (sy_claims s) j + pagos j db' \<le> count_list (sy_credits s @ [i]) j" for j
    proof (cases "j = i")
      case True
      have "count_list (sy_claims s) i \<le> count_list (sy_credits s) i" using assms unfolding sell_inv_def by (meson add_leD1)
      then show ?thesis using True pagos_once [OF ids, of i] by simp
    next
      case False
      then show ?thesis using assms rows(2) [OF False] unfolding sell_inv_def by simp
    qed
    then show ?thesis using assms ids unfolding sell_inv_def list_all_iff s' by (auto intro: ok_mono [OF rows(1)])
  qed
qed (use assms in simp)


lemma claim_run_inv:
  assumes "sell_inv s" "k < length (sy_runs s)" "sy_runs s ! k = (i, plan)"
  shows "sell_inv (claim_run err st st' now i plan (s\<lparr>sy_runs := remove_nth k (sy_runs s)\<rparr>))"
proof -
  let ?s = "s\<lparr>sy_runs := remove_nth k (sy_runs s)\<rparr>" and ?db = "ps_db (sy_st s)"
  have ok: "plan_ok ?db (i, plan)" using assms nth_mem [OF assms(2)] by (auto simp: sell_inv_def list_all_iff)
  have quiet: "sell_inv (claim_run err st st' now i plan ?s)"
    if "no_credit ?db (ps_db (sy_st (claim_run err st st' now i plan ?s)))" "ps_pix (sy_st (claim_run err st st' now i plan ?s)) = ps_pix (sy_st s)"
      "sy_claimed (claim_run err st st' now i plan ?s) = sy_claimed s" "sy_credits (claim_run err st st' now i plan ?s) = sy_credits s"
      "sy_claims (claim_run err st st' now i plan ?s) = sy_claims s" "sy_runs (claim_run err st st' now i plan ?s) = remove_nth k (sy_runs s)"
    using that remove_nth_subset by (intro sell_inv_quiet [OF assms(1)]) simp_all
  show ?thesis
  proof (cases plan)
    case (PayoutAuto o1)
    obtain r db' where c: "ClaimOrderForPayout st now i ?db = (r, db')" by (cases "ClaimOrderForPayout st now i ?db")
    have n: "no_credit ?db db'" using claim_no_credit [of StatusProcessandoPayout ?db st now i "[StatusPago]"] c by (simp add: ClaimOrderForPayout_def)
    show ?thesis
    proof (cases "r = Some True")
      case True
      let ?s' = "claim_run err st st' now i plan ?s"
      have s': "ps_db (sy_st ?s') = db'" "ps_pix (sy_st ?s') = ps_pix (sy_st s)" "sy_runs ?s' = remove_nth k (sy_runs s)" "sy_claimed ?s' = sy_claimed s @ [o1]"
        "sy_credits ?s' = sy_credits s" "sy_claims ?s' = sy_claims s @ [i]"
        using PayoutAuto c True by (simp_all add: claim_run_def)
      have o1: "so_ID o1 = i" "known_order ?db o1" using ok PayoutAuto by (simp_all add: plan_ok_def)
      note rows = no_credit_same_rows [OF n]
      have "count_list (sy_claims s @ [i]) j + pagos j db' \<le> count_list (sy_credits s) j" for j
      proof -
        have old: "count_list (sy_claims s) j + pagos j ?db \<le> count_list (sy_credits s) j" using assms(1) by (simp add: sell_inv_def)
        show ?thesis
        proof (cases "j = i")
          case j: True
          then show ?thesis using old ClaimOrder_takes(1) [OF c [unfolded True]] by simp
        next
          case False
          then show ?thesis using old no_credit_pagos [OF n, of j] by simp
        qed
      qed
      moreover have "pix_of j (ps_pix (sy_st s)) + 4 * count_list (map so_ID (sy_claimed s @ [o1])) j \<le> 4 * count_list (sy_claims s @ [i]) j" for j
        using assms(1) o1(1) by (simp add: sell_inv_def)
      moreover have "distinct (map so_ID (sd_orders db'))" using assms(1) same_rows_ids [OF rows] by (simp add: sell_inv_def)
      ultimately show ?thesis
        using assms(1) o1(2) remove_nth_subset [of k "sy_runs s"] unfolding sell_inv_def list_all_iff s' by (auto intro: ok_mono [OF rows])
    next
      case False
      show ?thesis by (rule quiet) (use PayoutAuto c False n in \<open>auto simp: claim_run_def dead_letter_def split: option.split bool.split\<close>)
    qed
  next
    case (PayoutManual o1)
    then show ?thesis using manual_payout_no_credit [of "sy_st s" err st st' now i] by (intro quiet) (simp_all add: claim_run_def)
  qed (intro quiet; simp add: claim_run_def dead_letter_def)+
qed

lemma pay_inv:
  assumes "sell_inv s"
  shows "sell_inv (sell_step F cfg bo s (OpPay k scr st now))"
proof (cases "k < length (sy_claimed s)")
  case True
  let ?o = "sy_claimed s ! k" and ?db = "ps_db (sy_st s)"
  define s' where "s' = sell_step F cfg bo s (OpPay k scr st now)"
  let ?p = "\<lparr> px_order = so_ID ?o, px_key = so_PixKey ?o, px_amount = so_PayoutBRL ?o \<rparr>"
  obtain n where n: "n \<le> 4" "ps_pix (sy_st s') = ps_pix (sy_st s) @ replicate n ?p" and nc: "no_credit ?db (ps_db (sy_st s'))"
    using pay_claimed_pays [of ?o "sy_st s" F cfg bo scr st now] True by (auto simp: pays_up_to_def s'_def)
  note rows = no_credit_same_rows [OF nc]
  have s': "sy_claimed s' = remove_nth k (sy_claimed s)" "sy_runs s' = sy_runs s" "sy_credits s' = sy_credits s" "sy_claims s' = sy_claims s" using True by (simp_all add: s'_def)
  have "known_order ?db ?o" using assms True by (auto simp: sell_inv_def list_all_iff)
  then have p: "pix_ok ?db ?p" by (auto simp: known_order_def pix_ok_def row_after_def)
  have "pix_of j (ps_pix (sy_st s) @ replicate n ?p) + 4 * count_list (map so_ID (remove_nth k (sy_claimed s))) j \<le> 4 * count_list (sy_claims s) j" for j
  proof -
    have "count_list (map so_ID (remove_nth k (sy_claimed s))) j + (if so_ID ?o = j then 1 else 0) = count_list (map so_ID (sy_claimed s)) j"
      using count_remove_nth [of k "map so_ID (sy_claimed s)" j] True by (simp add: remove_nth_map)
    moreover have "pix_of j (ps_pix (sy_st s)) + 4 * count_list (map so_ID (sy_claimed s)) j \<le> 4 * count_list (sy_claims s) j"
      using assms by (simp add: sell_inv_def)
    moreover have "pix_of j (ps_pix (sy_st s) @ replicate n ?p) = pix_of j (ps_pix (sy_st s)) + (if so_ID ?o = j then n else 0)" by (simp add: pix_of_def)
    ultimately show ?thesis using n(1) by (auto split: if_splits)
  qed
  moreover have "count_list (sy_claims s) j + pagos j (ps_db (sy_st s')) \<le> count_list (sy_credits s) j" for j
    using assms no_credit_pagos [OF nc, of j] unfolding sell_inv_def by (metis add_left_mono le_trans)
  moreover have "distinct (map so_ID (sd_orders (ps_db (sy_st s'))))" using assms same_rows_ids [OF rows] by (simp add: sell_inv_def)
  ultimately have "sell_inv s'"
    using assms p remove_nth_subset [of k "sy_claimed s"] unfolding sell_inv_def list_all_iff n(2) s'
    by (auto intro: ok_mono [OF rows])
  then show ?thesis by (simp only: s'_def)
qed (use assms in simp)

lemma create_inv:
  assumes "sell_inv s"
  shows "sell_inv (sell_step F cfg bo s (OpCreate o1))"
proof (cases "so_Status o1 \<noteq> StatusAguardandoDeposito \<or> GetOrder (so_ID o1) (ps_db (sy_st s)) \<noteq> None")
  case False
  let ?db = "ps_db (sy_st s)" and ?db' = "(ps_db (sy_st s))\<lparr>sd_orders := sd_orders (ps_db (sy_st s)) @ [o1]\<rparr>"
  have "so_ID o1 \<notin> so_ID ` set (sd_orders ?db)" using False by (auto simp: GetOrder_def find_None_iff)
  moreover have "pagos j ?db' = pagos j ?db" for j using False by (simp add: pagos_def)
  moreover have "known_order ?db x \<Longrightarrow> known_order ?db' x" "pix_ok ?db y \<Longrightarrow> pix_ok ?db' y" for x y by (auto simp: known_order_def pix_ok_def)
  moreover from this(1) have "plan_ok ?db z \<Longrightarrow> plan_ok ?db' z" for z by (auto simp: plan_ok_def split: payout_plan.splits)
  ultimately show ?thesis using assms False by (auto simp: sell_inv_def list_all_iff)
qed (use assms in simp)

lemma sell_step_inv: "sell_inv s \<Longrightarrow> sell_inv (sell_step F cfg bo s op)"
proof (cases op)
  case (OpReadPayout i err)
  then show "sell_inv s \<Longrightarrow> ?thesis" using read_payout_ok [of "ps_db (sy_st s)" i cfg err] by (auto simp: sell_inv_def)
next
  case (OpClaim k err st st' now)
  then show "sell_inv s \<Longrightarrow> ?thesis" using claim_run_inv by (auto split: prod.split)
next
  case (OpReport st st' now i status ux)
  show "sell_inv s \<Longrightarrow> ?thesis"
    by (erule sell_inv_quiet) (use OpReport in \<open>auto simp: set_status_def intro: UpdateOrderStatus_no_credit\<close>)
next
  case (OpManualPaid st st' now i p)
  show "sell_inv s \<Longrightarrow> ?thesis" by (erule sell_inv_quiet) (use OpManualPaid ManualPaid_no_credit in simp_all)
next
  case (OpExpire st ev now)
  show "sell_inv s \<Longrightarrow> ?thesis" by (erule sell_inv_quiet) (use OpExpire Expire_no_credit in simp_all)
next
  case (OpReadDeposit net i tx amount tol)
  show "sell_inv s \<Longrightarrow> ?thesis" by (erule sell_inv_quiet) (use OpReadDeposit in simp_all)
next
  case (OpReadInternal i tx amount)
  show "sell_inv s \<Longrightarrow> ?thesis" by (erule sell_inv_quiet) (use OpReadInternal in simp_all)
qed (simp_all only: create_inv write_deposit_inv pay_inv)

lemma sell_start_inv: "sell_inv sell_start"
  by (simp add: sell_inv_def sell_start_def pagos_def pix_of_def)

interpretation sell: transition_system "\<lambda>s. s = sell_start" "sell_step F cfg bo" "\<lambda>_ _. True" sell_inv
  by unfold_locales (auto intro: sell_step_inv sell_start_inv)


section \<open>What the histories show\<close>

text \<open>
  C7. In every interleaving of orders, deposits, runs of the payout worker, administrators and reports, with
  statements and answers lost anywhere: an order is claimed for payment at most once for each credit that a
  deposit wrote, a claimed run has the bank take at most four PIX, and every PIX goes to the key of the order it names
  and has its amount.
\<close>

theorem payout_once_per_credit:
  fixes F cfg bo ops
  defines "s \<equiv> foldl (sell_step F cfg bo) sell_start ops"
  shows "(\<forall>i. count_list (sy_claims s) i \<le> count_list (sy_credits s) i) \<and>
    (\<forall>i. pix_of i (ps_pix (sy_st s)) \<le> 4 * count_list (sy_claims s) i) \<and>
    distinct (map so_ID (sd_orders (ps_db (sy_st s)))) \<and>
    list_all (pix_ok (ps_db (sy_st s))) (ps_pix (sy_st s))"
proof -
  have adm: "sell.admissible F cfg bo t xs" for t xs by (induction xs arbitrary: t) (simp_all add: sell.admissible.simps)
  have "sell_inv s" using sell.run_init_inv [OF refl adm] by (simp add: sell.run_foldl s_def)
  then show ?thesis unfolding sell_inv_def by (meson add_leD1)
qed

text \<open>An order, a deposit that fits it, and worlds in which nothing fails.\<close>

definition demo_order :: "int option Order" where
  "demo_order = \<lparr> so_ID = ''o1'', so_AmountBRL = Some 500, so_AmountUSDT = Some 100, so_FeeBRL = Some 5, so_PayoutBRL = Some 495,
     so_Status = StatusAguardandoDeposito, so_PixCpf = ''k'', so_PixPhone = [], so_Address = ''a'', so_Asset = ''USDT'', so_Network = ''BSC'',
     so_RateLocked = Some 5, so_TxHash = None, so_DepositTx = None, so_DepositAmount = None, so_Error = None,
     so_RateLockExpiresAt = 900, so_CreatedAt = 0, so_UpdatedAt = 0 \<rparr>"

definition demo_config :: payout_config where
  "demo_config = \<lparr> pc_SellPayoutMode = ''auto'', pc_AllowSimulations = False, pc_IsProduction = True, pc_EfiClientID = ''c'', pc_EfiClientSecret = ''s'' \<rparr>"

definition demo_bank :: "(efi_call \<times> stmt \<times> stmt) list \<Rightarrow> efi_script" where
  "demo_bank calls = \<lparr> es_calls = calls, es_cancelled = \<lambda>_. False, es_interrupted = \<lambda>_. False, es_db_error = ''conn closed'' \<rparr>"

definition demo_net :: onchainNetworkConfig where
  "demo_net = \<lparr> nc_Name = ''BSC'', nc_TokenDecimals = 18, nc_RequiredConfirmations = 6 \<rparr>"

lemmas demo_defs = demo_order_def demo_config_def demo_bank_def demo_net_def coarse_float_def status_defs sell_start_def

definition demo_pays :: "int option sell_op list \<Rightarrow> int option pix list" where
  "demo_pays ops = ps_pix (sy_st (foldl (sell_step (coarse_float (\<lambda>_. None)) demo_config (\<lambda>_ _. 0)) sell_start ops))"

definition demo_pay_run :: "efi_script \<Rightarrow> int option sell_op list" where
  "demo_pay_run scr = [OpReadPayout ''o1'' None, OpClaim 0 [] Run Run 3, OpPay 0 scr (\<lambda>_. Run) 4]"


text \<open>
  A PIX that the bank accepted is requested again when recording it fails: the error of the database is an
  error of the attempt, and the retry asks the bank once more.
\<close>

theorem lost_record_repeats_pix:
  "demo_pays ([OpCreate demo_order, OpReadDeposit demo_net ''o1'' ''t'' (Some 100) (Some 0), OpWriteDeposit 0 (\<lambda>_. Run) 1] @
     demo_pay_run (demo_bank [(Accepted ''e1'' ''ok'', NotRun, Run), (Accepted ''e2'' ''ok'', Run, NotRun), (Accepted ''e3'' ''ok'', Run, Run)])) =
     replicate 3 \<lparr> px_order = ''o1'', px_key = ''k'', px_amount = Some 495 \<rparr>"
  by code_simp

end
