(* ===== verification/Buy_Orders.thy ===== *)
theory Buy_Orders
  imports Sell_Orders Reconciliation
begin

text \<open>
  The orders of customers who buy tokens: the statements on \<open>buy_orders\<close> and \<open>buy_order_events\<close>
  (\<open>internal/database/postgres.go\<close>) and the states that the notifications of the payment providers
  lead to (\<open>internal/server/settlement_handlers.go\<close>). The outcome of a statement is that of \<open>Sell_Orders\<close>.
\<close>

record 'f BuyOrder =
  bo_ID :: string
  bo_Status :: string
  bo_FiatCurrency :: string
  bo_PayoutBRL :: 'f
  bo_CryptoAmount :: 'f
  bo_Asset :: string
  bo_Network :: string
  bo_DestAddress :: string
  bo_RateLocked :: 'f
  bo_RateLockExpiresAt :: go_time
  bo_ProviderPaymentID :: "string option"
  bo_TxHashOut :: "string option"
  bo_Error :: "string option"
  bo_PaidAt :: "go_time option"
  bo_SettledAt :: "go_time option"
  bo_DeliveredAt :: "go_time option"
  bo_CreatedAt :: go_time
  bo_UpdatedAt :: go_time

text \<open>The tables; \<open>bd_webhooks\<close> are the events of type \<open>webhook.provider\<close>, which a unique index keeps distinct.\<close>

record 'f buy_db =
  bd_orders :: "'f BuyOrder list"
  bd_events :: "(string \<times> string) list"
  bd_webhooks :: "(string \<times> string) list"

definition paid_states :: "string list" where
  "paid_states = [''pago_fiat'', ''pago_pix'']"

definition delivered_states :: "string list" where
  "delivered_states = [''enviado'', ''delivered'', ''confirmado'']"

definition sending_states :: "string list" where
  "sending_states = [''enviando'', ''pendente_confirmacao''] @ delivered_states"

definition closed_states :: "string list" where
  "closed_states = [''expirado'', ''expirada'', ''cancelado'', ''cancelada'', ''erro'']"

definition GetBuyOrder :: "string \<Rightarrow> 'f buy_db \<Rightarrow> 'f BuyOrder option" where
  "GetBuyOrder i db = find (\<lambda>b. bo_ID b = i) (bd_orders db)"

definition buy_where :: "('f BuyOrder \<Rightarrow> bool) \<Rightarrow> ('f BuyOrder \<Rightarrow> 'f BuyOrder) \<Rightarrow> 'f buy_db \<Rightarrow> 'f buy_db" where
  "buy_where P f db = db\<lparr>bd_orders := map (\<lambda>b. if P b then f b else b) (bd_orders db)\<rparr>"

definition AddBuyEvent :: "stmt \<Rightarrow> string \<Rightarrow> string \<Rightarrow> 'f buy_db \<Rightarrow> bool \<times> 'f buy_db" where
  "AddBuyEvent st i eventType db =
     (case st of
        Run \<Rightarrow> (True, db\<lparr>bd_events := bd_events db @ [(i, eventType)]\<rparr>)
      | NotRun \<Rightarrow> (False, db)
      | NoReply \<Rightarrow> (False, db\<lparr>bd_events := bd_events db @ [(i, eventType)]\<rparr>))"

definition ClaimBuyOrderForSend :: "stmt \<Rightarrow> go_time \<Rightarrow> string \<Rightarrow> 'f buy_db \<Rightarrow> bool option \<times> 'f buy_db" where
  "ClaimBuyOrderForSend st now i db =
     (let P = (\<lambda>b. bo_ID b = i \<and> bo_Status b \<in> set paid_states);
          db' = buy_where P (\<lambda>b. b\<lparr>bo_Status := ''enviando'', bo_UpdatedAt := now\<rparr>) db in
      case st of
        Run \<Rightarrow> (Some (list_ex P (bd_orders db)), db')
      | NotRun \<Rightarrow> (None, db)
      | NoReply \<Rightarrow> (None, db'))"

text \<open>The values that the updates take from their maps; an empty text leaves the column.\<close>

record buy_extra =
  bx_txHashOut :: string
  bx_providerPaymentId :: string
  bx_error :: string

definition no_buy_extra :: buy_extra where
  "no_buy_extra = \<lparr> bx_txHashOut = [], bx_providerPaymentId = [], bx_error = [] \<rparr>"

definition first_time :: "bool \<Rightarrow> go_time \<Rightarrow> go_time option \<Rightarrow> go_time option" where
  "first_time c now old = (if c \<and> old = None then Some now else old)"

definition buy_row :: "go_time \<Rightarrow> string \<Rightarrow> buy_extra \<Rightarrow> 'f BuyOrder \<Rightarrow> 'f BuyOrder" where
  "buy_row now status ux b =
     b\<lparr>bo_Status := status, bo_TxHashOut := keep_nonempty (bx_txHashOut ux) (bo_TxHashOut b),
       bo_ProviderPaymentID := keep_nonempty (bx_providerPaymentId ux) (bo_ProviderPaymentID b),
       bo_Error := keep_nonempty (bx_error ux) (bo_Error b),
       bo_PaidAt := first_time (status \<in> set paid_states) now (bo_PaidAt b),
       bo_SettledAt := first_time (status \<in> set paid_states) now (bo_SettledAt b),
       bo_DeliveredAt := first_time (status \<in> set delivered_states) now (bo_DeliveredAt b), bo_UpdatedAt := now\<rparr>"

definition UpdateBuyOrderStatus :: "stmt \<Rightarrow> stmt \<Rightarrow> go_time \<Rightarrow> string \<Rightarrow> string \<Rightarrow> buy_extra \<Rightarrow> 'f buy_db \<Rightarrow> bool \<times> 'f buy_db" where
  "UpdateBuyOrderStatus st st' now i status ux db =
     (if st = NotRun then (False, db)
      else
        let db = buy_where (\<lambda>b. bo_ID b = i \<and> \<not> (bo_Status b \<in> set delivered_states \<and> status = ''erro'')) (buy_row now status ux) db in
        if st = NoReply then (False, db) else AddBuyEvent st' i (''buy.'' @ status) db)"

definition like_aguardando :: "string \<Rightarrow> bool" where
  "like_aguardando s \<longleftrightarrow> take 10 s = ''aguardando'' \<and> 10 < length s"

definition webhook_applies :: "string \<Rightarrow> string \<Rightarrow> bool" where
  "webhook_applies old new \<longleftrightarrow>
     \<not> (old \<in> set closed_states \<and> new \<in> set paid_states) \<and>
     \<not> (old \<in> set (paid_states @ sending_states) \<and> like_aguardando new) \<and>
     \<not> (old \<in> set sending_states \<and> (new \<in> set paid_states \<or> new = ''erro''))"

text \<open>
  One transaction: a notification that was seen is a duplicate, and one that changes no row counts as such.
  The insertion of the event refers to the order, so an unknown order is an error. \<open>None\<close> is an error.
\<close>

definition ApplyBuyProviderWebhook :: "stmt \<Rightarrow> go_time \<Rightarrow> string \<Rightarrow> string \<Rightarrow> string \<Rightarrow> buy_extra \<Rightarrow> 'f buy_db \<Rightarrow> bool option \<times> 'f buy_db" where
  "ApplyBuyProviderWebhook st now i providerID status ux db =
     (if st = NotRun then (None, db)
      else if providerID \<noteq> [] \<and> GetBuyOrder i db = None then (None, db)
      else if providerID \<noteq> [] \<and> (i, providerID) \<in> set (bd_webhooks db) then (if st = Run then Some True else None, db)
      else
        let db1 = db\<lparr>bd_webhooks := bd_webhooks db @ (if providerID = [] then [] else [(i, providerID)])\<rparr>;
            P = (\<lambda>b. bo_ID b = i \<and> webhook_applies (bo_Status b) status);
            ux = ux\<lparr>bx_providerPaymentId := (if bx_providerPaymentId ux = [] then providerID else bx_providerPaymentId ux)\<rparr>;
            hit = list_ex P (bd_orders db);
            db2 = (if hit then (buy_where P (buy_row now status ux) db1)\<lparr>bd_events := bd_events db @ [(i, ''buy.'' @ status)]\<rparr> else db1) in
        (if st = Run then Some (\<not> hit) else None, db2))"

definition stale_buy :: "go_time \<Rightarrow> 'f BuyOrder \<Rightarrow> bool" where
  "stale_buy now b \<longleftrightarrow> bo_Status b \<in> {''aguardando_pix'', ''payment_provider_pending''} \<and> bo_PaidAt b = None \<and> bo_RateLockExpiresAt b \<le> now"

definition ExpireStaleBuyOrders :: "stmt \<Rightarrow> (nat \<Rightarrow> stmt) \<Rightarrow> go_time \<Rightarrow> 'f buy_db \<Rightarrow> nat option \<times> 'f buy_db" where
  "ExpireStaleBuyOrders st ev now db =
     (let ids = map bo_ID (filter (stale_buy now) (bd_orders db));
          db' = buy_where (stale_buy now)
            (\<lambda>b. b\<lparr>bo_Status := ''expirado'', bo_Error := Some ''pagamento Pix nao identificado dentro da janela de pagamento'', bo_UpdatedAt := now\<rparr>) db in
      case st of
        Run \<Rightarrow> (Some (length ids), foldl (\<lambda>db (k, i). snd (AddBuyEvent (ev k) i ''buy.expirado'' db)) db' (zip [0..<length ids] ids))
      | NotRun \<Rightarrow> (None, db)
      | NoReply \<Rightarrow> (None, db'))"

definition ListPendingBuys :: "go_time \<Rightarrow> 'f buy_db \<Rightarrow> 'f BuyOrder list" where
  "ListPendingBuys now db =
     filter (\<lambda>b. bo_Status b \<in> set paid_states \<or> bo_Status b = ''enviando'' \<and> bo_UpdatedAt b < now - 60 * second) (bd_orders db)"

text \<open>The states of a card payment.\<close>

definition efiChargeStatusToBuyStatus :: "string \<Rightarrow> string" where
  "efiChargeStatusToBuyStatus status =
     (let s = to_lower (trim_space status) in
      if s = ''paid'' then ''pago_fiat''
      else if s \<in> {''canceled'', ''cancelled'', ''unpaid'', ''refunded'', ''contested''} then ''erro''
      else ''aguardando_credit_card'')"

text \<open>
  The notifications as the handlers apply them: the number of the order, the number of the payment, the
  state it leads to and the texts it carries. Those of PIX come with their own number or that of the
  transaction, those of a card are numbered by the charge and its state.
\<close>

datatype buy_notice = PixNotice string string string string | PspNotice string string | CardNotice string string string

fun notice_order :: "buy_notice \<Rightarrow> string" where
  "notice_order (PixNotice i pid status err) = i"
| "notice_order (PspNotice i pid) = i"
| "notice_order (CardNotice i charge status) = i"

fun notice_provider :: "buy_notice \<Rightarrow> string" where
  "notice_provider (PixNotice i pid status err) = pid"
| "notice_provider (PspNotice i pid) = pid"
| "notice_provider (CardNotice i charge status) = charge @ ''-'' @ status"

fun notice_status :: "buy_notice \<Rightarrow> string" where
  "notice_status (PixNotice i pid status err) = PixWebhookStatus (db_firstNonEmpty [status, ''CONCLUIDA''])"
| "notice_status (PspNotice i pid) = PixWebhookStatus ''CONCLUIDA''"
| "notice_status (CardNotice i charge status) = efiChargeStatusToBuyStatus status"

fun notice_extra :: "buy_notice \<Rightarrow> buy_extra" where
  "notice_extra (PixNotice i pid status err) =
     (if ShouldPublishBuyPaid (notice_status (PixNotice i pid status err)) then no_buy_extra\<lparr>bx_providerPaymentId := pid\<rparr> else no_buy_extra\<lparr>bx_error := err\<rparr>)"
| "notice_extra (PspNotice i pid) = no_buy_extra\<lparr>bx_providerPaymentId := pid\<rparr>"
| "notice_extra (CardNotice i charge status) =
     no_buy_extra\<lparr>bx_providerPaymentId := charge,
       bx_error := (if efiChargeStatusToBuyStatus status = ''erro'' then ''Ef'' @ [CHR 0xC3, CHR 0xAD] @ '' charge status: '' @ status else [])\<rparr>"

fun notice_valid :: "buy_notice \<Rightarrow> bool" where
  "notice_valid (PixNotice i pid status err) = (i \<noteq> [] \<and> pid \<noteq> [])"
| "notice_valid (PspNotice i pid) = (i \<noteq> [] \<and> pid \<noteq> [])"
| "notice_valid (CardNotice i charge status) = (i \<noteq> [] \<and> charge \<noteq> [] \<and> status \<noteq> [])"

text \<open>The handler of a notification: what it writes and whether it publishes \<open>buy.paid\<close>.\<close>

definition handle_notice :: "stmt \<Rightarrow> go_time \<Rightarrow> buy_notice \<Rightarrow> 'f buy_db \<Rightarrow> bool \<times> 'f buy_db" where
  "handle_notice st now n db =
     (if \<not> notice_valid n then (False, db)
      else
        case ApplyBuyProviderWebhook st now (notice_order n) (notice_provider n) (notice_status n) (notice_extra n) db of
          (r, db) \<Rightarrow> (r = Some False \<and> ShouldPublishBuyPaid (notice_status n), db))"

end
