(* ===== verification/Liquidity_Router.thy ===== *)
theory Liquidity_Router
  imports Liquidity_Pairs Float_Ops "HOL-Library.Multiset"
begin

text \<open>
  The router of buy orders over providers of liquidity (\<open>internal/liquidity/router.go\<close>, \<open>static_provider.go\<close>).
  A provider is the environment: what it quotes, whether it can execute, and for an execution both what
  the caller is told and whether the tokens were delivered. Quotes are collected from goroutines, so the
  order in which they arrive is a parameter.
\<close>

section \<open>Requests, quotes and executions\<close>

record 'f Request =
  lr_OrderID :: string
  lr_Asset :: string
  lr_Network :: string
  lr_TokenContract :: string
  lr_TokenDecimals :: int64
  lr_FiatCurrency :: string
  lr_AmountBRL :: 'f
  lr_CryptoAmount :: 'f
  lr_QuoteLockedRate :: 'f
  lr_DestAddress :: string
  lr_CreatedAt :: go_time

record 'f Quote =
  lq_Provider :: string
  lq_ProviderType :: string
  lq_ExternalQuoteID :: string
  lq_Asset :: string
  lq_Network :: string
  lq_TokenContract :: string
  lq_TokenDecimals :: int64
  lq_DestAddress :: string
  lq_FiatCostBRL :: 'f
  lq_ProviderFeeBRL :: 'f
  lq_NetworkFeeBRL :: 'f
  lq_SpreadBRL :: 'f
  lq_TotalCostBRL :: 'f
  lq_CryptoAmount :: 'f
  lq_DeliverySLASeconds :: int64
  lq_ReliabilityBps :: int64
  lq_DirectDelivery :: bool
  lq_ExpiresAt :: go_time

record 'f Execution =
  le_Provider :: string
  le_ExternalOrderID :: string
  le_Status :: string
  le_TxHash :: string
  le_Asset :: string
  le_Network :: string
  le_TokenContract :: string
  le_DestAddress :: string
  le_DeliveredAmount :: 'f

definition normalizeRequest :: "go_time \<Rightarrow> 'f Request \<Rightarrow> 'f Request" where
  "normalizeRequest now req =
     req\<lparr>lr_Asset := to_upper (trim_space (lr_Asset req)), lr_Network := NormalizeNetwork (lr_Network req),
         lr_TokenContract := trim_space (lr_TokenContract req),
         lr_TokenDecimals := (if lr_TokenDecimals req \<le> 0 then 18 else lr_TokenDecimals req),
         lr_FiatCurrency := (let c = to_upper (trim_space (lr_FiatCurrency req)) in if c = [] then ''BRL'' else c),
         lr_CreatedAt := (if time_is_zero (lr_CreatedAt req) then now else lr_CreatedAt req)\<rparr>"

definition normalizeQuote :: "'f float_ops \<Rightarrow> go_time \<Rightarrow> 'f Request \<Rightarrow> 'f Quote \<Rightarrow> string \<Rightarrow> 'f Quote" where
  "normalizeQuote F now req quote providerName =
     quote\<lparr>lq_Provider := trim_space (firstNonEmpty [lq_Provider quote, providerName]),
       lq_ProviderType := to_lower (trim_space (lq_ProviderType quote)),
       lq_Asset := to_upper (trim_space (firstNonEmpty [lq_Asset quote, lr_Asset req])),
       lq_Network := NormalizeNetwork (firstNonEmpty [lq_Network quote, lr_Network req]),
       lq_TokenContract := trim_space (firstNonEmpty [lq_TokenContract quote, lr_TokenContract req]),
       lq_DestAddress := trim_space (firstNonEmpty [lq_DestAddress quote, lr_DestAddress req]),
       lq_TokenDecimals := (if lq_TokenDecimals quote \<le> 0 then lr_TokenDecimals req else lq_TokenDecimals quote),
       lq_CryptoAmount := (if f_le F (lq_CryptoAmount quote) (f_zero F) then lr_CryptoAmount req else lq_CryptoAmount quote),
       lq_TotalCostBRL := (if f_le F (lq_TotalCostBRL quote) (f_zero F)
          then f_add F (f_add F (f_add F (lq_FiatCostBRL quote) (lq_ProviderFeeBRL quote)) (lq_NetworkFeeBRL quote)) (lq_SpreadBRL quote)
          else lq_TotalCostBRL quote),
       lq_ExpiresAt := (if time_is_zero (lq_ExpiresAt quote) then now + 2 * minute else lq_ExpiresAt quote),
       lq_ReliabilityBps := (if lq_ReliabilityBps quote \<le> 0 then 9000 else lq_ReliabilityBps quote)\<rparr>"

definition cryptoAmountTolerance :: "'f float_ops \<Rightarrow> 'f \<Rightarrow> 'f" where
  "cryptoAmountTolerance F amount = (if f_le F amount (f_zero F) then f_zero F else f_mul F amount (f_lit F 5 1000))"

definition quoteMatchesRequest :: "'f float_ops \<Rightarrow> 'f Request \<Rightarrow> 'f Quote \<Rightarrow> bool" where
  "quoteMatchesRequest F req quote \<longleftrightarrow>
     equal_fold (lq_Asset quote) (lr_Asset req) \<and>
     NormalizeNetwork (lq_Network quote) = NormalizeNetwork (lr_Network req) \<and>
     equal_fold (trim_space (lq_TokenContract quote)) (trim_space (lr_TokenContract req)) \<and>
     (trim_space (lq_DestAddress quote) = [] \<or> equal_fold (trim_space (lq_DestAddress quote)) (trim_space (lr_DestAddress req))) \<and>
     (0 < lr_TokenDecimals req \<longrightarrow> lq_TokenDecimals quote = lr_TokenDecimals req) \<and>
     \<not> (f_lt F (f_zero F) (lr_CryptoAmount req) \<and>
        f_lt F (f_add F (lq_CryptoAmount quote) (cryptoAmountTolerance F (lr_CryptoAmount req))) (lr_CryptoAmount req))"

definition executionMatchesRequest :: "'f float_ops \<Rightarrow> 'f Request \<Rightarrow> 'f Execution \<Rightarrow> bool" where
  "executionMatchesRequest F req exec \<longleftrightarrow>
     (trim_space (le_Asset exec) = [] \<or> equal_fold (le_Asset exec) (lr_Asset req)) \<and>
     (trim_space (le_Network exec) = [] \<or> NormalizeNetwork (le_Network exec) = NormalizeNetwork (lr_Network req)) \<and>
     (trim_space (le_TokenContract exec) = [] \<or> equal_fold (trim_space (le_TokenContract exec)) (trim_space (lr_TokenContract req))) \<and>
     (trim_space (le_DestAddress exec) = [] \<or> equal_fold (trim_space (le_DestAddress exec)) (trim_space (lr_DestAddress req))) \<and>
     \<not> (f_lt F (f_zero F) (lr_CryptoAmount req) \<and> f_lt F (f_zero F) (le_DeliveredAmount exec) \<and>
        f_lt F (f_add F (le_DeliveredAmount exec) (cryptoAmountTolerance F (lr_CryptoAmount req))) (lr_CryptoAmount req))"

section \<open>The order of the quotes\<close>

definition quoteScore :: "'f float_ops \<Rightarrow> 'f Quote \<Rightarrow> 'f" where
  "quoteScore F q =
     f_sub F (f_add F (lq_TotalCostBRL q) (f_mul F (f_of_int F (max 0 (i64_sub (lq_DeliverySLASeconds q) 60))) (f_lit F 2 1000)))
       (f_mul F (f_of_int F (max 0 (i64_sub (lq_ReliabilityBps q) 9000))) (f_lit F 1 10000))"

text \<open>The order of strings is that of their bytes.\<close>

fun str_less :: "string \<Rightarrow> string \<Rightarrow> bool" where
  "str_less _ [] = False"
| "str_less [] (_ # _) = True"
| "str_less (a # as) (b # bs) = (code a < code b \<or> code a = code b \<and> str_less as bs)"

definition quote_less :: "'f float_ops \<Rightarrow> 'f Quote \<Rightarrow> 'f Quote \<Rightarrow> bool" where
  "quote_less F a b =
     (let l = quoteScore F a; r = quoteScore F b in
      if f_le F l r \<and> f_le F r l then str_less (lq_Provider a) (lq_Provider b) else f_lt F l r)"

text \<open>A stable sort; any two of them agree when the comparison is a weak order.\<close>

fun insert_quote :: "'f float_ops \<Rightarrow> 'f Quote \<Rightarrow> 'f Quote list \<Rightarrow> 'f Quote list" where
  "insert_quote F q [] = [q]"
| "insert_quote F q (x # xs) = (if quote_less F x q then x # insert_quote F q xs else q # x # xs)"

definition sortQuotes :: "'f float_ops \<Rightarrow> 'f Quote list \<Rightarrow> 'f Quote list" where
  "sortQuotes F qs = foldr (insert_quote F) qs []"

section \<open>The router\<close>

text \<open>
  An answer to an execution: whether the tokens were delivered, and the error or the execution that the
  caller gets. The number counts the executions that the call has asked for.
\<close>

record 'f exec_reply =
  xr_delivers :: bool
  xr_result :: "string + 'f Execution"

record 'f LiquidityProvider =
  pv_Name :: string
  pv_Quote :: "'f Request \<Rightarrow> string + 'f Quote"
  pv_Execute :: "(nat \<Rightarrow> 'f Request \<Rightarrow> 'f Quote \<Rightarrow> 'f exec_reply) option"

definition provider_quote :: "'f float_ops \<Rightarrow> go_time \<Rightarrow> 'f Request \<Rightarrow> 'f LiquidityProvider \<Rightarrow> 'f Quote option" where
  "provider_quote F now req p =
     (case pv_Quote p req of
        Inl _ \<Rightarrow> None
      | Inr quote \<Rightarrow>
          (let quote = normalizeQuote F now req quote (pv_Name p) in
           if f_le F (lq_TotalCostBRL quote) (f_zero F) \<or> f_le F (lq_CryptoAmount quote) (f_zero F) then None
           else if \<not> quoteMatchesRequest F req quote then None
           else Some quote))"

definition QuoteAll :: "'f float_ops \<Rightarrow> go_time \<Rightarrow> ('f Quote list \<Rightarrow> 'f Quote list) \<Rightarrow> 'f LiquidityProvider list \<Rightarrow> 'f Request \<Rightarrow> 'f Quote list" where
  "QuoteAll F now arrive providers req =
     sortQuotes F (arrive (List.map_filter (provider_quote F now (normalizeRequest now req)) providers))"

datatype route_error = ErrNoProviderQuote | ErrNoExecutable string | ProviderError string | ExecutionMismatch

definition BestQuote :: "'f float_ops \<Rightarrow> go_time \<Rightarrow> ('f Quote list \<Rightarrow> 'f Quote list) \<Rightarrow> 'f LiquidityProvider list \<Rightarrow> 'f Request \<Rightarrow> route_error + ('f Quote \<times> 'f Quote list)" where
  "BestQuote F now arrive providers req =
     (case QuoteAll F now arrive providers req of [] \<Rightarrow> Inl ErrNoProviderQuote | q # qs \<Rightarrow> Inr (q, q # qs))"

definition provider_key :: "string \<Rightarrow> string" where
  "provider_key s = to_upper (trim_space s)"

text \<open>The map by name: the last provider of a name is the one that is found.\<close>

definition providersByName :: "'f LiquidityProvider list \<Rightarrow> string \<Rightarrow> 'f LiquidityProvider option" where
  "providersByName providers nm = find (\<lambda>p. provider_key (pv_Name p) = provider_key nm) (rev providers)"

definition first_error :: "route_error option \<Rightarrow> route_error \<Rightarrow> route_error option" where
  "first_error e new = (case e of None \<Rightarrow> Some new | Some old \<Rightarrow> Some old)"

text \<open>
  The loop over the quotes. The result is the first error or the quote with its execution, and the list of
  the quotes that a provider was asked to execute, each with whether it delivered.
\<close>

fun execute_quotes :: "'f float_ops \<Rightarrow> go_time \<Rightarrow> 'f LiquidityProvider list \<Rightarrow> 'f Request \<Rightarrow> route_error option \<Rightarrow> ('f Quote \<times> bool) list \<Rightarrow> 'f Quote list \<Rightarrow>
    (route_error option + 'f Quote \<times> 'f Execution) \<times> ('f Quote \<times> bool) list" where
  "execute_quotes F now providers req err asked [] = (Inl err, asked)"
| "execute_quotes F now providers req err asked (quote # quotes) =
     (case Option.bind (providersByName providers (lq_Provider quote)) pv_Execute of
        None \<Rightarrow> execute_quotes F now providers req (first_error err (ErrNoExecutable (lq_Provider quote))) asked quotes
      | Some execute \<Rightarrow>
          (let reply = execute (length asked) (normalizeRequest now req) quote; asked = asked @ [(quote, xr_delivers reply)] in
           case xr_result reply of
             Inl e \<Rightarrow> execute_quotes F now providers req (first_error err (ProviderError e)) asked quotes
           | Inr exec \<Rightarrow>
               (let exec = (if trim_space (le_Provider exec) = [] then exec\<lparr>le_Provider := lq_Provider quote\<rparr> else exec) in
                if \<not> executionMatchesRequest F req exec
                then execute_quotes F now providers req (first_error err ExecutionMismatch) asked quotes
                else (Inr (quote, exec), asked))))"

record 'f routed =
  rt_best :: "'f Quote option"
  rt_quotes :: "'f Quote list"
  rt_result :: "route_error + 'f Execution"
  rt_asked :: "('f Quote \<times> bool) list"

definition ExecuteBest :: "'f float_ops \<Rightarrow> go_time \<Rightarrow> ('f Quote list \<Rightarrow> 'f Quote list) \<Rightarrow> 'f LiquidityProvider list \<Rightarrow> 'f Request \<Rightarrow> 'f routed" where
  "ExecuteBest F now arrive providers req =
     (case BestQuote F now arrive providers req of
        Inl e \<Rightarrow> \<lparr> rt_best = None, rt_quotes = [], rt_result = Inl e, rt_asked = [] \<rparr>
      | Inr (best, quotes) \<Rightarrow>
          (case execute_quotes F now providers req None [] quotes of
             (Inr (quote, exec), asked) \<Rightarrow> \<lparr> rt_best = Some quote, rt_quotes = quotes, rt_result = Inr exec, rt_asked = asked \<rparr>
           | (Inl (Some e), asked) \<Rightarrow> \<lparr> rt_best = Some best, rt_quotes = quotes, rt_result = Inl e, rt_asked = asked \<rparr>
           | (Inl None, asked) \<Rightarrow> \<lparr> rt_best = Some best, rt_quotes = quotes, rt_result = Inl (ErrNoExecutable (lq_Provider best)), rt_asked = asked \<rparr>))"


section \<open>The best quote\<close>

text \<open>The scores of some quotes compare like numbers: none is NaN.\<close>

definition scores_ordered :: "'f float_ops \<Rightarrow> 'f Quote set \<Rightarrow> bool" where
  "scores_ordered F Q \<longleftrightarrow>
     (\<forall>a\<in>Q. \<forall>b\<in>Q. (f_le F (quoteScore F a) (quoteScore F b) \<or> f_le F (quoteScore F b) (quoteScore F a)) \<and>
        (f_lt F (quoteScore F a) (quoteScore F b) \<longleftrightarrow> \<not> f_le F (quoteScore F b) (quoteScore F a)) \<and>
        (\<forall>c\<in>Q. f_le F (quoteScore F a) (quoteScore F b) \<longrightarrow> f_le F (quoteScore F b) (quoteScore F c) \<longrightarrow> f_le F (quoteScore F a) (quoteScore F c)))"

lemma str_less_irrefl [simp]: "\<not> str_less s s"
  by (induction s) simp_all

lemma str_less_trans: "str_less a b \<Longrightarrow> str_less b c \<Longrightarrow> str_less a c"
proof (induction a b arbitrary: c rule: str_less.induct)
  case (2 x xs)
  then show ?case by (cases c) simp_all
next
  case (3 a as b bs)
  then show ?case by (cases c) auto
qed simp

lemma str_less_total: "a \<noteq> b \<Longrightarrow> str_less a b \<or> str_less b a"
proof (induction a b rule: str_less.induct)
  case (1 a)
  then show ?case by (cases a) simp_all
next
  case (3 a as b bs)
  then show ?case using less_linear [of "code a" "code b"] by (cases "a = b") auto
qed simp

lemma insert_quote_mset [simp]: "mset (insert_quote F q qs) = add_mset q (mset qs)"
  by (induction qs) auto

lemma sortQuotes_mset [simp]: "mset (sortQuotes F qs) = mset qs"
  by (induction qs) (simp_all add: sortQuotes_def)

lemma sortQuotes_set [simp]: "set (sortQuotes F qs) = set qs"
  by (metis sortQuotes_mset set_mset_mset)

lemma insert_quote_set [simp]: "set (insert_quote F q qs) = insert q (set qs)"
  by (metis insert_quote_mset set_mset_add_mset_insert set_mset_mset)

lemma sortQuotes_Cons: "sortQuotes F (q # qs) = insert_quote F q (sortQuotes F qs)"
  by (simp add: sortQuotes_def)

lemma quote_less_le:
  assumes "scores_ordered F Q" "a \<in> Q" "b \<in> Q"
  shows "quote_less F a b \<Longrightarrow> f_le F (quoteScore F a) (quoteScore F b)" "\<not> quote_less F a b \<Longrightarrow> f_le F (quoteScore F b) (quoteScore F a)"
proof -
  have "f_lt F (quoteScore F a) (quoteScore F b) \<longleftrightarrow> \<not> f_le F (quoteScore F b) (quoteScore F a)"
    "f_le F (quoteScore F a) (quoteScore F b) \<or> f_le F (quoteScore F b) (quoteScore F a)"
    using assms unfolding scores_ordered_def by blast+
  then show "quote_less F a b \<Longrightarrow> f_le F (quoteScore F a) (quoteScore F b)" "\<not> quote_less F a b \<Longrightarrow> f_le F (quoteScore F b) (quoteScore F a)"
    by (auto simp: quote_less_def Let_def split: if_splits)
qed

text \<open>For any relation that the comparison decides and that is transitive on the quotes, the sorted list is ordered by it.\<close>

lemma insert_quote_sorted:
  assumes "\<And>a b. a \<in> Q \<Longrightarrow> b \<in> Q \<Longrightarrow> quote_less F a b \<Longrightarrow> R a b" "\<And>a b. a \<in> Q \<Longrightarrow> b \<in> Q \<Longrightarrow> \<not> quote_less F b a \<Longrightarrow> R a b"
    and "\<And>a b c. a \<in> Q \<Longrightarrow> b \<in> Q \<Longrightarrow> c \<in> Q \<Longrightarrow> R a b \<Longrightarrow> R b c \<Longrightarrow> R a c"
    and "set (q # qs) \<subseteq> Q" "sorted_wrt R qs"
  shows "sorted_wrt R (insert_quote F q qs)"
  using assms(4,5)
proof (induction qs)
  case (Cons x xs)
  show ?case
  proof (cases "quote_less F x q")
    case True
    then show ?thesis using Cons assms(1) by auto
  next
    case False
    have "R q x" using assms(2) False Cons.prems(1) by auto
    moreover have "\<forall>y\<in>set xs. R q y" 
    proof
      fix y assume "y \<in> set xs"
      then show "R q y" using Cons.prems calculation by (intro assms(3) [of q x y]) auto
    qed
    ultimately show ?thesis using Cons.prems False by auto
  qed
qed simp

lemma sortQuotes_by_score:
  assumes "scores_ordered F (set qs)"
  shows "sorted_wrt (\<lambda>a b. f_le F (quoteScore F a) (quoteScore F b)) (sortQuotes F qs)"
proof -
  have "set ps \<subseteq> set qs \<Longrightarrow> sorted_wrt (\<lambda>a b. f_le F (quoteScore F a) (quoteScore F b)) (sortQuotes F ps)" for ps
  proof (induction ps)
    case (Cons p ps)
    show ?case unfolding sortQuotes_Cons
    proof (rule insert_quote_sorted [where Q = "set qs"])
      show "f_le F (quoteScore F a) (quoteScore F c)"
        if "a \<in> set qs" "b \<in> set qs" "c \<in> set qs" "f_le F (quoteScore F a) (quoteScore F b)" "f_le F (quoteScore F b) (quoteScore F c)" for a b c
        using assms that unfolding scores_ordered_def by blast
    qed (use Cons quote_less_le [OF assms] in auto)
  qed (simp add: sortQuotes_def)
  then show ?thesis by simp
qed

definition offered :: "'f float_ops \<Rightarrow> go_time \<Rightarrow> 'f LiquidityProvider list \<Rightarrow> 'f Request \<Rightarrow> 'f Quote list" where
  "offered F now providers req = List.map_filter (provider_quote F now (normalizeRequest now req)) providers"

lemma set_map_filter: "set (List.map_filter f xs) = {y. \<exists>x\<in>set xs. f x = Some y}"
  by (auto simp: List.map_filter_def image_iff) (metis option.sel)+

lemma provider_quote_matches: "provider_quote F now req p = Some q \<Longrightarrow> quoteMatchesRequest F req q"
  by (auto simp: provider_quote_def Let_def split: sum.splits if_splits)

lemma offered_matches: "q \<in> set (offered F now providers req) \<Longrightarrow> quoteMatchesRequest F (normalizeRequest now req) q"
  by (auto simp: offered_def set_map_filter dest: provider_quote_matches)

text \<open>
  C24. Whatever the order in which the providers answer, the quotes are those that fit the request, and the
  best has the least score: cost plus a charge for slow delivery minus a discount for reliability.
\<close>

theorem best_quote_cheapest:
  assumes "\<And>xs. mset (arrive xs) = mset xs" "scores_ordered F (set (offered F now providers req))"
    and "BestQuote F now arrive providers req = Inr (best, quotes)"
  shows "mset quotes = mset (offered F now providers req) \<and> best \<in> set quotes \<and>
    list_all (quoteMatchesRequest F (normalizeRequest now req)) quotes \<and>
    list_all (\<lambda>q. f_le F (quoteScore F best) (quoteScore F q)) quotes"
proof -
  let ?qs = "arrive (offered F now providers req)"
  have set: "set ?qs = set (offered F now providers req)" using assms(1) by (metis set_mset_mset)
  have q: "quotes = sortQuotes F ?qs" "quotes \<noteq> []" "best = hd quotes"
    using assms(3) by (auto simp: BestQuote_def QuoteAll_def offered_def split: list.splits) (metis list.sel(1))
  have sorted: "sorted_wrt (\<lambda>a b. f_le F (quoteScore F a) (quoteScore F b)) quotes"
    unfolding q(1) using assms(2) set by (intro sortQuotes_by_score) simp
  have refl: "f_le F (quoteScore F best) (quoteScore F best)"
    using assms(2) q set unfolding scores_ordered_def by (metis list.set_sel(1) sortQuotes_set)
  have "list_all (\<lambda>q. f_le F (quoteScore F best) (quoteScore F q)) quotes"
    using sorted refl q(2,3) by (cases quotes) (auto simp: list_all_iff)
  moreover have "list_all (quoteMatchesRequest F (normalizeRequest now req)) quotes"
    using set offered_matches [of _ F now providers req] unfolding q(1) by (auto simp: list_all_iff)
  moreover have "mset quotes = mset (offered F now providers req)" using assms(1) by (simp add: q(1))
  ultimately show ?thesis using q(2,3) by simp
qed


section \<open>Execution\<close>

definition can_execute :: "'f LiquidityProvider list \<Rightarrow> 'f Quote \<Rightarrow> bool" where
  "can_execute providers q \<longleftrightarrow> Option.bind (providersByName providers (lq_Provider q)) pv_Execute \<noteq> None"

lemma execute_quotes_asks:
  assumes "execute_quotes F now providers req err asked quotes = (r, asked')"
  shows "case r of
      Inr (q, exec) \<Rightarrow> executionMatchesRequest F req exec \<and>
        (\<exists>before after. quotes = before @ q # after \<and> map fst asked' = map fst asked @ filter (can_execute providers) before @ [q])
    | Inl e \<Rightarrow> map fst asked' = map fst asked @ filter (can_execute providers) quotes \<and> (quotes \<noteq> [] \<or> err \<noteq> None \<longrightarrow> e \<noteq> None)"
  using assms
proof (induction quotes arbitrary: err asked)
  case (Cons q quotes)
  have some: "first_error err e \<noteq> None" for e by (simp add: first_error_def split: option.split)
  have later: "case r of
      Inr (q', exec) \<Rightarrow> executionMatchesRequest F req exec \<and>
        (\<exists>before after. q # quotes = before @ q' # after \<and> map fst asked' = map fst asked @ filter (can_execute providers) before @ [q'])
    | Inl e \<Rightarrow> map fst asked' = map fst asked @ filter (can_execute providers) (q # quotes) \<and> (q # quotes \<noteq> [] \<or> err \<noteq> None \<longrightarrow> e \<noteq> None)"
    if "execute_quotes F now providers req (first_error err e) asked1 quotes = (r, asked')"
      "map fst asked1 = map fst asked @ filter (can_execute providers) [q]" for e asked1
  proof (cases r)
    case (Inl e')
    then show ?thesis using Cons.IH [OF that(1)] that(2) some by auto
  next
    case (Inr p)
    note run = that(1)
    obtain q' exec where p: "p = (q', exec)" by (cases p)
    obtain before after where "quotes = before @ q' # after" "map fst asked' = map fst asked1 @ filter (can_execute providers) before @ [q']"
      "executionMatchesRequest F req exec"
      using Cons.IH [OF run] Inr p by auto
    then have "q # quotes = (q # before) @ q' # after" "map fst asked' = map fst asked @ filter (can_execute providers) (q # before) @ [q']"
      "executionMatchesRequest F req exec"
      using that(2) by auto
    then show ?thesis unfolding Inr p sum.case prod.case by blast
  qed
  show ?case
  proof (cases "Option.bind (providersByName providers (lq_Provider q)) pv_Execute")
    case None
    then have "execute_quotes F now providers req (first_error err (ErrNoExecutable (lq_Provider q))) asked quotes = (r, asked')"
      using Cons.prems by simp
    then show ?thesis by (rule later) (use None in \<open>simp add: can_execute_def\<close>)
  next
    case (Some execute)
    define reply where "reply = execute (length asked) (normalizeRequest now req) q"
    define asked1 where "asked1 = asked @ [(q, xr_delivers reply)]"
    have fst: "map fst asked1 = map fst asked @ filter (can_execute providers) [q]" using Some by (simp add: asked1_def can_execute_def)
    show ?thesis
    proof (cases "xr_result reply")
      case (Inl e)
      then have "execute_quotes F now providers req (first_error err (ProviderError e)) asked1 quotes = (r, asked')"
        using Cons.prems Some by (simp add: reply_def [symmetric] asked1_def Let_def)
      then show ?thesis by (rule later [OF _ fst])
    next
      case (Inr exec)
      define exec' where "exec' = (if trim_space (le_Provider exec) = [] then exec\<lparr>le_Provider := lq_Provider q\<rparr> else exec)"
      have r: "(if \<not> executionMatchesRequest F req exec'
          then execute_quotes F now providers req (first_error err ExecutionMismatch) asked1 quotes else (Inr (q, exec'), asked1)) = (r, asked')"
        using Cons.prems Some Inr by (simp add: reply_def [symmetric] asked1_def exec'_def Let_def split del: if_split cong: if_cong)
      show ?thesis
      proof (cases "executionMatchesRequest F req exec'")
        case True
        then have "r = Inr (q, exec')" "asked' = asked1" using r by simp_all
        moreover have "q # quotes = [] @ q # quotes \<and> map fst asked1 = map fst asked @ filter (can_execute providers) [] @ [q]"
          using fst Some by (simp add: can_execute_def)
        ultimately show ?thesis using True by (simp only: sum.case prod.case) blast
      next
        case False
        then have "execute_quotes F now providers req (first_error err ExecutionMismatch) asked1 quotes = (r, asked')" using r by simp
        then show ?thesis by (rule later [OF _ fst])
      qed
    qed
  qed
qed auto

text \<open>
  The providers that can execute are asked in the order of the quotes until one reports an execution
  that fits the request, and no further; that execution is returned. When the call fails, every one of
  them was asked.
\<close>

theorem router_asks_until_executed:
  assumes "BestQuote F now arrive providers req = Inr (best, quotes)"
  defines "r \<equiv> ExecuteBest F now arrive providers req"
  shows "rt_quotes r = quotes \<and>
    (case rt_result r of
       Inr exec \<Rightarrow> executionMatchesRequest F req exec \<and>
         (\<exists>q before after. rt_best r = Some q \<and> quotes = before @ q # after \<and> map fst (rt_asked r) = filter (can_execute providers) before @ [q])
     | Inl e \<Rightarrow> rt_best r = Some best \<and> map fst (rt_asked r) = filter (can_execute providers) quotes)"
proof -
  obtain x asked where x: "execute_quotes F now providers req None [] quotes = (x, asked)" by (cases "execute_quotes F now providers req None [] quotes")
  have "quotes \<noteq> []" using assms(1) by (auto simp: BestQuote_def split: list.splits)
  then show ?thesis using execute_quotes_asks [OF x] assms(1) x
    by (auto simp: r_def ExecuteBest_def split: sum.splits option.splits)
qed


section \<open>Two providers\<close>

text \<open>A request for 100 tokens, and providers that quote it at some cost and answer an execution in some way.\<close>

definition demo_request :: "int option Request" where
  "demo_request = \<lparr> lr_OrderID = ''o1'', lr_Asset = ''usdt'', lr_Network = ''bep20'', lr_TokenContract = ''0xt'', lr_TokenDecimals = 18, lr_FiatCurrency = [],
     lr_AmountBRL = Some 500, lr_CryptoAmount = Some 100, lr_QuoteLockedRate = Some 5, lr_DestAddress = ''0xd'', lr_CreatedAt = 5 \<rparr>"

definition demo_quote :: "int \<Rightarrow> int option Quote" where
  "demo_quote cost = \<lparr> lq_Provider = [], lq_ProviderType = ''otc'', lq_ExternalQuoteID = [], lq_Asset = [], lq_Network = [], lq_TokenContract = [],
     lq_TokenDecimals = 0, lq_DestAddress = [], lq_FiatCostBRL = Some cost, lq_ProviderFeeBRL = Some 0, lq_NetworkFeeBRL = Some 0, lq_SpreadBRL = Some 0,
     lq_TotalCostBRL = Some 0, lq_CryptoAmount = Some 0, lq_DeliverySLASeconds = 30, lq_ReliabilityBps = 0, lq_DirectDelivery = True, lq_ExpiresAt = 0 \<rparr>"

definition demo_execution :: "string \<Rightarrow> int option Execution" where
  "demo_execution dest = \<lparr> le_Provider = [], le_ExternalOrderID = ''x'', le_Status = ''sent'', le_TxHash = ''h'', le_Asset = [], le_Network = [],
     le_TokenContract = [], le_DestAddress = dest, le_DeliveredAmount = Some 100 \<rparr>"

definition demo_provider :: "string \<Rightarrow> int \<Rightarrow> int option exec_reply \<Rightarrow> int option LiquidityProvider" where
  "demo_provider nm cost reply = \<lparr> pv_Name = nm, pv_Quote = \<lambda>_. Inr (demo_quote cost), pv_Execute = Some (\<lambda>_ _ _. reply) \<rparr>"

abbreviation demo_route :: "int option LiquidityProvider list \<Rightarrow> int option routed" where
  "demo_route ps \<equiv> ExecuteBest (coarse_float (\<lambda>_. None)) 5 rev ps demo_request"

text \<open>
  A failed call is no evidence that nothing was delivered: when the cheapest provider delivers and its
  answer is lost, or names another address, the next one is asked to deliver the same order again; and
  when that one's answer is lost too the call fails after two deliveries.
\<close>

theorem router_repeats_delivery:
  "map snd (rt_asked (demo_route [demo_provider ''a'' 500 \<lparr> xr_delivers = True, xr_result = Inl ''timeout'' \<rparr>,
      demo_provider ''b'' 510 \<lparr> xr_delivers = True, xr_result = Inr (demo_execution ''0xd'') \<rparr>])) = [True, True] \<and>
   map snd (rt_asked (demo_route [demo_provider ''a'' 500 \<lparr> xr_delivers = True, xr_result = Inr (demo_execution ''0xe'') \<rparr>,
      demo_provider ''b'' 510 \<lparr> xr_delivers = True, xr_result = Inr (demo_execution ''0xd'') \<rparr>])) = [True, True] \<and>
   rt_result (demo_route [demo_provider ''a'' 500 \<lparr> xr_delivers = True, xr_result = Inl ''timeout'' \<rparr>,
      demo_provider ''b'' 510 \<lparr> xr_delivers = True, xr_result = Inl ''eof'' \<rparr>]) = Inl (ProviderError ''timeout'')"
  by code_simp

lemma coarse_scores_ordered:
  assumes "\<And>a. a \<in> Q \<Longrightarrow> \<exists>x. quoteScore (coarse_float p) a = Some x"
  shows "scores_ordered (coarse_float p) Q"
proof -
  have cmp: "f_le (coarse_float p) (Some x) (Some y) \<longleftrightarrow> x \<le> y" "f_lt (coarse_float p) (Some x) (Some y) \<longleftrightarrow> x < y" for x y
    by (simp_all add: coarse_float_def nan_rel_def)
  obtain s where s: "\<And>a. a \<in> Q \<Longrightarrow> quoteScore (coarse_float p) a = Some (s a)" using assms by metis
  show ?thesis unfolding scores_ordered_def by (auto simp: s cmp)
qed

theorem best_quote_cheapest_witness:
  "list_all (\<lambda>q. f_le (coarse_float (\<lambda>_. None)) (Some 500) (quoteScore (coarse_float (\<lambda>_. None)) q))
     (QuoteAll (coarse_float (\<lambda>_. None)) 5 rev [demo_provider ''a'' 510 \<lparr> xr_delivers = True, xr_result = Inl [] \<rparr>, demo_provider ''b'' 500 \<lparr> xr_delivers = True, xr_result = Inl [] \<rparr>] demo_request)"
proof -
  let ?F = "coarse_float (\<lambda>_. None)" and ?ps = "[demo_provider ''a'' 510 \<lparr> xr_delivers = True, xr_result = Inl [] \<rparr>, demo_provider ''b'' 500 \<lparr> xr_delivers = True, xr_result = Inl [] \<rparr>]"
  obtain best quotes where b: "BestQuote ?F 5 rev ?ps demo_request = Inr (best, quotes)" and q: "QuoteAll ?F 5 rev ?ps demo_request = quotes"
    and s: "quoteScore ?F best = Some 500"
  proof -
    have "(case QuoteAll ?F 5 rev ?ps demo_request of [] \<Rightarrow> False | q # qs \<Rightarrow> quoteScore ?F q = Some 500)" by code_simp
    then obtain q qs where "QuoteAll ?F 5 rev ?ps demo_request = q # qs" "quoteScore ?F q = Some 500" by (auto split: list.splits)
    then show thesis by (intro that [of q "q # qs"]) (simp_all add: BestQuote_def)
  qed
  have m: "map (quoteScore ?F) (offered ?F 5 ?ps demo_request) = [Some 510, Some 500]" by code_simp
  have "quoteScore ?F ` set (offered ?F 5 ?ps demo_request) = {Some 510, Some 500}" using arg_cong [OF m, of set] by (simp only: set_map list.set)
  then have "\<forall>a\<in>set (offered ?F 5 ?ps demo_request). quoteScore ?F a = Some 510 \<or> quoteScore ?F a = Some 500" by blast
  then have "scores_ordered ?F (set (offered ?F 5 ?ps demo_request))" by (intro coarse_scores_ordered) blast
  then show ?thesis using best_quote_cheapest [OF _ _ b] s q by simp
qed

theorem router_asks_until_executed_witness:
  "\<exists>best quotes. BestQuote (coarse_float (\<lambda>_. None)) 5 rev [demo_provider ''a'' 500 \<lparr> xr_delivers = True, xr_result = Inl ''eof'' \<rparr>] demo_request = Inr (best, quotes) \<and>
     rt_quotes (demo_route [demo_provider ''a'' 500 \<lparr> xr_delivers = True, xr_result = Inl ''eof'' \<rparr>]) = quotes"
proof -
  have "(case BestQuote (coarse_float (\<lambda>_. None)) 5 rev [demo_provider ''a'' 500 \<lparr> xr_delivers = True, xr_result = Inl ''eof'' \<rparr>] demo_request of Inl _ \<Rightarrow> False | Inr _ \<Rightarrow> True)"
    by code_simp
  then obtain best quotes where "BestQuote (coarse_float (\<lambda>_. None)) 5 rev [demo_provider ''a'' 500 \<lparr> xr_delivers = True, xr_result = Inl ''eof'' \<rparr>] demo_request = Inr (best, quotes)"
    by (auto split: sum.splits)
  then show ?thesis using router_asks_until_executed by blast
qed

end
