(* ===== verification/Buy_Send.thy ===== *)
theory Buy_Send
  imports Buy_Orders Liquidity_Router Settlement_Policy
begin

text \<open>
  The worker that delivers bought tokens: \<open>internal/workers/buysend.go\<close>, \<open>buy_liquidity.go\<close> and
  \<open>buy_hot_wallet_balance.go\<close>. A run claims an order, reads it, tries the providers of liquidity and falls
  back to a settlement by the signer. It is split at every statement and every call, so that runs,
  notifications and expiry interleave there; the tables of quotes and executions, which nothing reads
  back, are left out.
\<close>

section \<open>Pairs that can be delivered\<close>

record buy_config =
  bc_LiquidityRouterEnabled :: bool
  bc_LiquidityAllowedPairs :: string
  bc_LiquidityAllowedAssets :: string
  bc_LiquidityAllowedNetworks :: string
  bc_LiquidityHotWalletFirstAssets :: string
  bc_BscUsdtContract :: string
  bc_PolygonUsdtContract :: string
  bc_BaseUsdcContract :: string
  bc_ArbitrumUsdcContract :: string
  bc_EthereumUsdcContract :: string
  bc_SignerUrl :: string
  bc_SignerHmacSecret :: string
  bc_SignerNetwork :: string
  bc_BscTreasuryContract :: string
  bc_AllowSimulations :: bool
  bc_IsProduction :: bool

definition splitCSV :: "string \<Rightarrow> string list" where
  "splitCSV raw = filter (\<lambda>s. s \<noteq> []) (map trim_space (fields_func (\<lambda>r. r \<in> set '',; '' \<or> code r = 10 \<or> code r = 13 \<or> code r = 9) raw))"

definition parseProviderEntry :: "string \<Rightarrow> string \<times> string" where
  "parseProviderEntry entry =
     (let entry = trim_space entry in
      if entry = [] then ([], [])
      else case split_n2 CHR ''='' entry of
        (a, Some b) \<Rightarrow> (trim_space a, trim_space b)
      | (_, None) \<Rightarrow> (''provider'', entry))"

definition containsCSVFold :: "string \<Rightarrow> string \<Rightarrow> bool" where
  "containsCSVFold raw v =
     (let items = splitCSV raw in items = [] \<or> list_ex (\<lambda>item. to_upper (trim_space item) = to_upper (trim_space v)) items)"

definition containsStrictCSVFold :: "string \<Rightarrow> string \<Rightarrow> bool" where
  "containsStrictCSVFold raw v =
     (let v = to_upper (trim_space v) in v \<noteq> [] \<and> list_ex (\<lambda>item. to_upper (trim_space item) = v) (splitCSV raw))"

definition isNativeLiquidityPair :: "Pair \<Rightarrow> bool" where
  "isNativeLiquidityPair pair \<longleftrightarrow> IsNativeAsset (Asset pair) (Network pair) \<or> Asset pair = ''BTC'' \<and> Network pair = ''BITCOIN''"

definition all_hex :: "string \<Rightarrow> bool" where
  "all_hex s \<longleftrightarrow> list_all (\<lambda>c. hex_val c \<noteq> None) s"

definition looksLikeFixedHexAddressWorker :: "string \<Rightarrow> nat \<Rightarrow> bool" where
  "looksLikeFixedHexAddressWorker address hexLen =
     (let address = trim_space address in has_prefix address ''0x'' \<and> length address = hexLen + 2 \<and> all_hex (drop 2 address))"

definition looksLikeEVMContract :: "string \<Rightarrow> bool" where
  "looksLikeEVMContract address =
     (let address = trim_space address in length address = 42 \<and> has_prefix address ''0x'' \<and> all_hex (drop 2 address))"

definition looksLikeBase58AddressWorker :: "string \<Rightarrow> nat \<Rightarrow> nat \<Rightarrow> bool" where
  "looksLikeBase58AddressWorker address minLen maxLen \<longleftrightarrow>
     minLen \<le> length address \<and> length address \<le> maxLen \<and>
     list_all (\<lambda>c. c \<in> set ''123456789ABCDEFGHJKLMNPQRSTUVWXYZabcdefghijkmnopqrstuvwxyz'') address"

definition hydrate_contract :: "buy_config \<Rightarrow> Pair \<Rightarrow> Pair" where
  "hydrate_contract cfg pair =
     (if ContractAddress pair \<noteq> [] then pair
      else
        let k = Asset pair @ '':'' @ Network pair in
        if k = ''USDT:BSC'' then pair\<lparr>ContractAddress := trim_space (bc_BscUsdtContract cfg)\<rparr>
        else if k = ''USDT:POLYGON'' then
          pair\<lparr>ContractAddress := trim_space (bc_PolygonUsdtContract cfg), Decimals := (if Decimals pair = 18 then 6 else Decimals pair)\<rparr>
        else if k = ''USDC:BASE'' then pair\<lparr>ContractAddress := trim_space (bc_BaseUsdcContract cfg), Decimals := 6\<rparr>
        else if k = ''USDC:ARBITRUM'' then pair\<lparr>ContractAddress := trim_space (bc_ArbitrumUsdcContract cfg), Decimals := 6\<rparr>
        else if k = ''USDC:ETHEREUM'' then pair\<lparr>ContractAddress := trim_space (bc_EthereumUsdcContract cfg), Decimals := 6\<rparr>
        else pair)"

definition hydrateAndValidateLiquidityPair :: "buy_config \<Rightarrow> Pair \<Rightarrow> Pair option" where
  "hydrateAndValidateLiquidityPair cfg pair =
     (let pair = pair\<lparr>Asset := to_upper (trim_space (Asset pair)), Network := NormalizeNetwork (Network pair)\<rparr>;
          pair = (if Decimals pair \<le> 0 then pair\<lparr>Decimals := DefaultDecimals (Asset pair) (Network pair)\<rparr> else pair);
          pair = EnrichPair (hydrate_contract cfg pair) in
      if isNativeLiquidityPair pair then Some pair
      else if IsEVMNetwork (Network pair) then (if looksLikeEVMContract (ContractAddress pair) then Some pair else None)
      else if Network pair = ''SOLANA'' then (if looksLikeBase58AddressWorker (ContractAddress pair) 32 44 then Some pair else None)
      else if Network pair = ''APTOS'' then (if looksLikeFixedHexAddressWorker (ContractAddress pair) 64 then Some pair else None)
      else Some pair)"

definition resolveLiquidityPair :: "buy_config \<Rightarrow> string \<Rightarrow> string \<Rightarrow> Pair option" where
  "resolveLiquidityPair cfg asset network =
     (let policy = NewPairPolicy (bc_LiquidityAllowedPairs cfg) in
      if \<not> Empty policy then
        (case Resolve policy asset network of None \<Rightarrow> None | Some pair \<Rightarrow> hydrateAndValidateLiquidityPair cfg pair)
      else if \<not> containsCSVFold (bc_LiquidityAllowedAssets cfg) asset \<or> \<not> containsCSVFold (bc_LiquidityAllowedNetworks cfg) network then None
      else
        case ParsePair (to_upper (trim_space asset) @ '':'' @ to_upper (trim_space network)) of
          None \<Rightarrow> None
        | Some pair \<Rightarrow> hydrateAndValidateLiquidityPair cfg pair)"

definition signer_network :: "buy_config \<Rightarrow> string" where
  "signer_network cfg =
     (let n = to_upper (trim_space (bc_SignerNetwork cfg)) in if n \<in> {[], ''EVM'', ''BINANCE'', ''BEP20''} then ''BSC'' else n)"

definition hotWalletDeliverySupported :: "buy_config \<Rightarrow> Pair \<Rightarrow> bool" where
  "hotWalletDeliverySupported cfg pair0 =
     (let pair = EnrichPair pair0 in
      equal_fold (Asset pair) ''USDT'' \<and> equal_fold (Network pair) ''BSC'' \<and>
      to_upper (trim_space (Network pair)) = ''BSC'' \<and> signer_network cfg = ''BSC'')"

text \<open>The balance of the hot wallet is read from the chain; \<open>None\<close> is an error.\<close>

definition shouldUseLiquidityRouter :: "buy_config \<Rightarrow> bool option \<Rightarrow> string \<Rightarrow> Pair \<Rightarrow> bool" where
  "shouldUseLiquidityRouter cfg balance asset pair =
     (if \<not> containsStrictCSVFold (bc_LiquidityHotWalletFirstAssets cfg) asset then True
      else if \<not> hotWalletDeliverySupported cfg pair then True
      else case balance of None \<Rightarrow> True | Some hasBalance \<Rightarrow> \<not> hasBalance)"

section \<open>A run\<close>

text \<open>What the signer answers: nothing, a refusal, or a document with or without a transaction.\<close>

datatype settle_reply = SignerFails string | SignerStatus nat | SignerAccepts "string option"

text \<open>The world of one step of a run.\<close>

record 'f buy_world =
  w_now :: go_time
  w_st :: "nat \<Rightarrow> stmt"
  w_read_fails :: bool
  w_balance :: "bool option"
  w_providers :: "'f LiquidityProvider list"
  w_arrive :: "'f Quote list \<Rightarrow> 'f Quote list"
  w_policy_text :: "policy_error \<Rightarrow> string"
  w_signer :: settle_reply

text \<open>How a run ends: the state and the texts it writes, and the event it publishes if the write succeeds.\<close>

record buy_ending =
  be_status :: string
  be_extra :: buy_extra
  be_event :: "string option"

datatype 'f buy_phase =
    Claimed string
  | Loaded "'f BuyOrder"
  | Executed "'f BuyOrder" "'f Execution"
  | Unrouted "'f BuyOrder"
  | Ending string buy_ending
  | Done

record 'f buy_state =
  bs_db :: "'f buy_db"
  bs_bus :: "(string \<times> string) list"
  bs_deliveries :: "(string \<times> string \<times> bool) list"
  bs_requests :: "(string \<times> SettlementInstruction) list"

definition liquidity_request :: "Pair \<Rightarrow> 'f BuyOrder \<Rightarrow> 'f Request" where
  "liquidity_request pair buy =
     \<lparr> lr_OrderID = bo_ID buy, lr_Asset = Asset pair, lr_Network = Network pair, lr_TokenContract = ContractAddress pair,
       lr_TokenDecimals = Decimals pair, lr_FiatCurrency = bo_FiatCurrency buy, lr_AmountBRL = bo_PayoutBRL buy,
       lr_CryptoAmount = bo_CryptoAmount buy, lr_QuoteLockedRate = bo_RateLocked buy, lr_DestAddress = bo_DestAddress buy,
       lr_CreatedAt = bo_CreatedAt buy \<rparr>"

text \<open>The first part of \<open>tryLiquidityExecution\<close>, up to the answer of the router.\<close>

definition route_buy :: "'f float_ops \<Rightarrow> buy_config \<Rightarrow> 'f buy_world \<Rightarrow> 'f BuyOrder \<Rightarrow> 'f buy_state \<Rightarrow> 'f buy_phase \<times> 'f buy_state" where
  "route_buy F cfg w buy s =
     (if \<not> bc_LiquidityRouterEnabled cfg then (Unrouted buy, s)
      else case resolveLiquidityPair cfg (bo_Asset buy) (bo_Network buy) of
        None \<Rightarrow> (Unrouted buy, s)
      | Some pair \<Rightarrow>
          if \<not> shouldUseLiquidityRouter cfg (w_balance w) (bo_Asset buy) pair then (Unrouted buy, s)
          else
            let r = ExecuteBest F (w_now w) (w_arrive w) (w_providers w) (liquidity_request pair buy);
                s = s\<lparr>bs_deliveries := bs_deliveries s @ map (\<lambda>(q, d). (bo_ID buy, lq_Provider q, d)) (rt_asked r),
                      bs_db := (if rt_best r = None then bs_db s
                        else snd (AddBuyEvent (w_st w 0) (bo_ID buy) (''buy.liquidity.'' @ (case rt_result r of Inl _ \<Rightarrow> ''failed'' | Inr _ \<Rightarrow> ''attempted'')) (bs_db s)))\<rparr> in
            case rt_result r of
              Inl e \<Rightarrow> (Unrouted buy, s\<lparr>bs_db := snd (AddBuyEvent (w_st w 1) (bo_ID buy) ''buy.liquidity.fallback'' (bs_db s))\<rparr>)
            | Inr exec \<Rightarrow> (Executed buy exec, s))"

definition liquidity_ending :: "'f BuyOrder \<Rightarrow> 'f Execution \<Rightarrow> buy_ending" where
  "liquidity_ending buy exec =
     (let status = to_lower (trim_space (le_Status exec)); tx = trim_space (le_TxHash exec); accepted = ''liquidity-accepted-'' @ bo_ID buy in
      if status \<in> {''sent'', ''enviado'', ''delivered'', ''confirmed'', ''settled''} then
        \<lparr> be_status = ''enviado'',
          be_extra = no_buy_extra\<lparr>bx_txHashOut := (if tx \<noteq> [] then tx else if trim_space (le_ExternalOrderID exec) \<noteq> [] then trim_space (le_ExternalOrderID exec) else accepted)\<rparr>,
          be_event = Some ''buy.sent'' \<rparr>
      else
        \<lparr> be_status = ''pendente_confirmacao'', be_extra = no_buy_extra\<lparr>bx_txHashOut := (if tx \<noteq> [] then tx else accepted)\<rparr>,
          be_event = Some ''buy.pending_confirmation'' \<rparr>)"

definition write_ending :: "'f buy_world \<Rightarrow> string \<Rightarrow> buy_ending \<Rightarrow> 'f buy_state \<Rightarrow> bool \<times> 'f buy_state" where
  "write_ending w i e s =
     (case UpdateBuyOrderStatus (w_st w 0) (w_st w 1) (w_now w) i (be_status e) (be_extra e) (bs_db s) of
        (ok, db) \<Rightarrow> (ok, s\<lparr>bs_db := db, bs_bus := bs_bus s @ (case be_event e of Some ev \<Rightarrow> if ok then [(ev, i)] else [] | None \<Rightarrow> [])\<rparr>))"

definition failed_with :: "string \<Rightarrow> buy_ending" where
  "failed_with e = \<lparr> be_status = ''erro'', be_extra = no_buy_extra\<lparr>bx_error := e\<rparr>, be_event = None \<rparr>"

definition pending_with :: "string \<Rightarrow> buy_ending" where
  "pending_with e = \<lparr> be_status = ''pendente_confirmacao'', be_extra = no_buy_extra\<lparr>bx_error := e\<rparr>, be_event = None \<rparr>"

definition buy_policy :: "evm_lib \<Rightarrow> buy_config \<Rightarrow> int \<Rightarrow> policy_error + SettlementPolicyValidator" where
  "buy_policy lib cfg amountRaw =
     (case DefaultBSCUSDTSettlementPolicy lib (bc_BscTreasuryContract cfg) (bc_BscUsdtContract cfg) (Some 0) (Some 0) of
        Inl e \<Rightarrow> Inl e
      | Inr policy \<Rightarrow> NewSettlementPolicyValidator [policy\<lparr>sp_MaxTransferRaw := Some amountRaw, sp_DailyLimitRaw := Some (amountRaw * 1000)\<rparr>])"

definition buy_validation :: "evm_lib \<Rightarrow> buy_config \<Rightarrow> go_time \<Rightarrow> 'f BuyOrder \<Rightarrow> int \<Rightarrow> SettlementValidationInput" where
  "buy_validation lib cfg now buy amountRaw =
     \<lparr> vi_SettlementIntentID = ''buy-'' @ bo_ID buy, vi_OrderID = bo_ID buy, vi_Side = SideBuy, vi_Network = signer_network cfg,
       vi_ChainID = word_of_int (ChainID (signer_network cfg)), vi_Vault = HexToAddress lib (bc_BscTreasuryContract cfg),
       vi_Token = HexToAddress lib (bc_BscUsdtContract cfg), vi_Recipient = HexToAddress lib (bo_DestAddress buy),
       vi_AmountRaw = Some amountRaw, vi_SourceChannel = ''worker'', vi_RiskDecision = ''APPROVED'',
       vi_IntentStatus = StatusPaymentConfirmed, vi_QuoteCreatedAt = now - minute, vi_Now = 0, vi_OperationUsed = False,
       vi_TreasuryBalanceRaw = Some amountRaw, vi_DailySpentRaw = None \<rparr>"

text \<open>The instruction that the order is settled with, or how the run ends without one. \<open>fmt\<close> is \<open>FormatFloat\<close> with eight digits.\<close>

definition buy_instruction :: "evm_lib \<Rightarrow> ('f \<Rightarrow> string) \<Rightarrow> buy_config \<Rightarrow> 'f buy_world \<Rightarrow> 'f BuyOrder \<Rightarrow> buy_ending + SettlementInstruction" where
  "buy_instruction lib fmt cfg w buy =
     (if \<not> (case resolveLiquidityPair cfg (bo_Asset buy) (bo_Network buy) of None \<Rightarrow> False | Some pair \<Rightarrow> hotWalletDeliverySupported cfg pair) then
        Inl (failed_with ''par asset/network sem rota executavel: router indisponivel ou sem provider e hot wallet nao suporta o par'')
      else if bc_SignerUrl cfg = [] \<or> bc_SignerHmacSecret cfg = [] then
        Inl (if bc_AllowSimulations cfg \<and> \<not> bc_IsProduction cfg
             then \<lparr> be_status = ''enviado'', be_extra = no_buy_extra\<lparr>bx_txHashOut := ''buy-sim-'' @ bo_ID buy\<rparr>, be_event = Some ''buy.sent'' \<rparr>
             else failed_with ''SIGNER_URL ou SIGNER_HMAC_SECRET nao configurado'')
      else if signer_network cfg \<noteq> ''BSC'' then Inl (failed_with ''BUY settlement inicial permitido apenas em BSC'')
      else if trim_space (bc_BscTreasuryContract cfg) = [] \<or> trim_space (bc_BscUsdtContract cfg) = [] then
        Inl (failed_with ''BSC_TREASURY_CONTRACT e BSC_USDT_CONTRACT obrigatorios para settlement'')
      else case TokenAmountRaw (bo_Asset buy) (signer_network cfg) (fmt (bo_CryptoAmount buy)) of
        Inl _ \<Rightarrow> Inl (failed_with ''amount BUY invalido'')
      | Inr amountRaw \<Rightarrow>
          (case buy_policy lib cfg amountRaw of
             Inl e \<Rightarrow> Inl (failed_with (w_policy_text w e))
           | Inr validator \<Rightarrow>
               (case BuildInstruction lib (w_now w) (Some validator) (buy_validation lib cfg (w_now w) buy amountRaw) of
                  Inl e \<Rightarrow> Inl (failed_with (w_policy_text w e))
                | Inr instruction \<Rightarrow> Inr instruction)))"

definition signer_ending :: "string \<Rightarrow> settle_reply \<Rightarrow> buy_ending" where
  "signer_ending i reply =
     (case reply of
        SignerFails e \<Rightarrow> pending_with e
      | SignerStatus code' \<Rightarrow>
          if code' < 200 \<or> 300 \<le> code' then pending_with (''signer status '' @ nat_str code')
          else \<lparr> be_status = ''pendente_confirmacao'', be_extra = no_buy_extra\<lparr>bx_txHashOut := ''signer-accepted-'' @ i\<rparr>, be_event = Some ''buy.pending_confirmation'' \<rparr>
      | SignerAccepts tx \<Rightarrow>
          (let tx = (case tx of None \<Rightarrow> ''signer-accepted-'' @ i | Some t \<Rightarrow> if t = [] then ''signer-accepted-'' @ i else t) in
           if has_prefix tx ''signer-accepted-''
           then \<lparr> be_status = ''pendente_confirmacao'', be_extra = no_buy_extra\<lparr>bx_txHashOut := tx\<rparr>, be_event = Some ''buy.pending_confirmation'' \<rparr>
           else \<lparr> be_status = ''enviado'', be_extra = no_buy_extra\<lparr>bx_txHashOut := tx\<rparr>, be_event = Some ''buy.sent'' \<rparr>))"

definition send_buy :: "evm_lib \<Rightarrow> ('f \<Rightarrow> string) \<Rightarrow> buy_config \<Rightarrow> 'f buy_world \<Rightarrow> 'f BuyOrder \<Rightarrow> 'f buy_state \<Rightarrow> 'f buy_phase \<times> 'f buy_state" where
  "send_buy lib fmt cfg w buy s =
     (case buy_instruction lib fmt cfg w buy of
        Inl e \<Rightarrow> (Ending (bo_ID buy) e, s)
      | Inr instruction \<Rightarrow> (Ending (bo_ID buy) (signer_ending (bo_ID buy) (w_signer w)), s\<lparr>bs_requests := bs_requests s @ [(bo_ID buy, instruction)]\<rparr>))"

text \<open>One step of \<open>processBuyOnchainSend\<close> after the claim.\<close>

fun buy_advance :: "'f float_ops \<Rightarrow> evm_lib \<Rightarrow> ('f \<Rightarrow> string) \<Rightarrow> buy_config \<Rightarrow> 'f buy_world \<Rightarrow> 'f buy_phase \<Rightarrow> 'f buy_state \<Rightarrow> 'f buy_phase \<times> 'f buy_state" where
  "buy_advance F lib fmt cfg w (Claimed i) s =
     (if w_read_fails w then (Done, s) else case GetBuyOrder i (bs_db s) of None \<Rightarrow> (Done, s) | Some buy \<Rightarrow> (Loaded buy, s))"
| "buy_advance F lib fmt cfg w (Loaded buy) s = route_buy F cfg w buy s"
| "buy_advance F lib fmt cfg w (Executed buy exec) s =
     (case write_ending w (bo_ID buy) (liquidity_ending buy exec) s of (ok, s) \<Rightarrow> (if ok then Done else Unrouted buy, s))"
| "buy_advance F lib fmt cfg w (Unrouted buy) s = send_buy lib fmt cfg w buy s"
| "buy_advance F lib fmt cfg w (Ending i e) s = (Done, snd (write_ending w i e s))"
| "buy_advance F lib fmt cfg w Done s = (Done, s)"


section \<open>Histories\<close>

text \<open>
  The system in which payments, expiry and runs interleave. As history it keeps the notifications that
  credited an order, with an empty number for an order that is created paid, as the worker of recurring
  purchases does, and the claims.
\<close>

record 'f buy_sys =
  by_st :: "'f buy_state"
  by_runs :: "'f buy_phase list"
  by_credits :: "(string \<times> string) list"
  by_claims :: "string list"

datatype 'f buy_op =
    BuyCreate "'f BuyOrder"
  | BuyNotice stmt go_time buy_notice
  | BuyExpire stmt "nat \<Rightarrow> stmt" go_time
  | BuyClaim stmt go_time string
  | BuyAdvance nat "'f buy_world"

text \<open>Whether a notification credits: it is new, and it moves the order to a paid state.\<close>

definition notice_credits :: "stmt \<Rightarrow> buy_notice \<Rightarrow> 'f buy_db \<Rightarrow> bool" where
  "notice_credits st n db \<longleftrightarrow>
     st \<noteq> NotRun \<and> notice_valid n \<and> (notice_order n, notice_provider n) \<notin> set (bd_webhooks db) \<and> notice_status n \<in> set paid_states \<and>
     list_ex (\<lambda>b. bo_ID b = notice_order n \<and> webhook_applies (bo_Status b) (notice_status n)) (bd_orders db)"

fun buy_step :: "'f float_ops \<Rightarrow> evm_lib \<Rightarrow> ('f \<Rightarrow> string) \<Rightarrow> buy_config \<Rightarrow> 'f buy_sys \<Rightarrow> 'f buy_op \<Rightarrow> 'f buy_sys" where
  "buy_step F lib fmt cfg s (BuyCreate b) =
     (if GetBuyOrder (bo_ID b) (bs_db (by_st s)) \<noteq> None then s
      else s\<lparr>by_st := (by_st s)\<lparr>bs_db := (bs_db (by_st s))\<lparr>bd_orders := bd_orders (bs_db (by_st s)) @ [b]\<rparr>\<rparr>,
             by_credits := by_credits s @ (if bo_Status b \<in> set paid_states then [(bo_ID b, [])] else [])\<rparr>)"
| "buy_step F lib fmt cfg s (BuyNotice st now n) =
     (case handle_notice st now n (bs_db (by_st s)) of (pub, db) \<Rightarrow>
        s\<lparr>by_st := (by_st s)\<lparr>bs_db := db, bs_bus := bs_bus (by_st s) @ (if pub then [(''buy.paid'', notice_order n)] else [])\<rparr>,
          by_credits := by_credits s @ (if notice_credits st n (bs_db (by_st s)) then [(notice_order n, notice_provider n)] else [])\<rparr>)"
| "buy_step F lib fmt cfg s (BuyExpire st ev now) =
     s\<lparr>by_st := (by_st s)\<lparr>bs_db := snd (ExpireStaleBuyOrders st ev now (bs_db (by_st s)))\<rparr>\<rparr>"
| "buy_step F lib fmt cfg s (BuyClaim st now i) =
     (case ClaimBuyOrderForSend st now i (bs_db (by_st s)) of (r, db) \<Rightarrow>
        s\<lparr>by_st := (by_st s)\<lparr>bs_db := db\<rparr>, by_runs := by_runs s @ (if r = Some True then [Claimed i] else []),
          by_claims := by_claims s @ (if r = Some True then [i] else [])\<rparr>)"
| "buy_step F lib fmt cfg s (BuyAdvance k w) =
     (if k < length (by_runs s) then
        case buy_advance F lib fmt cfg w (by_runs s ! k) (by_st s) of (ph, st) \<Rightarrow> s\<lparr>by_st := st, by_runs := (by_runs s)[k := ph]\<rparr>
      else s)"

definition buy_start :: "'f buy_sys" where
  "buy_start = \<lparr> by_st = \<lparr> bs_db = \<lparr> bd_orders = [], bd_events = [], bd_webhooks = [] \<rparr>, bs_bus = [], bs_deliveries = [], bs_requests = [] \<rparr>,
     by_runs = [], by_credits = [], by_claims = [] \<rparr>"

section \<open>What no statement changes\<close>

text \<open>The columns that decide what is delivered, and to whom.\<close>

definition same_terms :: "'f BuyOrder \<Rightarrow> 'f BuyOrder \<Rightarrow> bool" where
  "same_terms b b' \<longleftrightarrow> bo_ID b' = bo_ID b \<and> bo_DestAddress b' = bo_DestAddress b \<and> bo_CryptoAmount b' = bo_CryptoAmount b \<and>
     bo_Asset b' = bo_Asset b \<and> bo_Network b' = bo_Network b"

text \<open>
  A change of the rows: it keeps the terms, and the orders it makes paid are among those that \<open>C\<close> allows.
\<close>

definition rows_change :: "(string \<Rightarrow> bool) \<Rightarrow> 'f buy_db \<Rightarrow> 'f buy_db \<Rightarrow> bool" where
  "rows_change C db db' \<longleftrightarrow>
     list_all2 (\<lambda>b b'. same_terms b b' \<and> (bo_Status b' \<in> set paid_states \<longrightarrow> bo_Status b \<in> set paid_states \<or> C (bo_ID b))) (bd_orders db) (bd_orders db')"

definition paid_rows :: "string \<Rightarrow> 'f buy_db \<Rightarrow> nat" where
  "paid_rows i db = length (filter (\<lambda>b. bo_ID b = i \<and> bo_Status b \<in> set paid_states) (bd_orders db))"

lemma same_terms_refl [simp]: "same_terms b b"
  by (simp add: same_terms_def)

lemma same_terms_trans: "same_terms a b \<Longrightarrow> same_terms b c \<Longrightarrow> same_terms a c"
  by (simp add: same_terms_def)

lemma same_terms_sym: "same_terms a b \<Longrightarrow> same_terms b a"
  by (simp add: same_terms_def)

lemma rows_change_orders: "bd_orders db' = bd_orders db \<Longrightarrow> rows_change C db db'"
  by (simp add: rows_change_def list_all2_refl)

lemma rows_change_refl [simp]: "rows_change C db db"
  by (simp add: rows_change_orders)

lemma rows_change_trans: "rows_change C a b \<Longrightarrow> rows_change C b c \<Longrightarrow> rows_change C a c"
  unfolding rows_change_def by (rule list_all2_trans) (auto simp: same_terms_def)

lemma rows_change_where:
  assumes "\<And>b. same_terms b (f b)" "\<And>b. P b \<Longrightarrow> bo_Status (f b) \<in> set paid_states \<Longrightarrow> C (bo_ID b)"
  shows "rows_change C db (buy_where P f db)"
  using assms by (auto simp: rows_change_def buy_where_def list_all2_map2 intro!: list_all2_refl)

lemma rows_change_paid: "rows_change C db db' \<Longrightarrow> \<not> C i \<Longrightarrow> paid_rows i db' \<le> paid_rows i db"
proof -
  assume "rows_change C db db'" "\<not> C i"
  have "list_all2 (\<lambda>b b'. same_terms b b' \<and> (bo_Status b' \<in> set paid_states \<longrightarrow> bo_Status b \<in> set paid_states \<or> C (bo_ID b))) xs ys \<Longrightarrow>
    length (filter (\<lambda>b. bo_ID b = i \<and> bo_Status b \<in> set paid_states) ys) \<le> length (filter (\<lambda>b. bo_ID b = i \<and> bo_Status b \<in> set paid_states) xs)"
    for xs ys :: "'a BuyOrder list"
    by (induction rule: list_all2_induct) (use \<open>\<not> C i\<close> in \<open>auto simp: same_terms_def\<close>)
  then show ?thesis using \<open>rows_change C db db'\<close> by (simp add: rows_change_def paid_rows_def)
qed

lemma rows_change_ids: "rows_change C db db' \<Longrightarrow> map bo_ID (bd_orders db') = map bo_ID (bd_orders db)"
proof -
  have "list_all2 (\<lambda>b b'. same_terms b b' \<and> Q b b') xs ys \<Longrightarrow> map bo_ID ys = map bo_ID xs" for xs ys :: "'a BuyOrder list" and Q
    by (induction rule: list_all2_induct) (auto simp: same_terms_def)
  then show "rows_change C db db' \<Longrightarrow> map bo_ID (bd_orders db') = map bo_ID (bd_orders db)" by (simp add: rows_change_def)
qed

lemma rows_change_row:
  assumes "rows_change C db db'" "b \<in> set (bd_orders db)"
  shows "\<exists>b'\<in>set (bd_orders db'). same_terms b b'"
proof -
  obtain k where "k < length (bd_orders db)" "bd_orders db ! k = b" using assms(2) by (auto simp: in_set_conv_nth)
  then have "k < length (bd_orders db')" "same_terms b (bd_orders db' ! k)"
    using assms(1) by (auto simp: rows_change_def list_all2_conv_all_nth)
  then show ?thesis using nth_mem by blast
qed

lemma AddBuyEvent_rows [simp]: "bd_orders (snd (AddBuyEvent st i e db)) = bd_orders db" "bd_webhooks (snd (AddBuyEvent st i e db)) = bd_webhooks db"
  by (simp_all add: AddBuyEvent_def split: stmt.split)

lemma rows_change_AddBuyEvent [simp]: "rows_change C db (snd (AddBuyEvent st i e db')) = rows_change C db db'"
  by (simp add: rows_change_def)

lemma buy_row_terms: "same_terms b (buy_row now status ux b)" "bo_Status (buy_row now status ux b) = status"
  by (simp_all add: buy_row_def same_terms_def)

lemma buy_where_webhooks [simp]: "bd_webhooks (buy_where P f db) = bd_webhooks db"
  by (simp add: buy_where_def)

lemma UpdateBuyOrderStatus_rows:
  assumes "status \<notin> set paid_states"
  shows "rows_change C db (snd (UpdateBuyOrderStatus st st' now i status ux db)) \<and>
    bd_webhooks (snd (UpdateBuyOrderStatus st st' now i status ux db)) = bd_webhooks db"
  using assms by (auto simp: UpdateBuyOrderStatus_def Let_def buy_row_terms intro!: rows_change_where)

lemma Claim_rows: "rows_change C db (snd (ClaimBuyOrderForSend st now i db)) \<and> bd_webhooks (snd (ClaimBuyOrderForSend st now i db)) = bd_webhooks db"
  by (auto simp: ClaimBuyOrderForSend_def Let_def same_terms_def paid_states_def intro!: rows_change_where split: stmt.split)

lemma Expire_rows: "rows_change C db (snd (ExpireStaleBuyOrders st ev now db)) \<and> bd_webhooks (snd (ExpireStaleBuyOrders st ev now db)) = bd_webhooks db"
proof -
  have f: "bd_orders (foldl (\<lambda>db (k, i). snd (AddBuyEvent (ev k) i t db)) db0 ks) = bd_orders db0 \<and>
    bd_webhooks (foldl (\<lambda>db (k, i). snd (AddBuyEvent (ev k) i t db)) db0 ks) = bd_webhooks db0" for t db0 ks
    by (induction ks arbitrary: db0) (auto split: prod.split)
  have "rows_change C db (buy_where (stale_buy now) (\<lambda>b. b\<lparr>bo_Status := ''expirado'', bo_Error := e, bo_UpdatedAt := now\<rparr>) db)" for e
    by (rule rows_change_where) (simp_all add: same_terms_def paid_states_def)
  then show ?thesis
    by (simp add: ExpireStaleBuyOrders_def Let_def f rows_change_orders split: stmt.split) (simp add: rows_change_def f)
qed

lemma handle_notice_rows:
  fixes db :: "'f buy_db" and st now n
  defines "db' \<equiv> snd (handle_notice st now n db)"
  shows "rows_change (\<lambda>i. i = notice_order n \<and> notice_credits st n db) db db'"
    and "set (bd_webhooks db) \<subseteq> set (bd_webhooks db')"
    and "notice_credits st n db \<Longrightarrow> (notice_order n, notice_provider n) \<in> set (bd_webhooks db')"
proof -
  let ?i = "notice_order n" and ?p = "notice_provider n" and ?P = "\<lambda>b. bo_ID b = notice_order n \<and> webhook_applies (bo_Status b) (notice_status n)"
  have p: "notice_valid n \<Longrightarrow> ?p \<noteq> []" by (cases n) auto
  have known: "list_ex ?P (bd_orders db) \<Longrightarrow> GetBuyOrder ?i db \<noteq> None" by (auto simp: GetBuyOrder_def find_None_iff list_ex_iff)
  have hit: "rows_change (\<lambda>i. i = ?i \<and> notice_credits st n db) db (buy_where ?P (buy_row now (notice_status n) ux) db1)"
    if "bd_orders db1 = bd_orders db" "st \<noteq> NotRun" "notice_valid n" "(?i, ?p) \<notin> set (bd_webhooks db)" "list_ex ?P (bd_orders db)" for ux db1
  proof -
    have "rows_change (\<lambda>i. i = ?i \<and> notice_credits st n db) db1 (buy_where ?P (buy_row now (notice_status n) ux) db1)"
      by (rule rows_change_where) (use that in \<open>auto simp: buy_row_terms notice_credits_def\<close>)
    then show ?thesis using that(1) by (simp add: rows_change_def)
  qed
  show "rows_change (\<lambda>i. i = ?i \<and> notice_credits st n db) db db'"
    unfolding db'_def handle_notice_def ApplyBuyProviderWebhook_def Let_def
    using hit p by (auto simp: rows_change_orders case_prod_beta) (auto simp: rows_change_def)
  show "set (bd_webhooks db) \<subseteq> set (bd_webhooks db')" "notice_credits st n db \<Longrightarrow> (?i, ?p) \<in> set (bd_webhooks db')"
    unfolding db'_def handle_notice_def ApplyBuyProviderWebhook_def Let_def
    using p known by (auto simp: case_prod_beta notice_credits_def)
qed


section \<open>What a request settles\<close>

definition settles :: "evm_lib \<Rightarrow> ('f \<Rightarrow> string) \<Rightarrow> buy_config \<Rightarrow> 'f BuyOrder \<Rightarrow> SettlementInstruction \<Rightarrow> bool" where
  "settles lib fmt cfg b r \<longleftrightarrow>
     si_Recipient r = HexToAddress lib (bo_DestAddress b) \<and> TokenAmountRaw (bo_Asset b) ''BSC'' (fmt (bo_CryptoAmount b)) = Inr (si_AmountRaw r) \<and>
     si_Vault r = HexToAddress lib (bc_BscTreasuryContract cfg) \<and> si_Token r = HexToAddress lib (bc_BscUsdtContract cfg) \<and> si_ChainID r = 56 \<and>
     SettlementOperationID lib 56 (AddressHex lib (si_Vault r)) (''buy-'' @ bo_ID b) (AddressHex lib (si_Token r)) (AddressHex lib (si_Recipient r))
       (Some (si_AmountRaw r)) = Inr (si_OperationID r)"

lemma settles_terms: "same_terms b b' \<Longrightarrow> settles lib fmt cfg b' r = settles lib fmt cfg b r"
  by (simp add: settles_def same_terms_def)

lemma bsc_normal: "normalizeNetwork ''BSC'' = ''BSC''"
  by code_simp

lemma buy_policy_Inr:
  assumes "buy_policy lib cfg a = Inr v"
  shows "\<exists>p. map_of v ''BSC'' = Some p \<and> sp_ChainID p = 56 \<and> sp_Vault p = HexToAddress lib (bc_BscTreasuryContract cfg) \<and>
    sp_MaxTransferRaw p = Some a \<and> sp_DailyLimitRaw p = Some (a * 1000)"
  using assms
  by (auto simp: buy_policy_def DefaultBSCUSDTSettlementPolicy_def NewSettlementPolicyValidator_def bsc_normal Let_def complete_policy_fields split: if_splits)

lemma buy_instruction_settles:
  assumes "buy_instruction lib fmt cfg w b = Inr r"
  shows "settles lib fmt cfg b r"
proof -
  have net: "signer_network cfg = ''BSC''" using assms unfolding buy_instruction_def by (auto split: if_splits)
  obtain a v where a: "TokenAmountRaw (bo_Asset b) (signer_network cfg) (fmt (bo_CryptoAmount b)) = Inr a" "buy_policy lib cfg a = Inr v"
    "BuildInstruction lib (w_now w) (Some v) (buy_validation lib cfg (w_now w) b a) = Inr r"
    using assms unfolding buy_instruction_def by (auto split: if_splits sum.splits)
  obtain q where q: "map_of v ''BSC'' = Some q" "sp_ChainID q = 56" "sp_Vault q = HexToAddress lib (bc_BscTreasuryContract cfg)"
    using buy_policy_Inr [OF a(2)] by blast
  obtain p now where p: "map_of v (normalizeNetwork (vi_Network (buy_validation lib cfg (w_now w) b a))) = Some p"
    "settlement_allowed p (buy_validation lib cfg (w_now w) b a) now (si_AmountRaw r)"
    "SettlementOperationID lib (sint (sp_ChainID p)) (AddressHex lib (sp_Vault p)) (vi_SettlementIntentID (buy_validation lib cfg (w_now w) b a))
       (AddressHex lib (si_Token r)) (AddressHex lib (si_Recipient r)) (Some (si_AmountRaw r)) = Inr (si_OperationID r)"
    "si_Vault r = sp_Vault p" "si_Token r = vi_Token (buy_validation lib cfg (w_now w) b a)"
    "si_Recipient r = vi_Recipient (buy_validation lib cfg (w_now w) b a)" "si_ChainID r = sp_ChainID p"
    by (rule BuildInstruction_Inr [OF a(3)])
  have "p = q" using p(1) q(1) net by (simp add: buy_validation_def bsc_normal)
  moreover have "si_AmountRaw r = a" using p(2) by (simp add: settlement_allowed_def buy_validation_def)
  ultimately show ?thesis using p q a(1) net by (simp add: settles_def buy_validation_def)
qed

section \<open>One claim for a payment, one request for a claim\<close>

fun phase_order :: "'f buy_phase \<Rightarrow> string option" where
  "phase_order (Claimed i) = Some i"
| "phase_order (Loaded b) = Some (bo_ID b)"
| "phase_order (Executed b e) = Some (bo_ID b)"
| "phase_order (Unrouted b) = Some (bo_ID b)"
| "phase_order _ = None"

definition live :: "string \<Rightarrow> 'f buy_phase list \<Rightarrow> nat" where
  "live i runs = count_list (map phase_order runs) (Some i)"

definition terms_known :: "'f buy_db \<Rightarrow> 'f BuyOrder \<Rightarrow> bool" where
  "terms_known db b \<longleftrightarrow> (\<exists>b'\<in>set (bd_orders db). same_terms b' b)"

fun phase_ok :: "'f buy_db \<Rightarrow> 'f buy_phase \<Rightarrow> bool" where
  "phase_ok db (Loaded b) = terms_known db b"
| "phase_ok db (Executed b e) = terms_known db b"
| "phase_ok db (Unrouted b) = terms_known db b"
| "phase_ok db (Ending i e) = (be_status e \<notin> set paid_states)"
| "phase_ok db _ = True"

definition request_ok :: "evm_lib \<Rightarrow> ('f \<Rightarrow> string) \<Rightarrow> buy_config \<Rightarrow> 'f buy_db \<Rightarrow> string \<times> SettlementInstruction \<Rightarrow> bool" where
  "request_ok lib fmt cfg db = (\<lambda>(i, r). \<exists>b\<in>set (bd_orders db). bo_ID b = i \<and> settles lib fmt cfg b r)"

definition buy_inv :: "evm_lib \<Rightarrow> ('f \<Rightarrow> string) \<Rightarrow> buy_config \<Rightarrow> 'f buy_sys \<Rightarrow> bool" where
  "buy_inv lib fmt cfg s \<longleftrightarrow>
     (\<forall>i. count_list (by_claims s) i + paid_rows i (bs_db (by_st s)) \<le> count_list (map fst (by_credits s)) i) \<and>
     distinct (by_credits s) \<and>
     (\<forall>c\<in>set (by_credits s). fst c \<in> bo_ID ` set (bd_orders (bs_db (by_st s))) \<and> (snd c = [] \<or> c \<in> set (bd_webhooks (bs_db (by_st s))))) \<and>
     distinct (map bo_ID (bd_orders (bs_db (by_st s)))) \<and>
     (\<forall>i. count_list (map fst (bs_requests (by_st s))) i + live i (by_runs s) \<le> count_list (by_claims s) i) \<and>
     list_all (phase_ok (bs_db (by_st s))) (by_runs s) \<and> list_all (request_ok lib fmt cfg (bs_db (by_st s))) (bs_requests (by_st s))"

lemma terms_known_mono: "rows_change C db db' \<Longrightarrow> terms_known db b \<Longrightarrow> terms_known db' b"
  unfolding terms_known_def using rows_change_row same_terms_sym same_terms_trans by metis

lemma phase_ok_mono: "rows_change C db db' \<Longrightarrow> phase_ok db ph \<Longrightarrow> phase_ok db' ph"
  by (cases ph) (auto intro: terms_known_mono)

lemma request_ok_mono: "rows_change C db db' \<Longrightarrow> request_ok lib fmt cfg db p \<Longrightarrow> request_ok lib fmt cfg db' p"
proof -
  assume c: "rows_change C db db'" and "request_ok lib fmt cfg db p"
  then obtain b where b: "b \<in> set (bd_orders db)" "bo_ID b = fst p" "settles lib fmt cfg b (snd p)" by (auto simp: request_ok_def)
  obtain b' where b': "b' \<in> set (bd_orders db')" "same_terms b b'" using rows_change_row [OF c b(1)] by blast
  have "bo_ID b' = fst p" "settles lib fmt cfg b' (snd p)" using b b'(2) settles_terms [OF b'(2)] by (simp_all add: same_terms_def)
  then have "\<exists>x\<in>set (bd_orders db'). bo_ID x = fst p \<and> settles lib fmt cfg x (snd p)" using b'(1) by blast
  then show ?thesis by (simp only: request_ok_def case_prod_beta)
qed

lemma rows_change_image: "rows_change C db db' \<Longrightarrow> bo_ID ` set (bd_orders db') = bo_ID ` set (bd_orders db)"
  using rows_change_ids [of C db db'] by (metis list.set_map)

text \<open>A step that credits and claims nothing.\<close>

lemma buy_inv_quiet:
  assumes "buy_inv lib fmt cfg s" "rows_change (\<lambda>_. False) (bs_db (by_st s)) (bs_db (by_st s'))"
    and "bd_webhooks (bs_db (by_st s')) = bd_webhooks (bs_db (by_st s))" "by_credits s' = by_credits s" "by_claims s' = by_claims s"
    and "\<And>i. count_list (map fst (bs_requests (by_st s'))) i + live i (by_runs s') \<le> count_list (map fst (bs_requests (by_st s))) i + live i (by_runs s)"
    and "list_all (phase_ok (bs_db (by_st s'))) (by_runs s')" "list_all (request_ok lib fmt cfg (bs_db (by_st s'))) (bs_requests (by_st s'))"
  shows "buy_inv lib fmt cfg s'"
proof -
  have inv: "count_list (by_claims s) i + paid_rows i (bs_db (by_st s)) \<le> count_list (map fst (by_credits s)) i"
    "count_list (map fst (bs_requests (by_st s))) i + live i (by_runs s) \<le> count_list (by_claims s) i" for i
    using assms(1) unfolding buy_inv_def by blast+
  have "count_list (by_claims s') i + paid_rows i (bs_db (by_st s')) \<le> count_list (map fst (by_credits s')) i" for i
    using inv(1) [of i] rows_change_paid [OF assms(2), of i] by (simp add: assms(4,5))
  moreover have "count_list (map fst (bs_requests (by_st s'))) i + live i (by_runs s') \<le> count_list (by_claims s') i" for i
    using inv(2) [of i] assms(6) [of i] by (simp add: assms(5))
  ultimately show ?thesis
    using assms(1,3,4,7,8) rows_change_image [OF assms(2)] rows_change_ids [OF assms(2)] unfolding buy_inv_def by simp
qed


lemma paid_rows_once: "distinct (map bo_ID (bd_orders db)) \<Longrightarrow> paid_rows i db \<le> 1"
proof -
  have "distinct (map bo_ID xs) \<Longrightarrow> length (filter (\<lambda>b. bo_ID b = i \<and> P b) xs) \<le> 1" for xs :: "'a BuyOrder list" and P
  proof (induction xs)
    case (Cons x xs)
    show ?case
    proof (cases "bo_ID x = i")
      case True
      then have "\<forall>b\<in>set xs. bo_ID b \<noteq> i" using Cons.prems by (auto simp: image_iff)
      then have "filter (\<lambda>b. bo_ID b = i \<and> P b) xs = []" by (simp add: filter_empty_conv)
      then show ?thesis by simp
    qed (use Cons in simp)
  qed simp
  then show "distinct (map bo_ID (bd_orders db)) \<Longrightarrow> paid_rows i db \<le> 1" by (simp add: paid_rows_def)
qed

lemma GetBuyOrder_known: "GetBuyOrder i db = Some b \<Longrightarrow> bo_ID b = i \<and> terms_known db b"
proof -
  assume "GetBuyOrder i db = Some b"
  then have "b \<in> set (bd_orders db)" "bo_ID b = i" by (auto simp: GetBuyOrder_def find_Some_iff)
  then show ?thesis unfolding terms_known_def by (metis same_terms_refl)
qed

lemma claim_takes:
  assumes "ClaimBuyOrderForSend st now i db = (Some True, db')"
  shows "paid_rows i db' = 0" "1 \<le> paid_rows i db"
proof -
  let ?P = "\<lambda>b. bo_ID b = i \<and> bo_Status b \<in> set paid_states"
  have db': "db' = buy_where ?P (\<lambda>b. b\<lparr>bo_Status := ''enviando'', bo_UpdatedAt := now\<rparr>) db" and ex: "list_ex ?P (bd_orders db)"
    using assms by (auto simp: ClaimBuyOrderForSend_def Let_def split: stmt.splits)
  have "''enviando'' \<notin> set paid_states" by (simp add: paid_states_def)
  then show "paid_rows i db' = 0" unfolding db' by (auto simp: paid_rows_def buy_where_def filter_empty_conv)
  have "filter ?P (bd_orders db) \<noteq> []" using ex by (auto simp: list_ex_iff filter_empty_conv)
  then show "1 \<le> paid_rows i db" by (simp add: paid_rows_def Suc_le_eq)
qed

text \<open>A step of a run: it keeps its order or ends, asks for a settlement at most once and then has no order left.\<close>

lemma write_ending_rows:
  assumes "be_status e \<notin> set paid_states"
  shows "rows_change C (bs_db s) (bs_db (snd (write_ending w i e s))) \<and> bd_webhooks (bs_db (snd (write_ending w i e s))) = bd_webhooks (bs_db s) \<and>
    bs_requests (snd (write_ending w i e s)) = bs_requests s"
  by (simp add: write_ending_def case_prod_beta UpdateBuyOrderStatus_rows [OF assms])

lemma endings_unpaid:
  "be_status (liquidity_ending b x) \<notin> set paid_states" "be_status (signer_ending i rep) \<notin> set paid_states"
  "buy_instruction lib fmt cfg w b = Inl e \<Longrightarrow> be_status e \<notin> set paid_states"
  by (auto simp: liquidity_ending_def signer_ending_def buy_instruction_def paid_states_def failed_with_def pending_with_def Let_def
      split: settle_reply.splits option.splits if_splits sum.splits)

lemma route_buy_rows:
  assumes "route_buy F cfg w b s = (ph, s')"
  shows "rows_change C (bs_db s) (bs_db s') \<and> bd_webhooks (bs_db s') = bd_webhooks (bs_db s) \<and> bs_requests s' = bs_requests s \<and>
    (ph = Unrouted b \<or> (\<exists>e. ph = Executed b e))"
  using assms by (auto simp: route_buy_def Let_def split: option.splits if_splits sum.splits)


lemma request_ok_new:
  assumes "terms_known db b" "buy_instruction lib fmt cfg w b = Inr r"
  shows "request_ok lib fmt cfg db (bo_ID b, r)"
proof -
  obtain b' where b': "b' \<in> set (bd_orders db)" "same_terms b' b" using assms(1) by (auto simp: terms_known_def)
  have "settles lib fmt cfg b' r" using buy_instruction_settles [OF assms(2)] settles_terms [OF b'(2)] by blast
  then show ?thesis using b' unfolding request_ok_def by (auto simp: same_terms_def)
qed

definition advance_ok :: "evm_lib \<Rightarrow> ('f \<Rightarrow> string) \<Rightarrow> buy_config \<Rightarrow> 'f buy_phase \<Rightarrow> 'f buy_state \<Rightarrow> 'f buy_phase \<Rightarrow> 'f buy_state \<Rightarrow> bool" where
  "advance_ok lib fmt cfg ph s ph' s' \<longleftrightarrow>
     rows_change (\<lambda>_. False) (bs_db s) (bs_db s') \<and> bd_webhooks (bs_db s') = bd_webhooks (bs_db s) \<and> phase_ok (bs_db s') ph' \<and>
     (\<exists>new. bs_requests s' = bs_requests s @ new \<and> list_all (request_ok lib fmt cfg (bs_db s')) new \<and>
       (\<forall>i. count_list (map fst new) i + (if phase_order ph' = Some i then 1 else 0) \<le> (if phase_order ph = Some i then 1 else 0)))"

lemma advance_quiet:
  assumes "rows_change (\<lambda>_. False) (bs_db s) (bs_db s')" "bd_webhooks (bs_db s') = bd_webhooks (bs_db s)" "phase_ok (bs_db s') ph'"
    and "bs_requests s' = bs_requests s" "phase_order ph' = phase_order ph \<or> phase_order ph' = None"
  shows "advance_ok lib fmt cfg ph s ph' s'"
  unfolding advance_ok_def using assms by (auto intro!: exI [of _ "[]"])

lemma buy_advance_ok:
  assumes "phase_ok (bs_db s) ph" "buy_advance F lib fmt cfg w ph s = (ph', s')"
  shows "advance_ok lib fmt cfg ph s ph' s'"
proof (cases ph)
  case (Claimed i)
  then show ?thesis using assms GetBuyOrder_known [of i "bs_db s"] by (auto split: if_splits option.splits intro!: advance_quiet)
next
  case (Loaded b)
  have r: "rows_change (\<lambda>_. False) (bs_db s) (bs_db s')" "bd_webhooks (bs_db s') = bd_webhooks (bs_db s)" "bs_requests s' = bs_requests s"
    "ph' = Unrouted b \<or> (\<exists>e. ph' = Executed b e)"
    using route_buy_rows [of F cfg w b s ph' s'] assms(2) Loaded by auto
  then show ?thesis using assms(1) Loaded by (intro advance_quiet) (auto intro: terms_known_mono)
next
  case (Executed b e)
  have s': "s' = snd (write_ending w (bo_ID b) (liquidity_ending b e) s)" "ph' = Done \<or> ph' = Unrouted b"
    using assms(2) Executed by (auto split: prod.splits if_splits)
  have r: "rows_change (\<lambda>_. False) (bs_db s) (bs_db s')" "bd_webhooks (bs_db s') = bd_webhooks (bs_db s)" "bs_requests s' = bs_requests s"
    unfolding s'(1) using write_ending_rows [OF endings_unpaid(1)] by blast+
  then show ?thesis using assms(1) Executed s'(2) by (intro advance_quiet) (auto intro: terms_known_mono)
next
  case (Unrouted b)
  show ?thesis
  proof (cases "buy_instruction lib fmt cfg w b")
    case (Inl e)
    then show ?thesis using assms(2) Unrouted endings_unpaid(3) [OF Inl] by (intro advance_quiet) (auto simp: send_buy_def)
  next
    case (Inr r)
    then have s': "s' = s\<lparr>bs_requests := bs_requests s @ [(bo_ID b, r)]\<rparr>" "ph' = Ending (bo_ID b) (signer_ending (bo_ID b) (w_signer w))"
      using assms(2) Unrouted by (auto simp: send_buy_def)
    then show ?thesis using request_ok_new [OF _ Inr] assms(1) Unrouted endings_unpaid(2) by (auto simp: advance_ok_def)
  qed
next
  case (Ending i e)
  have s': "s' = snd (write_ending w i e s)" "ph' = Done" using assms(2) Ending by auto
  have "rows_change (\<lambda>_. False) (bs_db s) (bs_db s')" "bd_webhooks (bs_db s') = bd_webhooks (bs_db s)" "bs_requests s' = bs_requests s"
    unfolding s'(1) using write_ending_rows [of e] assms(1) Ending by auto
  then show ?thesis using s'(2) by (intro advance_quiet) auto
qed (use assms in \<open>auto intro!: advance_quiet\<close>)

lemma advance_inv:
  assumes "buy_inv lib fmt cfg s"
  shows "buy_inv lib fmt cfg (buy_step F lib fmt cfg s (BuyAdvance k w))"
proof (cases "k < length (by_runs s)")
  case True
  obtain ph st where a: "buy_advance F lib fmt cfg w (by_runs s ! k) (by_st s) = (ph, st)" by (cases "buy_advance F lib fmt cfg w (by_runs s ! k) (by_st s)")
  have inv: "list_all (phase_ok (bs_db (by_st s))) (by_runs s)" "list_all (request_ok lib fmt cfg (bs_db (by_st s))) (bs_requests (by_st s))"
    using assms unfolding buy_inv_def by blast+
  have "phase_ok (bs_db (by_st s)) (by_runs s ! k)" using inv(1) True by (simp add: list_all_length)
  note ok = buy_advance_ok [OF this a]
  have rows: "rows_change (\<lambda>_. False) (bs_db (by_st s)) (bs_db st)" and web: "bd_webhooks (bs_db st) = bd_webhooks (bs_db (by_st s))" and ph: "phase_ok (bs_db st) ph"
    using ok unfolding advance_ok_def by blast+
  obtain new where new: "bs_requests st = bs_requests (by_st s) @ new" "list_all (request_ok lib fmt cfg (bs_db st)) new"
    "\<And>i. count_list (map fst new) i + (if phase_order ph = Some i then 1 else 0) \<le> (if phase_order (by_runs s ! k) = Some i then 1 else 0)"
    using ok unfolding advance_ok_def by blast
  define s' where "s' = s\<lparr>by_st := st, by_runs := (by_runs s)[k := ph]\<rparr>"
  have f: "by_st s' = st" "by_runs s' = (by_runs s)[k := ph]" "by_credits s' = by_credits s" "by_claims s' = by_claims s" by (simp_all add: s'_def)
  have "buy_inv lib fmt cfg s'"
  proof (rule buy_inv_quiet [OF assms])
    show "count_list (map fst (bs_requests (by_st s'))) i + live i (by_runs s') \<le> count_list (map fst (bs_requests (by_st s))) i + live i (by_runs s)" for i
      using new(3) [of i] count_list_update [of k "map phase_order (by_runs s)" "phase_order ph" "Some i"] True
      by (simp add: f new(1) live_def map_update split: if_splits)
    show "list_all (phase_ok (bs_db (by_st s'))) (by_runs s')" unfolding f list_all_iff
      using ph inv(1) phase_ok_mono [OF rows] set_update_subset_insert [of "by_runs s" k ph] by (auto simp: list_all_iff)
    show "list_all (request_ok lib fmt cfg (bs_db (by_st s'))) (bs_requests (by_st s'))" unfolding f new(1)
      using new(2) inv(2) request_ok_mono [OF rows] by (auto simp: list_all_iff)
  qed (simp_all add: f rows web)
  then show ?thesis using True a by (simp add: s'_def)
qed (use assms in simp)


lemma buy_claim_inv:
  assumes "buy_inv lib fmt cfg s"
  shows "buy_inv lib fmt cfg (buy_step F lib fmt cfg s (BuyClaim st now i))"
proof -
  obtain r db' where c: "ClaimBuyOrderForSend st now i (bs_db (by_st s)) = (r, db')" by (cases "ClaimBuyOrderForSend st now i (bs_db (by_st s))")
  have rows: "rows_change (\<lambda>_. False) (bs_db (by_st s)) db'" and web: "bd_webhooks db' = bd_webhooks (bs_db (by_st s))"
    using Claim_rows [of "\<lambda>_. False" "bs_db (by_st s)" st now i] c by simp_all
  have inv: "list_all (phase_ok (bs_db (by_st s))) (by_runs s)" "list_all (request_ok lib fmt cfg (bs_db (by_st s))) (bs_requests (by_st s))"
    "count_list (by_claims s) j + paid_rows j (bs_db (by_st s)) \<le> count_list (map fst (by_credits s)) j"
    "count_list (map fst (bs_requests (by_st s))) j + live j (by_runs s) \<le> count_list (by_claims s) j" for j
    using assms unfolding buy_inv_def by blast+
  have ok: "list_all (phase_ok db') (by_runs s)" "list_all (request_ok lib fmt cfg db') (bs_requests (by_st s))"
    using inv(1,2) phase_ok_mono [OF rows] request_ok_mono [OF rows] by (auto simp: list_all_iff)
  show ?thesis
  proof (cases "r = Some True")
    case True
    note takes = claim_takes [OF c [unfolded True]]
    have "count_list (by_claims s @ [i]) j + paid_rows j db' \<le> count_list (map fst (by_credits s)) j" for j
      using inv(3) [of j] takes rows_change_paid [OF rows, of j] by (cases "j = i") auto
    moreover have "count_list (map fst (bs_requests (by_st s))) j + live j (by_runs s @ [Claimed i]) \<le> count_list (by_claims s @ [i]) j" for j
      using inv(4) [of j] by (simp add: live_def)
    ultimately show ?thesis using assms ok rows_change_image [OF rows] rows_change_ids [OF rows] web c True unfolding buy_inv_def by simp
  next
    case False
    show ?thesis by (rule buy_inv_quiet [OF assms]) (use c False rows web ok in simp_all)
  qed
qed

lemma notice_inv:
  assumes "buy_inv lib fmt cfg s"
  shows "buy_inv lib fmt cfg (buy_step F lib fmt cfg s (BuyNotice st now n))"
proof -
  let ?db = "bs_db (by_st s)" and ?i = "notice_order n" and ?p = "notice_provider n" and ?c = "notice_credits st n (bs_db (by_st s))"
  obtain pub db' where h: "handle_notice st now n ?db = (pub, db')" by (cases "handle_notice st now n ?db")
  have rows: "rows_change (\<lambda>i. i = ?i \<and> ?c) ?db db'" and web: "set (bd_webhooks ?db) \<subseteq> set (bd_webhooks db')" "?c \<Longrightarrow> (?i, ?p) \<in> set (bd_webhooks db')"
    using handle_notice_rows [where st = st and n = n and now = now and db = ?db] h by simp_all
  have inv: "list_all (phase_ok ?db) (by_runs s)" "list_all (request_ok lib fmt cfg ?db) (bs_requests (by_st s))"
    "count_list (by_claims s) j + paid_rows j ?db \<le> count_list (map fst (by_credits s)) j"
    "count_list (map fst (bs_requests (by_st s))) j + live j (by_runs s) \<le> count_list (by_claims s) j"
    "distinct (by_credits s)" "\<forall>c\<in>set (by_credits s). fst c \<in> bo_ID ` set (bd_orders ?db) \<and> (snd c = [] \<or> c \<in> set (bd_webhooks ?db))"
    "distinct (map bo_ID (bd_orders ?db))" for j
    using assms unfolding buy_inv_def by blast+
  have ok: "list_all (phase_ok db') (by_runs s)" "list_all (request_ok lib fmt cfg db') (bs_requests (by_st s))"
    using inv(1,2) phase_ok_mono [OF rows] request_ok_mono [OF rows] by (auto simp: list_all_iff)
  have once: "paid_rows j db' \<le> 1" for j using paid_rows_once inv(7) rows_change_ids [OF rows] by metis
  define new where "new = (if ?c then [(?i, ?p)] else [])"
  have "count_list (by_claims s) j + paid_rows j db' \<le> count_list (map fst (by_credits s @ new)) j" for j
  proof (cases "j = ?i \<and> ?c")
    case True
    then show ?thesis using inv(3) [of j] once [of j] by (simp add: new_def)
  next
    case False
    then show ?thesis using inv(3) [of j] rows_change_paid [OF rows False] by simp
  qed
  moreover have "?c \<Longrightarrow> ?p \<noteq> [] \<and> (?i, ?p) \<notin> set (bd_webhooks ?db) \<and> ?i \<in> bo_ID ` set (bd_orders ?db)"
    by (cases n) (auto simp: notice_credits_def list_ex_iff)
  then have "distinct (by_credits s @ new)" "\<forall>c\<in>set (by_credits s @ new). fst c \<in> bo_ID ` set (bd_orders db') \<and> (snd c = [] \<or> c \<in> set (bd_webhooks db'))"
    using inv(5,6) web rows_change_image [OF rows] by (auto simp: new_def)
  ultimately show ?thesis using inv(4,7) ok rows_change_ids [OF rows] h unfolding buy_inv_def by (simp add: new_def)
qed

lemma create_buy_inv:
  assumes "buy_inv lib fmt cfg s"
  shows "buy_inv lib fmt cfg (buy_step F lib fmt cfg s (BuyCreate b))"
proof (cases "GetBuyOrder (bo_ID b) (bs_db (by_st s)) = None")
  case True
  let ?db = "bs_db (by_st s)" and ?db' = "(bs_db (by_st s))\<lparr>bd_orders := bd_orders (bs_db (by_st s)) @ [b]\<rparr>"
  have new: "bo_ID b \<notin> bo_ID ` set (bd_orders ?db)" using True by (auto simp: GetBuyOrder_def find_None_iff)
  have "paid_rows j ?db' = paid_rows j ?db + (if bo_ID b = j \<and> bo_Status b \<in> set paid_states then 1 else 0)" for j
    by (auto simp: paid_rows_def)
  moreover have "terms_known ?db x \<Longrightarrow> terms_known ?db' x" for x by (auto simp: terms_known_def)
  then have "phase_ok ?db ph \<Longrightarrow> phase_ok ?db' ph" for ph by (cases ph) auto
  moreover have "request_ok lib fmt cfg ?db p \<Longrightarrow> request_ok lib fmt cfg ?db' p" for p by (auto simp: request_ok_def)
  moreover have "(bo_ID b, []) \<notin> set (by_credits s)" using assms new unfolding buy_inv_def by fastforce
  ultimately show ?thesis using assms new True unfolding buy_inv_def list_all_iff by auto
qed (use assms in simp)

lemma buy_step_inv: "buy_inv lib fmt cfg s \<Longrightarrow> buy_inv lib fmt cfg (buy_step F lib fmt cfg s op)"
proof (cases op)
  case (BuyExpire st ev now)
  have rows: "rows_change (\<lambda>_. False) (bs_db (by_st s)) (snd (ExpireStaleBuyOrders st ev now (bs_db (by_st s))))" using Expire_rows by blast
  assume inv: "buy_inv lib fmt cfg s"
  then have "list_all (phase_ok (bs_db (by_st s))) (by_runs s)" "list_all (request_ok lib fmt cfg (bs_db (by_st s))) (bs_requests (by_st s))"
    unfolding buy_inv_def by blast+
  then show ?thesis using BuyExpire rows phase_ok_mono [OF rows] request_ok_mono [OF rows]
    by (intro buy_inv_quiet [OF inv]) (auto simp: list_all_iff Expire_rows)
qed (simp_all only: create_buy_inv notice_inv buy_claim_inv advance_inv)

lemma buy_start_inv: "buy_inv lib fmt cfg buy_start"
  by (simp add: buy_inv_def buy_start_def paid_rows_def live_def)

interpretation buys: transition_system "\<lambda>s. s = buy_start" "buy_step F lib fmt cfg" "\<lambda>_ _. True" "buy_inv lib fmt cfg"
  by unfold_locales (auto intro: buy_step_inv buy_start_inv)


section \<open>What the histories show\<close>

lemma single_valued_image: "(\<And>i r r'. (i, r) \<in> A \<Longrightarrow> (i, r') \<in> A \<Longrightarrow> f r = f r') \<Longrightarrow> single_valued ((\<lambda>(i, r). (i, f r)) ` A)"
  by (auto simp: single_valued_def)

text \<open>
  C8. In every interleaving of orders, notifications, expiry and runs, with statements and answers lost
  anywhere: no notification credits twice, an order is claimed at most once for each credit, a claim leads
  to at most one request to the signer, and every request pays the amount of its order to its address from
  the configured vault. All requests for an order have one operation identifier, which is the key that the
  signer pays at most once.
\<close>

theorem buy_settled_once_per_payment:
  fixes F lib fmt cfg ops
  defines "s \<equiv> foldl (buy_step F lib fmt cfg) buy_start ops"
  shows "distinct (by_credits s) \<and>
    (\<forall>i. count_list (by_claims s) i \<le> count_list (map fst (by_credits s)) i) \<and>
    (\<forall>i. count_list (map fst (bs_requests (by_st s))) i \<le> count_list (by_claims s) i) \<and>
    list_all (request_ok lib fmt cfg (bs_db (by_st s))) (bs_requests (by_st s)) \<and>
    single_valued ((\<lambda>(i, r). (i, si_OperationID r, si_Recipient r, si_AmountRaw r)) ` set (bs_requests (by_st s)))"
proof -
  have adm: "buys.admissible F lib fmt cfg t xs" for t xs by (induction xs arbitrary: t) (simp_all add: buys.admissible.simps)
  have "buy_inv lib fmt cfg s" using buys.run_init_inv [OF refl adm] by (simp add: buys.run_foldl s_def)
  then have inv: "distinct (by_credits s)" "count_list (by_claims s) i + paid_rows i (bs_db (by_st s)) \<le> count_list (map fst (by_credits s)) i"
    "count_list (map fst (bs_requests (by_st s))) i + live i (by_runs s) \<le> count_list (by_claims s) i"
    "list_all (request_ok lib fmt cfg (bs_db (by_st s))) (bs_requests (by_st s))" "distinct (map bo_ID (bd_orders (bs_db (by_st s))))" for i
    unfolding buy_inv_def by blast+
  define what where "what = (\<lambda>r :: SettlementInstruction. (si_OperationID r, si_Recipient r, si_AmountRaw r))"
  have "what r = what r'"
    if "(i, r) \<in> set (bs_requests (by_st s))" "(i, r') \<in> set (bs_requests (by_st s))" for i r r'
  proof -
    note reqs = that
    have "request_ok lib fmt cfg (bs_db (by_st s)) (i, r)" "request_ok lib fmt cfg (bs_db (by_st s)) (i, r')"
      using inv(4) reqs by (auto simp: list_all_iff)
    then obtain b b' where b: "b \<in> set (bd_orders (bs_db (by_st s)))" "b' \<in> set (bd_orders (bs_db (by_st s)))" "bo_ID b = i" "bo_ID b' = i"
      "settles lib fmt cfg b r" "settles lib fmt cfg b' r'"
      unfolding request_ok_def by auto
    have "inj_on bo_ID (set (bd_orders (bs_db (by_st s))))" using inv(5) by (simp add: distinct_map)
    then have "b' = b" using inj_onD b(1-4) by metis
    then show ?thesis using b(5,6) by (auto simp: settles_def what_def)
  qed
  then have "single_valued ((\<lambda>(i, r). (i, what r)) ` set (bs_requests (by_st s)))" by (rule single_valued_image)
  moreover have "count_list (by_claims s) i \<le> count_list (map fst (by_credits s)) i" "count_list (map fst (bs_requests (by_st s))) i \<le> count_list (by_claims s) i" for i
    using inv(2,3) [of i] by linarith+
  ultimately show ?thesis using inv(1,4) unfolding what_def by blast
qed

text \<open>
  An order that a run claimed and never finished is found by the recovery after a minute and cannot be
  claimed again: the claim wants a paid order and this one is being sent. So it is never delivered.
\<close>

theorem stale_sending_never_claimed:
  assumes "distinct (map bo_ID (bd_orders db))" "GetBuyOrder i db = Some b" "bo_Status b = ''enviando''" "bo_UpdatedAt b < now - 60 * second"
  shows "b \<in> set (ListPendingBuys now db) \<and> snd (ClaimBuyOrderForSend st now' i db) = db \<and> fst (ClaimBuyOrderForSend st now' i db) \<noteq> Some True"
proof -
  have b: "b \<in> set (bd_orders db)" "bo_ID b = i" using assms(2) by (auto simp: GetBuyOrder_def find_Some_iff)
  have inj: "inj_on bo_ID (set (bd_orders db))" using assms(1) by (simp add: distinct_map)
  have "''enviando'' \<notin> set paid_states" by (simp add: paid_states_def)
  then have "\<not> (bo_ID x = i \<and> bo_Status x \<in> set paid_states)" if "x \<in> set (bd_orders db)" for x
    using inj_onD [OF inj _ that b(1)] b(2) assms(3) by auto
  then have "map (\<lambda>x. if bo_ID x = i \<and> bo_Status x \<in> set paid_states then f x else x) (bd_orders db) = bd_orders db"
    "\<not> list_ex (\<lambda>x. bo_ID x = i \<and> bo_Status x \<in> set paid_states) (bd_orders db)" for f
    by (auto simp: list_ex_iff intro!: map_idI)
  then show ?thesis using b assms(3,4) by (auto simp: ListPendingBuys_def ClaimBuyOrderForSend_def buy_where_def Let_def split: stmt.split)
qed


definition own_policy :: "evm_lib \<Rightarrow> buy_config \<Rightarrow> int \<Rightarrow> SettlementPolicy" where
  "own_policy lib cfg a =
     \<lparr>sp_Version = ''settlement-policy-v1.0.0'', sp_NetworkPolicy = ''bsc-usdt-v1'', sp_RiskPolicy = ''retail-buy-v2'',
      sp_ContractVersion = ''treasury-v1.1.0'', sp_Network = ''BSC'', sp_ChainID = 56, sp_Vault = HexToAddress lib (bc_BscTreasuryContract cfg),
      sp_AllowedTokens = [(HexToAddress lib (bc_BscUsdtContract cfg), True)], sp_BlockedRecipients = [],
      sp_MaxTransferRaw = Some a, sp_DailyLimitRaw = Some (a * 1000), sp_RequireRiskApprove = True,
      sp_LiquidatableStates = [(StatusPaymentConfirmed, True), (StatusComplianceApproved, True), (StatusSettlementPending, True)],
      sp_QuoteMaxAge = 10 * minute, sp_InstructionTTL = 10 * minute\<rparr>"

lemma own_policy_validator: "buy_policy lib cfg a = Inr v \<Longrightarrow> v = [(''BSC'', own_policy lib cfg a)]"
  by (auto simp: buy_policy_def DefaultBSCUSDTSettlementPolicy_def NewSettlementPolicyValidator_def bsc_normal Let_def own_policy_def complete_policy_def
      duration_defs split: if_splits)

lemma own_policy_accepts:
  assumes "signer_network cfg = ''BSC''" "0 < a" "trim_space (bo_ID b) \<noteq> []" "minute < now"
  shows "policy_validate (own_policy lib cfg a) (buy_validation lib cfg now b a) now = Inr () \<longleftrightarrow> HexToAddress lib (bo_DestAddress b) \<noteq> 0"
proof -
  have "trim_space (''buy-'' @ bo_ID b) \<noteq> []" by (simp add: trim_space_def trim_both_def trim_left_def trim_right_def is_space_def)
  moreover have "ChainID ''BSC'' = 56" "normalizeRiskDecision ''APPROVED'' = ''APPROVED''" by code_simp+
  ultimately show ?thesis using assms
    by (simp add: policy_validate_def own_policy_def buy_validation_def bsc_normal map_bool_def limit_exceeded_def time_is_zero_def duration_defs Let_def)
qed

lemma own_policy_builds:
  assumes "buy_policy lib cfg a = Inr v" "signer_network cfg = ''BSC''" "0 < a" "trim_space (bo_ID b) \<noteq> []" "minute < now"
  shows "(\<exists>r. BuildInstruction lib now (Some v) (buy_validation lib cfg now b a) = Inr r) \<longleftrightarrow>
    HexToAddress lib (bo_DestAddress b) \<noteq> 0 \<and>
    (\<exists>h. SettlementOperationID lib 56 (AddressHex lib (HexToAddress lib (bc_BscTreasuryContract cfg))) (''buy-'' @ bo_ID b)
       (AddressHex lib (HexToAddress lib (bc_BscUsdtContract cfg))) (AddressHex lib (HexToAddress lib (bo_DestAddress b))) (Some a) = Inr h)"
proof -
  let ?p = "own_policy lib cfg a" and ?i = "buy_validation lib cfg now b a"
  have v: "map_of v (normalizeNetwork (vi_Network ?i)) = Some ?p" using own_policy_validator [OF assms(1)] assms(2) by (simp add: buy_validation_def bsc_normal)
  have now: "vi_Now ?i = 0" "vi_SettlementIntentID ?i = ''buy-'' @ bo_ID b" "vi_Token ?i = HexToAddress lib (bc_BscUsdtContract cfg)"
    "vi_Recipient ?i = HexToAddress lib (bo_DestAddress b)" "vi_AmountRaw ?i = Some a" "sp_Vault ?p = HexToAddress lib (bc_BscTreasuryContract cfg)"
    "sint (sp_ChainID ?p) = 56" by (simp_all add: buy_validation_def own_policy_def)
  show ?thesis
    unfolding BuildInstruction_def option.case v time_is_zero_def now(1) Let_def now(2-7)
    using own_policy_accepts [OF assms(2-5), of lib] by (auto split: sum.splits)
qed

text \<open>
  C25. The policy that the worker builds for an order takes its limits, the balance of the treasury, the risk
  decision and the age of the quote from the order itself: whatever the amount, the instruction is refused
  only when the recipient is the zero address or the identifier cannot be computed.
\<close>

theorem own_policy_checks_recipient_only:
  assumes "buy_policy lib cfg a = Inr v" "signer_network cfg = ''BSC''" "0 < a" "trim_space (bo_ID b) \<noteq> []" "minute < now"
  shows "(\<exists>r. BuildInstruction lib now (Some v) (buy_validation lib cfg now b a) = Inr r) \<longleftrightarrow>
    HexToAddress lib (bo_DestAddress b) \<noteq> 0 \<and>
    (\<exists>h. SettlementOperationID lib 56 (AddressHex lib (HexToAddress lib (bc_BscTreasuryContract cfg))) (''buy-'' @ bo_ID b)
       (AddressHex lib (HexToAddress lib (bc_BscUsdtContract cfg))) (AddressHex lib (HexToAddress lib (bo_DestAddress b))) (Some a) = Inr h)"
  using assms by (rule own_policy_builds)

section \<open>A delivery that is made twice\<close>

definition demo_buy :: "int option BuyOrder" where
  "demo_buy = \<lparr> bo_ID = ''o1'', bo_Status = ''aguardando_pix'', bo_FiatCurrency = ''BRL'', bo_PayoutBRL = Some 500, bo_CryptoAmount = Some 100,
     bo_Asset = ''USDT'', bo_Network = ''BSC'', bo_DestAddress = ''0xd'', bo_RateLocked = Some 5, bo_RateLockExpiresAt = 900,
     bo_ProviderPaymentID = None, bo_TxHashOut = None, bo_Error = None, bo_PaidAt = None, bo_SettledAt = None, bo_DeliveredAt = None,
     bo_CreatedAt = 1, bo_UpdatedAt = 1 \<rparr>"

definition demo_lib :: evm_lib where
  "demo_lib = \<lparr> IsHexAddress = (\<lambda>s. s \<noteq> []), HexToAddress = (\<lambda>s. of_nat (length s)), AddressHex = (\<lambda>a. replicate (unat a) CHR ''0''),
     HexToHash = (\<lambda>s. of_nat (length s)), Keccak256Hash = (\<lambda>b. of_nat (length b)), PackOperation = (\<lambda>c v i t r a. Some ''x'') \<rparr>"

definition demo_buy_config :: buy_config where
  "demo_buy_config = \<lparr> bc_LiquidityRouterEnabled = True, bc_LiquidityAllowedPairs = [], bc_LiquidityAllowedAssets = ''USDT'', bc_LiquidityAllowedNetworks = ''BSC'',
     bc_LiquidityHotWalletFirstAssets = [], bc_BscUsdtContract = ''0x'' @ replicate 40 CHR ''2'', bc_PolygonUsdtContract = [], bc_BaseUsdcContract = [],
     bc_ArbitrumUsdcContract = [], bc_EthereumUsdcContract = [], bc_SignerUrl = ''u'', bc_SignerHmacSecret = ''s'', bc_SignerNetwork = ''BSC'',
     bc_BscTreasuryContract = ''0x'' @ replicate 40 CHR ''1'', bc_AllowSimulations = False, bc_IsProduction = True \<rparr>"

definition demo_world :: "(nat \<Rightarrow> stmt) \<Rightarrow> int option exec_reply \<Rightarrow> int option buy_world" where
  "demo_world st reply = \<lparr> w_now = 20 * minute, w_st = st, w_read_fails = False, w_balance = None,
     w_providers = [demo_provider ''p'' 500 reply], w_arrive = (\<lambda>x. x), w_policy_text = (\<lambda>_. []), w_signer = SignerAccepts (Some ''h'') \<rparr>"

lemma demo_pair_ok: "(case resolveLiquidityPair demo_buy_config ''USDT'' ''BSC'' of None \<Rightarrow> False | Some pair \<Rightarrow> hotWalletDeliverySupported demo_buy_config pair)"
  by code_simp


lemma demo_instruction:
  assumes "bo_ID b = ''o1''" "bo_Asset b = ''USDT''" "bo_Network b = ''BSC''" "bo_DestAddress b = ''0xd''" "minute < w_now w"
  shows "\<exists>r. buy_instruction demo_lib (\<lambda>_. ''100.00000000'') demo_buy_config w b = Inr r"
proof -
  have net: "signer_network demo_buy_config = ''BSC''" by code_simp
  have cfg: "bc_SignerUrl demo_buy_config \<noteq> []" "bc_SignerHmacSecret demo_buy_config \<noteq> []" by (simp_all add: demo_buy_config_def)
  have trims: "trim_space (bc_BscTreasuryContract demo_buy_config) \<noteq> []" "trim_space (bc_BscUsdtContract demo_buy_config) \<noteq> []" "trim_space ''o1'' \<noteq> []" by code_simp+
  have d: "TokenDecimals ''USDT'' ''BSC'' = 18" by code_simp
  obtain a where a: "TokenAmountRaw ''USDT'' ''BSC'' ''100.00000000'' = Inr a" "0 < a"
    using decimalToRaw_digits [of "''100''" "''00000000''" 18] by (auto simp: TokenAmountRaw_def d is_digit_def digits_val_def)
  obtain v where v: "buy_policy demo_lib demo_buy_config a = Inr v"
    by (auto simp: buy_policy_def DefaultBSCUSDTSettlementPolicy_def NewSettlementPolicyValidator_def bsc_normal Let_def demo_lib_def demo_buy_config_def)
  have "\<exists>h. SettlementOperationID demo_lib 56 (AddressHex demo_lib (HexToAddress demo_lib (bc_BscTreasuryContract demo_buy_config))) (''buy-'' @ bo_ID b)
       (AddressHex demo_lib (HexToAddress demo_lib (bc_BscUsdtContract demo_buy_config))) (AddressHex demo_lib (HexToAddress demo_lib (bo_DestAddress b))) (Some a) = Inr h"
    using a(2) assms(1,4) by (simp add: SettlementOperationID_def demo_lib_def demo_buy_config_def)
  moreover have "HexToAddress demo_lib (bo_DestAddress b) \<noteq> 0" using assms(4) by (simp add: demo_lib_def)
  ultimately obtain r where r: "BuildInstruction demo_lib (w_now w) (Some v) (buy_validation demo_lib demo_buy_config (w_now w) b a) = Inr r"
    using own_policy_builds [OF v net a(2) _ assms(5), of b] trims(3) assms(1) by auto
  show ?thesis unfolding buy_instruction_def assms(2,3) net using demo_pair_ok cfg trims a(1) v r by simp
qed

text \<open>A run up to the report of a delivery by a provider.\<close>

definition demo_until_delivery :: "int option buy_op list" where
  "demo_until_delivery = (let w = demo_world (\<lambda>_. Run) \<lparr> xr_delivers = True, xr_result = Inr (demo_execution ''0xd'') \<rparr> in
     [BuyCreate demo_buy, BuyNotice Run 5 (PspNotice ''o1'' ''e1''), BuyClaim Run 6 ''o1'', BuyAdvance 0 w, BuyAdvance 0 w])"

abbreviation demo_buys :: "int option buy_op list \<Rightarrow> int option buy_sys" where
  "demo_buys ops \<equiv> foldl (buy_step (coarse_float (\<lambda>_. None)) demo_lib (\<lambda>_. ''100.00000000'') demo_buy_config) buy_start ops"

definition delivered_view :: "int option buy_sys \<Rightarrow> bool \<times> (string \<times> string \<times> bool) list \<times> (string \<times> SettlementInstruction) list" where
  "delivered_view s =
     (case by_runs s of [Executed b e] \<Rightarrow> bo_ID b = ''o1'' \<and> bo_Asset b = ''USDT'' \<and> bo_Network b = ''BSC'' \<and> bo_DestAddress b = ''0xd'' | _ \<Rightarrow> False,
      bs_deliveries (by_st s), bs_requests (by_st s))"

lemma demo_view: "delivered_view (demo_buys demo_until_delivery) = (True, [(''o1'', ''p'', True)], [])"
  by code_simp

lemma demo_delivered:
  "case by_runs (demo_buys demo_until_delivery) of
     [Executed b e] \<Rightarrow> bo_ID b = ''o1'' \<and> bo_Asset b = ''USDT'' \<and> bo_Network b = ''BSC'' \<and> bo_DestAddress b = ''0xd''
   | _ \<Rightarrow> False"
  "bs_deliveries (by_st (demo_buys demo_until_delivery)) = [(''o1'', ''p'', True)]" "bs_requests (by_st (demo_buys demo_until_delivery)) = []"
  using demo_view unfolding delivered_view_def prod.inject by (blast, blast, blast)



theorem stale_sending_never_claimed_witness:
  "snd (ClaimBuyOrderForSend Run 0 ''o1'' \<lparr> bd_orders = [demo_buy\<lparr>bo_Status := ''enviando''\<rparr>], bd_events = [], bd_webhooks = [] \<rparr>) =
     \<lparr> bd_orders = [demo_buy\<lparr>bo_Status := ''enviando''\<rparr>], bd_events = [], bd_webhooks = [] \<rparr>"
  using stale_sending_never_claimed [of "\<lparr> bd_orders = [demo_buy\<lparr>bo_Status := ''enviando''\<rparr>], bd_events = [], bd_webhooks = [] \<rparr>" "''o1''"
      "demo_buy\<lparr>bo_Status := ''enviando''\<rparr>" "2 * minute" Run 0]
  by (simp add: GetBuyOrder_def demo_buy_def duration_defs)

theorem own_policy_checks_recipient_only_witness:
  "\<exists>v r. buy_policy demo_lib demo_buy_config (10 ^ 40) = Inr v \<and>
     BuildInstruction demo_lib (2 * minute) (Some v) (buy_validation demo_lib demo_buy_config (2 * minute) demo_buy (10 ^ 40)) = Inr r"
proof -
  have net: "signer_network demo_buy_config = ''BSC''" "trim_space (bo_ID demo_buy) \<noteq> []" by code_simp+
  define a where "a = (10 :: int) ^ 40"
  have a: "0 < a" by (simp add: a_def)
  obtain v where v: "buy_policy demo_lib demo_buy_config a = Inr v"
    by (auto simp: buy_policy_def DefaultBSCUSDTSettlementPolicy_def NewSettlementPolicyValidator_def bsc_normal Let_def demo_lib_def demo_buy_config_def)
  have "minute < 2 * minute" by (simp add: duration_defs)
  then have "\<exists>r. BuildInstruction demo_lib (2 * minute) (Some v) (buy_validation demo_lib demo_buy_config (2 * minute) demo_buy a) = Inr r"
    using own_policy_checks_recipient_only [OF v net(1) a net(2), of "2 * minute"] a
    by (simp add: SettlementOperationID_def demo_lib_def demo_buy_config_def demo_buy_def)
  then show ?thesis using v unfolding a_def by blast
qed

end
