(* ===== verification/Spec2Isabelle.thy ===== *)
theory Spec2Isabelle
  imports Money Settlement_Policy Reconciliation Circuit_Breaker Rpc_Pool Nonce_Store Rate_Limit Penalty_Box
    Psp_Router Nfc_Protocol Base58 Bech32 Coin_Select Idempotency Liquidity_Pairs Signer_Gate Paymaster_Service
    Webhooks Sell_Payout Buy_Send
begin

text \<open>
  \<^bold>\<open>The ChainFX payment core.\<close> The program sells and buys tokens against PIX payments. A gateway
  (\<open>cmd/api\<close>, \<open>internal/\<close>) takes orders, prices them, follows payments and asks a separate signer
  (\<open>signer/\<close>) to move tokens out of a treasury vault. The signer holds the key; it checks every
  request again, reserves chain nonces, sends transactions through a fleet of RPC endpoints and stops
  when its custody guard sees an attack on a protected wallet.

  \<^bold>\<open>How the source is modelled.\<close> A Go struct is a record with the same fields, an enumeration a
  datatype, a function or method one function from arguments and state to result and state. Machine
  integers keep their width: \<open>int64\<close> as an integer with \<open>wrap64\<close> written out, unsigned types as
  words. Times and durations are nanoseconds. Strings are lists of characters, one per byte. An error
  is the left value of a sum. Maps are association lists where order matters. A method that
  holds a mutex is one step; where code runs concurrently the theorems are about every sequence of
  steps, and a handler is cut where it gives up control. Floating-point numbers are an argument
  (the record \<open>float_ops\<close> of \<open>Float_Ops\<close>) with the laws that a theorem needs as its hypotheses; so
  are the libraries the repository only calls: go-ethereum, SHA-256, HMAC, JSON, the database, the
  providers and the nodes, whose answers are arguments that range over everything.

  \<^bold>\<open>Theories and code.\<close>
  \<^item> \<open>Go_Base\<close>, \<open>Go_Strings\<close>, \<open>Evm_Types\<close>, \<open>Float_Ops\<close>: the prelude. Integers, maps, time, results and the
    locales \<open>transition_system\<close> (invariants of runs) and \<open>codec\<close> (encoders that can be undone); the
    functions of the packages \<open>strings\<close>, \<open>strconv\<close>, \<open>math/big\<close> and \<open>encoding/hex\<close> that the code uses.
  \<^item> \<open>Money\<close>: \<open>internal/money/money.go\<close>. Fixed-point amounts, rates, fees, printing and parsing.
  \<^item> \<open>Tx_Contracts\<close>: \<open>internal/transactions/contracts.go\<close> and \<open>amounts.go\<close>. The statuses of an order, raw
    amounts, the operation identifier that binds a payment and the contracts built from an order.
  \<^item> \<open>Settlement_Policy\<close>: \<open>internal/transactions/settlement_policy.go\<close>. What the gateway lets through to
    the signer, with the limits per transaction and per day.
  \<^item> \<open>Reconciliation\<close>: \<open>internal/settlement\<close>. A settlement against the receipt and the events of its
    transaction, and the mapping of PIX webhooks.
  \<^item> \<open>Circuit_Breaker\<close>: \<open>internal/resilience\<close>; \<open>Rpc_Pool\<close>: \<open>internal/rpc/pool.go\<close>, which uses it.
  \<^item> \<open>Nonce_Store\<close> and \<open>Rate_Limit\<close>: \<open>internal/security\<close>; \<open>Penalty_Box\<close>: \<open>internal/server/penaltybox.go\<close>.
  \<^item> \<open>Psp_Router\<close>: \<open>internal/psp/provider.go\<close>. The PIX providers with failover.
  \<^item> \<open>Idempotency\<close>: \<open>internal/mobile/idempotency.go\<close>. Handlers that run once per key.
  \<^item> \<open>Nfc_Protocol\<close>: \<open>internal/nfc\<close>. Signed tokens and the card applet.
  \<^item> \<open>Base58\<close>, \<open>Bech32\<close>, \<open>Coin_Select\<close>: \<open>internal/bitcoin\<close>. Addresses, scripts and coin selection.
  \<^item> \<open>Liquidity_Pairs\<close>: \<open>internal/liquidity/pairs.go\<close>.
  \<^item> \<open>Signer_Store\<close>: the in-memory store of \<open>signer/store.go\<close>, with the contract \<open>incident_store\<close> on which the
    guard relies; \<open>Custody_Guard\<close>: \<open>signer/custody_guard.go\<close>, proved over any such store;
    \<open>Rpc_Fleet\<close>: \<open>signer/rpc_fleet.go\<close>; \<open>Signer_Policy\<close>: \<open>signer/policy.go\<close> and the validation of \<open>signer/main.go\<close>;
    \<open>Signer_Service\<close>: the handlers and executors of \<open>signer/main.go\<close> over all of these;
    \<open>Signer_Run\<close>: the service under every interleaving of its handlers.

  \<^bold>\<open>What is shown.\<close> For the signer: a settlement sends nothing but the payout that its operation
  identifier binds, at most one request per idempotency key succeeds, nothing is sent during a
  lockdown, chain nonces strictly increase, and what the guard locks on. For the gateway: the limits
  of a day hold for every sequence of settlements, what the policy accepts, what reconciliation
  reports, that handlers run once per key, that requests are not replayed, that rates, bans,
  failover and breakers do what they promise. For the codecs: round trips, and that what is accepted
  is exactly what can be produced. Some theorems state what the code does against its intent; the
  manifest lists these findings.

  \<^bold>\<open>Loops.\<close> Every loop of the modelled code ends and is a total function; the measures are the lists
  they run over. The retry loops take the number of attempts from the configuration as the source does.

  \<^bold>\<open>Not modelled.\<close> Code that only moves data between HTTP, SQL and records (\<open>internal/server\<close>,
  \<open>internal/database\<close>, most of \<open>internal/mobile\<close>, \<open>internal/mcp\<close>): its behaviour is that of the
  database. Clients of external services, metrics, mail, configuration and the command-line tools. The
  Postgres and Redis variants of the stores, whose atomicity comes from the server.
\<close>

end
